(* ===== verification/Prelude.thy ===== *)
theory Prelude
  imports Main "HOL-Library.Word" "HOL-Library.AList"
begin

unbundle bit_operations_syntax

text \<open>
  Shared vocabulary of the development: the result type of C++ operations that can fail hard
  (a thrown \<open>std::out_of_range\<close>, a failed \<open>CHECK\<close>, a null dereference), byte strings, the
  search functions of \<open>string_view\<close> the sources call, and arithmetic lemmas that turn masks
  and shifts into \<open>div\<close> and \<open>mod\<close>.
\<close>

named_theorems mask_arith \<open>masks and shifts on nat as div and mod\<close>

section \<open>Hard failures\<close>

text \<open>
  The program is built without exceptions: a thrown \<open>std::out_of_range\<close> aborts the process, as a
  failed \<open>CHECK\<close> does. Both are values here.
\<close>

datatype cpp_error =
    OutOfRange     \<comment> \<open>\<open>string_view::substr\<close> past the end, \<open>vector\<close> index out of range\<close>
  | CheckFailed    \<comment> \<open>\<open>CHECK\<close> or \<open>ABSL_UNREACHABLE\<close>\<close>
  | DivideByZero   \<comment> \<open>\<open>/\<close> or \<open>%\<close> by zero\<close>
  | NullDeref      \<comment> \<open>dereference of a null or past-the-end pointer or iterator\<close>

type_synonym 'a res = "cpp_error + 'a"

definition res_bind :: "'a res \<Rightarrow> ('a \<Rightarrow> 'b res) \<Rightarrow> 'b res" where
  "res_bind r f = (case r of Inl e \<Rightarrow> Inl e | Inr x \<Rightarrow> f x)"

lemma res_bind_simps [simp]:
  "res_bind (Inl e) f = Inl e"
  "res_bind (Inr x) f = f x"
  by (simp_all add: res_bind_def)

lemma res_bind_Inr_iff: "res_bind r f = Inr y \<longleftrightarrow> (\<exists>x. r = Inr x \<and> f x = Inr y)"
  by (cases r) auto

lemma res_bind_InrE:
  assumes "res_bind r f = Inr y"
  obtains x where "r = Inr x" "f x = Inr y"
  using assms by (auto simp: res_bind_Inr_iff)

definition is_ok :: "'a res \<Rightarrow> bool" where
  "is_ok r = (case r of Inl _ \<Rightarrow> False | Inr _ \<Rightarrow> True)"

lemma is_ok_simps [simp]: "is_ok (Inr x)" "\<not> is_ok (Inl e)"
  by (simp_all add: is_ok_def)

lemma is_ok_iff: "is_ok r \<longleftrightarrow> (\<exists>x. r = Inr x)"
  by (cases r) auto

section \<open>Byte strings\<close>

text \<open>
  A \<open>std::string\<close> or \<open>absl::string_view\<close> is a list of bytes; HOL's \<open>char\<close> is the unsigned
  8-bit \<open>char\<close> the program is compiled with (\<open>-funsigned-char\<close>). A \<open>char32_t\<close> is a \<open>nat\<close>; where
  a value could reach \<open>2 ^ 32\<close> the theorems state the bound.
\<close>

type_synonym bytes = "char list"
type_synonym char32 = nat

definition byte :: "char \<Rightarrow> nat" where
  "byte c = of_char c"

lemma byte_lt [simp]: "byte c < 256"
  by (simp add: byte_def)

lemma byte_le [simp]: "byte c \<le> 255"
  using byte_lt [of c] by linarith

lemma char_of_byte [simp]: "char_of (byte c) = c"
  by (simp add: byte_def)

lemma byte_char_of [simp]: "byte (char_of (n::nat)) = n mod 256"
  by (simp add: byte_def)

lemma byte_inject [simp]: "byte c = byte d \<longleftrightarrow> c = d"
  by (metis char_of_byte)

lemma char_of_eq_iff: "n < 256 \<Longrightarrow> char_of n = c \<longleftrightarrow> n = byte c"
  by auto

text \<open>\<open>string_view::substr (pos)\<close> throws past the end; \<open>absl::ClippedSubstr\<close> clips.\<close>

definition substr_from :: "bytes \<Rightarrow> nat \<Rightarrow> bytes res" where
  "substr_from s pos = (if pos \<le> length s then Inr (drop pos s) else Inl OutOfRange)"

definition ClippedSubstr :: "bytes \<Rightarrow> nat \<Rightarrow> bytes" where
  "ClippedSubstr s pos = drop pos s"

text \<open>\<open>find (c, from)\<close> for a one-byte pattern: \<open>None\<close> is \<open>npos\<close>.\<close>

fun find_byte :: "char \<Rightarrow> bytes \<Rightarrow> nat option" where
  "find_byte c [] = None"
| "find_byte c (x # xs) = (if x = c then Some 0 else map_option Suc (find_byte c xs))"

definition find_byte_from :: "char \<Rightarrow> bytes \<Rightarrow> nat \<Rightarrow> nat option" where
  "find_byte_from c s from = map_option (\<lambda>i. from + i) (find_byte c (drop from s))"

lemma find_byte_None [simp]: "find_byte c s = None \<longleftrightarrow> c \<notin> set s"
  by (induction s) auto

lemma find_byte_SomeD:
  "find_byte c s = Some i \<Longrightarrow> i < length s \<and> s ! i = c \<and> c \<notin> set (take i s)"
  by (induction s arbitrary: i) (auto split: if_splits)

lemma find_byte_from_SomeD:
  assumes "find_byte_from c s from = Some i"
  shows "from \<le> i \<and> i < length s \<and> s ! i = c"
proof -
  from assms obtain j where j: "find_byte c (drop from s) = Some j" "i = from + j"
    by (auto simp: find_byte_from_def)
  from find_byte_SomeD [OF j(1)] j(2) show ?thesis
    by auto
qed

definition starts_with :: "bytes \<Rightarrow> bytes \<Rightarrow> bool" where
  "starts_with s p = (take (length p) s = p)"

lemma starts_with_iff: "starts_with s p \<longleftrightarrow> (\<exists>t. s = p @ t)"
  unfolding starts_with_def by (metis append_eq_conv_conj append_take_drop_id)

text \<open>\<open>absl::StrSplit (s, c, AllowEmpty())\<close>: one field more than there are separators.\<close>

fun StrSplit :: "char \<Rightarrow> bytes \<Rightarrow> bytes list" where
  "StrSplit c [] = [[]]"
| "StrSplit c (x # xs) =
     (if x = c then [] # StrSplit c xs
      else (case StrSplit c xs of [] \<Rightarrow> [[x]] | f # fs \<Rightarrow> (x # f) # fs))"

lemma StrSplit_neq_Nil [simp]: "StrSplit c s \<noteq> []"
  by (induction s) (auto split: list.splits)

lemma StrSplit_no_sep: "c \<notin> set s \<Longrightarrow> StrSplit c s = [s]"
  by (induction s) auto

lemma StrSplit_append:
  "c \<notin> set s \<Longrightarrow> StrSplit c (s @ c # t) = s # StrSplit c t"
  by (induction s) auto

lemma StrSplit_fields: "f \<in> set (StrSplit c s) \<Longrightarrow> c \<notin> set f"
proof (induction s arbitrary: f)
  case (Cons x xs)
  then show ?case
    by (auto split: if_splits list.splits)
qed simp

section \<open>Lists\<close>

lemma take_drop_Cons_append [simp]:
  assumes "n \<le> Suc (length cs)"
  shows "take n (c # cs @ t) = take n (c # cs)" and "drop n (c # cs @ t) = drop n (c # cs) @ t"
  using assms take_append [of n "c # cs" t] drop_append [of n "c # cs" t] by simp_all

section \<open>Masks and shifts on nat\<close>

lemma and_shifted_mask:
  "(x::nat) AND push_bit k (mask j) = push_bit k (take_bit j (drop_bit k x))"
  by (rule bit_eqI) (auto simp: bit_simps)

lemma nat_and_mask: "(n::nat) AND mask k = n mod 2 ^ k"
  by (simp add: take_bit_eq_mask [symmetric] take_bit_eq_mod)

lemma and_low [mask_arith]:
  "(n::nat) AND 0xFF = n mod 256" "n AND 0x3f = n mod 64" "n AND 0x1f = n mod 32"
  "n AND 0x0f = n mod 16" "n AND 0x07 = n mod 8" "n AND 0x03 = n mod 4" "n AND 0x01 = n mod 2"
  using nat_and_mask [of n 8] nat_and_mask [of n 6] nat_and_mask [of n 5] nat_and_mask [of n 4]
    nat_and_mask [of n 3] nat_and_mask [of n 2] nat_and_mask [of n 1]
  by (simp_all add: mask_eq_exp_minus_1)

lemma and_high:
  assumes "(n::nat) < 256" and "k \<le> 8"
  shows "n AND push_bit k (mask (8 - k)) = n div 2 ^ k * 2 ^ k"
proof -
  have "n div 2 ^ k < 2 ^ (8 - k)"
  proof -
    have "n < 2 ^ (8 - k) * 2 ^ k"
      using assms by (simp flip: power_add)
    then show ?thesis by (rule less_mult_imp_div_less)
  qed
  then show ?thesis
    unfolding and_shifted_mask by (simp add: push_bit_eq_mult drop_bit_eq_div take_bit_eq_mod)
qed

lemma and_high_eq:
  assumes n: "(n::nat) < 256"
  shows "n AND 0xc0 = 0x80 \<longleftrightarrow> 0x80 \<le> n \<and> n < 0xc0"
    and "n AND 0xe0 = 0xc0 \<longleftrightarrow> 0xc0 \<le> n \<and> n < 0xe0"
    and "n AND 0xf0 = 0xe0 \<longleftrightarrow> 0xe0 \<le> n \<and> n < 0xf0"
    and "n AND 0xf8 = 0xf0 \<longleftrightarrow> 0xf0 \<le> n \<and> n < 0xf8"
    and "n AND 0xfc = 0xf8 \<longleftrightarrow> 0xf8 \<le> n \<and> n < 0xfc"
    and "n AND 0xfe = 0xfc \<longleftrightarrow> 0xfc \<le> n \<and> n < 0xfe"
proof -
  have "n AND 0xc0 = n div 64 * 64" using and_high [OF n, of 6]
    by (simp add: mask_eq_exp_minus_1 push_bit_eq_mult)
  then show "n AND 0xc0 = 0x80 \<longleftrightarrow> 0x80 \<le> n \<and> n < 0xc0" by auto
  have "n AND 0xe0 = n div 32 * 32" using and_high [OF n, of 5]
    by (simp add: mask_eq_exp_minus_1 push_bit_eq_mult)
  then show "n AND 0xe0 = 0xc0 \<longleftrightarrow> 0xc0 \<le> n \<and> n < 0xe0" by auto
  have "n AND 0xf0 = n div 16 * 16" using and_high [OF n, of 4]
    by (simp add: mask_eq_exp_minus_1 push_bit_eq_mult)
  then show "n AND 0xf0 = 0xe0 \<longleftrightarrow> 0xe0 \<le> n \<and> n < 0xf0" by auto
  have "n AND 0xf8 = n div 8 * 8" using and_high [OF n, of 3]
    by (simp add: mask_eq_exp_minus_1 push_bit_eq_mult)
  then show "n AND 0xf8 = 0xf0 \<longleftrightarrow> 0xf0 \<le> n \<and> n < 0xf8" by auto
  have "n AND 0xfc = n div 4 * 4" using and_high [OF n, of 2]
    by (simp add: mask_eq_exp_minus_1 push_bit_eq_mult)
  then show "n AND 0xfc = 0xf8 \<longleftrightarrow> 0xf8 \<le> n \<and> n < 0xfc" by auto
  have "n AND 0xfe = n div 2 * 2" using and_high [OF n, of 1]
    by (simp add: mask_eq_exp_minus_1 push_bit_eq_mult)
  then show "n AND 0xfe = 0xfc \<longleftrightarrow> 0xfc \<le> n \<and> n < 0xfe" by auto
qed

declare push_bit_eq_mult [mask_arith] drop_bit_eq_div [mask_arith]

end
