(* ===== verification/Utf8.thy ===== *)
theory Utf8
  imports Prelude
begin

text \<open>
  UTF-8 as the program handles it. \<open>base/util.cc\<close> has the legacy codec over code points of up to
  31 bits (\<open>SplitFirstChar32\<close>, \<open>CodepointToUtf8\<close>) and the functions that walk a string by the
  length of the leading byte (\<open>CharsLen\<close>, \<open>Utf8SubString\<close>, \<open>PrefixCharsLen\<close>);
  \<open>base/strings/internal/utf8_internal.cc\<close> has the Unicode decoder behind \<open>LowerString\<close> and
  \<open>UpperString\<close>.

  A function with output parameters returns them in a tuple, with the values the code leaves in
  them when it reports failure.
\<close>

section \<open>The legacy codec of base/util.cc\<close>

definition IsUtf8TrailingByte :: "char \<Rightarrow> bool" where
  "IsUtf8TrailingByte c \<longleftrightarrow> (byte c AND 0xc0) = 0x80"

text \<open>The leading byte gives \<open>len\<close>, \<open>min_value\<close>, \<open>max_value\<close> and the first bits of the result.\<close>

definition utf8_lead :: "nat \<Rightarrow> (nat \<times> char32 \<times> char32 \<times> char32) option" where
  "utf8_lead b =
     (if (b AND 0xe0) = 0xc0 then Some (2, 0x0080, 0x07ff, b AND 0x1f)
      else if (b AND 0xf0) = 0xe0 then Some (3, 0x0800, 0xffff, b AND 0x0f)
      else if (b AND 0xf8) = 0xf0 then Some (4, 0x010000, 0x1fffff, b AND 0x07)
      else if (b AND 0xfc) = 0xf8 then Some (5, 0x0200000, 0x3ffffff, b AND 0x03)
      else if (b AND 0xfe) = 0xfc then Some (6, 0x4000000, 0x7fffffff, b AND 0x01)
      else None)"

text \<open>The loop over the trailing bytes: \<open>result <<= 6; result += (c & 0x3f)\<close>.\<close>

fun utf8_tail :: "bytes \<Rightarrow> char32 \<Rightarrow> char32 option" where
  "utf8_tail [] r = Some r"
| "utf8_tail (c # cs) r =
     (if IsUtf8TrailingByte c then utf8_tail cs (push_bit 6 r + (byte c AND 0x3f)) else None)"

definition SplitFirstChar32 :: "bytes \<Rightarrow> bool \<times> char32 \<times> bytes" where
  "SplitFirstChar32 s =
     (case s of
        [] \<Rightarrow> (False, 0, [])
      | b # bs \<Rightarrow>
          if byte b < 0x80 then (True, byte b, bs)
          else if IsUtf8TrailingByte b then (False, 0, [])
          else (case utf8_lead (byte b) of
                  None \<Rightarrow> (False, 0, [])
                | Some (len, min_value, max_value, r) \<Rightarrow>
                    if length s < len then (False, 0, [])
                    else (case utf8_tail (take (len - 1) bs) r of
                            None \<Rightarrow> (False, 0, [])
                          | Some v \<Rightarrow>
                              if v < min_value \<or> max_value < v then (False, 0, [])
                              else (True, v, drop len s))))"

text \<open>\<open>static_cast<char>\<close> keeps the low eight bits, as \<open>char_of\<close> does.\<close>

definition CodepointToUtf8 :: "char32 \<Rightarrow> bytes" where
  "CodepointToUtf8 c =
     (if c = 0 then []
      else if c < 0x00080 then [char_of (c AND 0xFF)]
      else if c < 0x00800 then
        [char_of (0xC0 + (drop_bit 6 c AND 0x1F)), char_of (0x80 + (c AND 0x3F))]
      else if c < 0x10000 then
        [char_of (0xE0 + (drop_bit 12 c AND 0x0F)), char_of (0x80 + (drop_bit 6 c AND 0x3F)),
         char_of (0x80 + (c AND 0x3F))]
      else if c < 0x200000 then
        [char_of (0xF0 + (drop_bit 18 c AND 0x07)), char_of (0x80 + (drop_bit 12 c AND 0x3F)),
         char_of (0x80 + (drop_bit 6 c AND 0x3F)), char_of (0x80 + (c AND 0x3F))]
      else if c < 0x8000000 then
        [char_of (0xF8 + (drop_bit 24 c AND 0x03)), char_of (0x80 + (drop_bit 18 c AND 0x3F)),
         char_of (0x80 + (drop_bit 12 c AND 0x3F)), char_of (0x80 + (drop_bit 6 c AND 0x3F)),
         char_of (0x80 + (c AND 0x3F))]
      else
        [char_of (0xFC + (drop_bit 30 c AND 0x01)), char_of (0x80 + (drop_bit 24 c AND 0x3F)),
         char_of (0x80 + (drop_bit 18 c AND 0x3F)), char_of (0x80 + (drop_bit 12 c AND 0x3F)),
         char_of (0x80 + (drop_bit 6 c AND 0x3F)), char_of (0x80 + (c AND 0x3F))])"

lemma IsUtf8TrailingByte_iff: "IsUtf8TrailingByte c \<longleftrightarrow> 0x80 \<le> byte c \<and> byte c < 0xc0"
  by (simp add: IsUtf8TrailingByte_def and_high_eq)

lemma utf8_lead_simps:
  assumes "b < 256"
  shows "utf8_lead b =
     (if b < 0xc0 then None
      else if b < 0xe0 then Some (2, 0x0080, 0x07ff, b mod 32)
      else if b < 0xf0 then Some (3, 0x0800, 0xffff, b mod 16)
      else if b < 0xf8 then Some (4, 0x010000, 0x1fffff, b mod 8)
      else if b < 0xfc then Some (5, 0x0200000, 0x3ffffff, b mod 4)
      else if b < 0xfe then Some (6, 0x4000000, 0x7fffffff, b mod 2)
      else None)"
  unfolding utf8_lead_def and_high_eq [OF assms] and_low by auto

lemma utf8_tail_Cons:
  "utf8_tail (c # cs) r =
     (if 0x80 \<le> byte c \<and> byte c < 0xc0 then utf8_tail cs (r * 64 + byte c mod 64) else None)"
  by (simp add: IsUtf8TrailingByte_iff mask_arith)

declare utf8_tail.simps(2) [simp del]

lemma SplitFirstChar32_Nil [simp]: "SplitFirstChar32 [] = (False, 0, [])"
  by (simp add: SplitFirstChar32_def)

lemma SplitFirstChar32_ascii: "byte b < 0x80 \<Longrightarrow> SplitFirstChar32 (b # bs) = (True, byte b, bs)"
  by (simp add: SplitFirstChar32_def)

lemma SplitFirstChar32_rest_shorter:
  assumes "s \<noteq> []" and "SplitFirstChar32 s = (ok, c, rest)"
  shows "length rest < length s"
  using assms
  by (auto simp: SplitFirstChar32_def neq_Nil_conv utf8_lead_simps
      split: if_splits option.splits prod.splits)

lemma SplitFirstChar32_False:
  "SplitFirstChar32 s = (False, c, rest) \<Longrightarrow> c = 0 \<and> rest = []"
  by (auto simp: SplitFirstChar32_def split: if_splits option.splits prod.splits list.splits)

text \<open>The result fits in 31 bits: the 32-bit accumulator never wraps.\<close>

lemma SplitFirstChar32_bound:
  "SplitFirstChar32 s = (ok, c, rest) \<Longrightarrow> c < 2 ^ 31"
  by (auto simp: SplitFirstChar32_def utf8_lead_simps
      split: if_splits option.splits prod.splits list.splits
      intro: order.strict_trans [OF byte_lt])

lemma CodepointToUtf8_arith:
  "CodepointToUtf8 c =
     (if c = 0 then []
      else if c < 0x80 then [char_of c]
      else if c < 0x800 then [char_of (192 + c div 64 mod 32), char_of (128 + c mod 64)]
      else if c < 0x10000 then
        [char_of (224 + c div 4096 mod 16), char_of (128 + c div 64 mod 64), char_of (128 + c mod 64)]
      else if c < 0x200000 then
        [char_of (240 + c div 262144 mod 8), char_of (128 + c div 4096 mod 64),
         char_of (128 + c div 64 mod 64), char_of (128 + c mod 64)]
      else if c < 0x8000000 then
        [char_of (248 + c div 16777216 mod 4), char_of (128 + c div 262144 mod 64),
         char_of (128 + c div 4096 mod 64), char_of (128 + c div 64 mod 64), char_of (128 + c mod 64)]
      else
        [char_of (252 + c div 1073741824 mod 2), char_of (128 + c div 16777216 mod 64),
         char_of (128 + c div 262144 mod 64), char_of (128 + c div 4096 mod 64),
         char_of (128 + c div 64 mod 64), char_of (128 + c mod 64)])"
  by (simp add: CodepointToUtf8_def mask_arith)

lemma div_64_chain:
  fixes c :: nat
  shows "c div 4096 = c div 64 div 64" "c div 262144 = c div 4096 div 64"
    and "c div 16777216 = c div 262144 div 64" "c div 1073741824 = c div 16777216 div 64"
  by (simp_all flip: div_mult2_eq)

lemma div_mod_chain:
  fixes c :: nat
  shows "(c div 64) * 64 + c mod 64 = c"
    and "(c div 4096) * 64 + c div 64 mod 64 = c div 64"
    and "(c div 262144) * 64 + c div 4096 mod 64 = c div 4096"
    and "(c div 16777216) * 64 + c div 262144 mod 64 = c div 262144"
    and "(c div 1073741824) * 64 + c div 16777216 mod 64 = c div 16777216"
  unfolding div_64_chain by (rule div_mult_mod_eq)+

lemma lead_low [simp]:
  fixes q :: nat
  shows "(192 + q) mod 32 = q mod 32" "(224 + q) mod 16 = q mod 16" "(240 + q) mod 8 = q mod 8"
    and "(248 + q) mod 4 = q mod 4" "(252 + q) mod 2 = q mod 2" "(128 + q) mod 64 = q mod 64"
  using mod_add_left_eq [of 192 32 q] mod_add_left_eq [of 224 16 q] mod_add_left_eq [of 240 8 q]
    mod_add_left_eq [of 248 4 q] mod_add_left_eq [of 252 2 q] mod_add_left_eq [of 128 64 q]
  by simp_all

lemma trailing_lt [simp]: "128 + x mod 64 < (256::nat)" "128 + x mod 64 < (192::nat)"
  using mod_less_divisor [of 64 x] by linarith+

lemma utf8_tail_enc [simp]:
  "utf8_tail (char_of (128 + x mod 64) # cs) r = utf8_tail cs (r * 64 + x mod (64::nat))"
  by (simp add: utf8_tail_Cons)

lemma SplitFirstChar32_encode:
  assumes "0 < c" and "c < 0x80000000" and "c < 0x4000000 \<or> 0x8000000 \<le> c"
  shows "SplitFirstChar32 (CodepointToUtf8 c @ rest) = (True, c, rest)"
proof -
  consider "c < 0x80" | "0x80 \<le> c" "c < 0x800" | "0x800 \<le> c" "c < 0x10000"
    | "0x10000 \<le> c" "c < 0x200000" | "0x200000 \<le> c" "c < 0x4000000"
    | "0x8000000 \<le> c" "c < 0x80000000"
    using assms by linarith
  then show ?thesis
  proof cases
    case 1
    with assms show ?thesis
      by (simp add: CodepointToUtf8_arith SplitFirstChar32_def)
  next
    case 2
    then have "c div 64 mod 32 = c div 64" "c div 64 < 32" by auto
    with 2 show ?thesis
      by (simp add: CodepointToUtf8_arith SplitFirstChar32_def IsUtf8TrailingByte_iff
          utf8_lead_simps div_mod_chain)
  next
    case 3
    then have "c div 4096 mod 16 = c div 4096" "c div 4096 < 16" by auto
    with 3 show ?thesis
      by (simp add: CodepointToUtf8_arith SplitFirstChar32_def IsUtf8TrailingByte_iff
          utf8_lead_simps div_mod_chain)
  next
    case 4
    then have "c div 262144 mod 8 = c div 262144" "c div 262144 < 8" by auto
    with 4 show ?thesis
      by (simp add: CodepointToUtf8_arith SplitFirstChar32_def IsUtf8TrailingByte_iff
          utf8_lead_simps div_mod_chain)
  next
    case 5
    then have "c div 16777216 mod 4 = c div 16777216" "c div 16777216 < 4" by auto
    with 5 show ?thesis
      by (simp add: CodepointToUtf8_arith SplitFirstChar32_def IsUtf8TrailingByte_iff
          utf8_lead_simps div_mod_chain)
  next
    case 6
    then have "c div 1073741824 mod 2 = c div 1073741824" "c div 1073741824 < 2" by auto
    with 6 show ?thesis
      by (simp add: CodepointToUtf8_arith SplitFirstChar32_def IsUtf8TrailingByte_iff
          utf8_lead_simps div_mod_chain)
  qed
qed

lemma add_div_shift:
  fixes v :: nat
  shows "(67108864 + v) div 16777216 = 4 + v div 16777216"
    and "(67108864 + v) div 262144 = 256 + v div 262144"
    and "(67108864 + v) div 4096 = 16384 + v div 4096"
    and "(67108864 + v) div 64 = 1048576 + v div 64"
  using div_mult_self1 [of "16777216::nat" v 4] div_mult_self1 [of "262144::nat" v 256]
    div_mult_self1 [of "4096::nat" v 16384] div_mult_self1 [of "64::nat" v 1048576]
  by (simp_all only: add.commute [of v] add.commute [of _ "v div _"])

lemma add_mod_shift:
  fixes y :: nat
  shows "(4 + y) mod 4 = y mod 4" "(256 + y) mod 64 = y mod 64" "(16384 + y) mod 64 = y mod 64"
    and "(1048576 + y) mod 64 = y mod 64" "(67108864 + y) mod 64 = y mod 64"
  using mod_add_left_eq [of 4 4 y] mod_add_left_eq [of 256 64 y] mod_add_left_eq [of 16384 64 y]
   mod_add_left_eq [of 1048576 64 y] mod_add_left_eq [of 67108864 64 y]
  by simp_all

lemma CodepointToUtf8_gap:
  assumes "v < 0x4000000"
  shows "SplitFirstChar32 (CodepointToUtf8 (0x4000000 + v) @ rest) =
    (if v < 0x200000 then (False, 0, []) else (True, v, rest))"
proof -
  have q: "v div 16777216 mod 4 = v div 16777216" "v div 16777216 < 4"
    using assms by auto
  then show ?thesis
    using assms by (simp add: CodepointToUtf8_arith add_div_shift add_mod_shift
        SplitFirstChar32_def IsUtf8TrailingByte_iff utf8_lead_simps div_mod_chain)
qed

lemma byte_shift:
  assumes "k \<le> byte b" "byte b < k + m" "m dvd k"
  shows "k + byte b mod m = byte b"
proof -
  obtain y where "byte b = k + y" using assms(1) le_Suc_ex by blast
  with assms(2,3) show ?thesis by (auto elim!: dvdE)
qed

lemma mult_add_mod_div:
  fixes r :: nat
  shows "(r * 64 + y mod 64) div 64 = r" "(r * 64 + y mod 64) mod 64 = y mod 64"
  by simp_all


fun tail_bytes :: "nat \<Rightarrow> char32 \<Rightarrow> bytes" where
  "tail_bytes 0 v = []"
| "tail_bytes (Suc k) v = tail_bytes k (v div 64) @ [char_of (128 + v mod 64)]"

lemma utf8_tail_append:
  "utf8_tail (cs @ ds) r = Option.bind (utf8_tail cs r) (utf8_tail ds)"
  by (induction cs arbitrary: r) (auto simp: utf8_tail_Cons)

lemma utf8_tail_tail_bytes:
  "utf8_tail cs r = Some v \<Longrightarrow> cs = tail_bytes (length cs) v \<and> v div 64 ^ length cs = r"
proof (induction cs arbitrary: v rule: rev_induct)
  case (snoc c cs)
  then obtain w where w: "utf8_tail cs r = Some w" "0x80 \<le> byte c" "byte c < 0xc0"
      "v = w * 64 + byte c mod 64"
    by (auto simp: utf8_tail_append utf8_tail_Cons bind_eq_Some_conv split: if_splits)
  then have "v div 64 = w" "v mod 64 = byte c mod 64" by auto
  moreover have "c = char_of (128 + byte c mod 64)"
    using byte_shift [of 128 c 64] w by simp
  ultimately show ?case
    using snoc.IH [OF w(1)] by (simp add: div_mult2_eq)
qed simp

lemma take_eq_append_drop: "take n s = t \<Longrightarrow> s = t @ drop n s"
  by auto

lemma tail_bytes_numeral:
  "tail_bytes (Suc 0) v = [char_of (128 + v mod 64)]"
  "tail_bytes 2 v = [char_of (128 + v div 64 mod 64), char_of (128 + v mod 64)]"
  "tail_bytes 3 v = [char_of (128 + v div 4096 mod 64), char_of (128 + v div 64 mod 64),
     char_of (128 + v mod 64)]"
  "tail_bytes 4 v = [char_of (128 + v div 262144 mod 64), char_of (128 + v div 4096 mod 64),
     char_of (128 + v div 64 mod 64), char_of (128 + v mod 64)]"
  "tail_bytes 5 v = [char_of (128 + v div 16777216 mod 64), char_of (128 + v div 262144 mod 64),
     char_of (128 + v div 4096 mod 64), char_of (128 + v div 64 mod 64), char_of (128 + v mod 64)]"
proof -
  have n: "5 = Suc 4" "4 = Suc 3" "3 = Suc 2" "2 = Suc (Suc 0)" by simp_all
  show "tail_bytes (Suc 0) v = [char_of (128 + v mod 64)]" by simp
  show "tail_bytes 2 v = [char_of (128 + v div 64 mod 64), char_of (128 + v mod 64)]"
    unfolding n by simp
  show "tail_bytes 3 v = [char_of (128 + v div 4096 mod 64), char_of (128 + v div 64 mod 64),
     char_of (128 + v mod 64)]"
    unfolding n div_64_chain by simp
  show "tail_bytes 4 v = [char_of (128 + v div 262144 mod 64), char_of (128 + v div 4096 mod 64),
     char_of (128 + v div 64 mod 64), char_of (128 + v mod 64)]"
    unfolding n div_64_chain by simp
  show "tail_bytes 5 v = [char_of (128 + v div 16777216 mod 64), char_of (128 + v div 262144 mod 64),
     char_of (128 + v div 4096 mod 64), char_of (128 + v div 64 mod 64), char_of (128 + v mod 64)]"
    unfolding n div_64_chain by simp
qed

lemma SplitFirstChar32_TrueD:
  assumes s: "SplitFirstChar32 s = (True, c, rest)" and c: "0 < c" "c < 0x4000000 \<or> 0x8000000 \<le> c"
  shows "s = CodepointToUtf8 c @ rest"
proof -
  obtain b bs where bs: "s = b # bs"
    using s by (cases s) auto
  show ?thesis
  proof (cases "byte b < 0x80")
    case True
    then show ?thesis
      using s c by (auto simp: bs SplitFirstChar32_def CodepointToUtf8_arith)
  next
    case False
    then obtain len mn mx r where lead: "utf8_lead (byte b) = Some (len, mn, mx, r)"
      and len: "len \<le> length s" and tl: "utf8_tail (take (len - 1) bs) r = Some c"
      and rng: "mn \<le> c" "c \<le> mx" and rest: "rest = drop len s"
      using s by (auto simp: bs SplitFirstChar32_def split: if_splits option.splits)
    have "1 \<le> len" using lead by (auto simp: utf8_lead_def split: if_splits)
    then have l: "length (take (len - 1) bs) = len - 1"
      using len by (auto simp: bs)
    from utf8_tail_tail_bytes [OF tl, unfolded l]
    have tb: "take (len - 1) bs = tail_bytes (len - 1) c" and hd: "c div 64 ^ (len - 1) = r"
      by simp_all
    have "bs = tail_bytes (len - 1) c @ rest"
      using take_eq_append_drop [OF tb] rest \<open>1 \<le> len\<close> by (cases len) (auto simp: bs)
    then show ?thesis
      using lead rng c hd byte_shift [of 192 b 32] byte_shift [of 224 b 16] byte_shift [of 240 b 8]
        byte_shift [of 248 b 4] byte_shift [of 252 b 2]
      by (auto simp: bs utf8_lead_simps CodepointToUtf8_arith tail_bytes_numeral split: if_splits)
  qed
qed

text \<open>In the range the first property leaves out the encoder is wrong: its five-byte branch ends at
  \<open>0x8000000\<close>, twice the five-byte maximum, so the sequence it writes either does not decode or
  decodes to the code point less \<open>0x4000000\<close>.\<close>

lemma CodepointToUtf8_five_byte_gap:
  assumes "0x4000000 \<le> c" and "c < 0x8000000"
  shows "length (CodepointToUtf8 c) = 5 \<and>
    SplitFirstChar32 (CodepointToUtf8 c @ rest) =
      (if c < 0x4200000 then (False, 0, []) else (True, c - 0x4000000, rest))"
proof -
  obtain v where v: "c = 0x4000000 + v"
    using assms(1) le_Suc_ex by blast
  with assms CodepointToUtf8_gap [of v rest] show ?thesis
    by (simp add: CodepointToUtf8_arith)
qed

section \<open>Strings of code points\<close>

function Utf8ToUtf32 :: "bytes \<Rightarrow> char32 list" where
  "Utf8ToUtf32 s =
     (case SplitFirstChar32 s of
        (True, c, rest) \<Rightarrow> c # Utf8ToUtf32 rest
      | (False, _, _) \<Rightarrow> [])"
  by pat_completeness auto
termination
  by (relation "measure length")
    (auto, metis SplitFirstChar32_Nil SplitFirstChar32_rest_shorter prod.inject)

declare Utf8ToUtf32.simps [simp del]

definition Utf32ToUtf8 :: "char32 list \<Rightarrow> bytes" where
  "Utf32ToUtf8 cs = concat (map CodepointToUtf8 cs)"

function IsValidUtf8 :: "bytes \<Rightarrow> bool" where
  "IsValidUtf8 s =
     (if s = [] then True
      else (case SplitFirstChar32 s of
              (True, _, rest) \<Rightarrow> IsValidUtf8 rest
            | (False, _, _) \<Rightarrow> False))"
  by pat_completeness auto
termination
  by (relation "measure length") (simp_all, metis SplitFirstChar32_rest_shorter)

declare IsValidUtf8.simps [simp del]

text \<open>The reverse iteration: trailing bytes are skipped from the end, and the piece from the leading
  byte on must decode to exactly one code point.\<close>

definition SplitLastChar32 :: "bytes \<Rightarrow> bool \<times> bytes \<times> char32" where
  "SplitLastChar32 s =
     (let trail = takeWhile IsUtf8TrailingByte (rev s)
      in if s = [] \<or> length trail = length s then (False, [], 0)
         else let len = length trail + 1; keep = length s - len
              in (case SplitFirstChar32 (drop keep s) of
                    (False, c, _) \<Rightarrow> (False, [], c)
                  | (True, c, piece) \<Rightarrow> if piece \<noteq> [] then (False, [], c) else (True, take keep s, c)))"

lemma Utf32ToUtf8_simps [simp]:
  "Utf32ToUtf8 [] = []"
  "Utf32ToUtf8 (c # cs) = CodepointToUtf8 c @ Utf32ToUtf8 cs"
  "Utf32ToUtf8 (cs @ ds) = Utf32ToUtf8 cs @ Utf32ToUtf8 ds"
  by (simp_all add: Utf32ToUtf8_def)

lemma Utf8ToUtf32_Nil [simp]: "Utf8ToUtf32 [] = []"
  by (simp add: Utf8ToUtf32.simps)

text \<open>The code points of Unicode other than NUL: the strings the program works with.\<close>

definition unicode :: "char32 \<Rightarrow> bool" where
  "unicode c \<longleftrightarrow> 0 < c \<and> c \<le> 0x10FFFF"

lemma SplitFirstChar32_unicode [simp]:
  "unicode c \<Longrightarrow> SplitFirstChar32 (CodepointToUtf8 c @ rest) = (True, c, rest)"
  by (rule SplitFirstChar32_encode) (auto simp: unicode_def)

lemma CodepointToUtf8_neq_Nil [simp]: "CodepointToUtf8 c = [] \<longleftrightarrow> c = 0"
  by (simp add: CodepointToUtf8_def)

lemma unicode_neq_0 [simp]: "unicode c \<Longrightarrow> c \<noteq> 0" "\<not> unicode 0"
  by (auto simp: unicode_def)

lemma Utf8ToUtf32_encode [simp]:
  "list_all unicode cs \<Longrightarrow> Utf8ToUtf32 (Utf32ToUtf8 cs) = cs"
  by (induction cs) (auto simp: Utf8ToUtf32.simps [of "CodepointToUtf8 _ @ _"])

lemma IsValidUtf8_encode:
  "list_all unicode cs \<Longrightarrow> IsValidUtf8 (Utf32ToUtf8 cs)"
proof (induction cs)
  case (Cons c cs)
  then show ?case
    by (subst IsValidUtf8.simps) auto
qed (simp add: IsValidUtf8.simps)

lemma Utf32ToUtf8_decode:
  assumes "IsValidUtf8 s" and "\<And>c. c \<in> set (Utf8ToUtf32 s) \<Longrightarrow> unicode c"
  shows "Utf32ToUtf8 (Utf8ToUtf32 s) = s"
  using assms
proof (induction s rule: Utf8ToUtf32.induct)
  case (1 s)
  show ?case
  proof (cases "s = []")
    case False
    with "1.prems"(1) obtain c rest where s: "SplitFirstChar32 s = (True, c, rest)"
      and v: "IsValidUtf8 rest"
      by (subst (asm) IsValidUtf8.simps) (auto split: prod.splits bool.splits)
    have cs: "Utf8ToUtf32 s = c # Utf8ToUtf32 rest"
      using s by (simp add: Utf8ToUtf32.simps [of s])
    with "1.prems"(2) have "unicode c" by simp
    then have "0 < c" "c < 0x4000000" by (auto simp: unicode_def)
    with SplitFirstChar32_TrueD [OF s] have "s = CodepointToUtf8 c @ rest" by blast
    moreover have "Utf32ToUtf8 (Utf8ToUtf32 rest) = rest"
      using "1.IH" [OF s [symmetric] refl refl] v "1.prems"(2) cs by simp
    then have "Utf32ToUtf8 (Utf8ToUtf32 s) = CodepointToUtf8 c @ rest"
      by (simp add: cs)
    ultimately show ?thesis by simp
  qed simp
qed

text \<open>A valid string is the encoding of its code points; \<open>utf8_of cs s\<close> is the abstraction relation
  between a byte string and a list of code points.\<close>

definition utf8_string :: "bytes \<Rightarrow> bool" where
  "utf8_string s \<longleftrightarrow> (\<exists>cs. list_all unicode cs \<and> s = Utf32ToUtf8 cs)"

lemma utf8_stringI [intro]: "list_all unicode cs \<Longrightarrow> utf8_string (Utf32ToUtf8 cs)"
  by (auto simp: utf8_string_def)

lemma utf8_stringE:
  assumes "utf8_string s"
  obtains cs where "list_all unicode cs" "s = Utf32ToUtf8 cs" "Utf8ToUtf32 s = cs"
  using assms by (auto simp: utf8_string_def)

lemma utf8_string_iff:
  "utf8_string s \<longleftrightarrow> IsValidUtf8 s \<and> list_all unicode (Utf8ToUtf32 s)"
  by (metis IsValidUtf8_encode Utf32ToUtf8_decode list_all_iff utf8_stringE utf8_stringI)

lemma utf8_string_Nil [simp]: "utf8_string []"
  using utf8_stringI [of "[]"] by simp

lemma utf8_string_ascii:
  "list_all (\<lambda>b. 0 < byte b \<and> byte b < 0x80) s \<Longrightarrow> utf8_string s"
proof (induction s)
  case (Cons b s)
  then show ?case
    by (auto simp: utf8_string_iff IsValidUtf8.simps [of "b # s"] Utf8ToUtf32.simps [of "b # s"]
        SplitFirstChar32_ascii unicode_def)
qed simp

lemma Utf8ToUtf32_ascii:
  "list_all (\<lambda>b. 0 < byte b \<and> byte b < 0x80) s \<Longrightarrow> Utf8ToUtf32 s = map byte s"
proof (induction s)
  case (Cons b s)
  then show ?case by (auto simp: Utf8ToUtf32.simps [of "b # s"] SplitFirstChar32_ascii)
qed simp

text \<open>C10: On lists of code points between 1 and 0x10FFFF, \<open>Utf32ToUtf8\<close> gives valid UTF-8 that
  \<open>Utf8ToUtf32\<close> decodes to the same list; on a string that \<open>IsValidUtf8\<close> accepts and whose code points lie in
  that range, decoding and encoding again gives the string back. The range matters: \<open>IsValidUtf8\<close> also
  accepts the code point 0, at which decoding stops, and code points above 0x10FFFF.\<close>

theorem Utf8_Utf32_roundtrip:
  "(list_all unicode cs \<longrightarrow> IsValidUtf8 (Utf32ToUtf8 cs) \<and> Utf8ToUtf32 (Utf32ToUtf8 cs) = cs) \<and>
   (IsValidUtf8 s \<and> list_all unicode (Utf8ToUtf32 s) \<longrightarrow> Utf32ToUtf8 (Utf8ToUtf32 s) = s)"
  using Utf8ToUtf32_encode IsValidUtf8_encode Utf32ToUtf8_decode by (auto simp: list_all_iff)

theorem Utf8_Utf32_roundtrip_witness:
  "Utf8ToUtf32 (Utf32ToUtf8 [0x304B, 0x6E]) = [0x304B, 0x6E] \<and>
   Utf32ToUtf8 (Utf8ToUtf32 ''ab'') = ''ab''"
proof -
  have "IsValidUtf8 ''ab''" "list_all unicode (Utf8ToUtf32 ''ab'')"
    by (simp_all add: IsValidUtf8.simps Utf8ToUtf32.simps SplitFirstChar32_def byte_def unicode_def)
  then show ?thesis
    using Utf8_Utf32_roundtrip [of "[0x304B, 0x6E]" "''ab''"] by (simp add: unicode_def)
qed

lemma CodepointToUtf8_shape:
  assumes "unicode c"
  obtains b t where "CodepointToUtf8 c = b # t" "\<not> IsUtf8TrailingByte b" "list_all IsUtf8TrailingByte t"
proof -
  have "c < 0x200000" "0 < c" using assms by (simp_all add: unicode_def)
  then have "\<exists>b t. CodepointToUtf8 c = b # t \<and> \<not> IsUtf8TrailingByte b \<and> list_all IsUtf8TrailingByte t"
    by (simp add: CodepointToUtf8_arith IsUtf8TrailingByte_iff)
  with that show thesis by blast
qed

text \<open>Iterating from the end is the mirror image of iterating from the front: on the encoding of a
  non-empty list of code points, \<open>SplitLastChar32\<close> returns the last code point and the encoding of
  the others.\<close>

lemma SplitLastChar32_encode:
  assumes "list_all unicode (cs @ [c])"
  shows "SplitLastChar32 (Utf32ToUtf8 (cs @ [c])) = (True, Utf32ToUtf8 cs, c)"
proof -
  from assms have c: "unicode c" by simp
  then obtain b t where bt: "CodepointToUtf8 c = b # t" "\<not> IsUtf8TrailingByte b"
    "list_all IsUtf8TrailingByte t"
    by (rule CodepointToUtf8_shape)
  have "takeWhile IsUtf8TrailingByte (rev (Utf32ToUtf8 cs @ b # t)) = rev t"
    using bt by (simp add: takeWhile_tail list_all_iff takeWhile_append)
  moreover have "SplitFirstChar32 (b # t) = (True, c, [])"
    using SplitFirstChar32_unicode [OF c, of "[]"] bt by simp
  ultimately show ?thesis
    using bt by (simp add: SplitLastChar32_def Let_def)
qed

end
