(* ===== verification/Utf8_Text.thy ===== *)
theory Utf8_Text
  imports Utf8
begin

text \<open>
  Walking and changing UTF-8 text: the functions of \<open>base/util.cc\<close> and \<open>base/strings/unicode.h\<close>
  that step by the length of a leading byte, the Unicode decoder of
  \<open>base/strings/internal/utf8_internal.cc\<close>, and the case conversions built on it.

  The pointer walks of the source may step past the end of a truncated last character, which is
  undefined behaviour there; the walks here clip at the end of the string, as
  \<open>absl::ClippedSubstr\<close> does. On encoded strings (\<open>utf8_string\<close>) no walk oversteps.
\<close>

section \<open>Stepping by the leading byte\<close>

text \<open>The table \<open>kUtf8LenTbl\<close>.\<close>

definition OneCharLen :: "char \<Rightarrow> nat" where
  "OneCharLen c =
     (let b = byte c
      in if b < 0xc2 then 1 else if b < 0xe0 then 2 else if b < 0xf0 then 3
         else if b < 0xf5 then 4 else 1)"

lemma OneCharLen_pos [simp]: "0 < OneCharLen c" "OneCharLen c \<noteq> 0"
  by (simp_all add: OneCharLen_def Let_def)

lemma OneCharLen_le: "OneCharLen c \<le> 4"
  by (simp add: OneCharLen_def Let_def)

function CharsLen :: "bytes \<Rightarrow> nat" where
  "CharsLen [] = 0"
| "CharsLen (c # cs) = Suc (CharsLen (ClippedSubstr (c # cs) (OneCharLen c)))"
  by pat_completeness auto
termination by (relation "measure length") (auto simp: ClippedSubstr_def)

function SplitStringToUtf8Chars :: "bytes \<Rightarrow> bytes list" where
  "SplitStringToUtf8Chars [] = []"
| "SplitStringToUtf8Chars (c # cs) =
     take (OneCharLen c) (c # cs) # SplitStringToUtf8Chars (drop (OneCharLen c) (c # cs))"
  by pat_completeness auto
termination by (relation "measure length") auto

definition FrontChar :: "bytes \<Rightarrow> bytes \<times> bytes" where
  "FrontChar s =
     (case s of [] \<Rightarrow> ([], [])
      | c # cs \<Rightarrow> (take (OneCharLen c) s, ClippedSubstr s (OneCharLen c)))"

text \<open>\<open>Utf8SubString (src, start)\<close> and \<open>Utf8SubString (src, start, length)\<close>. A call with length
  \<open>npos\<close> is a call of the first.\<close>

fun Utf8SubStringFrom :: "bytes \<Rightarrow> nat \<Rightarrow> bytes" where
  "Utf8SubStringFrom s 0 = s"
| "Utf8SubStringFrom [] (Suc n) = []"
| "Utf8SubStringFrom (c # cs) (Suc n) = Utf8SubStringFrom (drop (OneCharLen c) (c # cs)) n"

fun utf8_take :: "bytes \<Rightarrow> nat \<Rightarrow> bytes" where
  "utf8_take s 0 = []"
| "utf8_take [] (Suc n) = []"
| "utf8_take (c # cs) (Suc n) =
     take (OneCharLen c) (c # cs) @ utf8_take (drop (OneCharLen c) (c # cs)) n"

definition Utf8SubString :: "bytes \<Rightarrow> nat \<Rightarrow> nat \<Rightarrow> bytes" where
  "Utf8SubString src start len = utf8_take (Utf8SubStringFrom src start) len"

text \<open>The character index of every byte offset, the end of the string included.\<close>

function prefix_chars_walk :: "bytes \<Rightarrow> nat \<Rightarrow> nat list" where
  "prefix_chars_walk [] n = [n]"
| "prefix_chars_walk (c # cs) n =
     replicate (min (OneCharLen c) (length (c # cs))) n
       @ prefix_chars_walk (drop (OneCharLen c) (c # cs)) (Suc n)"
  by pat_completeness auto
termination by (relation "measure (length \<circ> fst)") auto

definition PrefixCharsLen :: "bytes \<Rightarrow> nat list" where
  "PrefixCharsLen s = prefix_chars_walk s 0"

declare CharsLen.simps(2) [simp del] SplitStringToUtf8Chars.simps(2) [simp del]
  prefix_chars_walk.simps(2) [simp del]

lemma concat_SplitStringToUtf8Chars [simp]: "concat (SplitStringToUtf8Chars s) = s"
  by (induction s rule: SplitStringToUtf8Chars.induct) (simp_all add: SplitStringToUtf8Chars.simps)

lemma CharsLen_eq: "CharsLen s = length (SplitStringToUtf8Chars s)"
  by (induction s rule: CharsLen.induct)
    (simp_all add: CharsLen.simps SplitStringToUtf8Chars.simps ClippedSubstr_def)

lemma CharsLen_0_iff [simp]: "CharsLen s = 0 \<longleftrightarrow> s = []"
  by (cases s) (simp_all add: CharsLen.simps)

lemma CharsLen_pos_iff [simp]: "0 < CharsLen s \<longleftrightarrow> s \<noteq> []"
  using CharsLen_0_iff [of s] by linarith

lemma Utf8SubStringFrom_chars:
  "Utf8SubStringFrom s n = concat (drop n (SplitStringToUtf8Chars s))"
  by (induction s n rule: Utf8SubStringFrom.induct)
    (simp_all add: SplitStringToUtf8Chars.simps)

lemma utf8_take_chars: "utf8_take s n = concat (take n (SplitStringToUtf8Chars s))"
  by (induction s n rule: utf8_take.induct) (simp_all add: SplitStringToUtf8Chars.simps)

lemma utf8_take_drop: "utf8_take s n @ Utf8SubStringFrom s n = s"
  unfolding utf8_take_chars Utf8SubStringFrom_chars
  by (simp flip: concat_append)

text \<open>A string of whole characters: no leading byte announces more bytes than are left.\<close>

function whole_chars :: "bytes \<Rightarrow> bool" where
  "whole_chars [] = True"
| "whole_chars (c # cs) =
     (OneCharLen c \<le> length (c # cs) \<and> whole_chars (drop (OneCharLen c) (c # cs)))"
  by pat_completeness auto
termination by (relation "measure length") auto

declare whole_chars.simps(2) [simp del]

lemma SplitStringToUtf8Chars_append:
  "whole_chars s \<Longrightarrow> SplitStringToUtf8Chars (s @ t) = SplitStringToUtf8Chars s @ SplitStringToUtf8Chars t"
proof (induction s rule: whole_chars.induct)
  case (2 c cs)
  then show ?case
    by (simp add: whole_chars.simps SplitStringToUtf8Chars.simps(2) [of c])
qed simp

lemma CharsLen_append: "whole_chars s \<Longrightarrow> CharsLen (s @ t) = CharsLen s + CharsLen t"
  by (simp add: CharsLen_eq SplitStringToUtf8Chars_append)

lemma whole_chars_append: "whole_chars s \<Longrightarrow> whole_chars (s @ t) \<longleftrightarrow> whole_chars t"
proof (induction s rule: whole_chars.induct)
  case (2 c cs)
  then show ?case
    by (simp add: whole_chars.simps(2) [of c])
qed simp

lemma OneCharLen_encode:
  assumes "unicode c"
  shows "\<exists>b t. CodepointToUtf8 c = b # t \<and> OneCharLen b = Suc (length t)"
proof -
  have "c < 0x110000" "0 < c" using assms by (simp_all add: unicode_def)
  then show ?thesis
    by (auto simp: CodepointToUtf8_arith OneCharLen_def Let_def)
qed

lemma whole_chars_CodepointToUtf8 [simp]: "unicode c \<Longrightarrow> whole_chars (CodepointToUtf8 c)"
  using OneCharLen_encode [of c] by (auto simp: whole_chars.simps)

lemma SplitStringToUtf8Chars_CodepointToUtf8 [simp]:
  "unicode c \<Longrightarrow> SplitStringToUtf8Chars (CodepointToUtf8 c) = [CodepointToUtf8 c]"
  using OneCharLen_encode [of c] by (auto simp: SplitStringToUtf8Chars.simps)

lemma whole_chars_encode: "list_all unicode cs \<Longrightarrow> whole_chars (Utf32ToUtf8 cs)"
  by (induction cs) (simp_all add: whole_chars_append)

lemma SplitStringToUtf8Chars_encode [simp]:
  "list_all unicode cs \<Longrightarrow> SplitStringToUtf8Chars (Utf32ToUtf8 cs) = map CodepointToUtf8 cs"
  by (induction cs) (simp_all add: SplitStringToUtf8Chars_append)

lemma whole_chars_utf8_string: "utf8_string s \<Longrightarrow> whole_chars s"
  by (auto simp: utf8_string_def whole_chars_encode)

lemma CharsLen_encode [simp]: "list_all unicode cs \<Longrightarrow> CharsLen (Utf32ToUtf8 cs) = length cs"
  by (simp add: CharsLen_eq)

lemma Utf8SubStringFrom_encode:
  "list_all unicode cs \<Longrightarrow> Utf8SubStringFrom (Utf32ToUtf8 cs) n = Utf32ToUtf8 (drop n cs)"
  by (simp add: Utf8SubStringFrom_chars drop_map flip: Utf32ToUtf8_def)

lemma utf8_take_encode:
  "list_all unicode cs \<Longrightarrow> utf8_take (Utf32ToUtf8 cs) n = Utf32ToUtf8 (take n cs)"
  by (simp add: utf8_take_chars take_map flip: Utf32ToUtf8_def)

text \<open>On encoded text the byte-walking functions are the list functions on code points:
  \<open>CharsLen\<close> is the number of code points, \<open>Utf8SubString\<close> takes a sublist of them, and
  \<open>Utf8ToUtf32\<close> of the result is that sublist.\<close>

lemma utf8_walk_refines_lists:
  assumes "list_all unicode cs"
  shows "CharsLen (Utf32ToUtf8 cs) = length cs \<and>
    Utf8SubString (Utf32ToUtf8 cs) start len = Utf32ToUtf8 (take len (drop start cs)) \<and>
    Utf8ToUtf32 (Utf8SubString (Utf32ToUtf8 cs) start len) = take len (drop start cs)"
proof -
  have d: "list_all unicode (drop start cs)" "list_all unicode (take len (drop start cs))"
    using assms by (auto simp: list_all_iff dest: in_set_takeD in_set_dropD)
  then have "Utf8SubString (Utf32ToUtf8 cs) start len = Utf32ToUtf8 (take len (drop start cs))"
    using assms by (simp add: Utf8SubString_def Utf8SubStringFrom_encode utf8_take_encode)
  with assms d show ?thesis by simp
qed

section \<open>The Unicode decoder\<close>

text \<open>\<open>GenerateSecondByteBoundary\<close>: the range of the byte after each leading byte.\<close>

definition second_byte_boundary :: "nat \<Rightarrow> nat \<times> nat" where
  "second_byte_boundary n =
     (if n < 0xc2 \<or> 0xf4 < n then (0xff, 0x00)
      else if n = 0xe0 then (0xa0, 0xbf)
      else if n = 0xed then (0x80, 0x9f)
      else if n = 0xf0 then (0x90, 0xbf)
      else if n = 0xf4 then (0x80, 0x8f)
      else (0x80, 0xbf))"

definition IsValidSecondByte :: "char \<Rightarrow> char \<Rightarrow> bool" where
  "IsValidSecondByte leading second =
     (case second_byte_boundary (byte leading) of
        (mn, mx) \<Rightarrow> mn \<le> byte second \<and> byte second \<le> mx)"

text \<open>\<open>DecodeResult\<close>: code point (U+FFFD on error), validity, and the number of bytes consumed.\<close>

record decode_result =
  code_point :: char32
  ok :: bool
  bytes_seen :: nat

definition decode_continue :: "char32 \<Rightarrow> nat \<Rightarrow> decode_result" where
  "decode_continue cp n = \<lparr>code_point = cp, ok = True, bytes_seen = n\<rparr>"

definition decode_error :: "nat \<Rightarrow> decode_result" where
  "decode_error n = \<lparr>code_point = 0xfffd, ok = False, bytes_seen = n\<rparr>"

definition decode_sentinel :: decode_result where
  "decode_sentinel = \<lparr>code_point = 0, ok = False, bytes_seen = 0\<rparr>"

fun buffer_too_short_loop :: "bytes \<Rightarrow> nat \<Rightarrow> nat" where
  "buffer_too_short_loop [] seen = seen"
| "buffer_too_short_loop (c # cs) seen =
     (if IsUtf8TrailingByte c then buffer_too_short_loop cs (Suc seen) else seen)"

definition HandleBufferTooShort :: "bytes \<Rightarrow> decode_result" where
  "HandleBufferTooShort s =
     (case s of
        leading # second # rest \<Rightarrow>
          if IsValidSecondByte leading second then decode_error (buffer_too_short_loop rest 2)
          else decode_error 1
      | _ \<Rightarrow> decode_error 1)"

text \<open>The third and fourth bytes: \<open>i\<close> bytes have been seen.\<close>

fun decode_sequence_loop :: "bytes \<Rightarrow> nat \<Rightarrow> char32 \<Rightarrow> decode_result" where
  "decode_sequence_loop [] i base = decode_continue base i"
| "decode_sequence_loop (c # cs) i base =
     (if IsUtf8TrailingByte c
      then decode_sequence_loop cs (Suc i) (push_bit 6 base + (byte c AND 0x3f))
      else decode_error i)"

text \<open>\<open>DecodeSequence<Needed>\<close>; for two bytes the second one is only checked to be a trailing byte.\<close>

definition DecodeSequence :: "nat \<Rightarrow> bytes \<Rightarrow> nat \<Rightarrow> decode_result" where
  "DecodeSequence needed s mask_bits =
     (case s of
        leading # second # rest \<Rightarrow>
          if (if needed = 2 then IsUtf8TrailingByte second else IsValidSecondByte leading second)
          then decode_sequence_loop (take (needed - 2) rest) 2
                 (push_bit 6 (byte leading AND mask_bits) + (byte second AND 0x3f))
          else decode_error 1
      | _ \<Rightarrow> decode_error 1)"

definition Decode :: "bytes \<Rightarrow> decode_result" where
  "Decode s =
     (case s of
        [] \<Rightarrow> decode_sentinel
      | c # cs \<Rightarrow>
          if byte c < 0x80 then decode_continue (byte c) 1
          else let needed = OneCharLen c
               in if length s < needed then HandleBufferTooShort s
                  else if needed = 3 then DecodeSequence 3 s 0x0f
                  else if needed = 2 then DecodeSequence 2 s 0x1f
                  else if needed = 4 then DecodeSequence 4 s 0x07
                  else decode_error 1)"

lemmas decode_defs = decode_continue_def decode_error_def decode_sentinel_def

lemma buffer_too_short_loop_bounds:
  "seen \<le> buffer_too_short_loop cs seen \<and> buffer_too_short_loop cs seen \<le> seen + length cs"
proof (induction cs arbitrary: seen)
  case (Cons c cs)
  from Cons [of "Suc seen"] show ?case by auto
qed simp

lemma decode_sequence_loop_bounds:
  "i \<le> bytes_seen (decode_sequence_loop cs i base) \<and>
   bytes_seen (decode_sequence_loop cs i base) \<le> i + length cs"
proof (induction cs arbitrary: i base)
  case (Cons c cs)
  from Cons [of "Suc i" "push_bit 6 base + (byte c AND 0x3f)"] show ?case
    by (auto simp: decode_defs)
qed (simp add: decode_defs)

lemma DecodeSequence_bytes_seen:
  assumes "s \<noteq> []"
  shows "0 < bytes_seen (DecodeSequence n s m) \<and> bytes_seen (DecodeSequence n s m) \<le> length s"
proof -
  have loop: "0 < bytes_seen (decode_sequence_loop (take k ds) 2 b) \<and>
      bytes_seen (decode_sequence_loop (take k ds) 2 b) \<le> Suc (Suc (length ds))" for k ds b
    using decode_sequence_loop_bounds [of 2 "take k ds" b] by auto
  show ?thesis
    using assms loop
    by (auto simp: DecodeSequence_def decode_defs split: list.splits)
qed

lemma HandleBufferTooShort_bytes_seen:
  assumes "s \<noteq> []"
  shows "0 < bytes_seen (HandleBufferTooShort s) \<and> bytes_seen (HandleBufferTooShort s) \<le> length s"
proof -
  have loop: "0 < buffer_too_short_loop ds 2 \<and> buffer_too_short_loop ds 2 \<le> Suc (Suc (length ds))" for ds
    using buffer_too_short_loop_bounds [of 2 ds] by auto
  show ?thesis
    using assms loop
    by (auto simp: HandleBufferTooShort_def decode_defs split: list.splits)
qed

lemma Decode_bytes_seen [simp]:
  assumes "s \<noteq> []"
  shows "0 < bytes_seen (Decode s)" and "bytes_seen (Decode s) \<le> length s"
  using assms DecodeSequence_bytes_seen [OF assms] HandleBufferTooShort_bytes_seen [OF assms]
  by (auto simp: Decode_def Let_def decode_continue_def decode_error_def split: list.splits)

text \<open>On an encoded character that is not a surrogate the decoder agrees with the legacy codec.\<close>

lemma Decode_encode:
  assumes "unicode c" and "\<not> (0xD800 \<le> c \<and> c \<le> 0xDFFF)"
  shows "Decode (CodepointToUtf8 c @ rest) = decode_continue c (length (CodepointToUtf8 c))"
proof -
  consider "0 < c" "c < 0x80" | "0x80 \<le> c" "c < 0x800" | "0x800 \<le> c" "c < 0x10000"
    | "0x10000 \<le> c" "c \<le> 0x10FFFF"
    using assms(1) unfolding unicode_def by linarith
  then show ?thesis
  proof cases
    case 1
    then show ?thesis by (simp add: CodepointToUtf8_arith Decode_def)
  next
    case 2
    then have "c div 64 mod 32 = c div 64" "c div 64 < 32" "2 \<le> c div 64" by auto
    with 2 show ?thesis
      by (simp add: CodepointToUtf8_arith Decode_def OneCharLen_def DecodeSequence_def
          IsUtf8TrailingByte_iff mask_arith div_mod_chain decode_continue_def)
  next
    case 3
    then have d: "c div 4096 mod 16 = c div 4096" "c div 4096 < 16" by auto
    have "IsValidSecondByte (char_of (224 + c div 4096)) (char_of (128 + c div 64 mod 64))"
    proof -
      have "c div 4096 = 0 \<Longrightarrow> 32 \<le> c div 64 mod 64" using 3 by auto
      moreover have "c div 4096 = 13 \<Longrightarrow> c div 64 mod 64 < 32"
      proof -
        assume "c div 4096 = 13"
        then have "c div 64 = 832 + (c div 64 - 832)" "c div 64 - 832 < 32"
          using assms(2) by auto
        then show ?thesis using mod_add_left_eq [of 832 64 "c div 64 - 832"] by simp
      qed
      ultimately show ?thesis using d
        by (auto simp: IsValidSecondByte_def second_byte_boundary_def)
    qed
    with 3 d show ?thesis
      by (simp add: CodepointToUtf8_arith Decode_def OneCharLen_def DecodeSequence_def
          IsUtf8TrailingByte_iff mask_arith div_mod_chain decode_continue_def)
  next
    case 4
    then have d: "c div 262144 mod 8 = c div 262144" "c div 262144 < 5" by auto
    have "IsValidSecondByte (char_of (240 + c div 262144)) (char_of (128 + c div 4096 mod 64))"
    proof -
      have "c div 262144 = 0 \<Longrightarrow> 16 \<le> c div 4096 mod 64" using 4 by auto
      moreover have "c div 262144 = 4 \<Longrightarrow> c div 4096 mod 64 < 16"
      proof -
        assume "c div 262144 = 4"
        then have "c div 4096 = 256 + (c div 4096 - 256)" "c div 4096 - 256 < 16" using 4 by auto
        then show ?thesis using mod_add_left_eq [of 256 64 "c div 4096 - 256"] by simp
      qed
      ultimately show ?thesis using d
        by (auto simp: IsValidSecondByte_def second_byte_boundary_def)
    qed
    with 4 d show ?thesis
      by (simp add: CodepointToUtf8_arith Decode_def OneCharLen_def DecodeSequence_def
          IsUtf8TrailingByte_iff mask_arith div_mod_chain decode_continue_def)
  qed
qed

section \<open>Case conversion\<close>

text \<open>\<open>LowerString\<close> and \<open>UpperString\<close> replace each convertible character in place by one of the same
  size; on a size mismatch they log an error and leave the rest of the string as it is.\<close>

function map_case :: "(char32 \<Rightarrow> bool) \<Rightarrow> (char32 \<Rightarrow> char32) \<Rightarrow> bytes \<Rightarrow> bytes" where
  "map_case p f s =
     (if s = [] then []
      else let d = Decode s; n = bytes_seen d
           in if p (code_point d) then
                let utf8 = CodepointToUtf8 (f (code_point d))
                in if length utf8 \<noteq> n then s else utf8 @ map_case p f (drop n s)
              else take n s @ map_case p f (drop n s))"
  by pat_completeness auto
termination by (relation "measure (\<lambda>(p, f, s). length s)") auto

declare map_case.simps [simp del]

definition is_upper_letter :: "char32 \<Rightarrow> bool" where
  "is_upper_letter c \<longleftrightarrow> 0x0041 \<le> c \<and> c \<le> 0x005A \<or> 0xFF21 \<le> c \<and> c \<le> 0xFF3A"

definition is_lower_letter :: "char32 \<Rightarrow> bool" where
  "is_lower_letter c \<longleftrightarrow> 0x0061 \<le> c \<and> c \<le> 0x007A \<or> 0xFF41 \<le> c \<and> c \<le> 0xFF5A"

definition LowerString :: "bytes \<Rightarrow> bytes" where
  "LowerString s = map_case is_upper_letter (\<lambda>c. c + 0x20) s"

definition UpperString :: "bytes \<Rightarrow> bytes" where
  "UpperString s = map_case is_lower_letter (\<lambda>c. c - 0x20) s"

definition CapitalizeString :: "bytes \<Rightarrow> bytes" where
  "CapitalizeString s = UpperString (Utf8SubString s 0 1) @ LowerString (Utf8SubStringFrom s 1)"

lemma length_map_case [simp]: "length (map_case p f s) = length s"
proof (induction p f s rule: map_case.induct)
  case (1 p f s)
  then show ?case
    by (subst map_case.simps) (auto simp: Let_def)
qed

lemma length_LowerString [simp]: "length (LowerString s) = length s"
  and length_UpperString [simp]: "length (UpperString s) = length s"
  by (simp_all add: LowerString_def UpperString_def)

lemma LowerString_Nil_iff [simp]: "LowerString s = [] \<longleftrightarrow> s = []"
  by (metis length_0_conv length_LowerString)

definition scalar :: "char32 \<Rightarrow> bool" where
  "scalar c \<longleftrightarrow> unicode c \<and> \<not> (0xD800 \<le> c \<and> c \<le> 0xDFFF)"

definition lower32 :: "char32 \<Rightarrow> char32" where
  "lower32 c = (if is_upper_letter c then c + 0x20 else c)"

definition upper32 :: "char32 \<Rightarrow> char32" where
  "upper32 c = (if is_lower_letter c then c - 0x20 else c)"

lemma map_case_encode:
  assumes "list_all scalar cs"
    and "\<And>c. p c \<Longrightarrow> length (CodepointToUtf8 (f c)) = length (CodepointToUtf8 c)"
  shows "map_case p f (Utf32ToUtf8 cs) = Utf32ToUtf8 (map (\<lambda>c. if p c then f c else c) cs)"
  using assms(1)
proof (induction cs)
  case (Cons c cs)
  then have "Decode (CodepointToUtf8 c @ Utf32ToUtf8 cs) =
      decode_continue c (length (CodepointToUtf8 c))" and "c \<noteq> 0"
    using Decode_encode by (auto simp: scalar_def)
  with Cons assms(2) show ?case
    by (subst map_case.simps) (simp add: Let_def decode_continue_def)
qed (simp add: map_case.simps)

text \<open>Case conversion is the pointwise map on code points: on text without surrogates,
  \<open>LowerString\<close> and \<open>UpperString\<close> lower and raise exactly the ASCII and full-width Latin letters,
  \<open>CapitalizeString\<close> raises the first character and lowers the others, and no byte offset moves.\<close>

lemma case_conversion_pointwise:
  assumes "list_all scalar cs"
  shows "LowerString (Utf32ToUtf8 cs) = Utf32ToUtf8 (map lower32 cs) \<and>
    UpperString (Utf32ToUtf8 cs) = Utf32ToUtf8 (map upper32 cs) \<and>
    CapitalizeString (Utf32ToUtf8 cs) =
      Utf32ToUtf8 (map upper32 (take 1 cs) @ map lower32 (drop 1 cs)) \<and>
    length (LowerString (Utf32ToUtf8 cs)) = length (Utf32ToUtf8 cs)"
proof -
  have low: "LowerString (Utf32ToUtf8 ds) = Utf32ToUtf8 (map lower32 ds)" if "list_all scalar ds" for ds
    unfolding LowerString_def lower32_def using that
    by (rule map_case_encode) (auto simp: is_upper_letter_def CodepointToUtf8_arith)
  have up: "UpperString (Utf32ToUtf8 ds) = Utf32ToUtf8 (map upper32 ds)" if "list_all scalar ds" for ds
    unfolding UpperString_def upper32_def using that
    by (rule map_case_encode) (auto simp: is_lower_letter_def CodepointToUtf8_arith)
  have u: "list_all unicode cs" using assms by (auto simp: list_all_iff scalar_def)
  have t: "list_all scalar (take 1 cs)" "list_all scalar (drop 1 cs)"
    using assms by (auto simp: list_all_iff dest: in_set_takeD in_set_dropD)
  have "CapitalizeString (Utf32ToUtf8 cs) =
      Utf32ToUtf8 (map upper32 (take 1 cs) @ map lower32 (drop 1 cs))"
    unfolding CapitalizeString_def Utf8SubString_def
    using u low [OF t(2)] up [OF t(1)] by (simp add: Utf8SubStringFrom_encode utf8_take_encode)
  with low [OF assms] up [OF assms] show ?thesis
    by (intro conjI length_LowerString) simp_all
qed

end
