(* ===== verification/Util_Text.thy ===== *)
theory Util_Text
  imports Utf8_Text "HOL-Library.Char_ord" "HOL-Library.List_Lexorder"
begin

text \<open>
  \<open>base/util.cc\<close>: classes of characters and strings (script, width, symbols, brackets) and the
  serialisation of 64-bit numbers. \<open>ConstChar32Iterator\<close> is \<open>Utf8ToUtf32\<close>; \<open>Utf8AsChars32\<close> is
  \<open>AsChars32\<close> below, where an ill-formed sequence counts as U+FFFD.
\<close>

section \<open>Iterating over characters\<close>

function AsChars :: "bytes \<Rightarrow> bytes list" where
  "AsChars s =
     (if s = [] then [] else take (bytes_seen (Decode s)) s # AsChars (drop (bytes_seen (Decode s)) s))"
  by pat_completeness auto
termination by (relation "measure length") auto

function AsChars32 :: "bytes \<Rightarrow> char32 list" where
  "AsChars32 s =
     (if s = [] then [] else code_point (Decode s) # AsChars32 (drop (bytes_seen (Decode s)) s))"
  by pat_completeness auto
termination by (relation "measure length") auto

declare AsChars.simps [simp del] AsChars32.simps [simp del]

lemma AsChars32_encode [simp]: "list_all scalar cs \<Longrightarrow> AsChars32 (Utf32ToUtf8 cs) = cs"
proof (induction cs)
  case (Cons c cs)
  then have "Decode (CodepointToUtf8 c @ Utf32ToUtf8 cs) = decode_continue c (length (CodepointToUtf8 c))"
    and "c \<noteq> 0" using Decode_encode by (auto simp: scalar_def)
  with Cons show ?case by (subst AsChars32.simps) (simp add: decode_continue_def)
qed (simp add: AsChars32.simps)

lemma AsChars_encode: "list_all scalar cs \<Longrightarrow> AsChars (Utf32ToUtf8 cs) = map CodepointToUtf8 cs"
proof (induction cs)
  case (Cons c cs)
  then have "Decode (CodepointToUtf8 c @ Utf32ToUtf8 cs) = decode_continue c (length (CodepointToUtf8 c))"
    and "c \<noteq> 0" using Decode_encode by (auto simp: scalar_def)
  with Cons show ?case by (subst AsChars.simps) (simp add: decode_continue_def)
qed (simp add: AsChars.simps)

lemma concat_AsChars: "concat (AsChars s) = s"
proof (induction s rule: AsChars.induct)
  case (1 s)
  then show ?case by (subst AsChars.simps) simp
qed

section \<open>Scripts\<close>

datatype ScriptType =
    UNKNOWN_SCRIPT | Script_KATAKANA | Script_HIRAGANA | Script_KANJI | Script_NUMBER
  | Script_ALPHABET | Script_EMOJI

abbreviation in_range :: "nat \<Rightarrow> nat \<Rightarrow> nat \<Rightarrow> bool" where
  "in_range w a b \<equiv> a \<le> w \<and> w \<le> b"

definition script_of_char :: "char32 \<Rightarrow> ScriptType" where
  "script_of_char c =
     (if in_range c 0x0030 0x0039 \<or> in_range c 0xFF10 0xFF19 then Script_NUMBER
      else if in_range c 0x0041 0x005A \<or> in_range c 0x0061 0x007A \<or> in_range c 0xFF21 0xFF3A \<or>
              in_range c 0xFF41 0xFF5A then Script_ALPHABET
      else if c = 0x3005 \<or> in_range c 0x3400 0x4DBF \<or> in_range c 0x4E00 0x9FFF \<or>
              in_range c 0xF900 0xFAFF \<or> in_range c 0x20000 0x2A6DF \<or> in_range c 0x2A700 0x2B73F \<or>
              in_range c 0x2B740 0x2B81F \<or> in_range c 0x2F800 0x2FA1F then Script_KANJI
      else if in_range c 0x3041 0x309F \<or> c = 0x1B001 then Script_HIRAGANA
      else if in_range c 0x30A1 0x30FF \<or> in_range c 0x31F0 0x31FF \<or> in_range c 0xFF65 0xFF9F \<or>
              c = 0x1B000 then Script_KATAKANA
      else if in_range c 0x02300 0x023F3 \<or> in_range c 0x02700 0x027BF \<or> in_range c 0x1F000 0x1F02F \<or>
              in_range c 0x1F030 0x1F09F \<or> in_range c 0x1F0A0 0x1F0FF \<or> in_range c 0x1F100 0x1F2FF \<or>
              in_range c 0x1F200 0x1F2FF \<or> in_range c 0x1F300 0x1F5FF \<or> in_range c 0x1F600 0x1F64F \<or>
              in_range c 0x1F680 0x1F6FF \<or> in_range c 0x1F700 0x1F77F \<or> c = 0x26CE then Script_EMOJI
      else UNKNOWN_SCRIPT)"

text \<open>The result is the script and \<open>mblen\<close>.\<close>

definition GetFirstScriptType :: "bytes \<Rightarrow> ScriptType \<times> nat" where
  "GetFirstScriptType s =
     (if s = [] then (script_of_char 0, 0)
      else (script_of_char (code_point (Decode s)), if ok (Decode s) then bytes_seen (Decode s) else 0))"

text \<open>A \<open>bitset\<close> over the scripts is the list of its members in the order of the enum, so that
  \<open>count ()\<close> is the length and \<open>countr_zero\<close> the first element. The bits of \<open>bitset (-1)\<close> are the
  seven of \<open>SCRIPT_TYPE_SIZE\<close>.\<close>

definition all_scripts :: "ScriptType list" where
  "all_scripts = [UNKNOWN_SCRIPT, Script_KATAKANA, Script_HIRAGANA, Script_KANJI, Script_NUMBER,
     Script_ALPHABET, Script_EMOJI]"

definition kNumBs :: "ScriptType list" where "kNumBs = [Script_NUMBER]"
definition kKanaBs :: "ScriptType list" where "kKanaBs = [Script_KATAKANA, Script_HIRAGANA]"

definition is_kana_mark :: "char32 \<Rightarrow> bool" where
  "is_kana_mark c \<longleftrightarrow> c = 0x30FC \<or> c = 0x30FB \<or> 0x3099 \<le> c \<and> c \<le> 0x309C"

definition is_period :: "char32 \<Rightarrow> bool" where
  "is_period c \<longleftrightarrow> c = 0xFF0E \<or> c = 0x2E"

fun script_loop :: "bool \<Rightarrow> char32 list \<Rightarrow> ScriptType list \<Rightarrow> ScriptType list option" where
  "script_loop ignore_symbols [] bs = Some bs"
| "script_loop ignore_symbols (c # cs) bs =
     (if bs = [] then None
      else if is_kana_mark c then script_loop ignore_symbols cs (filter (\<lambda>t. t \<in> set kKanaBs) bs)
      else if is_period c \<and> bs = kNumBs then script_loop ignore_symbols cs bs
      else let type = script_of_char c
           in if ignore_symbols \<and> type = UNKNOWN_SCRIPT then script_loop ignore_symbols cs bs
              else script_loop ignore_symbols cs (filter (\<lambda>t. t = type) bs))"

definition GetScriptTypeInternal :: "bytes \<Rightarrow> bool \<Rightarrow> ScriptType" where
  "GetScriptTypeInternal s ignore_symbols =
     (case script_loop ignore_symbols (AsChars32 s) all_scripts of
        None \<Rightarrow> UNKNOWN_SCRIPT
      | Some bs \<Rightarrow> if length bs \<noteq> 1 then UNKNOWN_SCRIPT else hd bs)"

definition GetScriptType :: "bytes \<Rightarrow> ScriptType" where
  "GetScriptType s = GetScriptTypeInternal s False"

definition GetScriptTypeWithoutSymbols :: "bytes \<Rightarrow> ScriptType" where
  "GetScriptTypeWithoutSymbols s = GetScriptTypeInternal s True"

definition IsScriptType :: "bytes \<Rightarrow> ScriptType \<Rightarrow> bool" where
  "IsScriptType s type =
     list_all (\<lambda>c. \<not> (type \<noteq> script_of_char c \<and> (c \<noteq> 0x30FC \<or> type \<noteq> Script_HIRAGANA))) (Utf8ToUtf32 s)"

definition ContainsScriptType :: "bytes \<Rightarrow> ScriptType \<Rightarrow> bool" where
  "ContainsScriptType s type = list_ex (\<lambda>c. type = script_of_char c) (Utf8ToUtf32 s)"

section \<open>Width\<close>

datatype FormType = UNKNOWN_FORM | HALF_WIDTH | FULL_WIDTH | FORM_TYPE_SIZE

definition form_of_char :: "char32 \<Rightarrow> FormType" where
  "form_of_char c =
     (if in_range c 0x0020 0x007F \<or> in_range c 0x27E6 0x27ED \<or> in_range c 0x2985 0x2986 then HALF_WIDTH
      else if in_range c 0x00A2 0x00AF \<and> c \<in> {0x00A2, 0x00A3, 0x00A5, 0x00A6, 0x00AC, 0x00AF} then HALF_WIDTH
      else if c = 0x20A9 \<or> in_range c 0xFF61 0xFF9F \<or> in_range c 0xFFA0 0xFFBE \<or>
              in_range c 0xFFC2 0xFFCF \<or> in_range c 0xFFD2 0xFFD7 \<or> in_range c 0xFFDA 0xFFDC \<or>
              in_range c 0xFFE8 0xFFEE then HALF_WIDTH
      else FULL_WIDTH)"

fun form_loop :: "char32 list \<Rightarrow> FormType \<Rightarrow> FormType" where
  "form_loop [] result = result"
| "form_loop (c # cs) result =
     (let type = form_of_char c
      in if type = UNKNOWN_FORM \<or> (result \<noteq> FORM_TYPE_SIZE \<and> type \<noteq> result) then UNKNOWN_FORM
         else form_loop cs type)"

definition GetFormType :: "bytes \<Rightarrow> FormType" where
  "GetFormType s = form_loop (Utf8ToUtf32 s) FORM_TYPE_SIZE"

section \<open>Symbols\<close>

definition IsFullWidthSymbolInHalfWidthKatakana :: "bytes \<Rightarrow> bool" where
  "IsFullWidthSymbolInHalfWidthKatakana s =
     list_all (\<lambda>c. c \<in> {0x3002, 0x300C, 0x300D, 0x3001, 0x30FB, 0x30FC, 0x3099, 0x309A}) (Utf8ToUtf32 s)"

definition IsHalfWidthKatakanaSymbol :: "bytes \<Rightarrow> bool" where
  "IsHalfWidthKatakanaSymbol s =
     list_all (\<lambda>c. c \<in> {0xFF61, 0xFF62, 0xFF63, 0xFF64, 0xFF65, 0xFF70, 0xFF9E, 0xFF9F}) (Utf8ToUtf32 s)"

definition IsKanaSymbolContained :: "bytes \<Rightarrow> bool" where
  "IsKanaSymbolContained s =
     list_ex (\<lambda>c. c \<in> {0x3002, 0x300C, 0x300D, 0x3001, 0x30FB, 0x30FC, 0x3099, 0x309A,
                          0xFF61, 0xFF62, 0xFF63, 0xFF64, 0xFF65, 0xFF70, 0xFF9E, 0xFF9F}) (Utf8ToUtf32 s)"

definition IsEnglishTransliteration :: "bytes \<Rightarrow> bool" where
  "IsEnglishTransliteration value =
     list_all (\<lambda>b. byte b = 0x20 \<or> byte b = 0x21 \<or> byte b = 0x27 \<or> byte b = 0x2D \<or>
                   (byte b \<ge> 0x41 \<and> byte b \<le> 0x5A) \<or> (byte b \<ge> 0x61 \<and> byte b \<le> 0x7A)) value"

definition IsAscii :: "bytes \<Rightarrow> bool" where
  "IsAscii s = list_all (\<lambda>b. byte b < 128) s"

definition IsAcceptableCharacterAsCandidate :: "char32 \<Rightarrow> bool" where
  "IsAcceptableCharacterAsCandidate letter =
     (if letter > 0x10FFFF then False
      else if letter < 0x20 \<or> (0x7F \<le> letter \<and> letter \<le> 0x9F) then False
      else if letter = 0x061C \<or> letter = 0x200E \<or> letter = 0x200F \<or>
              (0x202A \<le> letter \<and> letter \<le> 0x202E) \<or> (0x2066 \<le> letter \<and> letter \<le> 0x2069) then False
      else True)"

definition StripUtf8Bom :: "bytes \<Rightarrow> bytes" where
  "StripUtf8Bom line =
     (let bom = [char_of (0xef::nat), char_of (0xbb::nat), char_of (0xbf::nat)]
      in if starts_with line bom then drop 3 line else line)"

definition IsUtf16Bom :: "bytes \<Rightarrow> bool" where
  "IsUtf16Bom line \<longleftrightarrow>
     length line \<ge> 2 \<and>
     (take 2 line = [char_of (0xff::nat), char_of (0xfe::nat)] \<or>
      take 2 line = [char_of (0xfe::nat), char_of (0xff::nat)])"

section \<open>Brackets\<close>

text \<open>Each bracket pair is one string, the opening bracket followed by the closing one, of the same
  length. \<open>std::lower_bound\<close> on a sorted array returns the first element that is not below the key,
  which is \<open>dropWhile\<close>; \<open>string_view\<close>s compare bytewise, as lists of characters do.\<close>

definition kSortedBrackets :: "bytes list" where
  "kSortedBrackets = map Utf32ToUtf8
     [[0x28, 0x29], [0x5B, 0x5D], [0x7B, 0x7D], [0xAB, 0xBB], [0x2018, 0x2019], [0x201C, 0x201D],
      [0x2039, 0x203A], [0x3008, 0x3009], [0x300A, 0x300B], [0x300C, 0x300D], [0x300E, 0x300F],
      [0x3010, 0x3011], [0x3014, 0x3015], [0x3018, 0x3019], [0x301A, 0x301B], [0x301D, 0x301F],
      [0xFF08, 0xFF09], [0xFF3B, 0xFF3D], [0xFF5B, 0xFF5D], [0xFF62, 0xFF63]]"

definition OpenBracket :: "bytes \<Rightarrow> bytes" where
  "OpenBracket p = take (length p div 2) p"

definition CloseBracket :: "bytes \<Rightarrow> bytes" where
  "CloseBracket p = drop (length p div 2) p"

definition lower_bound :: "('a \<Rightarrow> bytes) \<Rightarrow> 'a list \<Rightarrow> bytes \<Rightarrow> 'a list" where
  "lower_bound f xs key = dropWhile (\<lambda>p. f p < key) xs"

definition IsOpenBracket :: "bytes \<Rightarrow> bytes option" where
  "IsOpenBracket key =
     (case lower_bound OpenBracket kSortedBrackets key of
        [] \<Rightarrow> None
      | pair # _ \<Rightarrow> if OpenBracket pair \<noteq> key then None else Some (CloseBracket pair))"

definition IsCloseBracket :: "bytes \<Rightarrow> bytes option" where
  "IsCloseBracket key =
     (case lower_bound CloseBracket kSortedBrackets key of
        [] \<Rightarrow> None
      | pair # _ \<Rightarrow> if CloseBracket pair \<noteq> key then None else Some (OpenBracket pair))"

definition kAdditionalBracketPairs :: "bytes list" where
  "kAdditionalBracketPairs = [[CHR 0x22, CHR 0x22], [CHR 0x27, CHR 0x27], ''<>'', [CHR 0x60, CHR 0x60]]"

definition contains_pair :: "bytes list \<Rightarrow> bytes \<Rightarrow> bool" where
  "contains_pair pairs input =
     (case lower_bound (\<lambda>p. p) pairs input of [] \<Rightarrow> False | pair # _ \<Rightarrow> pair = input)"

definition IsBracketPairText :: "bytes \<Rightarrow> bool" where
  "IsBracketPairText input =
     (if contains_pair kAdditionalBracketPairs input then True
      else if contains_pair kSortedBrackets input then True else False)"

section \<open>Serialisation\<close>

definition SerializeUint64 :: "64 word \<Rightarrow> bytes" where
  "SerializeUint64 x =
     char_of (unat (drop_bit 56 x)) #
     map (\<lambda>k. char_of (unat (drop_bit k x AND 0xFF))) [48, 40, 32, 24, 16, 8, 0]"

definition DeserializeUint64 :: "bytes \<Rightarrow> 64 word option" where
  "DeserializeUint64 s =
     (if length s \<noteq> 8 then None
      else Some (push_bit 56 (of_nat (byte (s ! 0))) OR push_bit 48 (of_nat (byte (s ! 1))) OR
                 push_bit 40 (of_nat (byte (s ! 2))) OR push_bit 32 (of_nat (byte (s ! 3))) OR
                 push_bit 24 (of_nat (byte (s ! 4))) OR push_bit 16 (of_nat (byte (s ! 5))) OR
                 push_bit 8 (of_nat (byte (s ! 6))) OR of_nat (byte (s ! 7))))"

section \<open>Properties\<close>

lemma lower_bound_find:
  assumes "sorted_wrt (<) (map f xs)"
  shows "(case lower_bound f xs k of [] \<Rightarrow> None | p # _ \<Rightarrow> if f p \<noteq> k then None else Some (g p)) = Some y \<longleftrightarrow>
    (\<exists>p \<in> set xs. f p = k \<and> g p = y)"
  using assms
proof (induction xs)
  case (Cons p xs)
  then show ?case by (auto simp: lower_bound_def)
qed (simp add: lower_bound_def)

lemma contains_pair_iff: "sorted_wrt (<) pairs \<Longrightarrow> contains_pair pairs s \<longleftrightarrow> s \<in> set pairs"
  by (induction pairs) (auto simp: contains_pair_def lower_bound_def)

text \<open>The table byte by byte; comparing bytes as numbers keeps the evaluation short.\<close>

definition bracket_bytes :: "nat list list" where
  "bracket_bytes =
    [[0x28, 0x29], [0x5B, 0x5D], [0x7B, 0x7D], [0xC2, 0xAB, 0xC2, 0xBB],
     [0xE2, 0x80, 0x98, 0xE2, 0x80, 0x99], [0xE2, 0x80, 0x9C, 0xE2, 0x80, 0x9D],
     [0xE2, 0x80, 0xB9, 0xE2, 0x80, 0xBA], [0xE3, 0x80, 0x88, 0xE3, 0x80, 0x89],
     [0xE3, 0x80, 0x8A, 0xE3, 0x80, 0x8B], [0xE3, 0x80, 0x8C, 0xE3, 0x80, 0x8D],
     [0xE3, 0x80, 0x8E, 0xE3, 0x80, 0x8F], [0xE3, 0x80, 0x90, 0xE3, 0x80, 0x91],
     [0xE3, 0x80, 0x94, 0xE3, 0x80, 0x95], [0xE3, 0x80, 0x98, 0xE3, 0x80, 0x99],
     [0xE3, 0x80, 0x9A, 0xE3, 0x80, 0x9B], [0xE3, 0x80, 0x9D, 0xE3, 0x80, 0x9F],
     [0xEF, 0xBC, 0x88, 0xEF, 0xBC, 0x89], [0xEF, 0xBC, 0xBB, 0xEF, 0xBC, 0xBD],
     [0xEF, 0xBD, 0x9B, 0xEF, 0xBD, 0x9D], [0xEF, 0xBD, 0xA2, 0xEF, 0xBD, 0xA3]]"

lemma map_byte_brackets: "map (map byte) kSortedBrackets = bracket_bytes"
  by (simp add: kSortedBrackets_def bracket_bytes_def CodepointToUtf8_arith)

lemma map_byte_less: "s < t \<longleftrightarrow> map byte s < map byte t"
proof (induction s arbitrary: t)
  case (Cons c s)
  then show ?case by (cases t) (auto simp: less_char_def byte_def)
next
  case Nil
  then show ?case by (cases t) auto
qed

lemma sorted_by_bytes:
  assumes "\<And>p. p \<in> set ps \<Longrightarrow> map byte (f p) = g (map byte p)" and "map (map byte) ps = qs"
    and "sorted_wrt (<) (map g qs)"
  shows "sorted_wrt (<) (map f ps)"
proof -
  have "sorted_wrt (\<lambda>p q. g (map byte p) < g (map byte q)) ps"
    using assms(2,3) by (auto simp: sorted_wrt_map)
  then show ?thesis unfolding sorted_wrt_map
    by (rule sorted_wrt_mono_rel [rotated]) (simp add: map_byte_less assms(1))
qed

lemma brackets_sorted:
  "sorted_wrt (<) (map OpenBracket kSortedBrackets)" "sorted_wrt (<) (map CloseBracket kSortedBrackets)"
  "sorted_wrt (<) kSortedBrackets" "sorted_wrt (<) kAdditionalBracketPairs"
proof -
  have l: "sorted_wrt (<) (map (\<lambda>p. take (length p div 2) p) bracket_bytes)"
    "sorted_wrt (<) (map (\<lambda>p. drop (length p div 2) p) bracket_bytes)"
    "sorted_wrt (<) (map (\<lambda>p. p) bracket_bytes)"
    by (simp_all add: bracket_bytes_def)
  show "sorted_wrt (<) (map OpenBracket kSortedBrackets)"
    by (rule sorted_by_bytes [OF _ map_byte_brackets l(1)]) (simp add: OpenBracket_def take_map)
  show "sorted_wrt (<) (map CloseBracket kSortedBrackets)"
    by (rule sorted_by_bytes [OF _ map_byte_brackets l(2)]) (simp add: CloseBracket_def drop_map)
  have "sorted_wrt (<) (map (\<lambda>p. p) kSortedBrackets)"
    by (rule sorted_by_bytes [OF _ map_byte_brackets l(3)]) simp
  then show "sorted_wrt (<) kSortedBrackets" by simp
  show "sorted_wrt (<) kAdditionalBracketPairs"
    by (simp add: kAdditionalBracketPairs_def less_char_def)
qed

lemma bracket_halves:
  assumes "p \<in> set kSortedBrackets"
  shows "length (OpenBracket p) = length (CloseBracket p) \<and> OpenBracket p @ CloseBracket p = p"
proof -
  have "list_all (\<lambda>p. even (length p)) bracket_bytes" by (simp add: bracket_bytes_def)
  then have "even (length p)"
    using assms unfolding map_byte_brackets [symmetric] by (auto simp: list_all_iff)
  then show ?thesis by (auto simp: OpenBracket_def CloseBracket_def elim!: evenE)
qed

text \<open>The bracket tables are searched correctly: a string is an opening bracket with a given closing
  bracket exactly when that is a closing bracket with the given opening one, exactly when the two
  make up one of the twenty pairs; and \<open>IsBracketPairText\<close> accepts exactly those pairs and the four
  additional ones.\<close>

lemma brackets_inverse:
  "(IsOpenBracket op = Some cl \<longleftrightarrow> IsCloseBracket cl = Some op) \<and>
   (IsOpenBracket op = Some cl \<longleftrightarrow> length op = length cl \<and> op @ cl \<in> set kSortedBrackets) \<and>
   (IsBracketPairText s \<longleftrightarrow> s \<in> set kAdditionalBracketPairs \<or> s \<in> set kSortedBrackets)"
proof -
  have o: "IsOpenBracket op = Some cl \<longleftrightarrow> (\<exists>p \<in> set kSortedBrackets. OpenBracket p = op \<and> CloseBracket p = cl)"
    unfolding IsOpenBracket_def by (rule lower_bound_find [OF brackets_sorted(1)])
  have c: "IsCloseBracket cl = Some op \<longleftrightarrow> (\<exists>p \<in> set kSortedBrackets. CloseBracket p = cl \<and> OpenBracket p = op)"
    unfolding IsCloseBracket_def by (rule lower_bound_find [OF brackets_sorted(2)])
  have h: "OpenBracket (op @ cl) = op" "CloseBracket (op @ cl) = cl" if "length op = length cl"
    using that by (simp_all add: OpenBracket_def CloseBracket_def)
  show ?thesis
    unfolding o c IsBracketPairText_def contains_pair_iff [OF brackets_sorted(3)] contains_pair_iff [OF brackets_sorted(4)]
    using bracket_halves h by (auto 5 2)
qed

text \<open>A character a string of script \<open>t\<close> may hold: one of that script, a sound mark or middle dot in
  kana, a period in a number.\<close>

definition allowed_in :: "ScriptType \<Rightarrow> char32 \<Rightarrow> bool" where
  "allowed_in t c \<longleftrightarrow>
     (if is_kana_mark c then t \<in> {Script_KATAKANA, Script_HIRAGANA}
      else script_of_char c = t \<or> is_period c \<and> t = Script_NUMBER)"

lemma script_loop_Nil: "script_loop b cs [] = (if cs = [] then Some [] else None)"
  by (cases cs) auto

lemma script_loop_single:
  "script_loop False cs [t] = Some bs \<Longrightarrow> bs \<noteq> [] \<Longrightarrow> bs = [t]"
  "script_loop False cs [t] = Some [t] \<longleftrightarrow> list_all (allowed_in t) cs"
proof (induction cs)
  case (Cons c cs)
  {
    case 1
    then show ?case using Cons.IH(1)
      by (auto simp: script_loop_Nil kKanaBs_def kNumBs_def Let_def split: if_splits)
  next
    case 2
    then show ?case using Cons.IH(2)
      by (auto simp: script_loop_Nil kKanaBs_def kNumBs_def Let_def allowed_in_def [of t c])
  }
qed auto

lemma kana_not_period: "is_kana_mark c \<Longrightarrow> \<not> is_period c"
  by (auto simp: is_kana_mark_def is_period_def)

lemma script_loop_kana:
  "script_loop False cs kKanaBs = Some [t] \<longleftrightarrow>
     t \<in> {Script_KATAKANA, Script_HIRAGANA} \<and> list_all (allowed_in t) cs \<and> list_ex (\<lambda>c. \<not> is_kana_mark c) cs"
proof (induction cs)
  case (Cons c cs)
  show ?case
  proof (cases "is_kana_mark c")
    case True
    then show ?thesis using Cons by (auto simp: kKanaBs_def allowed_in_def)
  next
    case False
    have s: "script_loop False cs [u] = Some [t] \<longleftrightarrow> u = t \<and> list_all (allowed_in t) cs" for u
      using script_loop_single [of cs u] by auto
    show ?thesis using False
      by (cases "script_of_char c")
        (auto simp: kKanaBs_def kNumBs_def Let_def s script_loop_Nil allowed_in_def [of _ c])
  qed
qed (simp add: kKanaBs_def)

lemma script_loop_first:
  "script_loop False (c # cs) all_scripts =
     (if is_kana_mark c then script_loop False cs kKanaBs else script_loop False cs [script_of_char c])"
proof -
  have "filter (\<lambda>t. t \<in> set kKanaBs) all_scripts = kKanaBs" by (simp add: all_scripts_def kKanaBs_def)
  moreover have "filter (\<lambda>t. t = u) all_scripts = [u]" for u by (cases u) (simp_all add: all_scripts_def)
  moreover have "all_scripts \<noteq> kNumBs" "all_scripts \<noteq> []" by (simp_all add: all_scripts_def kNumBs_def)
  ultimately show ?thesis by (simp add: Let_def)
qed

lemma period_script:
  assumes "is_period c"
  shows "script_of_char c = UNKNOWN_SCRIPT"
proof -
  have "script_of_char 0xFF0E = UNKNOWN_SCRIPT" "script_of_char 0x2E = UNKNOWN_SCRIPT"
    by (simp_all add: script_of_char_def)
  then show ?thesis using assms by (auto simp: is_period_def)
qed

lemma number_script: "script_of_char c = Script_NUMBER \<Longrightarrow> in_range c 0x30 0x39 \<or> in_range c 0xFF10 0xFF19"
  by (simp add: script_of_char_def split: if_splits)

text \<open>The script of a text: \<open>GetScriptType\<close> names a script exactly when the text is not empty, every
  character is of that script (or a sound mark or middle dot in kana, or a period in a number), and
  the script is determined: a number starts with a digit, and a text of sound marks alone has none.\<close>

lemma GetScriptType_spec:
  assumes "t \<noteq> UNKNOWN_SCRIPT"
  shows "GetScriptType s = t \<longleftrightarrow>
    AsChars32 s \<noteq> [] \<and> list_all (allowed_in t) (AsChars32 s) \<and>
    (if t = Script_NUMBER then script_of_char (hd (AsChars32 s)) = Script_NUMBER
     else list_ex (\<lambda>c. \<not> is_kana_mark c) (AsChars32 s))"
proof -
  have r: "GetScriptType s = t \<longleftrightarrow> script_loop False (AsChars32 s) all_scripts = Some [t]"
    using assms by (auto simp: GetScriptType_def GetScriptTypeInternal_def length_Suc_conv split: option.splits)
  show ?thesis
  proof (cases "AsChars32 s")
    case Nil
    then show ?thesis unfolding r by (simp add: all_scripts_def)
  next
    case (Cons c cs)
    have s: "script_loop False cs [u] = Some [t] \<longleftrightarrow> u = t \<and> list_all (allowed_in t) cs" for u
      using script_loop_single [of cs u] by auto
    show ?thesis
    proof (cases "is_kana_mark c")
      case True
      then have "script_of_char c \<noteq> Script_NUMBER" using number_script [of c] by (auto simp: is_kana_mark_def)
      then show ?thesis unfolding r Cons script_loop_first
        using True by (auto simp: script_loop_kana allowed_in_def [of t c])
    next
      case False
      then show ?thesis unfolding r Cons script_loop_first
        using period_script [of c] assms s [of "script_of_char c"] by (auto simp: allowed_in_def [of t c])
    qed
  qed
qed

lemma byte_of_word: "(of_nat (byte (char_of (unat (drop_bit k x AND 0xFF)))) :: 64 word) = take_bit 8 (drop_bit k x)"
  for x :: "64 word"
proof -
  have m: "drop_bit k x AND 0xFF = take_bit 8 (drop_bit k x)"
    by (simp add: take_bit_eq_mask mask_eq_exp_minus_1)
  have "unat (take_bit 8 (drop_bit k x)) < 256"
    by (simp add: unsigned_take_bit_eq take_bit_nat_less_eq_self take_bit_nat_def)
  then show ?thesis unfolding m by simp
qed

text \<open>A 64-bit number survives its serialisation: \<open>DeserializeUint64\<close> reads back what
  \<open>SerializeUint64\<close> wrote, for every number, and refuses strings of any other length.\<close>

lemma Deserialize_Serialize:
  "DeserializeUint64 (SerializeUint64 x) = Some x \<and> (length s \<noteq> 8 \<longrightarrow> DeserializeUint64 s = None)"
proof -
  have "drop_bit 56 x = take_bit 8 (drop_bit 56 x)"
    by (rule bit_word_eqI) (auto simp: bit_simps dest: bit_imp_le_length)
  then have top: "drop_bit 56 x = drop_bit 56 x AND 0xFF"
    by (simp add: take_bit_eq_mask mask_eq_exp_minus_1)
  have join: "push_bit k (take_bit 8 (drop_bit k x)) OR take_bit k x = take_bit (k + 8) x" for k
    by (rule bit_word_eqI) (auto simp: bit_simps)
  have "x = take_bit 64 x" by (rule bit_word_eqI) (simp add: bit_simps)
  also have "\<dots> = push_bit 56 (take_bit 8 (drop_bit 56 x)) OR (push_bit 48 (take_bit 8 (drop_bit 48 x)) OR
      (push_bit 40 (take_bit 8 (drop_bit 40 x)) OR (push_bit 32 (take_bit 8 (drop_bit 32 x)) OR
      (push_bit 24 (take_bit 8 (drop_bit 24 x)) OR (push_bit 16 (take_bit 8 (drop_bit 16 x)) OR
      (push_bit 8 (take_bit 8 (drop_bit 8 x)) OR take_bit 8 (drop_bit 0 x)))))))"
    using join [of 8] join [of 16] join [of 24] join [of 32] join [of 40] join [of 48] join [of 56] by simp
  finally have "DeserializeUint64 (SerializeUint64 x) = Some x"
    unfolding DeserializeUint64_def SerializeUint64_def
    using byte_of_word [of 56 x] byte_of_word [of 0 x]
    by (simp add: byte_of_word or.assoc top [symmetric] del: byte_char_of)
  then show ?thesis by (simp add: DeserializeUint64_def)
qed

end
