(* ===== verification/Stores.thy ===== *)
theory Stores
  imports Prelude
begin

text \<open>
  The interfaces of the keyed containers of the program, as locales: a store whose keys are equal
  up to a normalisation (the trie under the romaji table cuts keys into code points), and a store
  that also answers prefix queries. The clients' lemmas are proved here once.
\<close>

locale keyed_store =
  fixes empty_store :: "'s"
    and insert_store :: "'k \<Rightarrow> 'd \<Rightarrow> 's \<Rightarrow> 's"
    and lookup_store :: "'k \<Rightarrow> 's \<Rightarrow> 'd option"
    and key_of :: "'k \<Rightarrow> 'n"
  assumes lookup_empty: "lookup_store k empty_store = None"
    and lookup_insert:
      "lookup_store k' (insert_store k d s) =
         (if key_of k' = key_of k then Some d else lookup_store k' s)"
begin

lemma lookup_insert_same: "lookup_store k (insert_store k d s) = Some d"
  by (simp add: lookup_insert)

lemma insert_commute:
  "key_of k \<noteq> key_of k' \<Longrightarrow>
     lookup_store j (insert_store k d (insert_store k' d' s)) =
     lookup_store j (insert_store k' d' (insert_store k d s))"
  by (simp add: lookup_insert)

lemma lookup_key_cong: "key_of k = key_of k' \<Longrightarrow> lookup_store k (insert_store j d s) = Some d \<Longrightarrow>
    key_of k = key_of j \<Longrightarrow> lookup_store k' (insert_store j d s) = Some d"
  by (simp add: lookup_insert)

text \<open>Entries loaded in order: the last one given for a key wins.\<close>

lemma lookup_load:
  "lookup_store k (foldl (\<lambda>s (k', d). insert_store k' d s) s kds) =
     (case find (\<lambda>(k', d). key_of k' = key_of k) (rev kds) of
        None \<Rightarrow> lookup_store k s
      | Some (k', d) \<Rightarrow> Some d)"
proof (induction kds rule: rev_induct)
  case (snoc kd kds)
  obtain k' d where "kd = (k', d)" by fastforce
  then show ?case using snoc by (simp add: lookup_insert)
qed simp

lemma lookup_load_distinct:
  assumes "distinct (map (\<lambda>(k, d). key_of k) kds)" and "(k, d) \<in> set kds"
  shows "lookup_store k (foldl (\<lambda>s (k', d). insert_store k' d s) s kds) = Some d"
  using assms
proof (induction kds rule: rev_induct)
  case (snoc kd kds)
  obtain k' d' where "kd = (k', d')" by fastforce
  then show ?case using snoc by (auto simp: lookup_insert image_iff)
qed simp

end

text \<open>
  A prefix query returns the datum found (if any), how much of the key was consumed, and whether
  no stored key extends what was consumed.
\<close>

locale prefix_store = keyed_store empty_store insert_store lookup_store key_of
  for empty_store :: "'s"
    and insert_store :: "'c list \<Rightarrow> 'd \<Rightarrow> 's \<Rightarrow> 's"
    and lookup_store :: "'c list \<Rightarrow> 's \<Rightarrow> 'd option"
    and key_of :: "'c list \<Rightarrow> 'n" +
  fixes lookup_prefix :: "'c list \<Rightarrow> 's \<Rightarrow> 'd option \<times> nat \<times> bool"
  assumes prefix_consumes: "lookup_prefix k s = (r, n, fixed) \<Longrightarrow> n \<le> length k"
    and prefix_exact:
      "lookup_store k s = Some d \<Longrightarrow> \<exists>fixed. lookup_prefix k s = (Some d, length k, fixed)"
begin

lemma prefix_rest_shorter:
  "lookup_prefix k s = (r, n, fixed) \<Longrightarrow> 0 < n \<Longrightarrow> length (drop n k) < length k"
  using prefix_consumes by fastforce

text \<open>A key just inserted is matched in full by the prefix query.\<close>

lemma prefix_insert:
  "\<exists>fixed. lookup_prefix k (insert_store k d s) = (Some d, length k, fixed)"
  by (rule prefix_exact) (rule lookup_insert_same)

end

end
