(* ===== verification/Char_Trie.thy ===== *)
theory Char_Trie
  imports Stores Utf8 "HOL-Library.Sublist"
begin

text \<open>
  \<open>base/container/trie.h\<close>: a trie over the code points of UTF-8 keys. A node holds an optional
  datum and its sub-tries; the hash map from code point to sub-trie is an association list without
  repeated keys, whose order stands for the unspecified iteration order of the hash map. Keys are
  cut by \<open>Util::SplitFirstChar32\<close>, so a malformed key ends in the code point 0.

  The lemmas read every operation as one on code point paths: \<open>walk\<close> follows a path, \<open>deepest\<close>
  follows it as far as it goes.
\<close>

datatype 'a trie = Trie (data: "'a option") (subs: "(char32 \<times> 'a trie) list")

definition empty_trie :: "'a trie" where
  "empty_trie = Trie None []"

text \<open>\<open>FindResult\<close>: the sub-trie, the first code point, and the rest of the key.\<close>

definition FindSubTrie :: "'a trie \<Rightarrow> bytes \<Rightarrow> 'a trie option \<times> char32 \<times> bytes" where
  "FindSubTrie t key =
     (if key = [] then (None, 0, [])
      else (case SplitFirstChar32 key of (_, c, rest) \<Rightarrow> (map_of (subs t) c, c, rest)))"

lemma FindSubTrie_shorter:
  assumes "key \<noteq> []" and "FindSubTrie t key = (r, c, rest)"
  shows "length rest < length key"
  using assms SplitFirstChar32_rest_shorter by (auto simp: FindSubTrie_def split: prod.splits)

lemma FindSubTrie_Nil [simp]: "FindSubTrie t [] = (None, 0, [])"
  by (simp add: FindSubTrie_def)

function trie_AddEntry :: "bytes \<Rightarrow> 'a \<Rightarrow> 'a trie \<Rightarrow> 'a trie" where
  "trie_AddEntry key d t =
     (if key = [] then Trie (Some d) (subs t)
      else (case FindSubTrie t key of
              (found, c, rest) \<Rightarrow>
                let sub = (case found of None \<Rightarrow> empty_trie | Some s \<Rightarrow> s)
                in Trie (data t) (AList.update c (trie_AddEntry rest d sub) (subs t))))"
  by pat_completeness auto
termination
  by (relation "measure (\<lambda>(key, d, t). length key)") (auto dest: FindSubTrie_shorter [OF _ sym])

text \<open>The result is true when the node has become empty, which tells the parent to erase it.\<close>

function trie_DeleteEntry :: "bytes \<Rightarrow> 'a trie \<Rightarrow> bool \<times> 'a trie" where
  "trie_DeleteEntry key t =
     (if key = [] then
        if subs t = [] then (True, t) else (False, Trie None (subs t))
      else (case FindSubTrie t key of
              (None, _, _) \<Rightarrow> (False, t)
            | (Some s, c, rest) \<Rightarrow>
                (case trie_DeleteEntry rest s of
                   (True, _) \<Rightarrow>
                     let subs' = AList.delete c (subs t) in (subs' = [], Trie (data t) subs')
                 | (False, s') \<Rightarrow> (False, Trie (data t) (AList.update c s' (subs t))))))"
  by pat_completeness auto
termination
  by (relation "measure (\<lambda>(key, t). length key)") (auto dest: FindSubTrie_shorter [OF _ sym])

function trie_LookUp :: "bytes \<Rightarrow> 'a trie \<Rightarrow> 'a option" where
  "trie_LookUp key t =
     (if key = [] then data t
      else (case FindSubTrie t key of
              (None, _, _) \<Rightarrow> None
            | (Some s, _, rest) \<Rightarrow> trie_LookUp rest s))"
  by pat_completeness auto
termination
  by (relation "measure (\<lambda>(key, t). length key)") (auto dest: FindSubTrie_shorter [OF _ sym])

text \<open>\<open>LookUpPrefix\<close> returns the datum (\<open>None\<close> for false), \<open>key_length\<close> and \<open>fixed\<close>.\<close>

function trie_LookUpPrefix :: "bytes \<Rightarrow> 'a trie \<Rightarrow> 'a option \<times> nat \<times> bool" where
  "trie_LookUpPrefix key t =
     (case FindSubTrie t key of
        (None, _, _) \<Rightarrow>
          (case data t of Some d \<Rightarrow> (Some d, 0, subs t = []) | None \<Rightarrow> (None, 0, True))
      | (Some s, _, rest) \<Rightarrow>
          (case trie_LookUpPrefix rest s of
             (r, key_length, fixed) \<Rightarrow> (r, key_length + (length key - length rest), fixed)))"
  by pat_completeness auto
termination
proof (relation "measure (\<lambda>(key, t). length key)", goal_cases)
  case (2 key t a aa b x2)
  then show ?case
    by (cases "key = []") (auto dest: FindSubTrie_shorter [OF _ sym])
qed simp

text \<open>\<open>LongestMatch\<close> returns the datum and \<open>key_length\<close>.\<close>

function trie_LongestMatch :: "bytes \<Rightarrow> 'a trie \<Rightarrow> 'a option \<times> nat" where
  "trie_LongestMatch key t =
     (case FindSubTrie t key of
        (None, _, _) \<Rightarrow> (data t, 0)
      | (Some s, _, rest) \<Rightarrow>
          (case trie_LongestMatch rest s of
             (Some d, key_length) \<Rightarrow> (Some d, key_length + (length key - length rest))
           | (None, key_length) \<Rightarrow> (data t, key_length)))"
  by pat_completeness auto
termination
proof (relation "measure (\<lambda>(key, t). length key)", goal_cases)
  case (2 key t a aa b x2)
  then show ?case
    by (cases "key = []") (auto dest: FindSubTrie_shorter [OF _ sym])
qed simp

fun trie_values :: "'a trie \<Rightarrow> 'a list" where
  "trie_values (Trie d ts) =
     (case d of None \<Rightarrow> [] | Some x \<Rightarrow> [x]) @ concat (map (\<lambda>p. trie_values (snd p)) ts)"

function trie_LookUpPredictiveAll :: "bytes \<Rightarrow> 'a trie \<Rightarrow> 'a list" where
  "trie_LookUpPredictiveAll key t =
     (if key \<noteq> [] then
        (case FindSubTrie t key of
           (None, _, _) \<Rightarrow> []
         | (Some s, _, rest) \<Rightarrow> trie_LookUpPredictiveAll rest s)
      else trie_values t)"
  by pat_completeness auto
termination
  by (relation "measure (\<lambda>(key, t). length key)") (auto dest: FindSubTrie_shorter [OF _ sym])

function trie_HasSubTrie :: "bytes \<Rightarrow> 'a trie \<Rightarrow> bool" where
  "trie_HasSubTrie key t =
     (case FindSubTrie t key of
        (None, _, _) \<Rightarrow> False
      | (Some s, _, rest) \<Rightarrow> rest = [] \<or> trie_HasSubTrie rest s)"
  by pat_completeness auto
termination
proof (relation "measure (\<lambda>(key, t). length key)", goal_cases)
  case (2 key t a aa b x2)
  then show ?case
    by (cases "key = []") (auto dest: FindSubTrie_shorter [OF _ sym])
qed simp

declare trie_AddEntry.simps [simp del] trie_DeleteEntry.simps [simp del] trie_LookUp.simps [simp del]
  trie_LookUpPrefix.simps [simp del] trie_LongestMatch.simps [simp del]
  trie_LookUpPredictiveAll.simps [simp del] trie_HasSubTrie.simps [simp del]


section \<open>Keys as code point paths\<close>

function trie_path :: "bytes \<Rightarrow> char32 list" where
  "trie_path key =
     (if key = [] then [] else (case SplitFirstChar32 key of (_, c, rest) \<Rightarrow> c # trie_path rest))"
  by pat_completeness auto
termination
  by (relation "measure length") (simp, metis SplitFirstChar32_rest_shorter in_measure)

declare trie_path.simps [simp del]

lemma trie_path_Nil [simp]: "trie_path [] = []"
  by (simp add: trie_path.simps)

lemma trie_path_Nil_iff [simp]: "trie_path key = [] \<longleftrightarrow> key = []"
  by (subst trie_path.simps) (auto split: prod.splits)

lemma trie_path_split:
  "key \<noteq> [] \<Longrightarrow> SplitFirstChar32 key = (b, c, rest) \<Longrightarrow> trie_path key = c # trie_path rest"
  by (subst trie_path.simps) simp

lemma FindSubTrie_split:
  "key \<noteq> [] \<Longrightarrow> SplitFirstChar32 key = (b, c, rest) \<Longrightarrow> FindSubTrie t key = (map_of (subs t) c, c, rest)"
  by (simp add: FindSubTrie_def)

lemma trie_path_encode [simp]:
  "list_all unicode cs \<Longrightarrow> trie_path (Utf32ToUtf8 cs) = cs"
  by (induction cs) (simp_all add: trie_path_split)

lemma bytes_split_induct [case_names Nil split]:
  assumes "P []"
    and "\<And>key b c rest. key \<noteq> [] \<Longrightarrow> SplitFirstChar32 key = (b, c, rest) \<Longrightarrow> P rest \<Longrightarrow> P key"
  shows "P (key :: bytes)"
proof (induction key rule: length_induct)
  case (1 key)
  show ?case
  proof (cases "key = []")
    case False
    obtain b c rest where s: "SplitFirstChar32 key = (b, c, rest)"
      by (metis prod_cases3)
    have "length rest < length key"
      using SplitFirstChar32_rest_shorter [OF False] s by auto
    with 1 have "P rest" by blast
    with assms(2) [OF False s] show ?thesis .
  qed (simp add: assms(1))
qed

fun walk :: "char32 list \<Rightarrow> 'a trie \<Rightarrow> 'a trie option" where
  "walk [] t = Some t"
| "walk (c # cs) t = (case map_of (subs t) c of None \<Rightarrow> None | Some s \<Rightarrow> walk cs s)"

text \<open>What the trie stores under a path.\<close>

definition path_data :: "char32 list \<Rightarrow> 'a trie \<Rightarrow> 'a option" where
  "path_data ks t = (case walk ks t of None \<Rightarrow> None | Some s \<Rightarrow> data s)"

lemma path_data_simps [simp]:
  "path_data [] t = data t"
  "path_data (c # cs) t = (case map_of (subs t) c of None \<Rightarrow> None | Some s \<Rightarrow> path_data cs s)"
  by (simp_all add: path_data_def split: option.splits)

lemma trie_LookUp_path: "trie_LookUp key t = path_data (trie_path key) t"
proof (induction key arbitrary: t rule: bytes_split_induct)
  case (split key b c rest)
  then show ?case
    by (subst trie_LookUp.simps) (simp add: FindSubTrie_split trie_path_split split: option.splits)
qed (simp add: trie_LookUp.simps)

fun path_add :: "char32 list \<Rightarrow> 'a \<Rightarrow> 'a trie \<Rightarrow> 'a trie" where
  "path_add [] d t = Trie (Some d) (subs t)"
| "path_add (c # cs) d t =
     Trie (data t)
       (AList.update c
         (path_add cs d (case map_of (subs t) c of None \<Rightarrow> empty_trie | Some s \<Rightarrow> s)) (subs t))"

lemma trie_AddEntry_path: "trie_AddEntry key d t = path_add (trie_path key) d t"
proof (induction key arbitrary: t rule: bytes_split_induct)
  case (split key b c rest)
  then show ?case
    by (subst trie_AddEntry.simps)
      (simp add: FindSubTrie_split trie_path_split Let_def split: option.splits)
qed (simp add: trie_AddEntry.simps)

lemma path_data_empty [simp]: "path_data ks empty_trie = None"
  by (cases ks) (simp_all add: empty_trie_def)

lemma path_data_add:
  "path_data ks' (path_add ks d t) = (if ks' = ks then Some d else path_data ks' t)"
proof (induction ks arbitrary: t ks')
  case Nil
  then show ?case by (cases ks') simp_all
next
  case (Cons c cs)
  then show ?case
    by (cases ks') (auto simp: update_conv' split: option.splits)
qed

lemma trie_LookUp_AddEntry:
  "trie_LookUp key' (trie_AddEntry key d t) =
     (if trie_path key' = trie_path key then Some d else trie_LookUp key' t)"
  by (simp add: trie_LookUp_path trie_AddEntry_path path_data_add)

lemma trie_LookUp_empty [simp]: "trie_LookUp key empty_trie = None"
  by (simp add: trie_LookUp_path)


section \<open>Prefix search\<close>

fun deepest :: "char32 list \<Rightarrow> 'a trie \<Rightarrow> 'a trie \<times> nat" where
  "deepest [] t = (t, 0)"
| "deepest (c # cs) t =
     (case map_of (subs t) c of
        None \<Rightarrow> (t, 0)
      | Some s \<Rightarrow> (case deepest cs s of (u, n) \<Rightarrow> (u, Suc n)))"

fun skip_chars :: "nat \<Rightarrow> bytes \<Rightarrow> bytes" where
  "skip_chars 0 key = key"
| "skip_chars (Suc n) key = (case SplitFirstChar32 key of (_, _, rest) \<Rightarrow> skip_chars n rest)"

lemma skip_chars_length: "length (skip_chars n key) \<le> length key"
proof (induction n arbitrary: key)
  case (Suc n)
  obtain b c rest where s: "SplitFirstChar32 key = (b, c, rest)"
    by (metis prod_cases3)
  have "length rest \<le> length key"
    using SplitFirstChar32_rest_shorter [of key] s by (cases "key = []") auto
  with Suc [of rest] s show ?case by simp
qed simp

lemma skip_chars_split:
  assumes "key \<noteq> []" and "SplitFirstChar32 key = (b, c, rest)"
  shows "length key - length (skip_chars (Suc n) key) =
    length rest - length (skip_chars n rest) + (length key - length rest)"
  using assms SplitFirstChar32_rest_shorter [OF assms(1)] skip_chars_length [of n rest] by simp

lemma skip_chars_encode [simp]:
  "list_all unicode cs \<Longrightarrow> n \<le> length cs \<Longrightarrow>
     skip_chars n (Utf32ToUtf8 cs) = Utf32ToUtf8 (drop n cs)"
proof (induction n arbitrary: cs)
  case (Suc n)
  then show ?case by (cases cs) simp_all
qed simp

lemma deepest_le: "snd (deepest ks t) \<le> length ks"
proof (induction ks arbitrary: t)
  case (Cons c cs)
  show ?case
    using Cons by (auto split: option.splits prod.splits) (metis snd_conv)
qed simp

lemma deepest_walk:
  "walk (take (snd (deepest ks t)) ks) t = Some (fst (deepest ks t))"
  "snd (deepest ks t) < m \<Longrightarrow> m \<le> length ks \<Longrightarrow> walk (take m ks) t = None"
proof (induction ks arbitrary: t m)
  case (Cons c cs)
  {
    case 1
    show ?case using Cons(1) by (auto split: option.splits prod.splits) (metis fst_conv snd_conv)
  next
    case 2
    then obtain m' where m': "m = Suc m'" by (cases m) auto
    show ?case using 2 Cons(2) [of _ m'] m'
      by (auto split: option.splits prod.splits)
  }
qed simp_all

lemma trie_LookUpPrefix_deepest:
  "trie_LookUpPrefix key t =
     (case deepest (trie_path key) t of
        (s, n) \<Rightarrow> (data s, length key - length (skip_chars n key), data s = None \<or> subs s = []))"
proof (induction key arbitrary: t rule: bytes_split_induct)
  case Nil
  then show ?case
    by (subst trie_LookUpPrefix.simps) (simp split: option.splits)
next
  case (split key b c rest)
  show ?case
  proof (cases "map_of (subs t) c")
    case None
    then show ?thesis using split(1,2)
      by (subst trie_LookUpPrefix.simps)
        (simp add: FindSubTrie_split trie_path_split split: option.splits)
  next
    case (Some s)
    obtain u n where d: "deepest (trie_path rest) s = (u, n)" by fastforce
    from split(3) [of s] d Some split(1,2) show ?thesis
      by (subst trie_LookUpPrefix.simps)
        (simp add: FindSubTrie_split trie_path_split skip_chars_split [OF split(1,2)] del: skip_chars.simps)
  qed
qed

lemma trie_LookUpPrefix_length:
  "trie_LookUpPrefix key t = (r, n, fixed) \<Longrightarrow> n \<le> length key"
  by (auto simp: trie_LookUpPrefix_deepest split: prod.splits)

fun longest :: "char32 list \<Rightarrow> 'a trie \<Rightarrow> ('a \<times> nat) option" where
  "longest [] t = map_option (\<lambda>d. (d, 0)) (data t)"
| "longest (c # cs) t =
     (case map_of (subs t) c of
        None \<Rightarrow> map_option (\<lambda>d. (d, 0)) (data t)
      | Some s \<Rightarrow>
          (case longest cs s of
             Some (d, n) \<Rightarrow> Some (d, Suc n)
           | None \<Rightarrow> map_option (\<lambda>d. (d, 0)) (data t)))"

lemma trie_LongestMatch_longest:
  "trie_LongestMatch key t =
     (case longest (trie_path key) t of
        None \<Rightarrow> (None, 0)
      | Some (d, n) \<Rightarrow> (Some d, length key - length (skip_chars n key)))"
proof (induction key arbitrary: t rule: bytes_split_induct)
  case Nil
  then show ?case
    by (subst trie_LongestMatch.simps) (cases "data t"; simp)
next
  case (split key b c rest)
  show ?case
  proof (cases "map_of (subs t) c")
    case None
    then show ?thesis using split(1,2)
      by (subst trie_LongestMatch.simps)
        (cases "data t"; simp add: FindSubTrie_split trie_path_split)
  next
    case (Some s)
    with split(3) [of s] split(1,2) show ?thesis
      by (subst trie_LongestMatch.simps, cases "data t"; cases "longest (trie_path rest) s")
        (auto simp: FindSubTrie_split trie_path_split skip_chars_split [OF split(1,2)]
          simp del: skip_chars.simps(2))
  qed
qed

lemma longest_spec:
  "longest ks t = Some (d, n) \<Longrightarrow>
     n \<le> length ks \<and> path_data (take n ks) t = Some d \<and>
     (\<forall>m. n < m \<and> m \<le> length ks \<longrightarrow> path_data (take m ks) t = None)"
  "longest ks t = None \<Longrightarrow> m \<le> length ks \<Longrightarrow> path_data (take m ks) t = None"
proof (induction ks arbitrary: t d n m)
  case (Cons c cs)
  {
    case 1
    show ?case
    proof (cases "map_of (subs t) c")
      case None
      with 1 show ?thesis by (auto simp: take_Cons split: nat.splits)
    next
      case (Some s)
      show ?thesis
      proof (cases "longest cs s")
        case None
        with 1 Some Cons(2) [OF None] show ?thesis
          by (auto simp: take_Cons split: nat.splits)
      next
        case l: (Some dn)
        obtain d' n' where dn: "dn = (d', n')" by fastforce
        from Cons(1) [of s d' n'] l dn Some 1 show ?thesis
          by (auto simp: take_Cons split: nat.splits)
      qed
    qed
  next
    case 2
    then show ?case using Cons(2)
      by (auto simp: take_Cons split: nat.splits option.splits prod.splits)
  }
qed (auto simp: path_data_def)


section \<open>Predictive search and sub-trie test\<close>

lemma trie_LookUpPredictiveAll_walk:
  "trie_LookUpPredictiveAll key t =
     (case walk (trie_path key) t of None \<Rightarrow> [] | Some s \<Rightarrow> trie_values s)"
proof (induction key arbitrary: t rule: bytes_split_induct)
  case (split key b c rest)
  then show ?case
    by (subst trie_LookUpPredictiveAll.simps)
      (simp add: FindSubTrie_split trie_path_split split: option.splits)
qed (simp add: trie_LookUpPredictiveAll.simps)

text \<open>Every sub-trie list has distinct code points, as a hash map has distinct keys.\<close>

inductive trie_ok :: "'a trie \<Rightarrow> bool" where
  "distinct (map fst ts) \<Longrightarrow> (\<And>c s. (c, s) \<in> set ts \<Longrightarrow> trie_ok s) \<Longrightarrow> trie_ok (Trie d ts)"

inductive_simps trie_ok_simps: "trie_ok (Trie d ts)"

lemma trie_ok_empty [simp]: "trie_ok empty_trie"
  by (simp add: empty_trie_def trie_ok_simps)

lemma trie_ok_sub: "trie_ok t \<Longrightarrow> map_of (subs t) c = Some s \<Longrightarrow> trie_ok s"
  by (cases t) (auto simp: trie_ok_simps dest: map_of_SomeD)

lemma set_update_cases: "(c, s) \<in> set (AList.update k v xs) \<Longrightarrow> (c, s) = (k, v) \<or> (c, s) \<in> set xs"
  by (induction xs) (auto split: if_splits)

lemma path_add_ok: "trie_ok t \<Longrightarrow> trie_ok (path_add ks d t)"
proof (induction ks arbitrary: t)
  case Nil
  then show ?case by (cases t) (auto simp: trie_ok_simps)
next
  case (Cons c cs)
  have sub: "trie_ok (case map_of (subs t) c of None \<Rightarrow> empty_trie | Some s \<Rightarrow> s)"
    using Cons(2) by (auto split: option.splits intro: trie_ok_sub)
  show ?case
    using Cons(2) Cons(1) [OF sub]
    by (cases t) (auto simp: trie_ok_simps distinct_update dest!: set_update_cases)
qed

lemma trie_AddEntry_ok [intro]: "trie_ok t \<Longrightarrow> trie_ok (trie_AddEntry key d t)"
  by (simp add: trie_AddEntry_path path_add_ok)

lemma walk_ok: "trie_ok t \<Longrightarrow> walk ks t = Some s \<Longrightarrow> trie_ok s"
  by (induction ks arbitrary: t) (auto split: option.splits dest: trie_ok_sub)

lemma walk_append:
  "walk (ks @ ls) t = (case walk ks t of None \<Rightarrow> None | Some s \<Rightarrow> walk ls s)"
  by (induction ks arbitrary: t) (auto split: option.splits)

lemma path_data_append:
  "path_data (ks @ ls) t = (case walk ks t of None \<Rightarrow> None | Some s \<Rightarrow> path_data ls s)"
  by (simp add: path_data_def walk_append split: option.splits)

lemma trie_values_set:
  "trie_ok t \<Longrightarrow> set (trie_values t) = {d. \<exists>ks. path_data ks t = Some d}"
proof (induction t rule: trie_ok.induct)
  case (1 ts d)
  note dist = 1(1) and IH = 1(3)
  have sub: "map_of ts c = Some s \<longleftrightarrow> (c, s) \<in> set ts" for c s
    using dist by simp
  show ?case (is "?L = ?R")
  proof (rule set_eqI)
    fix x
    have "x \<in> ?L \<longleftrightarrow> d = Some x \<or> (\<exists>c s. (c, s) \<in> set ts \<and> x \<in> set (trie_values s))"
      by (fastforce split: option.splits)
    also have "\<dots> \<longleftrightarrow> d = Some x \<or> (\<exists>c s ks. (c, s) \<in> set ts \<and> path_data ks s = Some x)"
      using IH by blast
    also have "\<dots> \<longleftrightarrow> x \<in> ?R"
    proof
      assume "d = Some x \<or> (\<exists>c s ks. (c, s) \<in> set ts \<and> path_data ks s = Some x)"
      then show "x \<in> ?R"
      proof (elim disjE exE conjE)
        assume "d = Some x"
        then have "path_data [] (Trie d ts) = Some x" by simp
        then show ?thesis by blast
      next
        fix c s ks assume "(c, s) \<in> set ts" "path_data ks s = Some x"
        then have "path_data (c # ks) (Trie d ts) = Some x" by (simp add: sub [symmetric])
        then show ?thesis by blast
      qed
    next
      assume "x \<in> ?R"
      then obtain ks where "path_data ks (Trie d ts) = Some x" by blast
      then show "d = Some x \<or> (\<exists>c s ks. (c, s) \<in> set ts \<and> path_data ks s = Some x)"
        by (cases ks) (auto simp: sub split: option.splits)
    qed
    finally show "x \<in> ?L \<longleftrightarrow> x \<in> ?R" .
  qed
qed

lemma trie_LookUpPredictiveAll_set:
  "trie_ok t \<Longrightarrow> set (trie_LookUpPredictiveAll key t) =
     {d. \<exists>ks. path_data (trie_path key @ ks) t = Some d}"
  by (cases "walk (trie_path key) t")
    (simp_all add: trie_LookUpPredictiveAll_walk path_data_append trie_values_set walk_ok)

lemma trie_HasSubTrie_walk:
  "trie_HasSubTrie key t \<longleftrightarrow> key \<noteq> [] \<and> walk (trie_path key) t \<noteq> None"
proof (induction key arbitrary: t rule: bytes_split_induct)
  case (split key b c rest)
  then show ?case
    by (subst trie_HasSubTrie.simps)
      (auto simp add: FindSubTrie_split trie_path_split split: option.splits)
qed (simp add: trie_HasSubTrie.simps)


section \<open>Deletion\<close>

fun path_delete :: "char32 list \<Rightarrow> 'a trie \<Rightarrow> bool \<times> 'a trie" where
  "path_delete [] t = (if subs t = [] then (True, t) else (False, Trie None (subs t)))"
| "path_delete (c # cs) t =
     (case map_of (subs t) c of
        None \<Rightarrow> (False, t)
      | Some s \<Rightarrow>
          (case path_delete cs s of
             (True, _) \<Rightarrow>
               let subs' = AList.delete c (subs t) in (subs' = [], Trie (data t) subs')
           | (False, s') \<Rightarrow> (False, Trie (data t) (AList.update c s' (subs t)))))"

lemma trie_DeleteEntry_path: "trie_DeleteEntry key t = path_delete (trie_path key) t"
proof (induction key arbitrary: t rule: bytes_split_induct)
  case (split key b c rest)
  then show ?case
    by (subst trie_DeleteEntry.simps)
      (simp add: FindSubTrie_split trie_path_split Let_def split: option.splits)
qed (simp add: trie_DeleteEntry.simps)

lemma path_delete_empty: "path_delete ks t = (True, t') \<Longrightarrow> subs t' = []"
  by (cases ks) (auto simp: Let_def split: if_splits option.splits prod.splits bool.splits)

lemma path_data_delete:
  "path_data (c' # cs) (Trie d (AList.delete c ts)) =
     (if c' = c then None else path_data (c' # cs) (Trie d ts))"
  by (simp add: delete_conv')

lemma path_data_update:
  "path_data (c' # cs) (Trie d (AList.update c s ts)) =
     (if c' = c then path_data cs s else path_data (c' # cs) (Trie d ts))"
  by (simp add: update_conv')

lemma path_data_data: "path_data (c # cs) (Trie (data t) (subs t)) = path_data (c # cs) t"
  by simp

text \<open>A key that is not a prefix of the deleted one keeps its datum.\<close>

lemma path_delete_other:
  "path_delete ks t = (b, t') \<Longrightarrow> \<not> prefix ks' ks \<Longrightarrow> path_data ks' t' = path_data ks' t"
proof (induction ks arbitrary: t ks' b t')
  case Nil
  then show ?case by (cases ks') (auto split: if_splits)
next
  case (Cons c cs)
  obtain c' cs' where k: "ks' = c' # cs'" using Cons(3) by (cases ks') auto
  show ?case
  proof (cases "map_of (subs t) c")
    case (Some s)
    obtain b1 s1 where d: "path_delete cs s = (b1, s1)" by fastforce
    have IH: "c' = c \<Longrightarrow> path_data cs' s1 = path_data cs' s"
      using Cons(1) [OF d, of cs'] Cons(3) k by simp
    have gone: "b1 \<Longrightarrow> c' = c \<Longrightarrow> path_data cs' s = None"
      using IH path_delete_empty [of cs s s1] d Cons(3) k by (cases cs') auto
    show ?thesis
    proof (cases b1)
      case True
      then have "t' = Trie (data t) (AList.delete c (subs t))"
        using Cons(2) Some d by (auto simp: Let_def)
      then show ?thesis using gone [OF True] Some k
        by (simp only: path_data_delete path_data_data) simp
    next
      case False
      then have "t' = Trie (data t) (AList.update c s1 (subs t))"
        using Cons(2) Some d by (auto simp: Let_def)
      then show ?thesis using IH Some k
        by (simp only: path_data_update path_data_data) simp
    qed
  qed (use Cons(2) in auto)
qed

text \<open>The deleted key itself is gone, unless it is the empty key of a childless root.\<close>

lemma path_delete_same:
  "path_delete ks t = (b, t') \<Longrightarrow> ks \<noteq> [] \<or> subs t \<noteq> [] \<Longrightarrow> path_data ks t' = None"
proof (induction ks arbitrary: t b t')
  case Nil
  then show ?case by (auto split: if_splits)
next
  case (Cons c cs)
  show ?case
  proof (cases "map_of (subs t) c")
    case (Some s)
    obtain b1 s1 where d: "path_delete cs s = (b1, s1)" by fastforce
    have "\<not> b1 \<Longrightarrow> path_data cs s1 = None"
      using Cons(1) [OF d] d by (cases "cs = []") (auto split: if_splits)
    then show ?thesis
      using Cons(2) Some d by (cases b1) (auto simp: delete_conv' update_conv' Let_def)
  qed (use Cons(2) in auto)
qed

text \<open>A node that only leads to the deleted key is erased with it, whatever datum it holds.\<close>

lemma path_delete_chain:
  assumes "ks \<noteq> []"
  shows "fst (path_delete ks (path_add ks d (Trie e [])))"
  using assms
proof (induction ks arbitrary: e)
  case (Cons c cs)
  have "fst (path_delete cs (path_add cs d empty_trie))"
    using Cons(1) by (cases "cs = []") (auto simp: empty_trie_def)
  then show ?case
    by (cases "path_delete cs (path_add cs d empty_trie)") (auto simp: Let_def)
qed simp

lemma path_delete_erases_prefix:
  assumes "ks \<noteq> []" and "ls \<noteq> []"
  shows "path_data ks
    (snd (path_delete (ks @ ls) (path_add (ks @ ls) d2 (path_add ks d1 empty_trie)))) = None"
  using assms
proof (induction ks)
  case (Cons c cs)
  define s where "s = path_add (cs @ ls) d2 (path_add cs d1 empty_trie)"
  have "fst (path_delete (cs @ ls) s) \<or> path_data cs (snd (path_delete (cs @ ls) s)) = None"
  proof (cases "cs = []")
    case True
    then have "s = path_add ls d2 (Trie (Some d1) [])" by (simp add: s_def empty_trie_def)
    then show ?thesis by (simp add: True path_delete_chain [OF Cons(3)])
  qed (use Cons s_def in auto)
  moreover have "path_add ((c # cs) @ ls) d2 (path_add (c # cs) d1 empty_trie) = Trie None [(c, s)]"
    by (simp add: s_def empty_trie_def)
  ultimately show ?case
    by (cases "path_delete (cs @ ls) s") (simp split: bool.splits, auto)
qed simp

section \<open>The trie as a store\<close>

lemma path_data_deepest:
  "path_data ks t = Some d \<Longrightarrow> \<exists>s. deepest ks t = (s, length ks) \<and> data s = Some d"
  by (induction ks arbitrary: t) (fastforce split: option.splits)+

lemma skip_all_chars: "skip_chars (length (trie_path key)) key = []"
  by (induction key rule: bytes_split_induct) (simp_all add: trie_path_split)

lemma trie_LookUpPrefix_exact:
  "trie_LookUp key t = Some d \<Longrightarrow> \<exists>fixed. trie_LookUpPrefix key t = (Some d, length key, fixed)"
  by (auto simp: trie_LookUp_path trie_LookUpPrefix_deepest skip_all_chars dest: path_data_deepest)

interpretation trie_store: prefix_store empty_trie trie_AddEntry trie_LookUp trie_path trie_LookUpPrefix
  by unfold_locales
    (simp_all add: trie_LookUp_AddEntry trie_LookUpPrefix_length trie_LookUpPrefix_exact)

definition trie_load :: "(bytes \<times> 'a) list \<Rightarrow> 'a trie" where
  "trie_load rules = foldl (\<lambda>t (k, d). trie_AddEntry k d t) empty_trie rules"

lemma trie_load_find:
  "trie_LookUp key (trie_load rules) =
     (case find (\<lambda>(k, d). trie_path k = trie_path key) (rev rules) of
        None \<Rightarrow> None | Some (k, d) \<Rightarrow> Some d)"
  by (simp add: trie_load_def trie_store.lookup_load split: option.splits)

lemma trie_path_inject:
  assumes "utf8_string k" and "utf8_string k'"
  shows "trie_path k = trie_path k' \<longleftrightarrow> k = k'"
  using assms by (metis utf8_stringE trie_path_encode)

lemma find_cong_on: "(\<And>x. x \<in> set xs \<Longrightarrow> P x = Q x) \<Longrightarrow> find P xs = find Q xs"
  by (induction xs) auto

text \<open>C3: Entries added to a trie in any order of valid UTF-8 keys are looked up exactly: \<open>LookUp\<close>
  returns the datum last added under the key, and nothing for a key never added.\<close>

theorem trie_load_last_wins:
  assumes "list_all (\<lambda>(k, d). utf8_string k) rules" and "utf8_string key"
  shows "trie_LookUp key (trie_load rules) = map_of (rev rules) key"
proof -
  have "find (\<lambda>(k, d). trie_path k = trie_path key) (rev rules) =
    find (\<lambda>(k, d). k = key) (rev rules)"
    by (rule find_cong_on) (use assms in \<open>auto simp: list_all_iff trie_path_inject\<close>)
  moreover have "(case find (\<lambda>(k, d). k = key) xs of None \<Rightarrow> None | Some (k, d) \<Rightarrow> Some d) =
    map_of xs key" for xs :: "(bytes \<times> 'a) list"
    by (induction xs) auto
  ultimately show ?thesis by (simp add: trie_load_find)
qed

theorem trie_load_last_wins_witness:
  "trie_LookUp ''ab'' (trie_load [(''a'', 1), (''ab'', 2), (''ab'', 3::nat)]) = Some 3"
proof -
  have "utf8_string [CHR ''a'']" "utf8_string ''ab''"
    by (rule utf8_string_ascii, simp add: byte_def)+
  then show ?thesis
    using trie_load_last_wins [of "[(''a'', 1), (''ab'', 2), (''ab'', 3::nat)]" "''ab''"] by simp
qed


text \<open>C7: On a valid UTF-8 key \<open>LookUpPrefix\<close> stops at the deepest node the key reaches and reports
  that node's datum and the bytes consumed (so a key whose deepest node holds no datum is not found,
  even when a shorter prefix is stored); it says that the match is fixed exactly when the node has no datum
  or no node below it. \<open>LongestMatch\<close> returns the longest prefix that is stored.\<close>

theorem trie_prefix_search:
  assumes "list_all unicode ks"
  shows "(\<exists>m s. walk (take m ks) t = Some s \<and>
        trie_LookUpPrefix (Utf32ToUtf8 ks) t =
          (data s, length (Utf32ToUtf8 (take m ks)), data s = None \<or> subs s = []) \<and>
        trie_LookUp (Utf32ToUtf8 (take m ks)) t = data s \<and>
        m \<le> length ks \<and> (0 < m \<longrightarrow> trie_HasSubTrie (Utf32ToUtf8 (take m ks)) t) \<and>
        (\<forall>j. m < j \<and> j \<le> length ks \<longrightarrow> \<not> trie_HasSubTrie (Utf32ToUtf8 (take j ks)) t)) \<and>
    (case trie_LongestMatch (Utf32ToUtf8 ks) t of
       (Some d, n) \<Rightarrow> \<exists>m \<le> length ks. n = length (Utf32ToUtf8 (take m ks)) \<and>
          trie_LookUp (Utf32ToUtf8 (take m ks)) t = Some d \<and>
          (\<forall>j. m < j \<and> j \<le> length ks \<longrightarrow> trie_LookUp (Utf32ToUtf8 (take j ks)) t = None)
     | (None, n) \<Rightarrow> n = 0 \<and>
          (\<forall>j \<le> length ks. trie_LookUp (Utf32ToUtf8 (take j ks)) t = None))"
    (is "?prefix \<and> ?longest")
proof
  have u: "list_all unicode (take m ks)" for m
    using assms by (auto simp: list_all_iff dest: in_set_takeD)
  have enc [simp]: "trie_path (Utf32ToUtf8 (take m ks)) = take m ks" for m
    by (rule trie_path_encode) (rule u)
  have len: "length (Utf32ToUtf8 ks) - length (Utf32ToUtf8 (drop m ks)) = length (Utf32ToUtf8 (take m ks))"
    for m
    by (metis Utf32ToUtf8_simps(3) add_diff_cancel_right' append_take_drop_id length_append)
  have nonempty: "Utf32ToUtf8 (take m ks) = [] \<longleftrightarrow> take m ks = []" for m
    using enc [of m] trie_path_Nil_iff by metis
  obtain s n where d: "deepest ks t = (s, n)" by fastforce
  have n: "n \<le> length ks" using deepest_le [of ks t] d by simp
  have w: "walk (take n ks) t = Some s" "\<And>j. n < j \<Longrightarrow> j \<le> length ks \<Longrightarrow> walk (take j ks) t = None"
    using deepest_walk [of ks t] d by simp_all
  show ?prefix
    using assms d n w
    by (intro exI [of _ n] exI [of _ s])
      (simp add: trie_LookUpPrefix_deepest trie_LookUp_path trie_HasSubTrie_walk path_data_def len nonempty,
        auto)
  show ?longest
  proof (cases "longest ks t")
    case None
    then show ?thesis using assms longest_spec(2) [OF None]
      by (simp add: trie_LongestMatch_longest trie_LookUp_path)
  next
    case (Some dn)
    obtain d n where "dn = (d, n)" by fastforce
    with Some have l: "longest ks t = Some (d, n)" by simp
    show ?thesis using assms longest_spec(1) [OF l] l
      by (auto simp: trie_LongestMatch_longest trie_LookUp_path len intro!: exI [of _ n])
  qed
qed


definition abc_trie :: "nat trie" where
  "abc_trie = trie_load [(''abc'', 1), (''abd'', 2), (''a'', 3)]"

lemma ascii_path: "list_all (\<lambda>b. 0 < byte b \<and> byte b < 0x80) s \<Longrightarrow> trie_path s = map byte s"
  by (induction s) (simp_all add: trie_path_split SplitFirstChar32_ascii)

lemma abc_trie_eval:
  "abc_trie = Trie None [(97, Trie (Some 3) [(98, Trie None [(99, Trie (Some 1) []), (100, Trie (Some 2) [])])])]"
  by (simp add: abc_trie_def trie_load_def trie_AddEntry_path ascii_path byte_def empty_trie_def)

theorem trie_prefix_search_witness:
  "(\<exists>m s. walk (take m [97, 98, 101]) abc_trie = Some s \<and>
      trie_LookUpPrefix (Utf32ToUtf8 [97, 98, 101]) abc_trie =
        (data s, length (Utf32ToUtf8 (take m [97, 98, 101])), data s = None \<or> subs s = [])) \<and>
   trie_LookUpPrefix ''abe'' abc_trie = (None, 2, True) \<and>
   trie_LongestMatch ''abe'' abc_trie = (Some 3, 1)"
proof -
  have u: "list_all unicode [97, 98, 101]" by (simp add: unicode_def)
  have path: "trie_path ''abe'' = [97, 98, 101]" by (simp add: ascii_path byte_def)
  have skip: "skip_chars 2 ''abe'' = ''e''" "skip_chars 1 ''abe'' = ''be''"
    by (simp_all add: numeral_2_eq_2 SplitFirstChar32_ascii byte_def)
  have "trie_LookUpPrefix ''abe'' abc_trie = (None, 2, True)"
    by (simp add: trie_LookUpPrefix_deepest path abc_trie_eval skip flip: numeral_2_eq_2)
  moreover have "trie_LongestMatch ''abe'' abc_trie = (Some 3, 1)"
    using skip(2) by (simp add: trie_LongestMatch_longest path abc_trie_eval)
  ultimately show ?thesis
    using trie_prefix_search [OF u, of abc_trie] by blast
qed

text \<open>C8: \<open>DeleteEntry\<close> of a valid non-empty key removes that key, and every valid key that is not a
  prefix of it is looked up as before.\<close>

theorem trie_DeleteEntry_correct:
  assumes "utf8_string key" and "key \<noteq> []" and "utf8_string other"
    and "\<not> prefix (Utf8ToUtf32 other) (Utf8ToUtf32 key)"
  shows "trie_LookUp key (snd (trie_DeleteEntry key t)) = None \<and>
    trie_LookUp other (snd (trie_DeleteEntry key t)) = trie_LookUp other t"
proof -
  obtain b t' where d: "path_delete (trie_path key) t = (b, t')" by fastforce
  have "trie_path key = Utf8ToUtf32 key" "trie_path other = Utf8ToUtf32 other"
    using assms by (metis utf8_stringE trie_path_encode)+
  moreover have "trie_path key \<noteq> []" using assms(2) by simp
  ultimately show ?thesis using path_delete_same [OF d] path_delete_other [OF d] assms d
    by (simp del: trie_path_Nil_iff add: trie_DeleteEntry_path trie_LookUp_path)
qed

theorem trie_DeleteEntry_correct_witness:
  "trie_LookUp ''abc'' (snd (trie_DeleteEntry ''abc'' abc_trie)) = None \<and>
   trie_LookUp ''abd'' (snd (trie_DeleteEntry ''abc'' abc_trie)) = Some 2"
proof -
  have u: "utf8_string ''abc''" "utf8_string ''abd''"
    by (rule utf8_string_ascii, simp add: byte_def)+
  have p: "\<not> prefix (Utf8ToUtf32 ''abd'') (Utf8ToUtf32 ''abc'')"
    by (simp add: Utf8ToUtf32_ascii byte_def)
  have "trie_LookUp ''abd'' abc_trie = Some 2"
    by (simp add: trie_LookUp_path ascii_path byte_def abc_trie_eval)
  with trie_DeleteEntry_correct [OF u(1) _ u(2) p, of abc_trie] show ?thesis by simp
qed

text \<open>Deleting a key can lose a shorter one: \<open>DeleteEntry\<close> reports a node as empty when it has no
  sub-trie left and does not look at the node's own datum, so after adding \<open>key\<close> and a longer
  \<open>key @ ext\<close> to an empty trie, deleting the longer key makes \<open>key\<close> disappear as well.\<close>

lemma trie_DeleteEntry_loses_prefix:
  assumes "utf8_string key" and "key \<noteq> []" and "utf8_string ext" and "ext \<noteq> []"
  shows "trie_LookUp key (snd (trie_DeleteEntry (key @ ext) (trie_load [(key, d1), (key @ ext, d2)]))) = None"
proof -
  obtain ks where ks: "list_all unicode ks" "key = Utf32ToUtf8 ks" using assms(1) by (rule utf8_stringE)
  obtain ls where ls: "list_all unicode ls" "ext = Utf32ToUtf8 ls" using assms(3) by (rule utf8_stringE)
  have "key @ ext = Utf32ToUtf8 (ks @ ls)" "list_all unicode (ks @ ls)" using ks ls by simp_all
  then have p: "trie_path (key @ ext) = ks @ ls" by (metis trie_path_encode)
  have "ks \<noteq> []" "ls \<noteq> []" using assms ks ls by auto
  then show ?thesis using path_delete_erases_prefix [of ks ls d2 d1] p ks
    by (simp add: trie_load_def trie_LookUp_path trie_DeleteEntry_path trie_AddEntry_path)
qed

end
