(* ===== verification/Special_Key.thy ===== *)
theory Special_Key
  imports Utf8_Text "HOL-Library.Sublist"
begin

text \<open>
  \<open>composer/special_key.cc\<close>: the notation \<open>{abc}\<close> of romaji tables for keys that are not characters.
  A registered key is replaced by a private-use code point from U+F000 on; an unregistered one by
  the bytes 0x0F, key, 0x0E. \<open>SpecialKeyMap\<close> is the association list of its hash map, which only
  ever gains keys.
\<close>

type_synonym SpecialKeyMap = "(bytes \<times> bytes) list"

definition kSpecialKeyBegin :: char32 where "kSpecialKeyBegin = 0xF000"
definition kSpecialKeyEnd :: char32 where "kSpecialKeyEnd = 0xF8FF"
definition kSpecialKeyOpen :: char where "kSpecialKeyOpen = CHR 0x0F"
definition kSpecialKeyClose :: char where "kSpecialKeyClose = CHR 0x0E"

definition IsSpecialKey :: "char32 \<Rightarrow> bool" where
  "IsSpecialKey c \<longleftrightarrow> kSpecialKeyBegin \<le> c \<and> c \<le> kSpecialKeyEnd"

definition FindBlock :: "bytes \<Rightarrow> char \<Rightarrow> char \<Rightarrow> (nat \<times> nat) option" where
  "FindBlock input open_c close_c =
     (case find_byte open_c input of
        None \<Rightarrow> None
      | Some open_pos \<Rightarrow>
          (case find_byte_from close_c input open_pos of
             None \<Rightarrow> None
           | Some close_pos \<Rightarrow> Some (open_pos, close_pos)))"

lemma FindBlock_bounds:
  assumes "FindBlock input a b = Some (open_pos, close_pos)"
  shows "open_pos \<le> close_pos" and "close_pos < length input"
  using assms by (auto simp: FindBlock_def split: option.splits dest: find_byte_from_SomeD)

text \<open>The callback may change the state \<open>s\<close> (the map, for \<open>Register\<close>).\<close>

function ParseBlock :: "(bytes \<Rightarrow> 's \<Rightarrow> bytes \<times> 's) \<Rightarrow> bytes \<Rightarrow> 's \<Rightarrow> bytes \<times> 's" where
  "ParseBlock callback input s =
     (if input = [] then ([], s)
      else
        (case FindBlock input (CHR ''{'') (CHR ''}'') of
           None \<Rightarrow> (input, s)
         | Some (open_pos, close_pos) \<Rightarrow>
             let key = take (close_pos - open_pos - 1) (drop (open_pos + 1) input);
                 (out, s1) = (if key = ''{'' then (''{'', s) else callback key s);
                 (rest, s2) = ParseBlock callback (ClippedSubstr input (close_pos + 1)) s1
             in (take open_pos input @ out @ rest, s2)))"
  by pat_completeness auto
termination
  by (relation "measure (\<lambda>(f, input, s). length input)")
    (auto simp: ClippedSubstr_def dest: FindBlock_bounds)

declare ParseBlock.simps [simp del]

definition Register_key :: "bytes \<Rightarrow> SpecialKeyMap \<Rightarrow> bytes \<times> SpecialKeyMap" where
  "Register_key key m =
     (case map_of m key of
        Some special_key \<Rightarrow> (special_key, m)
      | None \<Rightarrow>
          let keycode = kSpecialKeyBegin + length m;
              keycode = (if keycode > kSpecialKeyEnd then kSpecialKeyEnd else keycode);
              special_key = CodepointToUtf8 keycode
          in (special_key, (key, special_key) # m))"

definition Register :: "bytes \<Rightarrow> SpecialKeyMap \<Rightarrow> bytes \<times> SpecialKeyMap" where
  "Register input m = ParseBlock Register_key input m"

definition Parse_key :: "SpecialKeyMap \<Rightarrow> bytes \<Rightarrow> unit \<Rightarrow> bytes \<times> unit" where
  "Parse_key m key u =
     ((case map_of m key of
         Some special_key \<Rightarrow> special_key
       | None \<Rightarrow> [kSpecialKeyOpen] @ key @ [kSpecialKeyClose]), ())"

definition Parse :: "SpecialKeyMap \<Rightarrow> bytes \<Rightarrow> bytes" where
  "Parse m input = fst (ParseBlock (Parse_key m) input ())"

definition TrimLeadingSpecialKey :: "bytes \<Rightarrow> bytes" where
  "TrimLeadingSpecialKey input =
     (case SplitFirstChar32 input of
        (_, first_char, rest) \<Rightarrow>
          if IsSpecialKey first_char then drop (length input - length rest) input
          else if \<not> starts_with input [kSpecialKeyOpen] then input
          else (case find_byte_from kSpecialKeyClose input 1 of
                  None \<Rightarrow> input
                | Some close_pos \<Rightarrow> drop (close_pos + 1) input))"

function delete_blocks :: "bytes \<Rightarrow> bytes" where
  "delete_blocks input =
     (if input = [] then []
      else (case FindBlock input kSpecialKeyOpen kSpecialKeyClose of
              None \<Rightarrow> input
            | Some (open_pos, close_pos) \<Rightarrow>
                take open_pos input @ delete_blocks (ClippedSubstr input (close_pos + 1))))"
  by pat_completeness auto
termination
  by (relation "measure length") (auto simp: ClippedSubstr_def dest: FindBlock_bounds)

declare delete_blocks.simps [simp del]

definition DeleteSpecialKeys :: "bytes \<Rightarrow> bytes" where
  "DeleteSpecialKeys input =
     (let output = delete_blocks input;
          codepoints = Utf8ToUtf32 output;
          kept = filter (\<lambda>c. \<not> IsSpecialKey c) codepoints
      in if length kept = length codepoints then output else Utf32ToUtf8 kept)"

lemma ParseBlock_none:
  "input = [] \<or> FindBlock input (CHR ''{'') (CHR ''}'') = None \<Longrightarrow> ParseBlock f input s = (input, s)"
  by (subst ParseBlock.simps) auto

definition block_key :: "bytes \<Rightarrow> nat \<Rightarrow> nat \<Rightarrow> bytes" where
  "block_key input i j = take (j - i - 1) (drop (i + 1) input)"

lemma ParseBlock_block:
  assumes "input \<noteq> []" and "FindBlock input (CHR ''{'') (CHR ''}'') = Some (i, j)"
    and "(if block_key input i j = ''{'' then (''{'', s) else f (block_key input i j) s) = (o1, s1)"
    and "ParseBlock f (drop (j + 1) input) s1 = (o2, s2)"
  shows "ParseBlock f input s = (take i input @ o1 @ o2, s2)"
  using assms unfolding block_key_def
  by (subst ParseBlock.simps) (simp add: Let_def ClippedSubstr_def split: if_splits)

lemma block_induct [case_names none block]:
  assumes "\<And>input. input = [] \<or> FindBlock input (CHR ''{'') (CHR ''}'') = None \<Longrightarrow> P input"
    and "\<And>input i j. input \<noteq> [] \<Longrightarrow> FindBlock input (CHR ''{'') (CHR ''}'') = Some (i, j) \<Longrightarrow>
      P (drop (j + 1) input) \<Longrightarrow> P input"
  shows "P (input :: bytes)"
proof (induction input rule: length_induct)
  case (1 input)
  show ?case
  proof (cases "input = [] \<or> FindBlock input (CHR ''{'') (CHR ''}'') = None")
    case False
    then obtain i j where b: "FindBlock input (CHR ''{'') (CHR ''}'') = Some (i, j)" and ne: "input \<noteq> []"
      by auto
    have "length (drop (j + 1) input) < length input"
      using FindBlock_bounds [OF b] by simp
    with 1 have "P (drop (j + 1) input)" by blast
    with assms(2) [OF ne b] show ?thesis .
  qed (rule assms(1))
qed

section \<open>The map only grows\<close>

definition extends :: "SpecialKeyMap \<Rightarrow> SpecialKeyMap \<Rightarrow> bool" where
  "extends m m' \<longleftrightarrow> (\<forall>k v. map_of m k = Some v \<longrightarrow> map_of m' k = Some v)"

lemma extends_refl [simp]: "extends m m"
  by (simp add: extends_def)

lemma extends_trans: "extends m m' \<Longrightarrow> extends m' m'' \<Longrightarrow> extends m m''"
  by (simp add: extends_def)

lemma Register_key_extends: "Register_key key m = (out, m') \<Longrightarrow> extends m m' \<and> map_of m' key = Some out"
  by (auto simp: Register_key_def extends_def Let_def split: option.splits if_splits)

lemma ParseBlock_Register_extends:
  "ParseBlock Register_key input m = (out, m') \<Longrightarrow> extends m m'"
proof (induction input arbitrary: m out m' rule: block_induct)
  case (none input)
  then show ?case by (simp add: ParseBlock_none)
next
  case (block input i j)
  obtain o1 m1 where r: "(if block_key input i j = ''{'' then (''{'', m)
      else Register_key (block_key input i j) m) = (o1, m1)"
    by fastforce
  obtain o2 m2 where p: "ParseBlock Register_key (drop (j + 1) input) m1 = (o2, m2)"
    by fastforce
  have "extends m m1" using r Register_key_extends by (auto split: if_splits)
  moreover have "m' = m2" using ParseBlock_block [OF block(1,2) r p] block(4) by simp
  ultimately show ?case using block(3) [OF p] extends_trans by blast
qed

text \<open>Parsing with any later map gives what \<open>Register\<close> gave.\<close>

lemma Parse_of_extension:
  "ParseBlock Register_key input m = (out, m') \<Longrightarrow> extends m' m'' \<Longrightarrow>
     ParseBlock (Parse_key m'') input () = (out, ())"
proof (induction input arbitrary: m out m' rule: block_induct)
  case (none input)
  then show ?case by (simp add: ParseBlock_none)
next
  case (block input i j)
  obtain o1 m1 where r: "(if block_key input i j = ''{'' then (''{'', m)
      else Register_key (block_key input i j) m) = (o1, m1)"
    by fastforce
  obtain o2 m2 where p: "ParseBlock Register_key (drop (j + 1) input) m1 = (o2, m2)"
    by fastforce
  have out: "out = take i input @ o1 @ o2" "m' = m2"
    using ParseBlock_block [OF block(1,2) r p] block(4) by simp_all
  have IH: "ParseBlock (Parse_key m'') (drop (j + 1) input) () = (o2, ())"
    using block(3) [OF p] block(5) out by simp
  have "extends m1 m''"
    using ParseBlock_Register_extends [OF p] block(5) out extends_trans by blast
  then have "(if block_key input i j = ''{'' then (''{'', ())
      else Parse_key m'' (block_key input i j) ()) = (o1, ())"
    using r Register_key_extends [of "block_key input i j" m o1 m1]
    by (auto simp: Parse_key_def extends_def split: if_splits)
  from ParseBlock_block [OF block(1,2) this IH] out show ?case by simp
qed

text \<open>Once the special keys of a string are registered, \<open>Parse\<close> yields the string \<open>Register\<close>
  returned, whatever is registered in between.\<close>

lemma Parse_after_Register:
  assumes "Register input m = (out, m1)" and "m2 = foldl (\<lambda>m i. snd (Register i m)) m1 others"
  shows "Parse m2 input = out"
proof -
  have step: "extends m (snd (Register i m))" for i m
    by (cases "Register i m") (auto simp: Register_def dest: ParseBlock_Register_extends)
  have "extends m1 (foldl (\<lambda>m i. snd (Register i m)) m1 others)" for m1
    by (induction others arbitrary: m1) (auto intro: extends_trans step)
  then show ?thesis using assms Parse_of_extension [of input m out m1 m2]
    by (simp add: Register_def Parse_def)
qed

end
