(* ===== verification/Romaji_Table.thy ===== *)
theory Romaji_Table
  imports Char_Trie Special_Key
begin

text \<open>
  \<open>composer/table.cc\<close>: the romaji table. A rule sends an input to a result and a pending string
  (which is read again before the next key), with attributes; rules live in a trie. The owner set
  \<open>entry_set_\<close> only manages memory and is left out; an entry is its value.

  \<open>IsLoopingEntry\<close> follows rules until no rule applies, a loop is found or the key is used up. It
  may run for ever, so it is a \<open>partial_function (option)\<close>, and everything that adds a rule returns
  an option: \<open>None\<close> is a call that does not return.
\<close>

definition NO_TABLE_ATTRIBUTE :: nat where "NO_TABLE_ATTRIBUTE = 0"
definition NEW_CHUNK :: nat where "NEW_CHUNK = 1"
definition NO_TRANSLITERATION :: nat where "NO_TRANSLITERATION = 2"
definition DIRECT_INPUT :: nat where "DIRECT_INPUT = 4"
definition END_CHUNK :: nat where "END_CHUNK = 8"

record Entry =
  entry_input :: bytes
  entry_result :: bytes
  entry_pending :: bytes
  entry_attributes :: nat

record Table =
  entries :: "Entry trie"
  special_key_map :: SpecialKeyMap
  case_sensitive :: bool

definition new_Table :: Table where
  "new_Table =
     (let m = snd (Register ''{?}'' []); m = snd (Register ''{*}'' m);
          m = snd (Register ''{<}'' m); m = snd (Register ''{!}'' m)
      in \<lparr>entries = empty_trie, special_key_map = m, case_sensitive = False\<rparr>)"

definition normalize_key :: "Table \<Rightarrow> bytes \<Rightarrow> bytes" where
  "normalize_key t input = (if case_sensitive t then input else LowerString input)"

definition Table_LookUp :: "Table \<Rightarrow> bytes \<Rightarrow> Entry option" where
  "Table_LookUp t input = trie_LookUp (normalize_key t input) (entries t)"

definition Table_LookUpPrefix :: "Table \<Rightarrow> bytes \<Rightarrow> Entry option \<times> nat \<times> bool" where
  "Table_LookUpPrefix t input = trie_LookUpPrefix (normalize_key t input) (entries t)"

definition Table_LookUpPredictiveAll :: "Table \<Rightarrow> bytes \<Rightarrow> Entry list" where
  "Table_LookUpPredictiveAll t input = trie_LookUpPredictiveAll (normalize_key t input) (entries t)"

definition Table_HasSubRules :: "Table \<Rightarrow> bytes \<Rightarrow> bool" where
  "Table_HasSubRules t input = trie_HasSubTrie (normalize_key t input) (entries t)"

definition kNewChunkPrefix :: bytes where
  "kNewChunkPrefix = [CHR 0x09]"

definition HasNewChunkEntry :: "Table \<Rightarrow> bytes \<Rightarrow> bool" where
  "HasNewChunkEntry t input =
     (if input = [] then False
      else (case Table_LookUpPrefix t (kNewChunkPrefix @ input) of
              (_, key_length, _) \<Rightarrow> 1 < key_length))"

partial_function (option) looping_loop :: "Table \<Rightarrow> bytes \<Rightarrow> bytes \<Rightarrow> bool option" where
  "looping_loop t input key =
     (if starts_with key input then Some True
      else (case Table_LookUpPrefix t key of
              (None, _, _) \<Rightarrow> Some False
            | (Some entry, key_length, _) \<Rightarrow>
                (if entry_pending entry @ drop key_length key = [] then Some False
                 else looping_loop t input (entry_pending entry @ drop key_length key))))"

definition IsLoopingEntry :: "Table \<Rightarrow> bytes \<Rightarrow> bytes \<Rightarrow> bool option" where
  "IsLoopingEntry t input pending =
     (if input = [] \<or> pending = [] then Some False else looping_loop t input pending)"

definition kMaxSize :: nat where "kMaxSize = 300"

definition has_capital :: "bytes \<Rightarrow> bool" where
  "has_capital s = list_ex (\<lambda>c. 0x41 \<le> c \<and> c \<le> 0x5A) (Utf8ToUtf32 s)"

text \<open>The body of \<open>AddRuleWithAttributes\<close> after the \<open>NEW_CHUNK\<close> copy; \<open>None\<close> in the first
  component is the null pointer returned for a refused rule.\<close>

definition AddRule_body ::
  "Table \<Rightarrow> bytes \<Rightarrow> bytes \<Rightarrow> bytes \<Rightarrow> nat \<Rightarrow> (Entry option \<times> Table) option" where
  "AddRule_body t escaped_input output escaped_pending attributes =
     (if kMaxSize \<le> length escaped_input \<or> kMaxSize \<le> length output
        \<or> kMaxSize \<le> length escaped_pending then Some (None, t)
      else
        let (input, m1) = Register escaped_input (special_key_map t);
            (pending, m2) = Register escaped_pending m1;
            t = t\<lparr>special_key_map := m2\<rparr>
        in (case IsLoopingEntry t input pending of
              None \<Rightarrow> None
            | Some True \<Rightarrow> Some (None, t)
            | Some False \<Rightarrow>
                let entry = \<lparr>entry_input = input, entry_result = output,
                             entry_pending = pending, entry_attributes = attributes\<rparr>;
                    t = t\<lparr>entries := trie_AddEntry input entry (entries t)\<rparr>;
                    t = (if \<not> case_sensitive t \<and> has_capital (DeleteSpecialKeys input)
                         then t\<lparr>case_sensitive := True\<rparr> else t)
                in Some (Some entry, t)))"

definition AddRuleWithAttributes ::
  "Table \<Rightarrow> bytes \<Rightarrow> bytes \<Rightarrow> bytes \<Rightarrow> nat \<Rightarrow> (Entry option \<times> Table) option" where
  "AddRuleWithAttributes t escaped_input output escaped_pending attributes =
     (case (if attributes AND NEW_CHUNK \<noteq> 0
            then map_option snd (AddRule_body t (kNewChunkPrefix @ escaped_input) output
                   escaped_pending NO_TABLE_ATTRIBUTE)
            else Some t) of
        None \<Rightarrow> None
      | Some t \<Rightarrow> AddRule_body t escaped_input output escaped_pending attributes)"

definition AddRule :: "Table \<Rightarrow> bytes \<Rightarrow> bytes \<Rightarrow> bytes \<Rightarrow> (Entry option \<times> Table) option" where
  "AddRule t input output pending = AddRuleWithAttributes t input output pending NO_TABLE_ATTRIBUTE"

definition DeleteRule :: "Table \<Rightarrow> bytes \<Rightarrow> Table" where
  "DeleteRule t input = t\<lparr>entries := snd (trie_DeleteEntry input (entries t))\<rparr>"

definition ParseSpecialKey :: "Table \<Rightarrow> bytes \<Rightarrow> bytes" where
  "ParseSpecialKey t input = Parse (special_key_map t) input"

section \<open>Loading\<close>

definition parse_attribute :: "bytes \<Rightarrow> nat" where
  "parse_attribute s =
     (if s = ''NewChunk'' then NEW_CHUNK
      else if s = ''NoTransliteration'' then NO_TRANSLITERATION
      else if s = ''DirectInput'' then DIRECT_INPUT
      else if s = ''EndChunk'' then END_CHUNK
      else NO_TABLE_ATTRIBUTE)"

definition ParseAttributes :: "bytes \<Rightarrow> nat" where
  "ParseAttributes input =
     foldl (\<lambda>attributes s. attributes OR parse_attribute s) NO_TABLE_ATTRIBUTE
       (StrSplit (CHR '' '') input)"

definition ChopReturns :: "bytes \<Rightarrow> bytes" where
  "ChopReturns line =
     rev (dropWhile (\<lambda>c. c = CHR 0x0D \<or> c = CHR 0x0A) (rev line))"

definition load_line :: "Table \<Rightarrow> bytes \<Rightarrow> Table option" where
  "load_line t raw =
     (let line = ChopReturns raw
      in if line = [] then Some t
         else (case StrSplit (CHR 0x09) line of
                 [a, b, c, d] \<Rightarrow> map_option snd (AddRuleWithAttributes t a b c (ParseAttributes d))
               | [a, b, c] \<Rightarrow> map_option snd (AddRule t a b c)
               | [a, b] \<Rightarrow> map_option snd (AddRule t a b [])
               | _ \<Rightarrow> Some t))"

fun load_lines :: "Table \<Rightarrow> bytes list \<Rightarrow> Table option" where
  "load_lines t [] = Some t"
| "load_lines t (l # ls) = (case load_line t l of None \<Rightarrow> None | Some t' \<Rightarrow> load_lines t' ls)"

text \<open>\<open>getline\<close> on the stream yields the pieces between newlines; the result is always true.\<close>

definition LoadFromString :: "Table \<Rightarrow> bytes \<Rightarrow> Table option" where
  "LoadFromString t str = load_lines t (StrSplit (CHR 0x0A) str)"

section \<open>Initialisation from the request and the configuration\<close>

datatype SpecialRomanjiTable =
    DEFAULT_TABLE
  | GODAN_TO_HALFWIDTHASCII
  | TWELVE_KEYS_TO_HIRAGANA
  | TWELVE_KEYS_TO_HIRAGANA_INTUITIVE
  | TWELVE_KEYS_TO_HALFWIDTHASCII
  | FLICK_TO_HIRAGANA
  | FLICK_TO_HIRAGANA_INTUITIVE
  | FLICK_TO_HALFWIDTHASCII_IOS
  | FLICK_TO_HALFWIDTHASCII
  | FLICK_TO_NUMBER
  | TOGGLE_FLICK_TO_HIRAGANA
  | TOGGLE_FLICK_TO_HIRAGANA_INTUITIVE
  | TOGGLE_FLICK_TO_HALFWIDTHASCII_IOS
  | TOGGLE_FLICK_TO_NUMBER
  | TOGGLE_FLICK_TO_HALFWIDTHASCII
  | QWERTY_MOBILE_TO_HIRAGANA
  | QWERTY_MOBILE_TO_HALFWIDTHASCII
  | GODAN_TO_HIRAGANA
  | NOTOUCH_TO_HIRAGANA
  | NOTOUCH_TO_HALFWIDTHASCII
  | FIFTY_KEYS_TO_HIRAGANA

datatype PreeditMethod = ROMAN | KANA

datatype PunctuationMethod = TOUTEN_KUTEN | COMMA_PERIOD | TOUTEN_PERIOD | COMMA_KUTEN

datatype SymbolMethod =
    CORNER_BRACKET_MIDDLE_DOT | SQUARE_BRACKET_SLASH | CORNER_BRACKET_SLASH | SQUARE_BRACKET_MIDDLE_DOT

text \<open>The fields of \<open>config::Config\<close> the table reads; an absent optional field is \<open>None\<close>.\<close>

record TableConfig =
  preedit_method :: PreeditMethod
  custom_roman_table :: "bytes option"
  punctuation_method :: PunctuationMethod
  symbol_method :: SymbolMethod
  custom_kaeriten_table :: "bytes option"

fun special_table_file :: "SpecialRomanjiTable \<Rightarrow> bytes option" where
  "special_table_file DEFAULT_TABLE = None"
| "special_table_file GODAN_TO_HALFWIDTHASCII = None"
| "special_table_file TWELVE_KEYS_TO_HIRAGANA = Some ''system://12keys-hiragana.tsv''"
| "special_table_file TWELVE_KEYS_TO_HIRAGANA_INTUITIVE = Some ''system://12keys-hiragana_intuitive.tsv''"
| "special_table_file TWELVE_KEYS_TO_HALFWIDTHASCII = Some ''system://12keys-halfwidthascii.tsv''"
| "special_table_file FLICK_TO_HIRAGANA = Some ''system://flick-hiragana.tsv''"
| "special_table_file FLICK_TO_HIRAGANA_INTUITIVE = Some ''system://flick-hiragana_intuitive.tsv''"
| "special_table_file FLICK_TO_HALFWIDTHASCII_IOS = Some ''system://flick-halfwidthascii_ios.tsv''"
| "special_table_file FLICK_TO_HALFWIDTHASCII = Some ''system://flick-halfwidthascii.tsv''"
| "special_table_file FLICK_TO_NUMBER = Some ''system://flick-number.tsv''"
| "special_table_file TOGGLE_FLICK_TO_HIRAGANA = Some ''system://toggle_flick-hiragana.tsv''"
| "special_table_file TOGGLE_FLICK_TO_HIRAGANA_INTUITIVE = Some ''system://toggle_flick-hiragana_intuitive.tsv''"
| "special_table_file TOGGLE_FLICK_TO_HALFWIDTHASCII_IOS = Some ''system://toggle_flick-halfwidthascii_ios.tsv''"
| "special_table_file TOGGLE_FLICK_TO_NUMBER = Some ''system://toggle_flick-number.tsv''"
| "special_table_file TOGGLE_FLICK_TO_HALFWIDTHASCII = Some ''system://toggle_flick-halfwidthascii.tsv''"
| "special_table_file QWERTY_MOBILE_TO_HIRAGANA = Some ''system://qwerty_mobile-hiragana.tsv''"
| "special_table_file QWERTY_MOBILE_TO_HALFWIDTHASCII = Some ''system://qwerty_mobile-halfwidthascii.tsv''"
| "special_table_file GODAN_TO_HIRAGANA = Some ''system://godan-hiragana.tsv''"
| "special_table_file NOTOUCH_TO_HIRAGANA = Some ''system://notouch-hiragana.tsv''"
| "special_table_file NOTOUCH_TO_HALFWIDTHASCII = Some ''system://qwerty_mobile-halfwidthascii.tsv''"
| "special_table_file FIFTY_KEYS_TO_HIRAGANA = Some ''system://50keys-hiragana.tsv''"

text \<open>\<open>open_file\<close> stands for \<open>ConfigFileStream::LegacyOpen\<close>, whose data is generated at build time.\<close>

definition LoadFromFile :: "(bytes \<Rightarrow> bytes option) \<Rightarrow> Table \<Rightarrow> bytes \<Rightarrow> (bool \<times> Table) option" where
  "LoadFromFile open_file t path =
     (case open_file path of
        None \<Rightarrow> Some (False, t)
      | Some contents \<Rightarrow> map_option (Pair True) (LoadFromString t contents))"

definition kKuten :: bytes where "kKuten = Utf32ToUtf8 [0x3001]"
definition kTouten :: bytes where "kTouten = Utf32ToUtf8 [0x3002]"
definition kComma :: bytes where "kComma = Utf32ToUtf8 [0xFF0C]"
definition kPeriod :: bytes where "kPeriod = Utf32ToUtf8 [0xFF0E]"
definition kCornerOpen :: bytes where "kCornerOpen = Utf32ToUtf8 [0x300C]"
definition kCornerClose :: bytes where "kCornerClose = Utf32ToUtf8 [0x300D]"
definition kSlash :: bytes where "kSlash = Utf32ToUtf8 [0xFF0F]"
definition kSquareOpen :: bytes where "kSquareOpen = ''[''"
definition kSquareClose :: bytes where "kSquareClose = '']''"
definition kMiddleDot :: bytes where "kMiddleDot = Utf32ToUtf8 [0x30FB]"

text \<open>One block of the punctuation set-up: a missing or default rule for \<open>key\<close> is replaced.\<close>

definition init_symbol :: "bytes \<Rightarrow> bytes \<Rightarrow> bytes \<Rightarrow> Table \<Rightarrow> Table option" where
  "init_symbol key default_result new_result t =
     (let replace = (case Table_LookUp t key of
            None \<Rightarrow> True
          | Some entry \<Rightarrow> entry_result entry = default_result \<and> entry_pending entry = [])
      in if replace then map_option snd (AddRule t key new_result []) else Some t)"

definition comma_result :: "PunctuationMethod \<Rightarrow> bytes" where
  "comma_result p = (if p = COMMA_PERIOD \<or> p = COMMA_KUTEN then kComma else kKuten)"

definition period_result :: "PunctuationMethod \<Rightarrow> bytes" where
  "period_result p = (if p = COMMA_PERIOD \<or> p = TOUTEN_PERIOD then kPeriod else kTouten)"

definition slash_result :: "SymbolMethod \<Rightarrow> bytes" where
  "slash_result s = (if s = SQUARE_BRACKET_SLASH \<or> s = CORNER_BRACKET_SLASH then kSlash else kMiddleDot)"

definition open_result :: "SymbolMethod \<Rightarrow> bytes" where
  "open_result s =
     (if s = CORNER_BRACKET_MIDDLE_DOT \<or> s = CORNER_BRACKET_SLASH then kCornerOpen else kSquareOpen)"

definition close_result :: "SymbolMethod \<Rightarrow> bytes" where
  "close_result s =
     (if s = CORNER_BRACKET_MIDDLE_DOT \<or> s = CORNER_BRACKET_SLASH then kCornerClose else kSquareClose)"

definition init_punctuations :: "TableConfig \<Rightarrow> Table \<Rightarrow> Table option" where
  "init_punctuations config t =
     Option.bind (init_symbol '','' kKuten (comma_result (punctuation_method config)) t) (\<lambda>t.
     Option.bind (init_symbol ''.'' kTouten (period_result (punctuation_method config)) t) (\<lambda>t.
     Option.bind (init_symbol ''/'' kMiddleDot (slash_result (symbol_method config)) t) (\<lambda>t.
     Option.bind (init_symbol ''['' kCornerOpen (open_result (symbol_method config)) t) (\<lambda>t.
     init_symbol '']'' kCornerClose (close_result (symbol_method config)) t))))"

definition set_custom :: "bytes option \<Rightarrow> bool" where
  "set_custom table = (table \<noteq> None \<and> table \<noteq> Some [])"

definition kRomajiPreeditTableFile :: bytes where
  "kRomajiPreeditTableFile = ''system://romanji-hiragana.tsv''"
definition kDefaultPreeditTableFile :: bytes where
  "kDefaultPreeditTableFile = ''system://romanji-hiragana.tsv''"
definition kKanaCombinationTableFile :: bytes where
  "kKanaCombinationTableFile = ''system://kana.tsv''"
definition kKaeritenTableFile :: bytes where
  "kKaeritenTableFile = ''system://kaeriten.tsv''"

text \<open>The main table: the custom table, or the romaji file, with the default file as a fallback.\<close>

definition load_preedit_table ::
  "(bytes \<Rightarrow> bytes option) \<Rightarrow> TableConfig \<Rightarrow> Table \<Rightarrow> (bool \<times> Table) option" where
  "load_preedit_table open_file config t =
     (case (case preedit_method config of
              ROMAN \<Rightarrow>
                (if set_custom (custom_roman_table config)
                 then map_option (Pair True) (LoadFromString t (the (custom_roman_table config)))
                 else LoadFromFile open_file t kRomajiPreeditTableFile)
            | KANA \<Rightarrow> LoadFromFile open_file t kRomajiPreeditTableFile) of
        Some (False, t) \<Rightarrow> LoadFromFile open_file t kDefaultPreeditTableFile
      | r \<Rightarrow> r)"

definition InitializeWithRequestAndConfig ::
  "(bytes \<Rightarrow> bytes option) \<Rightarrow> SpecialRomanjiTable \<Rightarrow> TableConfig \<Rightarrow> Table \<Rightarrow> (bool \<times> Table) option" where
  "InitializeWithRequestAndConfig open_file request config t =
     (let t = t\<lparr>case_sensitive := False\<rparr>
      in case (case special_table_file request of
                 None \<Rightarrow> Some (False, t)
               | Some file \<Rightarrow> LoadFromFile open_file t file) of
           None \<Rightarrow> None
         | Some (True, t) \<Rightarrow> Some (True, t)
         | Some (False, t) \<Rightarrow>
             (case load_preedit_table open_file config t of
                None \<Rightarrow> None
              | Some (False, t) \<Rightarrow> Some (False, t)
              | Some (True, t) \<Rightarrow>
                  Option.bind (init_punctuations config t) (\<lambda>t.
                  (case LoadFromFile open_file t kKanaCombinationTableFile of
                     None \<Rightarrow> None
                   | Some (False, t) \<Rightarrow> Some (False, t)
                   | Some (True, t) \<Rightarrow>
                       if set_custom (custom_kaeriten_table config)
                       then map_option (Pair True) (LoadFromString t (the (custom_kaeriten_table config)))
                       else LoadFromFile open_file t kKaeritenTableFile))))"

section \<open>The table cache\<close>

text \<open>
  \<open>TableManager\<close>. \<open>city\<close> is \<open>CityFingerprint\<close> and \<open>hash\<close> is \<open>absl::HashOf\<close> on the four enumerations
  of the request and the configuration.
\<close>

record ('f, 'h) TableManager =
  table_map :: "'h \<rightharpoonup> Table"
  custom_roman_table_fingerprint :: 'f
  custom_kaeriten_table_fingerprint :: 'f

definition new_TableManager :: "(bytes \<Rightarrow> 'f) \<Rightarrow> ('f, 'h) TableManager" where
  "new_TableManager city =
     \<lparr>table_map = Map.empty, custom_roman_table_fingerprint = city [],
      custom_kaeriten_table_fingerprint = city []\<rparr>"

type_synonym 'h table_hash =
  "SpecialRomanjiTable \<times> PreeditMethod \<times> PunctuationMethod \<times> SymbolMethod \<Rightarrow> 'h"

definition update_fingerprints ::
  "(bytes \<Rightarrow> 'f) \<Rightarrow> TableConfig \<Rightarrow> ('f, 'h) TableManager \<Rightarrow> bool \<times> ('f, 'h) TableManager" where
  "update_fingerprints city config m =
     (let roman_set = (preedit_method config = ROMAN \<and> set_custom (custom_roman_table config));
          roman = city (the (custom_roman_table config));
          update_roman = (roman_set \<and> roman \<noteq> custom_roman_table_fingerprint m);
          kaeriten = city (case custom_kaeriten_table config of Some s \<Rightarrow> s | None \<Rightarrow> []);
          update_kaeriten = (kaeriten \<noteq> custom_kaeriten_table_fingerprint m)
      in (update_roman \<or> update_kaeriten,
          m\<lparr>custom_roman_table_fingerprint :=
               (if update_roman then roman else custom_roman_table_fingerprint m),
             custom_kaeriten_table_fingerprint := kaeriten\<rparr>))"

definition GetTable ::
  "(bytes \<Rightarrow> bytes option) \<Rightarrow> (bytes \<Rightarrow> 'f) \<Rightarrow> 'h table_hash \<Rightarrow> SpecialRomanjiTable \<Rightarrow> TableConfig \<Rightarrow>
     ('f, 'h) TableManager \<Rightarrow> (Table option \<times> ('f, 'h) TableManager) option" where
  "GetTable open_file city hash_of request config m =
     (let h = hash_of (request, preedit_method config, punctuation_method config, symbol_method config);
          (update_custom_table, m) = update_fingerprints city config m
      in case (table_map m h, update_custom_table) of
           (Some t, False) \<Rightarrow> Some (Some t, m)
         | _ \<Rightarrow>
             let m = m\<lparr>table_map := (table_map m)(h := None)\<rparr>
             in (case InitializeWithRequestAndConfig open_file request config new_Table of
                   None \<Rightarrow> None
                 | Some (False, _) \<Rightarrow> Some (None, m)
                 | Some (True, t) \<Rightarrow> Some (Some t, m\<lparr>table_map := (table_map m)(h \<mapsto> t)\<rparr>)))"

definition ClearCaches :: "('f, 'h) TableManager \<Rightarrow> ('f, 'h) TableManager" where
  "ClearCaches m = m\<lparr>table_map := Map.empty\<rparr>"

end
