(* ===== verification/Table_Rules.thy ===== *)
theory Table_Rules
  imports Romaji_Table
begin

text \<open>
  Properties of the romaji table: adding and finding a rule, the loop check and its termination,
  the punctuation set-up and the table cache.
\<close>

section \<open>Adding a rule\<close>

lemma Register_plain [simp]: "CHR ''{'' \<notin> set s \<Longrightarrow> Register s m = (s, m)"
  by (simp add: Register_def ParseBlock_none FindBlock_def find_byte_None [THEN iffD2])

lemma IsLoopingEntry_no_pending [simp]: "IsLoopingEntry t input [] = Some False"
  by (simp add: IsLoopingEntry_def)

lemma normalize_key_case [simp]: "case_sensitive t \<Longrightarrow> normalize_key t key = key"
  by (simp add: normalize_key_def)

lemma length_normalize_key [simp]: "length (normalize_key t key) = length key"
  by (simp add: normalize_key_def)

text \<open>What a successful \<open>AddRule_body\<close> does to the table.\<close>

lemma AddRule_body_SomeE:
  assumes "AddRule_body t escaped_input output escaped_pending attributes = Some (Some entry, t')"
  obtains input pending m1 m2 where
    "Register escaped_input (special_key_map t) = (input, m1)"
    "Register escaped_pending m1 = (pending, m2)"
    "IsLoopingEntry (t\<lparr>special_key_map := m2\<rparr>) input pending = Some False"
    "entry = \<lparr>entry_input = input, entry_result = output, entry_pending = pending,
       entry_attributes = attributes\<rparr>"
    "entries t' = trie_AddEntry input entry (entries t)"
    "special_key_map t' = m2"
    "case_sensitive t' \<longleftrightarrow> case_sensitive t \<or> has_capital (DeleteSpecialKeys input)"
    "length escaped_input < kMaxSize" "length output < kMaxSize" "length escaped_pending < kMaxSize"
proof -
  obtain input m1 where r1: "Register escaped_input (special_key_map t) = (input, m1)" by fastforce
  obtain pending m2 where r2: "Register escaped_pending m1 = (pending, m2)" by fastforce
  show ?thesis
    by (rule that [OF r1 r2])
      (use assms r1 r2 in \<open>auto simp: AddRule_body_def Let_def split: if_splits option.splits bool.splits\<close>)
qed

text \<open>Looking up the key just added, in a table that reads keys as they are.\<close>

lemma Table_LookUp_AddRule_body:
  assumes "AddRule_body t escaped_input output escaped_pending attributes = Some (Some entry, t')"
    and "case_sensitive t' \<or> LowerString (entry_input entry) = entry_input entry"
  shows "Table_LookUp t' (entry_input entry) = Some entry"
    and "case_sensitive t' = case_sensitive t \<Longrightarrow>
      trie_path (normalize_key t key) \<noteq> trie_path (entry_input entry) \<Longrightarrow>
      Table_LookUp t' key = Table_LookUp t key"
  using assms
  by (auto elim!: AddRule_body_SomeE simp: Table_LookUp_def normalize_key_def trie_LookUp_AddEntry)

text \<open>A rule without pending string and of legal size is always added.\<close>

lemma AddRule_body_no_pending:
  assumes "length input < kMaxSize" "length output < kMaxSize" "CHR ''{'' \<notin> set input"
  shows "AddRule_body t input output [] attributes =
    Some (Some \<lparr>entry_input = input, entry_result = output, entry_pending = [],
                entry_attributes = attributes\<rparr>,
      t\<lparr>entries := trie_AddEntry input \<lparr>entry_input = input, entry_result = output,
           entry_pending = [], entry_attributes = attributes\<rparr> (entries t),
        case_sensitive := case_sensitive t \<or> has_capital (DeleteSpecialKeys input)\<rparr>)"
  using assms by (auto simp: AddRule_body_def Let_def kMaxSize_def)

lemma AddRule_AddRule_body: "AddRule t i out p = AddRule_body t i out p NO_TABLE_ATTRIBUTE"
  by (simp add: AddRule_def AddRuleWithAttributes_def NO_TABLE_ATTRIBUTE_def)

lemma no_special_block: "kSpecialKeyOpen \<notin> set s \<Longrightarrow> delete_blocks s = s"
  by (subst delete_blocks.simps) (simp add: FindBlock_def find_byte_None [THEN iffD2])

lemma ascii_encode: "list_all (\<lambda>b. 0 < byte b \<and> byte b < 0x80) s \<Longrightarrow> Utf32ToUtf8 (map byte s) = s"
  by (induction s) (auto simp: CodepointToUtf8_def and_low)

lemma LowerString_encode: "list_all scalar cs \<Longrightarrow> LowerString (Utf32ToUtf8 cs) = Utf32ToUtf8 (map lower32 cs)"
  unfolding LowerString_def lower32_def
  by (rule map_case_encode) (auto simp: is_upper_letter_def CodepointToUtf8_arith)

lemma LowerString_lower:
  assumes "list_all (\<lambda>b. 0 < byte b \<and> byte b < 0x80 \<and> \<not> (0x41 \<le> byte b \<and> byte b \<le> 0x5A)) s"
  shows "LowerString s = s"
proof -
  have e: "Utf32ToUtf8 (map byte s) = s" using assms by (intro ascii_encode) (auto simp: list_all_iff)
  have "list_all scalar (map byte s)"
    using assms by (fastforce simp: list_all_iff scalar_def unicode_def)
  from LowerString_encode [OF this] have "LowerString s = Utf32ToUtf8 (map lower32 (map byte s))"
    by (simp only: e)
  also have "map lower32 (map byte s) = map byte s"
    using assms by (auto simp: list_all_iff lower32_def is_upper_letter_def)
  finally show ?thesis by (simp only: e)
qed

text \<open>No text is looked up as a string with a letter that \<open>LowerString\<close> changes.\<close>

lemma LowerString_twice:
  assumes "list_all scalar cs"
  shows "LowerString (LowerString (Utf32ToUtf8 cs)) = LowerString (Utf32ToUtf8 cs)"
proof -
  have idem: "lower32 (lower32 c) = lower32 c" for c by (auto simp: lower32_def is_upper_letter_def)
  have "list_all scalar (map lower32 cs)"
    using assms by (auto simp: list_all_iff lower32_def is_upper_letter_def scalar_def unicode_def)
  then show ?thesis using assms idem by (simp add: LowerString_encode comp_def)
qed

text \<open>C2: An accepted rule has the given result and attributes, and is found again under its registered
  input, with one exception: when the table ignores case and the input has a letter to lower (a full-width
  one, since an ASCII capital outside the special keys makes the table case sensitive), the rule is lost,
  because no text is looked up as such an input. With the attribute \<open>NewChunk\<close> the copy made by the
  recursive call does not hide the rule.\<close>

theorem AddRuleWithAttributes_LookUp:
  assumes "AddRuleWithAttributes t escaped_input output escaped_pending attributes = Some (Some entry, t')"
  shows "entry_result entry = output \<and> entry_attributes entry = attributes \<and>
    (if case_sensitive t' \<or> LowerString (entry_input entry) = entry_input entry
     then Table_LookUp t' (entry_input entry) = Some entry
     else \<not> (\<exists>cs. list_all scalar cs \<and> normalize_key t' (Utf32ToUtf8 cs) = entry_input entry))"
proof -
  obtain t1 where b: "AddRule_body t1 escaped_input output escaped_pending attributes = Some (Some entry, t')"
    using assms by (auto simp: AddRuleWithAttributes_def split: option.splits if_splits)
  have e: "entry_result entry = output" "entry_attributes entry = attributes"
    using b by (auto elim: AddRule_body_SomeE)
  show ?thesis
  proof (cases "case_sensitive t' \<or> LowerString (entry_input entry) = entry_input entry")
    case True
    then show ?thesis using Table_LookUp_AddRule_body(1) [OF b True] e by simp
  next
    case False
    then have "LowerString (Utf32ToUtf8 cs) \<noteq> entry_input entry" if "list_all scalar cs" for cs
      using LowerString_twice [OF that] by metis
    then show ?thesis using False e by (auto simp: normalize_key_def)
  qed
qed

theorem AddRuleWithAttributes_LookUp_witness:
  "\<exists>entry t'. AddRuleWithAttributes new_Table ''ka'' ''x'' [] NO_TABLE_ATTRIBUTE = Some (Some entry, t') \<and>
     Table_LookUp t' (entry_input entry) = Some entry \<and> entry_result entry = ''x''"
proof -
  obtain entry t' where a: "AddRuleWithAttributes new_Table ''ka'' ''x'' [] NO_TABLE_ATTRIBUTE = Some (Some entry, t')"
    and e: "entry_input entry = ''ka''"
    by (simp add: AddRuleWithAttributes_def AddRule_body_no_pending kMaxSize_def NO_TABLE_ATTRIBUTE_def)
  have "LowerString ''ka'' = ''ka''"
    by (rule LowerString_lower) (simp add: byte_def)
  with AddRuleWithAttributes_LookUp [OF a] a e show ?thesis by auto
qed

section \<open>The loop check\<close>

text \<open>A set of keys that the loop check never leaves and in which it never decides.\<close>

lemma looping_loop_diverges:
  assumes closed: "\<And>k. k \<in> K \<Longrightarrow> \<not> starts_with k input \<and>
      (\<exists>e n f. Table_LookUpPrefix t k = (Some e, n, f) \<and> entry_pending e @ drop n k \<in> K)"
    and "[] \<notin> K" and "key \<in> K"
  shows "looping_loop t input key = None"
proof -
  have "\<not> (t' = t \<and> i = input \<and> k \<in> K)" if run: "looping_loop t' i k = Some r" for t' i k r
  proof (rule looping_loop.raw_induct
      [OF _ run, of "\<lambda>t' i k r. \<not> (t' = t \<and> i = input \<and> k \<in> K)"], goal_cases)
    case (1 loop t' i k r)
    show ?case
    proof
      assume a: "t' = t \<and> i = input \<and> k \<in> K"
      from closed [of k] a obtain e n f where k: "\<not> starts_with k input"
        "Table_LookUpPrefix t k = (Some e, n, f)" "entry_pending e @ drop n k \<in> K" by blast
      with \<open>[] \<notin> K\<close> have "entry_pending e @ drop n k \<noteq> []" by metis
      with 1(2) a k have "loop t input (entry_pending e @ drop n k) = Some r" by auto
      with 1(1) k(3) show False by blast
    qed
  qed
  with \<open>key \<in> K\<close> show ?thesis by (cases "looping_loop t input key") blast+
qed

text \<open>
  Entries sit under their own input, and their pending strings have fewer bytes. A match with such an entry
  uses exactly the bytes of its input.
\<close>

definition shrinking_entry :: "Entry \<Rightarrow> bool" where
  "shrinking_entry e \<longleftrightarrow> utf8_string (entry_input e) \<and> length (entry_pending e) < length (entry_input e)"

definition table_shrinks :: "Table \<Rightarrow> bool" where
  "table_shrinks t \<longleftrightarrow> (\<forall>ks e. path_data ks (entries t) = Some e \<longrightarrow>
     trie_path (entry_input e) = ks \<and> shrinking_entry e)"

lemma skip_chars_unicode:
  "m \<le> length (trie_path key) \<Longrightarrow> list_all unicode (take m (trie_path key)) \<Longrightarrow>
     key = Utf32ToUtf8 (take m (trie_path key)) @ skip_chars m key"
proof (induction key arbitrary: m rule: bytes_split_induct)
  case (split key b c rest)
  show ?case
  proof (cases m)
    case (Suc m')
    note path = trie_path_split [OF split(1,2)]
    have c: "unicode c" and u: "list_all unicode (take m' (trie_path rest))"
      using split(5) Suc path by simp_all
    have "b" using split(2) SplitFirstChar32_False [of key c rest] c by (cases b) (auto simp: unicode_def)
    then have key: "key = CodepointToUtf8 c @ rest"
      using SplitFirstChar32_TrueD [of key c rest] split(2) c by (auto simp: unicode_def)
    have "rest = Utf32ToUtf8 (take m' (trie_path rest)) @ skip_chars m' rest"
      using split(3) [of m'] split(4) Suc path u by simp
    then show ?thesis using key Suc path split(2) by simp
  qed simp
qed simp

lemma Table_LookUpPrefix_shrinks:
  assumes "table_shrinks t" and "Table_LookUpPrefix t key = (Some e, n, f)"
  shows "length (entry_pending e) < n" and "n \<le> length key"
proof -
  let ?key = "normalize_key t key"
  obtain s m where d: "deepest (trie_path ?key) (entries t) = (s, m)" by fastforce
  have m: "m \<le> length (trie_path ?key)"
    using deepest_le [of "trie_path ?key" "entries t"] d by simp
  have s: "data s = Some e" "n = length key - length (skip_chars m ?key)"
    using assms(2) d by (auto simp: Table_LookUpPrefix_def trie_LookUpPrefix_deepest)
  then have "path_data (take m (trie_path ?key)) (entries t) = Some e"
    using deepest_walk(1) [of "trie_path ?key" "entries t"] d by (simp add: path_data_def)
  with assms(1) have e: "trie_path (entry_input e) = take m (trie_path ?key)" "shrinking_entry e"
    unfolding table_shrinks_def by blast+
  then obtain cs where cs: "list_all unicode cs" "entry_input e = Utf32ToUtf8 cs"
    unfolding shrinking_entry_def by (blast elim: utf8_stringE)
  then have "?key = entry_input e @ skip_chars m ?key"
    using skip_chars_unicode [OF m] e(1) by simp
  from arg_cong [OF this, of length] have "n = length (entry_input e)"
    using s(2) length_normalize_key [of t key] by simp
  then show "length (entry_pending e) < n" using e(2) by (simp add: shrinking_entry_def)
  show "n \<le> length key" using s(2) by simp
qed

lemma looping_loop_terminates:
  assumes "table_shrinks t"
  shows "\<exists>b. looping_loop t input key = Some b"
proof (induction key rule: length_induct)
  case (1 key)
  obtain r n f where l: "Table_LookUpPrefix t key = (r, n, f)" by (metis prod_cases3)
  show ?case
  proof (cases r)
    case None
    then show ?thesis using l by (subst looping_loop.simps) auto
  next
    case (Some e)
    have "length (entry_pending e @ drop n key) < length key"
      using Table_LookUpPrefix_shrinks [OF assms l [unfolded Some]] by simp
    with 1 have "\<exists>b. looping_loop t input (entry_pending e @ drop n key) = Some b" by blast
    then show ?thesis using l Some by (subst looping_loop.simps) auto
  qed
qed

lemma IsLoopingEntry_terminates:
  "table_shrinks t \<Longrightarrow> \<exists>b. IsLoopingEntry t input pending = Some b"
  using looping_loop_terminates by (auto simp: IsLoopingEntry_def)

fun add_rules :: "Table \<Rightarrow> (bytes \<times> bytes \<times> bytes) list \<Rightarrow> Table option" where
  "add_rules t [] = Some t"
| "add_rules t ((input, output, pending) # rules) =
     (case AddRule t input output pending of None \<Rightarrow> None | Some (_, t') \<Rightarrow> add_rules t' rules)"

definition shrinking_rule :: "bytes \<times> bytes \<times> bytes \<Rightarrow> bool" where
  "shrinking_rule = (\<lambda>(input, output, pending). CHR ''{'' \<notin> set input \<and> CHR ''{'' \<notin> set pending \<and>
     utf8_string input \<and> length pending < length input)"

lemma AddRule_body_table:
  "AddRule_body t i out p a = Some (None, t') \<Longrightarrow> entries t' = entries t"
  by (auto simp: AddRule_body_def Let_def split: if_splits prod.splits option.splits bool.splits)

lemma AddRule_body_returns:
  "IsLoopingEntry t i p = Some b \<Longrightarrow> CHR ''{'' \<notin> set i \<Longrightarrow> CHR ''{'' \<notin> set p \<Longrightarrow>
     \<exists>e t'. AddRule_body t i out p a = Some (e, t')"
  by (cases b) (simp_all add: AddRule_body_def Let_def)

lemma AddRule_shrinks:
  assumes "table_shrinks t" and "shrinking_rule (i, out, p)"
  shows "\<exists>e t'. AddRule t i out p = Some (e, t') \<and> table_shrinks t'"
proof -
  have p: "CHR ''{'' \<notin> set i" "CHR ''{'' \<notin> set p" and len: "utf8_string i" "length p < length i"
    using assms(2) by (auto simp: shrinking_rule_def)
  obtain b where "IsLoopingEntry t i p = Some b"
    using IsLoopingEntry_terminates [OF assms(1)] by blast
  then obtain e t' where a: "AddRule_body t i out p NO_TABLE_ATTRIBUTE = Some (e, t')"
    using AddRule_body_returns p by blast
  moreover have "table_shrinks t'"
  proof (cases e)
    case None
    then show ?thesis using AddRule_body_table a assms(1) by (simp add: table_shrinks_def)
  next
    case (Some entry)
    with a have entry: "entry_input entry = i" "entry_pending entry = p"
      "entries t' = trie_AddEntry i entry (entries t)"
      using p by (auto elim!: AddRule_body_SomeE)
    then show ?thesis using assms(1) len
      by (simp add: table_shrinks_def shrinking_entry_def trie_AddEntry_path path_data_add)
  qed
  ultimately show ?thesis by (simp add: AddRule_AddRule_body)
qed

text \<open>The same for any accepted rule, with special keys and attributes, judged by what it registers.\<close>

lemma AddRule_body_shrinks:
  assumes "table_shrinks t" and "AddRule_body t i out p a = Some (entry, t')"
    and "\<And>e. entry = Some e \<Longrightarrow> shrinking_entry e"
  shows "table_shrinks t'"
proof (cases entry)
  case None
  then show ?thesis using AddRule_body_table assms(1,2) by (simp add: table_shrinks_def)
next
  case (Some e)
  with assms(2) have "entries t' = trie_AddEntry (entry_input e) e (entries t)"
    by (auto elim!: AddRule_body_SomeE)
  then show ?thesis using assms(1) assms(3) [OF Some]
    by (simp add: table_shrinks_def trie_AddEntry_path path_data_add)
qed

lemma add_rules_shrinking:
  "table_shrinks t \<Longrightarrow> list_all shrinking_rule rules \<Longrightarrow>
     \<exists>t'. add_rules t rules = Some t' \<and> table_shrinks t'"
proof (induction rules arbitrary: t)
  case (Cons r rules)
  obtain i out p where r: "r = (i, out, p)" by (metis prod_cases3)
  with Cons(2,3) AddRule_shrinks obtain e t' where
    "AddRule t i out p = Some (e, t')" "table_shrinks t'" by fastforce
  with Cons r show ?case by simp
qed simp

lemma table_shrinks_new [simp]: "table_shrinks new_Table"
  by (simp add: table_shrinks_def new_Table_def Let_def)

text \<open>If every rule's pending string has fewer bytes than its input, the loop check always comes to an end: adding the rules one after the
  other returns, and so does the check of any further entry against the resulting table.\<close>

lemma add_rules_terminates:
  assumes "list_all shrinking_rule rules"
  shows "\<exists>t. add_rules new_Table rules = Some t \<and>
    (\<forall>input pending. \<exists>b. IsLoopingEntry t input pending = Some b)"
  using add_rules_shrinking [OF table_shrinks_new assms] IsLoopingEntry_terminates by blast

text \<open>Two accepted rules that make the loop check go round on a third.\<close>

definition looping_table :: bytes where
  "looping_table =
     ''a'' @ [CHR 0x09, CHR 0x09] @ ''ba'' @ [CHR 0x0A] @
     ''b'' @ [CHR 0x09] @ ''x'' @ [CHR 0x0A] @
     ''c'' @ [CHR 0x09, CHR 0x09] @ ''a''"

definition two_rules :: Table where
  "two_rules = new_Table\<lparr>entries :=
     Trie None
       [(97, Trie (Some \<lparr>entry_input = ''a'', entry_result = [], entry_pending = ''ba'', entry_attributes = 0\<rparr>) []),
        (98, Trie (Some \<lparr>entry_input = ''b'', entry_result = ''x'', entry_pending = [], entry_attributes = 0\<rparr>) [])]\<rparr>"

lemma two_rules_prefix:
  "Table_LookUpPrefix two_rules ''a'' =
     (Some \<lparr>entry_input = ''a'', entry_result = [], entry_pending = ''ba'', entry_attributes = 0\<rparr>, 1, True)"
  "Table_LookUpPrefix two_rules ''ba'' =
     (Some \<lparr>entry_input = ''b'', entry_result = ''x'', entry_pending = [], entry_attributes = 0\<rparr>, 1, True)"
proof -
  have l: "LowerString ''a'' = ''a''" "LowerString ''ba'' = ''ba''"
    by (rule LowerString_lower, simp add: byte_def)+
  have s: "skip_chars 1 ''a'' = []" "skip_chars 1 ''ba'' = ''a''"
    by (simp_all add: SplitFirstChar32_ascii byte_def)
  show "Table_LookUpPrefix two_rules ''a'' =
     (Some \<lparr>entry_input = ''a'', entry_result = [], entry_pending = ''ba'', entry_attributes = 0\<rparr>, 1, True)"
    "Table_LookUpPrefix two_rules ''ba'' =
     (Some \<lparr>entry_input = ''b'', entry_result = ''x'', entry_pending = [], entry_attributes = 0\<rparr>, 1, True)"
    using l s
    by (simp_all add: Table_LookUpPrefix_def two_rules_def normalize_key_def new_Table_def Let_def
        trie_LookUpPrefix_deepest ascii_path byte_def)
qed

lemma load_two_rules:
  "Option.bind (load_line new_Table (''a'' @ [CHR 0x09, CHR 0x09] @ ''ba''))
     (\<lambda>t. load_line t (''b'' @ [CHR 0x09] @ ''x'')) = Some two_rules"
proof -
  have case_new: "case_sensitive new_Table = False" "entries new_Table = Trie None []"
    by (simp_all add: new_Table_def Let_def empty_trie_def)
  have cap: "\<not> has_capital (DeleteSpecialKeys ''a'')" "\<not> has_capital (DeleteSpecialKeys ''b'')"
    by (simp_all add: DeleteSpecialKeys_def no_special_block kSpecialKeyOpen_def byte_def
        has_capital_def Utf8ToUtf32_ascii)
  have low: "LowerString ''ba'' = ''ba''"
    by (rule LowerString_lower) (simp add: byte_def)
  have "looping_loop new_Table ''a'' ''ba'' = Some False"
    by (subst looping_loop.simps)
      (simp add: starts_with_def Table_LookUpPrefix_def normalize_key_def low case_new
        trie_LookUpPrefix_deepest ascii_path byte_def)
  then have l1: "load_line new_Table (''a'' @ [CHR 0x09, CHR 0x09] @ ''ba'') =
    Some (new_Table\<lparr>entries := Trie None
      [(97, Trie (Some \<lparr>entry_input = ''a'', entry_result = [], entry_pending = ''ba'', entry_attributes = 0\<rparr>) [])]\<rparr>)"
    using cap case_new
    by (simp add: load_line_def Let_def ChopReturns_def byte_def AddRule_AddRule_body
        AddRule_body_def kMaxSize_def IsLoopingEntry_def NO_TABLE_ATTRIBUTE_def
        trie_AddEntry_path ascii_path empty_trie_def)
  show ?thesis
    unfolding l1 two_rules_def using cap case_new
    by (simp add: load_line_def Let_def ChopReturns_def byte_def AddRule_AddRule_body
        AddRule_body_def kMaxSize_def IsLoopingEntry_def NO_TABLE_ATTRIBUTE_def
        trie_AddEntry_path ascii_path empty_trie_def)
qed

lemma looping_table_lines:
  "StrSplit (CHR 0x0A) looping_table =
     [''a'' @ [CHR 0x09, CHR 0x09] @ ''ba'', ''b'' @ [CHR 0x09] @ ''x'', ''c'' @ [CHR 0x09, CHR 0x09] @ ''a'']"
  by (simp add: looping_table_def)

lemma two_rules_loop: "looping_loop two_rules ''c'' ''a'' = None"
  by (rule looping_loop_diverges [where K = "{''a'', ''ba''}"])
    (auto simp: two_rules_prefix starts_with_def)

text \<open>C15: The loop check itself can run for ever: a custom table with the rules \<open>a\<close> (pending \<open>ba\<close>) and
  \<open>b\<close> (result \<open>x\<close>) is accepted, and the third line \<open>c\<close> with pending \<open>a\<close> makes the key go round
  between \<open>a\<close> and \<open>ba\<close>, so loading the table never returns.\<close>

theorem LoadFromString_hangs: "LoadFromString new_Table looping_table = None"
proof -
  from load_two_rules obtain t1 where
    l1: "load_line new_Table (''a'' @ [CHR 0x09, CHR 0x09] @ ''ba'') = Some t1" and
    l2: "load_line t1 (''b'' @ [CHR 0x09] @ ''x'') = Some two_rules"
    by (auto simp: bind_eq_Some_conv)
  have l3: "load_line two_rules (''c'' @ [CHR 0x09, CHR 0x09] @ ''a'') = None"
    by (simp add: load_line_def Let_def ChopReturns_def AddRule_AddRule_body AddRule_body_def
        kMaxSize_def IsLoopingEntry_def two_rules_loop)
  show ?thesis
    unfolding LoadFromString_def looping_table_lines load_lines.simps l1 option.case l2 l3 ..
qed

section \<open>The punctuation set-up\<close>

lemma AddRule_symbol:
  assumes "0 < byte b" "byte b < 0x80" "\<not> (0x41 \<le> byte b \<and> byte b \<le> 0x5A)" "b \<noteq> CHR ''{''"
    "b \<noteq> CHR 0x0F" "length result < kMaxSize"
  shows "AddRule t [b] result [] =
    Some (Some \<lparr>entry_input = [b], entry_result = result, entry_pending = [], entry_attributes = 0\<rparr>,
      t\<lparr>entries := trie_AddEntry [b] \<lparr>entry_input = [b], entry_result = result,
          entry_pending = [], entry_attributes = 0\<rparr> (entries t)\<rparr>)"
proof -
  have "\<not> has_capital (DeleteSpecialKeys [b])"
    using assms by (simp add: DeleteSpecialKeys_def no_special_block kSpecialKeyOpen_def
        has_capital_def Utf8ToUtf32_ascii Let_def IsSpecialKey_def kSpecialKeyBegin_def)
  then show ?thesis
    using assms AddRule_body_no_pending [of "[b]" result t NO_TABLE_ATTRIBUTE]
    by (simp add: AddRule_AddRule_body kMaxSize_def NO_TABLE_ATTRIBUTE_def)
qed

text \<open>Whether the configuration may set the rule of \<open>key\<close>: there is none, or the default one.\<close>

definition replaceable :: "Table \<Rightarrow> bytes \<Rightarrow> bytes \<Rightarrow> bool" where
  "replaceable t key default_result =
     (case Table_LookUp t key of
        None \<Rightarrow> True
      | Some entry \<Rightarrow> entry_result entry = default_result \<and> entry_pending entry = [])"

definition plain_symbol :: "char \<Rightarrow> bool" where
  "plain_symbol b \<longleftrightarrow> 0 < byte b \<and> byte b < 0x80 \<and> \<not> (0x41 \<le> byte b \<and> byte b \<le> 0x5A) \<and>
     b \<noteq> CHR ''{'' \<and> b \<noteq> CHR 0x0F"

lemma trie_path_plain: "plain_symbol b \<Longrightarrow> trie_path [b] = [byte b]"
  by (simp add: plain_symbol_def ascii_path)

lemma normalize_plain [simp]: "plain_symbol b \<Longrightarrow> normalize_key t [b] = [b]"
  by (simp add: normalize_key_def LowerString_lower plain_symbol_def)

lemma init_symbol_plain:
  assumes "plain_symbol b" and "length new_result < kMaxSize"
  shows "\<exists>t'. init_symbol [b] default_result new_result t = Some t' \<and>
    Table_LookUp t' [b] =
      (if replaceable t [b] default_result
       then Some \<lparr>entry_input = [b], entry_result = new_result, entry_pending = [], entry_attributes = 0\<rparr>
       else Table_LookUp t [b]) \<and>
    (\<forall>c. plain_symbol c \<and> c \<noteq> b \<longrightarrow> Table_LookUp t' [c] = Table_LookUp t [c])"
proof (cases "replaceable t [b] default_result")
  case True
  with assms show ?thesis
    by (simp add: init_symbol_def replaceable_def plain_symbol_def [of b] AddRule_symbol
        split: option.splits)
      (auto simp: Table_LookUp_def trie_LookUp_AddEntry trie_path_plain plain_symbol_def)
next
  case False
  then show ?thesis
    by (auto simp: init_symbol_def replaceable_def Let_def split: option.splits)
qed

text \<open>The effect of one step, and the keys it leaves alone.\<close>

definition symbol_set :: "Table \<Rightarrow> Table \<Rightarrow> char \<Rightarrow> bytes \<Rightarrow> bytes \<Rightarrow> bool" where
  "symbol_set t t' b default_result new_result \<longleftrightarrow>
     map_option entry_result (Table_LookUp t' [b]) =
       (if replaceable t [b] default_result then Some new_result
        else map_option entry_result (Table_LookUp t [b])) \<and>
     (\<forall>c. plain_symbol c \<and> c \<noteq> b \<longrightarrow> Table_LookUp t' [c] = Table_LookUp t [c])"

lemma symbol_set_key:
  "symbol_set t t' b d n \<Longrightarrow> map_option entry_result (Table_LookUp t' [b]) =
     (if replaceable t [b] d then Some n else map_option entry_result (Table_LookUp t [b]))"
  by (simp add: symbol_set_def)

lemma symbol_set_other:
  "symbol_set t t' b d n \<Longrightarrow> plain_symbol c \<Longrightarrow> c \<noteq> b \<Longrightarrow> Table_LookUp t' [c] = Table_LookUp t [c]"
  by (simp add: symbol_set_def)

lemma init_symbolE:
  assumes "plain_symbol b" and "length n < kMaxSize"
  obtains t' where "init_symbol [b] d n t = Some t'" "symbol_set t t' b d n"
proof -
  from init_symbol_plain [OF assms, of d t] obtain t' where
    "init_symbol [b] d n t = Some t'" "symbol_set t t' b d n"
    unfolding symbol_set_def by auto
  then show ?thesis by (rule that)
qed

lemma symbol_lengths:
  "length (comma_result p) < kMaxSize" "length (period_result p) < kMaxSize"
  "length (slash_result s) < kMaxSize" "length (open_result s) < kMaxSize"
  "length (close_result s) < kMaxSize"
  by (simp_all add: comma_result_def period_result_def slash_result_def open_result_def close_result_def
      kComma_def kKuten_def kPeriod_def kTouten_def kSlash_def kMiddleDot_def kCornerOpen_def
      kSquareOpen_def kCornerClose_def kSquareClose_def kMaxSize_def CodepointToUtf8_def)

text \<open>Setting up the punctuation always succeeds and leaves, for each of the five keys, the result
  the configuration asks for when the table had no rule or the default rule for it, and the table's
  own rule otherwise.\<close>

lemma init_punctuations_configured:
  "\<exists>t'. init_punctuations config t = Some t' \<and>
     list_all (\<lambda>(key, default_result, configured).
         map_option entry_result (Table_LookUp t' key) =
           (if replaceable t key default_result then Some configured
            else map_option entry_result (Table_LookUp t key)))
       [('','', kKuten, comma_result (punctuation_method config)),
        (''.'', kTouten, period_result (punctuation_method config)),
        (''/'', kMiddleDot, slash_result (symbol_method config)),
        (''['', kCornerOpen, open_result (symbol_method config)),
        ('']'', kCornerClose, close_result (symbol_method config))]"
proof -
  have plain: "plain_symbol (CHR '','')" "plain_symbol (CHR ''.'')" "plain_symbol (CHR ''/'')"
    "plain_symbol (CHR ''['')" "plain_symbol (CHR '']'')"
    by (simp_all add: plain_symbol_def byte_def)
  have rep: "Table_LookUp t1 k = Table_LookUp t2 k \<Longrightarrow> replaceable t1 k d = replaceable t2 k d" for t1 t2 k d
    by (simp add: replaceable_def)
  obtain t1 where t1: "init_symbol '','' kKuten (comma_result (punctuation_method config)) t = Some t1"
    "symbol_set t t1 (CHR '','') kKuten (comma_result (punctuation_method config))"
    by (rule init_symbolE [OF plain(1) symbol_lengths(1)])
  obtain t2 where t2: "init_symbol ''.'' kTouten (period_result (punctuation_method config)) t1 = Some t2"
    "symbol_set t1 t2 (CHR ''.'') kTouten (period_result (punctuation_method config))"
    by (rule init_symbolE [OF plain(2) symbol_lengths(2)])
  obtain t3 where t3: "init_symbol ''/'' kMiddleDot (slash_result (symbol_method config)) t2 = Some t3"
    "symbol_set t2 t3 (CHR ''/'') kMiddleDot (slash_result (symbol_method config))"
    by (rule init_symbolE [OF plain(3) symbol_lengths(3)])
  obtain t4 where t4: "init_symbol ''['' kCornerOpen (open_result (symbol_method config)) t3 = Some t4"
    "symbol_set t3 t4 (CHR ''['') kCornerOpen (open_result (symbol_method config))"
    by (rule init_symbolE [OF plain(4) symbol_lengths(4)])
  obtain t5 where t5: "init_symbol '']'' kCornerClose (close_result (symbol_method config)) t4 = Some t5"
    "symbol_set t4 t5 (CHR '']'') kCornerClose (close_result (symbol_method config))"
    by (rule init_symbolE [OF plain(5) symbol_lengths(5)])
  have same: "replaceable t1 ''.'' kTouten = replaceable t ''.'' kTouten"
    "replaceable t2 ''/'' kMiddleDot = replaceable t ''/'' kMiddleDot"
    "replaceable t3 ''['' kCornerOpen = replaceable t ''['' kCornerOpen"
    "replaceable t4 '']'' kCornerClose = replaceable t '']'' kCornerClose"
    by (rule rep, simp add: plain symbol_set_other [OF t1(2)] symbol_set_other [OF t2(2)]
        symbol_set_other [OF t3(2)] symbol_set_other [OF t4(2)])+
  have "init_punctuations config t = Some t5"
    by (simp add: init_punctuations_def t1(1) t2(1) t3(1) t4(1) t5(1))
  then show ?thesis
    using symbol_set_key [OF t1(2)] symbol_set_key [OF t2(2)] symbol_set_key [OF t3(2)]
      symbol_set_key [OF t4(2)] symbol_set_key [OF t5(2)]
    by (intro exI [of _ t5]) (simp add: plain same symbol_set_other [OF t1(2)] symbol_set_other [OF t2(2)]
        symbol_set_other [OF t3(2)] symbol_set_other [OF t4(2)] symbol_set_other [OF t5(2)])
qed

section \<open>The table cache\<close>

lemma update_fingerprints_again:
  assumes "update_fingerprints city config m = (u, m1)"
  shows "update_fingerprints city (config\<lparr>custom_roman_table := None\<rparr>)
      (m1\<lparr>table_map := f\<rparr>) = (False, m1\<lparr>table_map := f\<rparr>)"
  using assms by (auto simp: update_fingerprints_def Let_def set_custom_def)

lemma update_fingerprints_map:
  "update_fingerprints city config m = (u, m1) \<Longrightarrow> table_map m1 = table_map m"
  by (auto simp: update_fingerprints_def Let_def)

lemma GetTable_cached:
  assumes "update_fingerprints city config m = (False, m)"
    and "table_map m (hash_of (request, preedit_method config, punctuation_method config, symbol_method config)) = Some t"
  shows "GetTable open_file city hash_of request config m = Some (Some t, m)"
  using assms by (simp add: GetTable_def)

text \<open>A custom romaji table outlives its removal: once \<open>GetTable\<close> has returned a table for a
  configuration, the same configuration with \<open>custom_roman_table\<close> cleared is answered with that very
  table, because clearing changes neither the cache key nor a fingerprint.\<close>

lemma GetTable_stale_after_reset:
  assumes "GetTable open_file city hash_of request config m = Some (Some t, m1)"
  shows "GetTable open_file city hash_of request (config\<lparr>custom_roman_table := None\<rparr>) m1 = Some (Some t, m1)"
proof -
  define h where
    "h = hash_of (request, preedit_method config, punctuation_method config, symbol_method config)"
  obtain u m0 where f: "update_fingerprints city config m = (u, m0)" by fastforce
  have "table_map m1 h = Some t \<and> (\<exists>g. m1 = m0\<lparr>table_map := g\<rparr>)"
  proof (cases "table_map m0 h = Some t \<and> \<not> u")
    case True
    with assms f have "m1 = m0" by (auto simp: GetTable_def h_def Let_def)
    with True show ?thesis by (auto intro: exI [of _ "table_map m0"])
  next
    case False
    with assms f show ?thesis
      by (auto simp: GetTable_def h_def [symmetric] Let_def split: option.splits bool.splits prod.splits)
  qed
  then obtain g where "m1 = m0\<lparr>table_map := g\<rparr>" "table_map m1 h = Some t" by blast
  then show ?thesis
    using update_fingerprints_again [OF f, of g] by (intro GetTable_cached) (simp_all add: h_def)
qed

definition custom_config :: TableConfig where
  "custom_config = \<lparr>preedit_method = ROMAN, custom_roman_table = Some (''a'' @ [CHR 0x09] @ ''x''),
     punctuation_method = TOUTEN_KUTEN, symbol_method = CORNER_BRACKET_MIDDLE_DOT,
     custom_kaeriten_table = None\<rparr>"

lemma load_empty_file [simp]: "LoadFromFile (\<lambda>_. Some []) t path = Some (True, t)"
  by (simp add: LoadFromFile_def LoadFromString_def load_line_def ChopReturns_def Let_def)

lemma init_punctuations_letter:
  assumes "plain_symbol c" and "c \<notin> set '',./[]''"
  shows "\<exists>t'. init_punctuations config t = Some t' \<and> Table_LookUp t' [c] = Table_LookUp t [c]"
proof -
  have plain: "plain_symbol (CHR '','')" "plain_symbol (CHR ''.'')" "plain_symbol (CHR ''/'')"
    "plain_symbol (CHR ''['')" "plain_symbol (CHR '']'')"
    by (simp_all add: plain_symbol_def byte_def)
  obtain t1 where t1: "init_symbol '','' kKuten (comma_result (punctuation_method config)) t = Some t1"
    "symbol_set t t1 (CHR '','') kKuten (comma_result (punctuation_method config))"
    by (rule init_symbolE [OF plain(1) symbol_lengths(1)])
  obtain t2 where t2: "init_symbol ''.'' kTouten (period_result (punctuation_method config)) t1 = Some t2"
    "symbol_set t1 t2 (CHR ''.'') kTouten (period_result (punctuation_method config))"
    by (rule init_symbolE [OF plain(2) symbol_lengths(2)])
  obtain t3 where t3: "init_symbol ''/'' kMiddleDot (slash_result (symbol_method config)) t2 = Some t3"
    "symbol_set t2 t3 (CHR ''/'') kMiddleDot (slash_result (symbol_method config))"
    by (rule init_symbolE [OF plain(3) symbol_lengths(3)])
  obtain t4 where t4: "init_symbol ''['' kCornerOpen (open_result (symbol_method config)) t3 = Some t4"
    "symbol_set t3 t4 (CHR ''['') kCornerOpen (open_result (symbol_method config))"
    by (rule init_symbolE [OF plain(4) symbol_lengths(4)])
  obtain t5 where t5: "init_symbol '']'' kCornerClose (close_result (symbol_method config)) t4 = Some t5"
    "symbol_set t4 t5 (CHR '']'') kCornerClose (close_result (symbol_method config))"
    by (rule init_symbolE [OF plain(5) symbol_lengths(5)])
  have "init_punctuations config t = Some t5"
    by (simp add: init_punctuations_def t1(1) t2(1) t3(1) t4(1) t5(1))
  with assms show ?thesis
    by (simp add: symbol_set_other [OF t1(2)] symbol_set_other [OF t2(2)] symbol_set_other [OF t3(2)]
        symbol_set_other [OF t4(2)] symbol_set_other [OF t5(2)])
qed

end
