(* ===== verification/Kaeriten.thy ===== *)
theory Kaeriten
  imports Romaji_Table "HOL-Library.Multiset"
begin

text \<open>
  \<open>composer/kaeriten_table_util.cc\<close>: the editable table of kaeriten, the marks for reading classical Chinese.
  A row sends a suffix, typed behind a semicolon, to a mark; the table is kept as text. The bundled table is
  a resource the build makes, \<open>files\<close> gives its contents. \<open>std::sort\<close>, which takes the comparison of the
  code, is a parameter, since the standard leaves open in which order it puts elements that compare equal.
\<close>

record KaeritenRow =
  kaeriten_suffix :: bytes
  kaeriten_result :: bytes

definition SuffixFromInput :: "bytes \<Rightarrow> bytes" where
  "SuffixFromInput input =
     (if input = [] then [] else if hd input = CHR '';'' then tl input else input)"

definition GetBundledKaeritenTable :: "(bytes \<Rightarrow> bytes option) \<Rightarrow> bytes" where
  "GetBundledKaeritenTable files =
     (case files ''system://kaeriten.tsv'' of None \<Rightarrow> [] | Some t \<Rightarrow> t)"

definition parse_kaeriten_line :: "bytes \<Rightarrow> KaeritenRow option" where
  "parse_kaeriten_line line_view =
     (let line = ChopReturns line_view
      in if line = [] \<or> hd line = CHR ''#'' then None
         else case StrSplit (CHR 0x09) line of
           input # result # _ \<Rightarrow>
             if input = [] \<or> result = [] then None
             else let row = \<lparr>kaeriten_suffix = SuffixFromInput input, kaeriten_result = result\<rparr>
                  in if kaeriten_suffix row = [] \<or> kaeriten_result row = [] then None else Some row
         | _ \<Rightarrow> None)"

definition ParseKaeritenTsvString :: "bytes \<Rightarrow> KaeritenRow list" where
  "ParseKaeritenTsvString tsv = List.map_filter parse_kaeriten_line (StrSplit (CHR 0x0A) tsv)"

definition serialize_kaeriten_row :: "KaeritenRow \<Rightarrow> bytes" where
  "serialize_kaeriten_row row =
     (if kaeriten_suffix row = [] \<or> kaeriten_result row = [] then []
      else CHR '';'' # kaeriten_suffix row @ CHR 0x09 # kaeriten_result row @
        CHR 0x09 # CHR 0x09 # ''DirectInput'' @ [CHR 0x0A])"

type_synonym 'a std_sort = "('a \<Rightarrow> 'a \<Rightarrow> bool) \<Rightarrow> 'a list \<Rightarrow> 'a list"

definition SerializeKaeritenTable :: "KaeritenRow std_sort \<Rightarrow> KaeritenRow list \<Rightarrow> bytes" where
  "SerializeKaeritenTable std_sort rows =
     (let sorted = std_sort (\<lambda>a b. length (kaeriten_suffix a) > length (kaeriten_suffix b)) rows
      in concat (map serialize_kaeriten_row sorted))"

definition GetEffectiveKaeritenTable :: "(bytes \<Rightarrow> bytes option) \<Rightarrow> bytes option \<Rightarrow> bytes" where
  "GetEffectiveKaeritenTable files custom_table =
     (case custom_table of
        Some t \<Rightarrow> if t \<noteq> [] then t else GetBundledKaeritenTable files
      | None \<Rightarrow> GetBundledKaeritenTable files)"

definition LoadKaeritenShortcutEntries :: "(bytes \<Rightarrow> bytes option) \<Rightarrow> bytes option \<Rightarrow> (bytes \<times> bytes) list" where
  "LoadKaeritenShortcutEntries files custom_table =
     map (\<lambda>row. (CHR '';'' # kaeriten_suffix row, kaeriten_result row))
       (ParseKaeritenTsvString (GetEffectiveKaeritenTable files custom_table))"

section \<open>Reading back an edited table\<close>

definition kaeriten_text :: "bytes \<Rightarrow> bool" where
  "kaeriten_text s \<longleftrightarrow> CHR 0x09 \<notin> set s \<and> CHR 0x0A \<notin> set s"

definition kaeriten_ok :: "KaeritenRow \<Rightarrow> bool" where
  "kaeriten_ok row \<longleftrightarrow> kaeriten_text (kaeriten_suffix row) \<and> kaeriten_text (kaeriten_result row)"

definition kept_row :: "KaeritenRow \<Rightarrow> bool" where
  "kept_row row \<longleftrightarrow> kaeriten_suffix row \<noteq> [] \<and> kaeriten_result row \<noteq> []"

lemma parse_serialized_line:
  assumes "kaeriten_ok row" and "kept_row row"
  shows "parse_kaeriten_line (CHR '';'' # kaeriten_suffix row @ CHR 0x09 # kaeriten_result row @
    CHR 0x09 # CHR 0x09 # ''DirectInput'') = Some row"
proof -
  let ?s = "kaeriten_suffix row" and ?r = "kaeriten_result row"
  let ?line = "CHR '';'' # ?s @ CHR 0x09 # ?r @ CHR 0x09 # CHR 0x09 # ''DirectInput''"
  have c: "ChopReturns ?line = ?line" by (simp add: ChopReturns_def)
  have "StrSplit (CHR 0x09) ((CHR '';'' # ?s) @ CHR 0x09 # ?r @ CHR 0x09 # CHR 0x09 # ''DirectInput'') =
      (CHR '';'' # ?s) # ?r # StrSplit (CHR 0x09) (CHR 0x09 # ''DirectInput'')"
    using assms(1) by (subst StrSplit_append) (simp_all add: StrSplit_append kaeriten_ok_def kaeriten_text_def)
  then show ?thesis
    using assms(2) c
    by (simp add: parse_kaeriten_line_def Let_def SuffixFromInput_def kept_row_def del: StrSplit.simps)
qed

lemma parse_serialized:
  "list_all kaeriten_ok rows \<Longrightarrow>
   ParseKaeritenTsvString (concat (map serialize_kaeriten_row rows)) = filter kept_row rows"
proof (induction rows)
  case Nil
  then show ?case by (simp add: ParseKaeritenTsvString_def map_filter_simps parse_kaeriten_line_def ChopReturns_def)
next
  case (Cons row rows)
  let ?rest = "concat (map serialize_kaeriten_row rows)"
  show ?case
  proof (cases "kept_row row")
    case False
    then show ?thesis using Cons by (simp add: serialize_kaeriten_row_def kept_row_def)
  next
    case True
    let ?line = "CHR '';'' # kaeriten_suffix row @ CHR 0x09 # kaeriten_result row @ CHR 0x09 # CHR 0x09 # ''DirectInput''"
    have ok: "kaeriten_ok row" using Cons.prems by simp
    have "serialize_kaeriten_row row @ ?rest = ?line @ CHR 0x0A # ?rest"
      using True by (simp add: serialize_kaeriten_row_def kept_row_def)
    moreover have "StrSplit (CHR 0x0A) (?line @ CHR 0x0A # ?rest) = ?line # StrSplit (CHR 0x0A) ?rest"
      by (rule StrSplit_append) (use ok in \<open>simp add: kaeriten_ok_def kaeriten_text_def\<close>)
    ultimately have "ParseKaeritenTsvString (serialize_kaeriten_row row @ ?rest) =
        row # List.map_filter parse_kaeriten_line (StrSplit (CHR 0x0A) ?rest)"
      using parse_serialized_line [OF ok True] by (simp only: ParseKaeritenTsvString_def map_filter_simps option.case)
    then show ?thesis using Cons True by (simp add: ParseKaeritenTsvString_def)
  qed
qed

text \<open>
  What the standard says of \<open>std::sort\<close>: for a strict weak ordering it permutes the elements so that none
  comes before one that is less.
\<close>

definition strict_weak_ordering :: "('a \<Rightarrow> 'a \<Rightarrow> bool) \<Rightarrow> bool" where
  "strict_weak_ordering lt \<longleftrightarrow>
     (\<forall>a b. lt a b \<longrightarrow> \<not> lt b a) \<and> (\<forall>a b c. \<not> lt a b \<longrightarrow> \<not> lt b c \<longrightarrow> \<not> lt a c)"

definition sorts :: "'a std_sort \<Rightarrow> bool" where
  "sorts std_sort \<longleftrightarrow> (\<forall>lt xs. strict_weak_ordering lt \<longrightarrow>
     mset (std_sort lt xs) = mset xs \<and> sorted_wrt (\<lambda>a b. \<not> lt b a) (std_sort lt xs))"

lemma longer_suffix_ordering:
  "strict_weak_ordering (\<lambda>a b. length (kaeriten_suffix a) > length (kaeriten_suffix b))"
  by (auto simp: strict_weak_ordering_def)

text \<open>Such a function: sorting by insertion.\<close>

fun insert_by :: "('a \<Rightarrow> 'a \<Rightarrow> bool) \<Rightarrow> 'a \<Rightarrow> 'a list \<Rightarrow> 'a list" where
  "insert_by lt x [] = [x]"
| "insert_by lt x (y # ys) = (if lt y x then y # insert_by lt x ys else x # y # ys)"

definition insertion_sort :: "'a std_sort" where
  "insertion_sort lt xs = foldr (insert_by lt) xs []"

lemma mset_insert_by [simp]: "mset (insert_by lt x ys) = add_mset x (mset ys)"
  by (induction ys) auto

lemma set_insert_by [simp]: "set (insert_by lt x ys) = insert x (set ys)"
  using mset_insert_by [of lt x ys] by (metis set_mset_add_mset_insert set_mset_mset)

lemma sorted_insert_by:
  assumes "strict_weak_ordering lt"
  shows "sorted_wrt (\<lambda>a b. \<not> lt b a) ys \<Longrightarrow> sorted_wrt (\<lambda>a b. \<not> lt b a) (insert_by lt x ys)"
proof (induction ys)
  case (Cons y ys)
  show ?case
  proof (cases "lt y x")
    case True
    then have "\<not> lt x y" using assms unfolding strict_weak_ordering_def by blast
    then show ?thesis using Cons True by simp
  next
    case False
    then have "\<forall>z \<in> set ys. \<not> lt z x"
      using Cons.prems assms unfolding strict_weak_ordering_def by (metis list.set_intros(1) sorted_wrt.simps(2))
    then show ?thesis using Cons.prems False by simp
  qed
qed simp

lemma insertion_sort_sorts: "sorts insertion_sort"
proof -
  have "mset (foldr (insert_by lt) xs []) = mset xs" for lt :: "'a \<Rightarrow> 'a \<Rightarrow> bool" and xs
    by (induction xs) simp_all
  moreover have "strict_weak_ordering lt \<Longrightarrow> sorted_wrt (\<lambda>a b. \<not> lt b a) (foldr (insert_by lt) xs [])"
    for lt :: "'a \<Rightarrow> 'a \<Rightarrow> bool" and xs
    by (induction xs) (simp_all add: sorted_insert_by)
  ultimately show ?thesis by (simp add: sorts_def insertion_sort_def)
qed

text \<open>C40: An edited kaeriten table is read back: when no suffix and no mark has a tab or a newline, parsing
  what was serialised gives the rows with a suffix and a mark, each as often as it was there, ordered so that
  longer suffixes come first, and the shortcut list shows them, whatever order \<open>std::sort\<close> gives to suffixes
  of the same size.\<close>

theorem kaeriten_roundtrip:
  assumes "list_all kaeriten_ok rows" and "sorts std_sort"
  shows "mset (ParseKaeritenTsvString (SerializeKaeritenTable std_sort rows)) = mset (filter kept_row rows) \<and>
    sorted_wrt (\<lambda>a b. length (kaeriten_suffix b) \<le> length (kaeriten_suffix a))
      (ParseKaeritenTsvString (SerializeKaeritenTable std_sort rows)) \<and>
    (filter kept_row rows \<noteq> [] \<longrightarrow>
      mset (LoadKaeritenShortcutEntries files (Some (SerializeKaeritenTable std_sort rows))) =
      mset (map (\<lambda>row. (CHR '';'' # kaeriten_suffix row, kaeriten_result row)) (filter kept_row rows)))"
proof -
  define rs where "rs = std_sort (\<lambda>a b. length (kaeriten_suffix a) > length (kaeriten_suffix b)) rows"
  have perm: "mset rs = mset rows"
    and order: "sorted_wrt (\<lambda>a b. length (kaeriten_suffix b) \<le> length (kaeriten_suffix a)) rs"
    using assms(2) longer_suffix_ordering unfolding sorts_def rs_def by (fastforce simp: not_less)+
  have "set rs = set rows" using perm by (metis mset_eq_setD)
  then have "list_all kaeriten_ok rs" using assms(1) by (simp add: list_all_iff)
  then have p: "ParseKaeritenTsvString (SerializeKaeritenTable std_sort rows) = filter kept_row rs"
    by (simp add: SerializeKaeritenTable_def Let_def parse_serialized flip: rs_def)
  have m: "mset (filter kept_row rs) = mset (filter kept_row rows)"
    using perm by (simp add: mset_filter)
  have ne: "SerializeKaeritenTable std_sort rows \<noteq> []" if "filter kept_row rows \<noteq> []"
  proof
    assume "SerializeKaeritenTable std_sort rows = []"
    then have "ParseKaeritenTsvString (SerializeKaeritenTable std_sort rows) = []"
      by (simp add: ParseKaeritenTsvString_def map_filter_simps parse_kaeriten_line_def ChopReturns_def)
    then show False using that m unfolding p by simp
  qed
  have l: "LoadKaeritenShortcutEntries files (Some (SerializeKaeritenTable std_sort rows)) =
      map (\<lambda>row. (CHR '';'' # kaeriten_suffix row, kaeriten_result row)) (filter kept_row rs)"
    if "filter kept_row rows \<noteq> []"
    using ne [OF that] by (simp add: LoadKaeritenShortcutEntries_def GetEffectiveKaeritenTable_def p)
  have "mset (map f (filter kept_row rs)) = mset (map f (filter kept_row rows))"
    for f :: "KaeritenRow \<Rightarrow> bytes \<times> bytes"
    using m by (simp only: mset_map)
  then show ?thesis unfolding p using m l sorted_wrt_filter [OF order] by simp
qed

theorem kaeriten_roundtrip_witness:
  "mset (ParseKaeritenTsvString (SerializeKaeritenTable insertion_sort
     [\<lparr>kaeriten_suffix = ''r'', kaeriten_result = ''a''\<rparr>, \<lparr>kaeriten_suffix = ''te'', kaeriten_result = ''b''\<rparr>])) =
   {#\<lparr>kaeriten_suffix = ''r'', kaeriten_result = ''a''\<rparr>, \<lparr>kaeriten_suffix = ''te'', kaeriten_result = ''b''\<rparr>#}"
proof -
  let ?rows = "[\<lparr>kaeriten_suffix = ''r'', kaeriten_result = ''a''\<rparr>, \<lparr>kaeriten_suffix = ''te'', kaeriten_result = ''b''\<rparr>]"
  have "list_all kaeriten_ok ?rows" by (simp add: kaeriten_ok_def kaeriten_text_def)
  from kaeriten_roundtrip [OF this insertion_sort_sorts, THEN conjunct1] show ?thesis by (simp add: kept_row_def)
qed

end
