(* ===== verification/Transliterators.thy ===== *)
theory Transliterators
  imports Utf8_Text
begin

text \<open>
  \<open>composer/transliterators.cc\<close>: the ways a chunk of the preedit can be shown, and how a position
  in the shown text splits the raw and the converted string. The character conversions of
  \<open>japanese_util\<close> (tables generated from rule files) and of \<open>CharacterFormManager\<close> are the record
  \<open>TextConv\<close>, an argument of every definition that uses them.
\<close>

record TextConv =
  HalfWidthToFullWidth :: "bytes \<Rightarrow> bytes"
  FullWidthToHalfWidth :: "bytes \<Rightarrow> bytes"
  HiraganaToKatakana :: "bytes \<Rightarrow> bytes"
  KatakanaToHiragana :: "bytes \<Rightarrow> bytes"
  HalfWidthKatakanaToFullWidthKatakana :: "bytes \<Rightarrow> bytes"
  FullWidthAsciiToHalfWidthAscii :: "bytes \<Rightarrow> bytes"
  HalfWidthAsciiToFullWidthAscii :: "bytes \<Rightarrow> bytes"
  ConvertPreeditString :: "bytes \<Rightarrow> bytes"

datatype Transliterator =
    CONVERSION_STRING | RAW_STRING | HIRAGANA | FULL_KATAKANA | HALF_KATAKANA | FULL_ASCII
  | HALF_ASCII | LOCAL

text \<open>The last test of the source, \<open>secondary.rfind (primary_rhs) == secondary_position\<close>, holds exactly
  when \<open>secondary\<close> ends in \<open>primary_rhs\<close>. The result is the flag and the four halves: primary left
  and right, secondary left and right.\<close>

definition SplitPrimaryString ::
  "nat \<Rightarrow> bytes \<Rightarrow> bytes \<Rightarrow> bool \<times> bytes \<times> bytes \<times> bytes \<times> bytes" where
  "SplitPrimaryString position primary secondary =
     (let primary_lhs = Utf8SubString primary 0 position;
          primary_rhs = Utf8SubStringFrom primary position;
          secondary_position = length secondary - length primary_rhs
      in if length secondary < length primary_rhs
         then (False, primary_lhs, primary_rhs, primary_lhs, primary_rhs)
         else if drop secondary_position secondary \<noteq> primary_rhs
         then (False, primary_lhs, primary_rhs, primary_lhs, primary_rhs)
         else (True, primary_lhs, primary_rhs, take secondary_position secondary, primary_rhs))"

text \<open>The halves are returned as \<open>(raw_lhs, raw_rhs, converted_lhs, converted_rhs)\<close>.\<close>

definition SplitRaw :: "nat \<Rightarrow> bytes \<Rightarrow> bytes \<Rightarrow> bool \<times> bytes \<times> bytes \<times> bytes \<times> bytes" where
  "SplitRaw position rw conv = SplitPrimaryString position rw conv"

definition SplitConverted :: "nat \<Rightarrow> bytes \<Rightarrow> bytes \<Rightarrow> bool \<times> bytes \<times> bytes \<times> bytes \<times> bytes" where
  "SplitConverted position rw conv =
     (case SplitPrimaryString position conv rw of
        (result, conv_lhs, conv_rhs, raw_lhs, raw_rhs) \<Rightarrow> (result, raw_lhs, raw_rhs, conv_lhs, conv_rhs))"

definition HalfKatakanaToHiragana :: "TextConv \<Rightarrow> bytes \<Rightarrow> bytes" where
  "HalfKatakanaToHiragana tc s =
     KatakanaToHiragana tc (HalfWidthKatakanaToFullWidthKatakana tc s)"

fun Transliterators_Transliterate :: "TextConv \<Rightarrow> Transliterator \<Rightarrow> bytes \<Rightarrow> bytes \<Rightarrow> bytes" where
  "Transliterators_Transliterate tc CONVERSION_STRING rw conv = conv"
| "Transliterators_Transliterate tc RAW_STRING rw conv = rw"
| "Transliterators_Transliterate tc HIRAGANA rw conv =
     ConvertPreeditString tc (HalfWidthToFullWidth tc conv)"
| "Transliterators_Transliterate tc FULL_KATAKANA rw conv =
     ConvertPreeditString tc (HalfWidthToFullWidth tc (HiraganaToKatakana tc conv))"
| "Transliterators_Transliterate tc HALF_KATAKANA rw conv =
     FullWidthToHalfWidth tc (HiraganaToKatakana tc conv)"
| "Transliterators_Transliterate tc FULL_ASCII rw conv =
     HalfWidthAsciiToFullWidthAscii tc (if rw = [] then conv else rw)"
| "Transliterators_Transliterate tc HALF_ASCII rw conv =
     FullWidthAsciiToHalfWidthAscii tc (if rw = [] then conv else rw)"
| "Transliterators_Transliterate tc LOCAL rw conv = conv"

definition HalfKatakana_Split ::
  "TextConv \<Rightarrow> nat \<Rightarrow> bytes \<Rightarrow> bytes \<Rightarrow> bool \<times> bytes \<times> bytes \<times> bytes \<times> bytes" where
  "HalfKatakana_Split tc position rw conv =
     (case SplitConverted position rw (Transliterators_Transliterate tc HALF_KATAKANA rw conv) of
        (result, hk_raw_lhs, hk_raw_rhs, hk_conv_lhs, hk_conv_rhs) \<Rightarrow>
          let h = HalfKatakanaToHiragana tc
          in (result,
              if result then hk_raw_lhs else h hk_raw_lhs,
              if result then hk_raw_rhs else h hk_raw_rhs,
              h hk_conv_lhs, h hk_conv_rhs))"

fun Transliterators_Split ::
  "TextConv \<Rightarrow> Transliterator \<Rightarrow> nat \<Rightarrow> bytes \<Rightarrow> bytes \<Rightarrow> bool \<times> bytes \<times> bytes \<times> bytes \<times> bytes" where
  "Transliterators_Split tc CONVERSION_STRING position rw conv = SplitConverted position rw conv"
| "Transliterators_Split tc RAW_STRING position rw conv = SplitRaw position rw conv"
| "Transliterators_Split tc HIRAGANA position rw conv = SplitConverted position rw conv"
| "Transliterators_Split tc FULL_KATAKANA position rw conv = SplitConverted position rw conv"
| "Transliterators_Split tc HALF_KATAKANA position rw conv = HalfKatakana_Split tc position rw conv"
| "Transliterators_Split tc FULL_ASCII position rw conv = SplitRaw position rw conv"
| "Transliterators_Split tc HALF_ASCII position rw conv = SplitRaw position rw conv"
| "Transliterators_Split tc LOCAL position rw conv = SplitConverted position rw conv"

section \<open>What a split keeps\<close>

lemma utf8_halves: "Utf8SubString s 0 n @ Utf8SubStringFrom s n = s"
  by (simp add: Utf8SubString_def utf8_take_drop)

lemma SplitPrimaryString_halves:
  assumes "SplitPrimaryString n p s = (exact, pl, pr, sl, sr)"
  shows "pl = Utf8SubString p 0 n" "pr = Utf8SubStringFrom p n" "pl @ pr = p"
    "exact \<Longrightarrow> sl @ sr = s \<and> sr = pr" "\<not> exact \<Longrightarrow> sl = pl \<and> sr = pr"
proof -
  show "pl = Utf8SubString p 0 n" "pr = Utf8SubStringFrom p n"
    using assms by (auto simp: SplitPrimaryString_def Let_def split: if_splits)
  then show "pl @ pr = p" by (simp add: utf8_halves)
  show "exact \<Longrightarrow> sl @ sr = s \<and> sr = pr" "\<not> exact \<Longrightarrow> sl = pl \<and> sr = pr"
    using assms by (auto simp: SplitPrimaryString_def Let_def split: if_splits)
      (metis append_take_drop_id)
qed

lemma Split_converted_side:
  assumes "t \<in> {CONVERSION_STRING, HIRAGANA, FULL_KATAKANA, LOCAL}"
    and "Transliterators_Split tc t n rw conv = (exact, rl, rr, cl, cr)"
  shows "cl = Utf8SubString conv 0 n" "cr = Utf8SubStringFrom conv n" "cl @ cr = conv"
    "exact \<Longrightarrow> rl @ rr = rw"
proof -
  have s: "SplitPrimaryString n conv rw = (exact, cl, cr, rl, rr)"
    using assms by (auto simp: SplitConverted_def split: prod.splits)
  from SplitPrimaryString_halves [OF s]
  show "cl = Utf8SubString conv 0 n" "cr = Utf8SubStringFrom conv n" "cl @ cr = conv"
    "exact \<Longrightarrow> rl @ rr = rw"
    by auto
qed

text \<open>Splitting a preedit text loses nothing. The side that decides the position (the raw string
  for the raw and ASCII transliterators, the converted string for the kana ones) is cut after that
  many characters, and when the flag is true the other side is cut into two parts that make it up
  again.\<close>

lemma Split_partitions:
  assumes "t \<noteq> HALF_KATAKANA" and "Transliterators_Split tc t n rw conv = (exact, rl, rr, cl, cr)"
  shows "(if t \<in> {RAW_STRING, FULL_ASCII, HALF_ASCII}
          then rl @ rr = rw \<and> rl = Utf8SubString rw 0 n \<and> (if exact then cl @ cr = conv else cl = rl \<and> cr = rr)
          else cl @ cr = conv \<and> cl = Utf8SubString conv 0 n \<and> (if exact then rl @ rr = rw else rl = cl \<and> rr = cr))"
proof (cases "t \<in> {RAW_STRING, FULL_ASCII, HALF_ASCII}")
  case True
  then have s: "SplitPrimaryString n rw conv = (exact, rl, rr, cl, cr)"
    using assms(2) by (auto simp: SplitRaw_def)
  from SplitPrimaryString_halves [OF s] True show ?thesis by auto
next
  case False
  with assms have s: "SplitPrimaryString n conv rw = (exact, cl, cr, rl, rr)"
    by (cases t) (auto simp: SplitConverted_def split: prod.splits)
  from SplitPrimaryString_halves [OF s] False show ?thesis by auto
qed

definition id_conv :: TextConv where
  "id_conv = \<lparr>HalfWidthToFullWidth = id, FullWidthToHalfWidth = id, HiraganaToKatakana = id,
     KatakanaToHiragana = id, HalfWidthKatakanaToFullWidthKatakana = id,
     FullWidthAsciiToHalfWidthAscii = id, HalfWidthAsciiToFullWidthAscii = id,
     ConvertPreeditString = id\<rparr>"

end
