(* ===== verification/Char_Chunk.thy ===== *)
theory Char_Chunk
  imports Romaji_Table Transliterators
begin

text \<open>
  \<open>composer/char_chunk.cc\<close> and \<open>composer/composition_input.cc\<close>: the unit of the preedit. A chunk
  keeps the typed characters (\<open>raw\<close>), what they were converted to (\<open>conversion\<close>), what may still
  change with the next key (\<open>pending\<close>) and what the pending part would become if nothing followed
  (\<open>ambiguous\<close>).

  A \<open>shared_ptr\<close> to a table is a pair of an address and the table; \<open>IsAppendable\<close> compares the
  addresses. \<open>local_length_cache_\<close> is \<open>None\<close> for \<open>npos\<close>; the constant method \<open>GetLength\<close> fills it,
  so its definition returns the chunk as well. The list of probable key events of an input is only
  handed on and is left out.
\<close>

type_synonym TablePtr = "nat \<times> Table"

record CharChunk =
  table_ptr :: TablePtr
  raw :: bytes
  conversion :: bytes
  pending :: bytes
  ambiguous :: bytes
  transliterator :: Transliterator
  attributes :: nat
  local_length_cache :: "nat option"

abbreviation chunk_table :: "CharChunk \<Rightarrow> Table" where
  "chunk_table c \<equiv> snd (table_ptr c)"

record CompositionInput =
  input_raw :: bytes
  input_conversion :: bytes
  is_new_input :: bool
  is_asis :: bool

definition input_Empty :: "CompositionInput \<Rightarrow> bool" where
  "input_Empty i \<longleftrightarrow> input_raw i = [] \<and> input_conversion i = []"

definition empty_input :: CompositionInput where
  "empty_input = \<lparr>input_raw = [], input_conversion = [], is_new_input = False, is_asis = False\<rparr>"

definition InitFromRaw :: "bytes \<Rightarrow> bool \<Rightarrow> CompositionInput \<Rightarrow> CompositionInput" where
  "InitFromRaw r new_input i = i\<lparr>input_raw := r, is_new_input := new_input\<rparr>"

definition InitFromRawAndConv :: "bytes \<Rightarrow> bytes \<Rightarrow> bool \<Rightarrow> CompositionInput \<Rightarrow> CompositionInput" where
  "InitFromRawAndConv r c new_input i =
     i\<lparr>input_raw := r, input_conversion := c, is_new_input := new_input\<rparr>"

definition input_Clear :: "CompositionInput \<Rightarrow> CompositionInput" where
  "input_Clear i = empty_input"

section \<open>Construction and display\<close>

definition new_CharChunk :: "Transliterator \<Rightarrow> TablePtr \<Rightarrow> CharChunk" where
  "new_CharChunk t12r t = \<lparr>table_ptr = t, raw = [], conversion = [], pending = [], ambiguous = [],
     transliterator = t12r, attributes = NO_TABLE_ATTRIBUTE, local_length_cache = None\<rparr>"

definition chunk_Clear :: "CharChunk \<Rightarrow> CharChunk" where
  "chunk_Clear c = c\<lparr>raw := [], conversion := [], pending := [], ambiguous := [],
     local_length_cache := None\<rparr>"

definition chunk_GetTransliterator :: "CharChunk \<Rightarrow> Transliterator \<Rightarrow> Transliterator" where
  "chunk_GetTransliterator c t12r =
     (if attributes c AND NO_TRANSLITERATION \<noteq> 0
      then (if t12r = LOCAL \<or> t12r = HALF_ASCII \<or> t12r = FULL_ASCII then CONVERSION_STRING else t12r)
      else if t12r = LOCAL then transliterator c else t12r)"

definition chunk_Transliterate ::
  "TextConv \<Rightarrow> CharChunk \<Rightarrow> Transliterator \<Rightarrow> bytes \<Rightarrow> bytes \<Rightarrow> bytes" where
  "chunk_Transliterate tc c t12r rw conv =
     Transliterators_Transliterate tc (chunk_GetTransliterator c t12r) rw conv"

definition AppendResult :: "TextConv \<Rightarrow> Transliterator \<Rightarrow> CharChunk \<Rightarrow> bytes \<Rightarrow> bytes" where
  "AppendResult tc t12r c result =
     result @ chunk_Transliterate tc c t12r (DeleteSpecialKeys (raw c))
                (DeleteSpecialKeys (conversion c @ pending c))"

definition AppendTrimedResult :: "TextConv \<Rightarrow> Transliterator \<Rightarrow> CharChunk \<Rightarrow> bytes \<Rightarrow> bytes" where
  "AppendTrimedResult tc t12r c result =
     (let converted = conversion c @
            (if pending c \<noteq> [] then
               (case Table_LookUpPrefix (chunk_table c) (pending c) of
                  (Some entry, _, _) \<Rightarrow>
                    if entry_input entry = entry_result entry then entry_result entry else []
                | (None, _, _) \<Rightarrow> [])
             else [])
      in result @ chunk_Transliterate tc c t12r (DeleteSpecialKeys (raw c)) (DeleteSpecialKeys converted))"

definition AppendFixedResult :: "TextConv \<Rightarrow> Transliterator \<Rightarrow> CharChunk \<Rightarrow> bytes \<Rightarrow> bytes" where
  "AppendFixedResult tc t12r c result =
     (let converted = (if ambiguous c \<noteq> [] then conversion c @ ambiguous c
                       else conversion c @ pending c)
      in result @ chunk_Transliterate tc c t12r (DeleteSpecialKeys (raw c)) (DeleteSpecialKeys converted))"

definition uncached_length :: "TextConv \<Rightarrow> Transliterator \<Rightarrow> CharChunk \<Rightarrow> nat" where
  "uncached_length tc t12r c = CharsLen (AppendResult tc t12r c [])"

definition GetLength :: "TextConv \<Rightarrow> Transliterator \<Rightarrow> CharChunk \<Rightarrow> nat \<times> CharChunk" where
  "GetLength tc t12r c =
     (case (t12r = LOCAL, local_length_cache c) of
        (True, Some n) \<Rightarrow> (n, c)
      | _ \<Rightarrow> let n = uncached_length tc t12r c
             in (n, if t12r = LOCAL then c\<lparr>local_length_cache := Some n\<rparr> else c))"

section \<open>Expansion\<close>

definition kMaxRecursion :: nat where "kMaxRecursion = 4"

text \<open>\<open>pending_entries\<close> is the loop over the entries, one recursion level further down.\<close>

fun GetFromPending :: "nat \<Rightarrow> Table \<Rightarrow> bytes \<Rightarrow> bytes set \<Rightarrow> bool \<times> bytes set"
  and pending_entries :: "nat \<Rightarrow> Table \<Rightarrow> Entry list \<Rightarrow> bytes set \<Rightarrow> bool \<times> bytes set" where
  "GetFromPending 0 t key result = (False, result)"
| "GetFromPending (Suc n) t key result =
     (if key \<in> result then (True, result)
      else pending_entries n t (Table_LookUpPredictiveAll t key) (insert key result))"
| "pending_entries n t [] result = (True, result)"
| "pending_entries n t (entry # es) result =
     (if entry_result entry \<noteq> [] then (False, result)
      else (case GetFromPending n t (entry_pending entry) result of
              (False, r) \<Rightarrow> (False, r)
            | (True, r) \<Rightarrow> pending_entries n t es r))"

definition expanded_of_entry :: "Table \<Rightarrow> Entry \<Rightarrow> bytes set" where
  "expanded_of_entry t entry =
     (if entry_result entry \<noteq> [] then {DeleteSpecialKeys (entry_result entry)} else {}) \<union>
     (if entry_pending entry = [] then {}
      else (case GetFromPending kMaxRecursion t (entry_pending entry) {} of
              (False, _) \<Rightarrow> {}
            | (True, loop_result) \<Rightarrow> DeleteSpecialKeys ` loop_result))"

definition GetExpandedResults :: "CharChunk \<Rightarrow> bytes set" where
  "GetExpandedResults c =
     (if pending c = [] then {}
      else (if conversion c = [] then {DeleteSpecialKeys (pending c)} else {}) \<union>
        \<Union> (set (map (expanded_of_entry (chunk_table c))
                  (Table_LookUpPredictiveAll (chunk_table c) (pending c)))))"

section \<open>Queries\<close>

definition IsFixed :: "CharChunk \<Rightarrow> bool" where
  "IsFixed c \<longleftrightarrow> pending c = []"

definition IsAppendable :: "Transliterator \<Rightarrow> TablePtr \<Rightarrow> CharChunk \<Rightarrow> bool" where
  "IsAppendable t12r t c \<longleftrightarrow>
     pending c \<noteq> [] \<and> (t12r = LOCAL \<or> t12r = transliterator c) \<and> fst t = fst (table_ptr c)"

definition IsConvertible :: "Transliterator \<Rightarrow> TablePtr \<Rightarrow> bytes \<Rightarrow> CharChunk \<Rightarrow> bool" where
  "IsConvertible t12r t input c =
     (if \<not> IsAppendable t12r t c then False
      else (case Table_LookUpPrefix (snd t) (pending c @ input) of
              (Some _, key_length, fixed) \<Rightarrow> length (pending c @ input) = key_length \<and> fixed
            | (None, _, _) \<Rightarrow> False))"

definition chunk_ShouldCommit :: "CharChunk \<Rightarrow> bool" where
  "chunk_ShouldCommit c \<longleftrightarrow> attributes c AND DIRECT_INPUT \<noteq> 0 \<and> pending c = []"

definition ShouldInsertNewChunk :: "CharChunk \<Rightarrow> CompositionInput \<Rightarrow> bool" where
  "ShouldInsertNewChunk c input =
     (if raw c = [] \<and> conversion c = [] \<and> pending c = [] then False
      else (is_new_input input \<or> (attributes c AND END_CHUNK \<noteq> 0 \<and> pending c = [])) \<and>
           (HasNewChunkEntry (chunk_table c) (input_raw input) \<or>
            \<not> Table_HasSubRules (chunk_table c) (input_raw input)))"

section \<open>Input\<close>

definition Combine :: "CharChunk \<Rightarrow> CharChunk \<Rightarrow> CharChunk" where
  "Combine c left_chunk =
     c\<lparr>conversion := conversion left_chunk @ conversion c,
       raw := raw left_chunk @ raw c,
       local_length_cache := None,
       ambiguous := (if ambiguous left_chunk = [] then []
                     else if ambiguous c = [] then ambiguous left_chunk @ pending c
                     else ambiguous left_chunk @ ambiguous c),
       pending := pending left_chunk @ pending c\<rparr>"

text \<open>The branch of \<open>AddInputInternal\<close> with no entry. The result is the flag, the rest of the input
  and the chunk.\<close>

definition add_input_no_entry ::
  "CharChunk \<Rightarrow> bytes \<Rightarrow> nat \<Rightarrow> bool \<times> bytes \<times> CharChunk" where
  "add_input_no_entry c input used_key_length =
     (let trimmed = TrimLeadingSpecialKey input
      in if used_key_length = 0 then
           (if length trimmed < length input then (True, trimmed, c)
            else if pending c = [] then
              (case FrontChar input of
                 (front, rest) \<Rightarrow> (False, rest, c\<lparr>raw := raw c @ front, conversion := conversion c @ front\<rparr>))
            else (False, input, c))
         else if used_key_length = length (pending c) then
           (case Table_LookUpPrefix (chunk_table c) input of
              (next_entry, used_length, _) \<Rightarrow>
                if next_entry = None \<and> used_length = 0 \<and> length trimmed < length input
                then (True, trimmed, c) else (False, input, c))
         else if used_key_length < length (pending c) then (False, input, c)
         else
           let used_input_length = used_key_length - length (pending c);
               used_input_chars = take used_input_length input
           in (False, drop used_input_length input,
               c\<lparr>raw := raw c @ used_input_chars, pending := pending c @ used_input_chars,
                 ambiguous := []\<rparr>))"

text \<open>The branch with an entry: \<open>take_entry\<close> moves the used characters to \<open>raw\<close> and takes the entry's
  result and attributes over.\<close>

definition is_first_entry :: "CharChunk \<Rightarrow> bool" where
  "is_first_entry c \<longleftrightarrow> conversion c = [] \<and> (raw c = [] \<or> pending c = [] \<or> raw c = pending c)"

definition take_entry :: "CharChunk \<Rightarrow> bytes \<Rightarrow> Entry \<Rightarrow> nat \<Rightarrow> bool \<Rightarrow> CharChunk" where
  "take_entry c input entry used_key_length fixed =
     (let key = pending c @ input;
          resolved = (fixed \<or> used_key_length < length key)
      in c\<lparr>raw := raw c @ take (used_key_length - length (pending c)) input,
           conversion := (if resolved then conversion c @ entry_result entry else conversion c),
           pending := (if resolved then entry_pending entry else key),
           ambiguous := (if resolved then [] else entry_result entry),
           attributes := (if is_first_entry c then entry_attributes entry else attributes c)\<rparr>)"

text \<open>With \<open>used_key_length < pending_.size ()\<close> the unsigned difference wraps round to more than the
  size of the input, and \<open>input.substr\<close> throws.\<close>

definition add_input_entry ::
  "CharChunk \<Rightarrow> bytes \<Rightarrow> Entry \<Rightarrow> nat \<Rightarrow> bool \<Rightarrow> (bool \<times> bytes \<times> CharChunk) res" where
  "add_input_entry c input0 entry used_key_length fixed =
     (if used_key_length < length (pending c) then Inl OutOfRange
      else res_bind (substr_from input0 (used_key_length - length (pending c))) (\<lambda>input.
        let c = take_entry c input0 entry used_key_length fixed
        in Inr
             (if fixed \<and> input = [] \<and> conversion c = [] \<and> pending c = []
                 \<and> attributes c AND NO_TRANSLITERATION \<noteq> 0
              then (False, input, c\<lparr>raw := []\<rparr>)
              else if input = [] \<or> pending c = [] then (False, input, c)
              else (True, input, c))))"

lemma take_entry_simps [simp]:
  "raw (take_entry c input e n fixed) = raw c @ take (n - length (pending c)) input"
  "local_length_cache (take_entry c input e n fixed) = local_length_cache c"
  "table_ptr (take_entry c input e n fixed) = table_ptr c"
  "transliterator (take_entry c input e n fixed) = transliterator c"
  "pending (take_entry c input e n fixed) =
     (if fixed \<or> n < length (pending c @ input) then entry_pending e else pending c @ input)"
  by (simp_all add: take_entry_def Let_def)

definition AddInputInternal :: "CharChunk \<Rightarrow> bytes \<Rightarrow> (bool \<times> bytes \<times> CharChunk) res" where
  "AddInputInternal c input =
     (let c = c\<lparr>local_length_cache := None\<rparr>
      in case Table_LookUpPrefix (chunk_table c) (pending c @ input) of
           (None, used_key_length, _) \<Rightarrow> Inr (add_input_no_entry c input used_key_length)
         | (Some entry, used_key_length, fixed) \<Rightarrow> add_input_entry c input entry used_key_length fixed)"

partial_function (option) AddInput :: "CharChunk \<Rightarrow> bytes \<Rightarrow> (bytes \<times> CharChunk) res option" where
  "AddInput c input =
     (case AddInputInternal c input of
        Inl e \<Rightarrow> Some (Inl e)
      | Inr (loop, rest, c') \<Rightarrow> if loop then AddInput c' rest else Some (Inr (rest, c')))"

definition AddInputAndConvertedChar ::
  "CharChunk \<Rightarrow> CompositionInput \<Rightarrow> CharChunk \<times> CompositionInput" where
  "AddInputAndConvertedChar c0 input =
     (let c = c0\<lparr>local_length_cache := None\<rparr>; is_empty = (raw c = [] \<and> pending c = [] \<and> conversion c = [])
      in if is_asis input then
           (if is_empty then
              (c\<lparr>raw := input_raw input, conversion := input_conversion input\<rparr>, input_Clear input)
            else (c, input))
         else if is_empty then
           let c = c\<lparr>raw := input_raw input, pending := input_conversion input,
                     ambiguous := input_conversion input\<rparr>
           in ((case Table_LookUp (chunk_table c) (pending c) of
                  Some entry \<Rightarrow> c\<lparr>attributes := entry_attributes entry\<rparr>
                | None \<Rightarrow> c),
               input\<lparr>input_raw := [], input_conversion := []\<rparr>)
         else
           let key_input = pending c @ input_conversion input
           in (case Table_LookUpPrefix (chunk_table c) key_input of
                 (None, _, _) \<Rightarrow> (c, input)
               | (Some entry, key_length, fixed) \<Rightarrow>
                   if key_length = length key_input then
                     let c = c\<lparr>raw := raw c @ input_raw input\<rparr>;
                         c = (if fixed
                              then c\<lparr>conversion := conversion c @ entry_result entry,
                                     pending := entry_pending entry, ambiguous := []\<rparr>
                              else c\<lparr>pending := entry_result entry, ambiguous := entry_result entry\<rparr>)
                     in (c, input\<lparr>input_raw := [], input_conversion := []\<rparr>)
                   else if key_length = length (pending c) then (c, input)
                   else
                     (c\<lparr>raw := raw c @ input_raw input,
                        conversion := conversion c @ entry_result entry,
                        pending := entry_pending entry\<rparr>,
                      input\<lparr>input_raw := [], input_conversion := drop key_length key_input\<rparr>)))"

definition AddCompositionInput ::
  "CharChunk \<Rightarrow> CompositionInput \<Rightarrow> (CharChunk \<times> CompositionInput) res option" where
  "AddCompositionInput c0 input =
     (let c = c0\<lparr>local_length_cache := None\<rparr>
      in if input_conversion input \<noteq> [] then Some (Inr (AddInputAndConvertedChar c input))
         else if ShouldInsertNewChunk c input then Some (Inr (c, input))
         else map_option
                (map_sum id (\<lambda>(rest, c'). (c', input\<lparr>input_raw := rest\<rparr>)))
                (AddInput c (input_raw input)))"

definition chunk_SetTransliterator :: "Transliterator \<Rightarrow> CharChunk \<Rightarrow> CharChunk" where
  "chunk_SetTransliterator t12r c =
     (if t12r = LOCAL then c else c\<lparr>local_length_cache := None, transliterator := t12r\<rparr>)"

section \<open>Splitting\<close>

text \<open>\<open>SplitChunk\<close> returns the left chunk, or \<open>None\<close> for \<open>InvalidArgumentError\<close>, and the chunk it
  leaves. \<open>converted_rhs.size () - pending_.size ()\<close> is unsigned; when it wraps, \<open>assign\<close> takes the
  whole string.\<close>

definition SplitChunk :: "TextConv \<Rightarrow> Transliterator \<Rightarrow> nat \<Rightarrow> CharChunk \<Rightarrow> CharChunk option \<times> CharChunk" where
  "SplitChunk tc t12r position c0 =
     (case GetLength tc t12r c0 of
        (len, c) \<Rightarrow>
          if position = 0 \<or> len \<le> position then (None, c)
          else
            let c = c\<lparr>local_length_cache := None\<rparr>
            in (case Transliterators_Split tc (chunk_GetTransliterator c t12r) position
                       (DeleteSpecialKeys (raw c)) (DeleteSpecialKeys (conversion c @ pending c)) of
                  (_, raw_lhs, raw_rhs, converted_lhs, converted_rhs) \<Rightarrow>
                    let left = (new_CharChunk (transliterator c) (table_ptr c))\<lparr>raw := raw_lhs\<rparr>;
                        c = c\<lparr>raw := raw_rhs\<rparr>
                    in if length (conversion c) < length converted_lhs then
                         (Some (left\<lparr>conversion := conversion c,
                                     pending := drop (length (conversion c)) converted_lhs\<rparr>),
                          c\<lparr>conversion := [], pending := converted_rhs, ambiguous := []\<rparr>)
                       else
                         (Some (left\<lparr>conversion := converted_lhs\<rparr>),
                          c\<lparr>conversion :=
                              (if length converted_rhs < length (pending c) then converted_rhs
                               else take (length converted_rhs - length (pending c)) converted_rhs)\<rparr>)))"

end
