(* ===== verification/Chunk_Input.thy ===== *)
theory Chunk_Input
  imports Char_Chunk Table_Rules
begin

text \<open>
  Properties of \<open>CharChunk\<close>: the length cache, what \<open>AddInput\<close> keeps of the typed characters, when
  it returns, and the rule set on which it aborts.
\<close>

section \<open>The length cache\<close>

definition cache_ok :: "TextConv \<Rightarrow> CharChunk \<Rightarrow> bool" where
  "cache_ok tc c \<longleftrightarrow>
     local_length_cache c = None \<or> local_length_cache c = Some (uncached_length tc LOCAL c)"

lemma cache_ok_None [simp]: "local_length_cache c = None \<Longrightarrow> cache_ok tc c"
  by (simp add: cache_ok_def)

lemma uncached_length_cache [simp]:
  "uncached_length tc t12r (c\<lparr>local_length_cache := x\<rparr>) = uncached_length tc t12r c"
  by (simp add: uncached_length_def AppendResult_def chunk_Transliterate_def chunk_GetTransliterator_def)

lemma GetLength_cached:
  "cache_ok tc c \<Longrightarrow> fst (GetLength tc t12r c) = uncached_length tc t12r c \<and>
     cache_ok tc (snd (GetLength tc t12r c))"
  by (auto simp: GetLength_def cache_ok_def Let_def split: bool.splits option.splits)

lemma add_input_no_entry_cache:
  "local_length_cache c = None \<Longrightarrow>
     local_length_cache (snd (snd (add_input_no_entry c input n))) = None"
  by (auto simp: add_input_no_entry_def Let_def split: prod.splits)

lemma add_input_entry_cache:
  "local_length_cache c = None \<Longrightarrow> add_input_entry c input e n fixed = Inr (loop, rest, c') \<Longrightarrow>
     local_length_cache c' = None"
  by (auto simp: add_input_entry_def Let_def res_bind_Inr_iff split: if_splits)

lemma AddInputInternal_cache:
  assumes "AddInputInternal c input = Inr (loop, rest, c')"
  shows "local_length_cache c' = None"
proof -
  define d where "d = c\<lparr>local_length_cache := None\<rparr>"
  have d: "local_length_cache d = None" by (simp add: d_def)
  obtain r n f where l: "Table_LookUpPrefix (chunk_table d) (pending d @ input) = (r, n, f)"
    by (metis prod_cases3)
  show ?thesis
  proof (cases r)
    case None
    with assms l have "add_input_no_entry d input n = (loop, rest, c')"
      by (simp add: AddInputInternal_def d_def)
    with add_input_no_entry_cache [OF d] show ?thesis by (metis snd_conv)
  next
    case (Some e)
    with assms l have "add_input_entry d input e n f = Inr (loop, rest, c')"
      by (simp add: AddInputInternal_def d_def)
    with add_input_entry_cache [OF d] show ?thesis by blast
  qed
qed

text \<open>Induction on the iterations of \<open>AddInput\<close>.\<close>

lemma AddInput_induct [consumes 1, case_names stop loop]:
  assumes run: "AddInput c input = Some (Inr (rest, c'))"
    and "\<And>c input rest c'. AddInputInternal c input = Inr (False, rest, c') \<Longrightarrow> P c input rest c'"
    and "\<And>c input rest1 c1 rest c'. AddInputInternal c input = Inr (True, rest1, c1) \<Longrightarrow>
      P c1 rest1 rest c' \<Longrightarrow> P c input rest c'"
  shows "P c input rest c'"
proof -
  have "\<forall>rest c'. r = Inr (rest, c') \<longrightarrow> P c input rest c'" if "AddInput c input = Some r" for r c input
  proof (rule AddInput.raw_induct [OF _ that, of "\<lambda>c input r. \<forall>rest c'. r = Inr (rest, c') \<longrightarrow> P c input rest c'"], goal_cases)
    case (1 loop_fun c input r)
    show ?case
    proof (intro allI impI)
      fix rest c' assume r: "r = Inr (rest, c')"
      obtain loop rest1 c1 where i: "AddInputInternal c input = Inr (loop, rest1, c1)"
        using 1(2) r by (cases "AddInputInternal c input") auto
      show "P c input rest c'"
      proof (cases loop)
        case True
        with 1(2) i have "loop_fun c1 rest1 = Some r" by simp
        with 1(1) r have "P c1 rest1 rest c'" by blast
        with i True show ?thesis using assms(3) [of c input rest1 c1 rest c'] by simp
      next
        case False
        with 1(2) i r show ?thesis using assms(2) by simp
      qed
    qed
  qed
  with run show ?thesis by blast
qed

lemma AddInput_cache: "AddInput c input = Some (Inr (rest, c')) \<Longrightarrow> local_length_cache c' = None"
  by (induction rule: AddInput_induct) (simp_all add: AddInputInternal_cache)

lemma AddInputAndConvertedChar_cache:
  "local_length_cache (fst (AddInputAndConvertedChar c input)) = None"
  by (simp add: AddInputAndConvertedChar_def Let_def split: option.splits prod.splits)

lemma map_sum_Inr: "map_sum f g x = Inr y \<longleftrightarrow> (\<exists>z. x = Inr z \<and> y = g z)"
  by (cases x) auto

lemma AddCompositionInput_cache:
  "AddCompositionInput c input = Some (Inr (c', input')) \<Longrightarrow> local_length_cache c' = None"
  using AddInputAndConvertedChar_cache [of "c\<lparr>local_length_cache := None\<rparr>" input]
  by (auto simp: AddCompositionInput_def Let_def map_sum_Inr dest: AddInput_cache split: if_splits)

lemma SplitChunk_cache:
  assumes "cache_ok tc c" and "SplitChunk tc t12r n c = (l, r)"
  shows "cache_ok tc r \<and> (\<forall>left. l = Some left \<longrightarrow> cache_ok tc left)"
proof -
  obtain len c1 where g: "GetLength tc t12r c = (len, c1)" by fastforce
  with GetLength_cached [OF assms(1), of t12r] have c1: "cache_ok tc c1" by simp
  show ?thesis
  proof (cases "n = 0 \<or> len \<le> n")
    case True
    with assms(2) g c1 show ?thesis by (auto simp: SplitChunk_def)
  next
    case False
    with assms(2) g have "local_length_cache r = None \<and> (\<forall>left. l = Some left \<longrightarrow> local_length_cache left = None)"
      by (auto simp: SplitChunk_def Let_def new_CharChunk_def split: prod.splits if_splits)
    then show ?thesis by auto
  qed
qed

text \<open>C4: The cached length of a chunk is never stale: in a chunk whose cache is right, \<open>GetLength\<close>
  returns the length of the text shown, and every operation that changes the chunk (clearing,
  combining, typing, changing the transliterator, splitting) leaves chunks whose cache is right.\<close>

theorem length_cache_invariant:
  assumes "cache_ok tc c"
  shows "fst (GetLength tc t12r c) = CharsLen (AppendResult tc t12r c []) \<and>
    cache_ok tc (snd (GetLength tc t12r c)) \<and>
    cache_ok tc (chunk_Clear c) \<and> cache_ok tc (Combine c left_chunk) \<and>
    cache_ok tc (chunk_SetTransliterator t12r c) \<and>
    (case AddCompositionInput c input of Some (Inr (c', _)) \<Rightarrow> cache_ok tc c' | _ \<Rightarrow> True) \<and>
    (case AddInput c keys of Some (Inr (_, c')) \<Rightarrow> cache_ok tc c' | _ \<Rightarrow> True) \<and>
    (case SplitChunk tc t12r n c of (l, r) \<Rightarrow>
       cache_ok tc r \<and> (case l of Some left \<Rightarrow> cache_ok tc left | None \<Rightarrow> True))"
  using GetLength_cached [OF assms, of t12r] assms SplitChunk_cache [OF assms, of t12r n]
  by (auto simp: uncached_length_def chunk_Clear_def Combine_def chunk_SetTransliterator_def
      dest: AddCompositionInput_cache AddInput_cache split: option.splits sum.splits prod.splits)

theorem length_cache_invariant_witness:
  "cache_ok id_conv (new_CharChunk CONVERSION_STRING (0, new_Table)) \<and>
   fst (GetLength id_conv LOCAL (new_CharChunk CONVERSION_STRING (0, new_Table))) =
     CharsLen (AppendResult id_conv LOCAL (new_CharChunk CONVERSION_STRING (0, new_Table)) [])"
proof -
  have "cache_ok id_conv (new_CharChunk CONVERSION_STRING (0, new_Table))"
    by (simp add: new_CharChunk_def)
  from length_cache_invariant [OF this, of LOCAL] this show ?thesis by blast
qed

section \<open>What typing keeps\<close>

definition printable :: "bytes \<Rightarrow> bool" where
  "printable s = list_all (\<lambda>b. 0x20 \<le> byte b \<and> byte b < 0x7F) s"

lemma printable_drop [simp]: "printable s \<Longrightarrow> printable (drop n s)"
  by (auto simp: printable_def list_all_iff dest: in_set_dropD)

lemma TrimLeadingSpecialKey_printable [simp]: "printable s \<Longrightarrow> TrimLeadingSpecialKey s = s"
  by (cases s) (auto simp: TrimLeadingSpecialKey_def printable_def SplitFirstChar32_ascii IsSpecialKey_def
      kSpecialKeyBegin_def kSpecialKeyOpen_def starts_with_def byte_def)

lemma FrontChar_ascii: "byte b < 0x80 \<Longrightarrow> FrontChar (b # s) = ([b], s)"
  by (simp add: FrontChar_def OneCharLen_def ClippedSubstr_def)

lemma FrontChar_printable: "printable s \<Longrightarrow> FrontChar s = (take 1 s, drop 1 s)"
  by (cases s) (auto simp: FrontChar_ascii printable_def, simp add: FrontChar_def)

definition raw_cleared :: "CharChunk \<Rightarrow> bool" where
  "raw_cleared c \<longleftrightarrow> raw c = [] \<and> conversion c = [] \<and> pending c = [] \<and>
     attributes c AND NO_TRANSLITERATION \<noteq> 0"

lemma add_input_no_entry_raw:
  assumes "printable input" and "add_input_no_entry c input n = (loop, rest, c')"
  shows "\<exists>used. input = used @ rest \<and> raw c' = raw c @ used \<and> \<not> loop"
proof -
  have t: "TrimLeadingSpecialKey input = input" using assms(1) by simp
  show ?thesis
    using assms(2) FrontChar_printable [OF assms(1)]
      append_take_drop_id [of 1 input] append_take_drop_id [of "n - length (pending c)" input]
    by (auto simp: add_input_no_entry_def t Let_def split: if_splits prod.splits)
qed

lemma add_input_entry_shape:
  assumes "add_input_entry c input e n fixed = Inr (loop, rest, c')"
  shows "rest = drop (n - length (pending c)) input \<and>
    (raw c' = raw c @ take (n - length (pending c)) input \<or> \<not> loop \<and> raw_cleared c') \<and>
    (loop \<longrightarrow> rest \<noteq> [] \<and> length (pending c) \<le> n \<and> pending c' = entry_pending e)"
  using assms
  by (simp add: add_input_entry_def Let_def res_bind_Inr_iff substr_from_def raw_cleared_def
      split: if_splits) auto

lemma add_input_entry_raw:
  assumes "add_input_entry c input e n fixed = Inr (loop, rest, c')"
  shows "\<exists>used. input = used @ rest \<and> (raw c' = raw c @ used \<or> \<not> loop \<and> raw_cleared c')"
  using add_input_entry_shape [OF assms] append_take_drop_id by metis

lemma AddInputInternal_raw:
  assumes "printable input" and "AddInputInternal c input = Inr (loop, rest, c')"
  shows "\<exists>used. input = used @ rest \<and> (raw c' = raw c @ used \<or> \<not> loop \<and> raw_cleared c')"
proof -
  define d where "d = c\<lparr>local_length_cache := None\<rparr>"
  have raw: "raw d = raw c" by (simp add: d_def)
  obtain r n f where l: "Table_LookUpPrefix (chunk_table d) (pending d @ input) = (r, n, f)"
    by (metis prod_cases3)
  show ?thesis
  proof (cases r)
    case None
    with assms l have "add_input_no_entry d input n = (loop, rest, c')"
      by (simp add: AddInputInternal_def d_def)
    from add_input_no_entry_raw [OF assms(1) this] raw show ?thesis by auto
  next
    case (Some e)
    with assms l have "add_input_entry d input e n f = Inr (loop, rest, c')"
      by (simp add: AddInputInternal_def d_def)
    from add_input_entry_raw [OF this] raw show ?thesis by simp
  qed
qed

lemma printable_append: "printable (s @ t) \<longleftrightarrow> printable s \<and> printable t"
  by (simp add: printable_def)

lemma AddInput_keeps:
  "AddInput c input = Some (Inr (rest, c')) \<Longrightarrow> printable input \<Longrightarrow>
     \<exists>used. input = used @ rest \<and> (raw c' = raw c @ used \<or> raw_cleared c')"
proof (induction rule: AddInput_induct)
  case (stop c input rest c')
  then show ?case using AddInputInternal_raw by blast
next
  case (loop c input rest1 c1 rest c')
  from AddInputInternal_raw [OF loop(3,1)] obtain used1 where
    u1: "input = used1 @ rest1" "raw c1 = raw c @ used1" by auto
  with loop(3) have "printable rest1" by (simp add: printable_append)
  with loop(2) obtain used2 where "rest1 = used2 @ rest" "raw c' = raw c1 @ used2 \<or> raw_cleared c'"
    by blast
  with u1 show ?case by (intro exI [of _ "used1 @ used2"]) auto
qed

text \<open>C5: Typed keys are kept. When \<open>AddInput\<close> returns on printable ASCII input, the part of the
  input it consumed is exactly what it appended to the raw string, unless the chunk ended up empty
  under \<open>NoTransliteration\<close> and was cleared.\<close>

theorem AddInput_keeps_typed_keys:
  assumes "printable input" and "AddInput c input = Some (Inr (rest, c'))"
  shows "\<exists>used. input = used @ rest \<and>
    (raw c' = raw c @ used \<or>
     raw c' = [] \<and> conversion c' = [] \<and> pending c' = [] \<and> attributes c' AND NO_TRANSLITERATION \<noteq> 0)"
  using AddInput_keeps [OF assms(2,1)] by (simp add: raw_cleared_def)

text \<open>An input no rule starts with: the first character goes to the chunk unconverted.\<close>

lemma AddInput_unmatched:
  assumes "pending c = []" and "printable input"
    and "Table_LookUpPrefix (chunk_table c) input = (None, 0, f)"
  shows "AddInput c input = Some (Inr (drop 1 input,
    c\<lparr>local_length_cache := None, raw := raw c @ take 1 input, conversion := conversion c @ take 1 input\<rparr>))"
  using assms
  by (subst AddInput.simps) (simp add: AddInputInternal_def add_input_no_entry_def FrontChar_printable)

lemma deepest_leaf [simp]: "deepest ks (Trie d []) = (Trie d [], 0)"
  by (cases ks) simp_all

lemma LookUpPrefix_new_Table [simp]: "Table_LookUpPrefix new_Table key = (None, 0, True)"
  by (simp add: Table_LookUpPrefix_def new_Table_def Let_def trie_LookUpPrefix_deepest empty_trie_def)

theorem AddInput_keeps_typed_keys_witness:
  "AddInput (new_CharChunk LOCAL (0, new_Table)) ''xy'' = Some (Inr (''y'',
     (new_CharChunk LOCAL (0, new_Table))\<lparr>local_length_cache := None, raw := ''x'', conversion := ''x''\<rparr>)) \<and>
   (\<exists>used. ''xy'' = used @ ''y'' \<and> (''x'' = used \<or> False))"
proof -
  have p: "printable ''xy''" by (simp add: printable_def byte_def)
  have a: "AddInput (new_CharChunk LOCAL (0, new_Table)) ''xy'' = Some (Inr (''y'',
     (new_CharChunk LOCAL (0, new_Table))\<lparr>local_length_cache := None, raw := ''x'', conversion := ''x''\<rparr>))"
    using AddInput_unmatched [of "new_CharChunk LOCAL (0, new_Table)" "''xy''" True] p
    by (simp add: new_CharChunk_def)
  from AddInput_keeps_typed_keys [OF p a] a show ?thesis by (simp add: new_CharChunk_def)
qed

section \<open>When typing returns\<close>

lemma TrimLeadingSpecialKey_length: "length (TrimLeadingSpecialKey s) \<le> length s"
  by (auto simp: TrimLeadingSpecialKey_def split: prod.splits option.splits)

lemma AddInputInternal_shrinks:
  assumes "table_shrinks (chunk_table c)" and "AddInputInternal c input = Inr (True, rest, c')"
  shows "length (pending c' @ rest) < length (pending c @ input) \<and> table_ptr c' = table_ptr c"
proof -
  define d where "d = c\<lparr>local_length_cache := None\<rparr>"
  have d: "pending d = pending c" "table_ptr d = table_ptr c" by (simp_all add: d_def)
  obtain r n f where l: "Table_LookUpPrefix (chunk_table d) (pending d @ input) = (r, n, f)"
    by (metis prod_cases3)
  show ?thesis
  proof (cases r)
    case None
    with assms(2) l have "add_input_no_entry d input n = (True, rest, c')"
      by (simp add: AddInputInternal_def d_def)
    then show ?thesis using d
      by (auto simp: add_input_no_entry_def Let_def split: if_splits prod.splits)
  next
    case (Some e)
    with assms(2) l have a: "add_input_entry d input e n f = Inr (True, rest, c')"
      by (simp add: AddInputInternal_def d_def)
    from Table_LookUpPrefix_shrinks [OF _ l [unfolded Some]] assms(1) d
    have "length (entry_pending e) < n" "n \<le> length (pending d @ input)" by auto
    moreover from add_input_entry_shape [OF a]
    have "rest = drop (n - length (pending d)) input" "pending c' = entry_pending e" "length (pending d) \<le> n"
      by simp_all
    moreover have "table_ptr c' = table_ptr d"
      using a by (auto simp: add_input_entry_def Let_def res_bind_Inr_iff split: if_splits)
    ultimately show ?thesis using d by auto
  qed
qed

lemma AddInput_terminates:
  "table_shrinks (chunk_table c) \<Longrightarrow> \<exists>r. AddInput c input = Some r"
proof (induction "length (pending c @ input)" arbitrary: c input rule: less_induct)
  case less
  show ?case
  proof (cases "AddInputInternal c input")
    case (Inl e)
    then show ?thesis by (subst AddInput.simps) simp
  next
    case (Inr q)
    obtain loop rest c' where q: "q = (loop, rest, c')" by (metis prod_cases3)
    show ?thesis
    proof (cases loop)
      case True
      with AddInputInternal_shrinks [OF less(2)] Inr q
      have "length (pending c' @ rest) < length (pending c @ input)" "table_ptr c' = table_ptr c" by auto
      with less have "\<exists>r. AddInput c' rest = Some r" by simp
      then show ?thesis using Inr q True by (subst AddInput.simps) simp
    next
      case False
      then show ?thesis using Inr q by (subst AddInput.simps) simp
    qed
  qed
qed

text \<open>C6: In a table in which the pending string of every entry, special keys included, has fewer bytes than
  its input, the typing loop of \<open>AddInput\<close> comes to an end on every chunk and every input, be it
  well-formed or not.\<close>

theorem AddInput_returns:
  assumes "table_shrinks (chunk_table c)"
  shows "\<exists>r. AddInput c input = Some r"
  using AddInput_terminates [OF assms] .

theorem AddInput_returns_witness:
  "\<exists>t r. add_rules new_Table [(''tt'', ''x'', ''t'')] = Some t \<and>
     AddInput (new_CharChunk LOCAL (0, t)) ''ttt'' = Some r"
proof -
  have s: "list_all shrinking_rule [(''tt'', ''x'', ''t'')]"
    by (simp add: shrinking_rule_def utf8_string_ascii byte_def)
  from add_rules_shrinking [OF table_shrinks_new s] obtain t where
    t: "add_rules new_Table [(''tt'', ''x'', ''t'')] = Some t" "table_shrinks t" by blast
  have "table_shrinks (chunk_table (new_CharChunk LOCAL (0, t)))" using t(2) by (simp add: new_CharChunk_def)
  from AddInput_returns [OF this] t(1) show ?thesis by blast
qed

section \<open>A rule set that aborts\<close>

text \<open>Two accepted rules can make typing abort: with \<open>a\<close> leaving \<open>ba\<close> pending and \<open>b\<close> giving
  \<open>x\<close>, the key \<open>a\<close> followed by any other plain key reads \<open>b\<close> from the pending string, uses fewer
  characters than are pending, and \<open>input.substr\<close> is called with a wrapped-round offset.\<close>

lemma AddInput_aborts:
  assumes "printable [k]"
  shows "\<exists>c. AddInput (new_CharChunk CONVERSION_STRING (0, two_rules)) ''a'' = Some (Inr ([], c)) \<and>
    pending c = ''ba'' \<and> AddInput c [k] = Some (Inl OutOfRange)"
proof -
  define c where "c = (new_CharChunk CONVERSION_STRING (0, two_rules))\<lparr>raw := ''a'', pending := ''ba''\<rparr>"
  have "AddInput (new_CharChunk CONVERSION_STRING (0, two_rules)) ''a'' = Some (Inr ([], c))"
    by (subst AddInput.simps)
      (simp add: AddInputInternal_def two_rules_prefix add_input_entry_def take_entry_def
        new_CharChunk_def substr_from_def is_first_entry_def NO_TRANSLITERATION_def NO_TABLE_ATTRIBUTE_def c_def)
  moreover have "Table_LookUpPrefix two_rules (''ba'' @ [k]) =
     (Some \<lparr>entry_input = ''b'', entry_result = ''x'', entry_pending = [], entry_attributes = 0\<rparr>, 1, True)"
  proof -
    define k' where "k' = lower32 (byte k)"
    have k': "0 < k'" "k' < 0x80"
      using assms by (auto simp: k'_def lower32_def is_upper_letter_def printable_def)
    have "Utf32ToUtf8 (map byte (''ba'' @ [k])) = ''ba'' @ [k]"
      using assms by (intro ascii_encode) (auto simp: printable_def byte_def)
    moreover have "list_all scalar (map byte (''ba'' @ [k]))"
      using assms by (auto simp: printable_def scalar_def unicode_def byte_def)
    ultimately have low: "LowerString (''ba'' @ [k]) = Utf32ToUtf8 [98, 97, k']"
      using LowerString_encode [of "map byte (''ba'' @ [k])"]
      by (simp add: k'_def lower32_def [of 98] lower32_def [of 97] is_upper_letter_def byte_def)
    have u: "list_all unicode [98, 97, k']" using k' by (simp add: unicode_def)
    have len: "length (CodepointToUtf8 k') = 1" "length (CodepointToUtf8 97) = 1"
      using k' by (simp_all add: CodepointToUtf8_def)
    have "skip_chars 1 (Utf32ToUtf8 [98, 97, k']) = Utf32ToUtf8 (drop 1 [98, 97, k'])"
      by (rule skip_chars_encode [OF u]) simp
    then have "length (skip_chars 1 (Utf32ToUtf8 [98, 97, k'])) = 2"
      using len by (simp del: skip_chars.simps)
    moreover define key where "key = Utf32ToUtf8 [98, 97, k']"
    ultimately have key: "normalize_key two_rules (''ba'' @ [k]) = key" "trie_path key = [98, 97, k']"
      "length (skip_chars 1 key) = 2"
      using trie_path_encode [OF u] low
      by (simp_all add: normalize_key_def two_rules_def new_Table_def Let_def)
    moreover have "length key = 3"
      using key(1) length_normalize_key [of two_rules "''ba'' @ [k]"] by simp
    ultimately show ?thesis
      by (simp add: Table_LookUpPrefix_def trie_LookUpPrefix_deepest two_rules_def
          del: skip_chars.simps)
  qed
  ultimately show ?thesis
    by (intro exI [of _ c]) (simp add: c_def AddInput.simps [of _ "[k]"] AddInputInternal_def
        new_CharChunk_def add_input_entry_def)
qed

end
