(* ===== verification/Composition.thy ===== *)
theory Composition
  imports Char_Chunk
begin

text \<open>
  \<open>composer/composition.cc\<close>: the preedit as a list of chunks. A \<open>std::list\<close> iterator is an index; the
  end iterator is the length of the list. Where the code keeps an iterator over insertions and
  erasures to its left, the model keeps the distance to the end of the list.

  \<open>chunk_length\<close> is the value of \<open>CharChunk::GetLength\<close>; that the method also fills the chunk's
  cache is left to \<open>Char_Chunk\<close>, where the cache is shown never to be stale.
\<close>

record Composition =
  comp_table :: TablePtr
  chunks :: "CharChunk list"
  input_t12r :: Transliterator

definition new_Composition :: "TablePtr \<Rightarrow> Composition" where
  "new_Composition t = \<lparr>comp_table = t, chunks = [], input_t12r = CONVERSION_STRING\<rparr>"

definition Erase :: "Composition \<Rightarrow> Composition" where
  "Erase cm = cm\<lparr>chunks := []\<rparr>"

definition chunk_length :: "TextConv \<Rightarrow> Transliterator \<Rightarrow> CharChunk \<Rightarrow> nat" where
  "chunk_length tc t12r c = fst (GetLength tc t12r c)"

section \<open>Positions\<close>

text \<open>The loop of \<open>GetChunkAt\<close>, over any measure of chunks: index and inner position.\<close>

fun chunk_walk :: "('c \<Rightarrow> nat) \<Rightarrow> 'c list \<Rightarrow> nat \<Rightarrow> nat \<Rightarrow> nat \<Rightarrow> nat \<Rightarrow> nat \<times> nat" where
  "chunk_walk len [] i chunk_offset last_length position = (i - 1, last_length)"
| "chunk_walk len (c # cs) i chunk_offset last_length position =
     (if chunk_offset + len c < position
      then chunk_walk len cs (Suc i) (chunk_offset + len c) (len c) position
      else (i, position - chunk_offset))"

definition chunk_at :: "('c \<Rightarrow> nat) \<Rightarrow> 'c list \<Rightarrow> nat \<Rightarrow> nat \<times> nat" where
  "chunk_at len cs position = (if cs = [] then (0, 0) else chunk_walk len cs 0 0 0 position)"

definition position_of :: "('c \<Rightarrow> nat) \<Rightarrow> 'c list \<Rightarrow> nat \<Rightarrow> nat" where
  "position_of len cs it = sum_list (map len (take it cs))"

definition GetChunkAt :: "TextConv \<Rightarrow> Composition \<Rightarrow> nat \<Rightarrow> Transliterator \<Rightarrow> nat \<times> nat" where
  "GetChunkAt tc cm position t12r = chunk_at (chunk_length tc t12r) (chunks cm) position"

definition GetPosition :: "TextConv \<Rightarrow> Composition \<Rightarrow> Transliterator \<Rightarrow> nat \<Rightarrow> nat" where
  "GetPosition tc cm t12r it = position_of (chunk_length tc t12r) (chunks cm) it"

definition Composition_GetLength :: "TextConv \<Rightarrow> Composition \<Rightarrow> nat" where
  "Composition_GetLength tc cm = GetPosition tc cm LOCAL (length (chunks cm))"

definition ConvertPosition ::
  "TextConv \<Rightarrow> Composition \<Rightarrow> nat \<Rightarrow> Transliterator \<Rightarrow> Transliterator \<Rightarrow> nat res" where
  "ConvertPosition tc cm position_from t12r_from t12r_to =
     (if t12r_from = t12r_to then Inr position_from
      else (case GetChunkAt tc cm position_from t12r_from of
        (it, inner_position_from) \<Rightarrow>
          if it = length (chunks cm) then Inr 0
          else
            let chunk = chunks cm ! it;
                chunk_length_from = chunk_length tc t12r_from chunk;
                position_to = GetPosition tc cm t12r_to it;
                chunk_length_to = chunk_length tc t12r_to chunk
            in if chunk_length_from < inner_position_from then Inl CheckFailed
               else if inner_position_from = 0 then Inr position_to
               else if inner_position_from = chunk_length_from then Inr (position_to + chunk_length_to)
               else if chunk_length_to < inner_position_from then Inr (position_to + chunk_length_to)
               else Inr (position_to + inner_position_from)))"

text \<open>Splitting at a position, over any measure and any way to split a chunk.\<close>

definition split_at ::
  "('c \<Rightarrow> nat) \<Rightarrow> (nat \<Rightarrow> 'c \<Rightarrow> 'c option \<times> 'c) \<Rightarrow> nat \<Rightarrow> 'c list \<Rightarrow> nat \<times> 'c list" where
  "split_at len split position cs =
     (case chunk_at len cs position of
        (it, inner_position) \<Rightarrow>
          if it = 0 \<and> inner_position = 0 then (it, cs)
          else if inner_position = len (cs ! it) then (Suc it, cs)
          else (case split inner_position (cs ! it) of
                  (None, c) \<Rightarrow> (it, cs[it := c])
                | (Some left, c) \<Rightarrow> (Suc it, take it cs @ left # c # drop (Suc it) cs)))"

definition MaybeSplitChunkAt :: "TextConv \<Rightarrow> nat \<Rightarrow> Composition \<Rightarrow> nat \<times> Composition" where
  "MaybeSplitChunkAt tc position cm =
     (case split_at (chunk_length tc LOCAL) (SplitChunk tc LOCAL) position (chunks cm) of
        (it, cs) \<Rightarrow> (it, cm\<lparr>chunks := cs\<rparr>))"

section \<open>Inserting\<close>

definition InsertChunk :: "nat \<Rightarrow> Composition \<Rightarrow> nat \<times> Composition" where
  "InsertChunk it cm =
     (it, cm\<lparr>chunks := take it (chunks cm)
            @ new_CharChunk (input_t12r cm) (comp_table cm) # drop it (chunks cm)\<rparr>)"

definition GetInsertionChunk :: "nat \<Rightarrow> Composition \<Rightarrow> nat \<times> Composition" where
  "GetInsertionChunk it cm =
     (if it = 0 then InsertChunk it cm
      else if IsAppendable (input_t12r cm) (comp_table cm) (chunks cm ! (it - 1)) then (it - 1, cm)
      else InsertChunk it cm)"

fun combine_left :: "bytes \<Rightarrow> nat \<Rightarrow> Composition \<Rightarrow> nat \<times> Composition" where
  "combine_left next_input 0 cm = (0, cm)"
| "combine_left next_input (Suc left) cm =
     (let left_chunk = chunks cm ! left; chunk = chunks cm ! Suc left
      in if \<not> IsConvertible (input_t12r cm) (comp_table cm) (pending chunk @ next_input) left_chunk
         then (Suc left, cm)
         else combine_left next_input left
                (cm\<lparr>chunks := take left (chunks cm) @ Combine chunk left_chunk
                                  # drop (Suc (Suc left)) (chunks cm)\<rparr>))"

definition CombinePendingChunks :: "nat \<Rightarrow> CompositionInput \<Rightarrow> Composition \<Rightarrow> nat \<times> Composition" where
  "CombinePendingChunks it input cm =
     (if is_asis input then (it, cm)
      else combine_left (if input_conversion input = [] then input_raw input else input_conversion input)
             it cm)"

text \<open>The loop of \<open>InsertInput\<close>; \<open>right\<close> is the number of chunks from \<open>right_chunk\<close> to the end.\<close>

partial_function (option) insert_loop ::
  "nat \<Rightarrow> nat \<Rightarrow> CompositionInput \<Rightarrow> Composition \<Rightarrow> (nat \<times> Composition) res option" where
  "insert_loop right left input cm =
     (case AddCompositionInput (chunks cm ! left) input of
        None \<Rightarrow> None
      | Some (Inl e) \<Rightarrow> Some (Inl e)
      | Some (Inr (c, input')) \<Rightarrow>
          if input_Empty input' then Some (Inr (left, cm\<lparr>chunks := (chunks cm)[left := c]\<rparr>))
          else insert_loop right
                 (fst (InsertChunk (length (chunks cm) - right) (cm\<lparr>chunks := (chunks cm)[left := c]\<rparr>)))
                 (input'\<lparr>is_new_input := False\<rparr>)
                 (snd (InsertChunk (length (chunks cm) - right) (cm\<lparr>chunks := (chunks cm)[left := c]\<rparr>))))"

definition skip_invisible :: "TextConv \<Rightarrow> Composition \<Rightarrow> nat \<Rightarrow> nat" where
  "skip_invisible tc cm it =
     it + length (takeWhile (\<lambda>c. chunk_length tc (input_t12r cm) c = 0) (drop it (chunks cm)))"

definition remove_if_empty :: "nat \<Rightarrow> Composition \<Rightarrow> Composition" where
  "remove_if_empty left cm =
     (let c = chunks cm ! left
      in if raw c = [] \<and> conversion c = [] \<and> pending c = []
         then cm\<lparr>chunks := take left (chunks cm) @ drop (Suc left) (chunks cm)\<rparr> else cm)"

definition InsertInput ::
  "TextConv \<Rightarrow> nat \<Rightarrow> CompositionInput \<Rightarrow> Composition \<Rightarrow> (nat \<times> Composition) res option" where
  "InsertInput tc pos input cm =
     (if input_Empty input then Some (Inr (pos, cm))
      else
        let (it, cm) = MaybeSplitChunkAt tc pos cm;
            right_it = skip_invisible tc cm it;
            right = length (chunks cm) - right_it;
            (left, cm) = GetInsertionChunk right_it cm;
            (left, cm) = CombinePendingChunks left input cm
        in (case insert_loop right left input cm of
              None \<Rightarrow> None
            | Some (Inl e) \<Rightarrow> Some (Inl e)
            | Some (Inr (left, cm)) \<Rightarrow>
                let cm = remove_if_empty left cm
                in Some (Inr (GetPosition tc cm LOCAL (length (chunks cm) - right), cm))))"

definition InsertAt :: "TextConv \<Rightarrow> nat \<Rightarrow> bytes \<Rightarrow> Composition \<Rightarrow> (nat \<times> Composition) res option" where
  "InsertAt tc pos input cm = InsertInput tc pos (empty_input\<lparr>input_raw := input\<rparr>) cm"

definition InsertKeyAndPreeditAt ::
  "TextConv \<Rightarrow> nat \<Rightarrow> bytes \<Rightarrow> bytes \<Rightarrow> Composition \<Rightarrow> (nat \<times> Composition) res option" where
  "InsertKeyAndPreeditAt tc pos key preedit cm =
     InsertInput tc pos (empty_input\<lparr>input_raw := key, input_conversion := preedit\<rparr>) cm"

section \<open>Deleting\<close>

partial_function (option) delete_loop ::
  "TextConv \<Rightarrow> nat \<Rightarrow> nat \<Rightarrow> nat \<Rightarrow> Composition \<Rightarrow> (nat \<times> Composition) option" where
  "delete_loop tc original_size position new_position comp0 =
     (if chunks comp0 = [] \<or> Composition_GetLength tc comp0 \<noteq> original_size
      then Some (new_position, comp0)
      else (case MaybeSplitChunkAt tc position comp0 of
        (it, cm) \<Rightarrow>
          (if it = length (chunks cm) then Some (GetPosition tc cm LOCAL it, cm)
           else if chunk_length tc LOCAL (chunks cm ! it) \<le> 1
           then delete_loop tc original_size position (GetPosition tc cm LOCAL it)
                  (cm\<lparr>chunks := take it (chunks cm) @ drop (Suc it) (chunks cm)\<rparr>)
           else delete_loop tc original_size position (GetPosition tc cm LOCAL it)
                  (cm\<lparr>chunks := (chunks cm)[it := snd (SplitChunk tc LOCAL 1 (chunks cm ! it))]\<rparr>))))"

definition DeleteAt :: "TextConv \<Rightarrow> nat \<Rightarrow> Composition \<Rightarrow> (nat \<times> Composition) option" where
  "DeleteAt tc position cm =
     delete_loop tc (Composition_GetLength tc cm) position position cm"

section \<open>Transliteration\<close>

text \<open>The loop of \<open>SetTransliterator\<close> runs from the first chunk to the second, both included; the
  first is never behind the second (\<open>chunk_at_mono\<close>).\<close>

definition SetTransliterator :: "TextConv \<Rightarrow> nat \<Rightarrow> nat \<Rightarrow> Transliterator \<Rightarrow> Composition \<Rightarrow> Composition" where
  "SetTransliterator tc position_from position_to t12r cm =
     (if position_to < position_from then cm
      else if chunks cm = [] then cm
      else
        let (chunk_it, _) = GetChunkAt tc cm position_from LOCAL;
            (end_it, _) = GetChunkAt tc cm position_to LOCAL
        in cm\<lparr>chunks := map (\<lambda>(i, c). if chunk_it \<le> i \<and> i \<le> end_it
                                         then chunk_SetTransliterator t12r c else c)
                              (enumerate 0 (chunks cm))\<rparr>)"

definition SetInputMode :: "Transliterator \<Rightarrow> Composition \<Rightarrow> Composition" where
  "SetInputMode t12r cm = cm\<lparr>input_t12r := t12r\<rparr>"

definition SetDisplayMode :: "TextConv \<Rightarrow> nat \<Rightarrow> Transliterator \<Rightarrow> Composition \<Rightarrow> nat \<times> Composition" where
  "SetDisplayMode tc position t12r cm =
     (let cm = SetTransliterator tc 0 (Composition_GetLength tc cm) t12r cm;
          cm = SetInputMode t12r cm
      in (Composition_GetLength tc cm, cm))"

definition SetTable :: "TablePtr \<Rightarrow> Composition \<Rightarrow> Composition" where
  "SetTable t cm = cm\<lparr>comp_table := t\<rparr>"

definition Composition_GetTransliterator :: "TextConv \<Rightarrow> nat \<Rightarrow> Composition \<Rightarrow> Transliterator res" where
  "Composition_GetTransliterator tc position cm =
     (case GetChunkAt tc cm position LOCAL of
        (it, _) \<Rightarrow>
          if it = length (chunks cm) then Inl NullDeref
          else Inr (chunk_GetTransliterator (chunks cm ! it) LOCAL))"

section \<open>Reading the text\<close>

datatype TrimMode = TRIM | ASIS | FIX

definition append_all :: "TextConv \<Rightarrow> Transliterator \<Rightarrow> CharChunk list \<Rightarrow> bytes" where
  "append_all tc t12r cs = foldl (\<lambda>result c. AppendResult tc t12r c result) [] cs"

definition GetStringWithModes :: "TextConv \<Rightarrow> Transliterator \<Rightarrow> TrimMode \<Rightarrow> Composition \<Rightarrow> bytes" where
  "GetStringWithModes tc t12r trim_mode cm =
     (if chunks cm = [] then []
      else let composition = append_all tc t12r (butlast (chunks cm)); c = last (chunks cm)
           in (case trim_mode of
                 TRIM \<Rightarrow> AppendTrimedResult tc t12r c composition
               | ASIS \<Rightarrow> AppendResult tc t12r c composition
               | FIX \<Rightarrow> AppendFixedResult tc t12r c composition))"

definition GetExpandedStrings :: "TextConv \<Rightarrow> Composition \<Rightarrow> bytes \<times> bytes set" where
  "GetExpandedStrings tc cm =
     (if chunks cm = [] then ([], {})
      else let base = append_all tc LOCAL (butlast (chunks cm)); c = last (chunks cm)
           in (AppendTrimedResult tc LOCAL c base, GetExpandedResults c))"

definition GetString :: "TextConv \<Rightarrow> Composition \<Rightarrow> bytes" where
  "GetString tc cm = append_all tc LOCAL (chunks cm)"

definition GetStringWithTransliterator :: "TextConv \<Rightarrow> Transliterator \<Rightarrow> Composition \<Rightarrow> bytes" where
  "GetStringWithTransliterator tc t12r cm = GetStringWithModes tc t12r FIX cm"

definition GetStringWithTrimMode :: "TextConv \<Rightarrow> TrimMode \<Rightarrow> Composition \<Rightarrow> bytes" where
  "GetStringWithTrimMode tc trim_mode cm = GetStringWithModes tc LOCAL trim_mode cm"

definition GetPreedit :: "TextConv \<Rightarrow> nat \<Rightarrow> Composition \<Rightarrow> bytes \<times> bytes \<times> bytes" where
  "GetPreedit tc position cm =
     (let composition = GetString tc cm
      in (Utf8SubString composition 0 position, Utf8SubString composition position 1,
          Utf8SubStringFrom composition (position + 1)))"

definition Composition_ShouldCommit :: "Composition \<Rightarrow> bool" where
  "Composition_ShouldCommit cm = list_all chunk_ShouldCommit (chunks cm)"

definition IsToggleable :: "TextConv \<Rightarrow> nat \<Rightarrow> Composition \<Rightarrow> bool" where
  "IsToggleable tc position cm =
     (case GetChunkAt tc cm position LOCAL of
        (it, _) \<Rightarrow>
          if it = length (chunks cm) then False
          else starts_with (pending (chunks cm ! it)) (ParseSpecialKey (snd (comp_table cm)) ''{?}''))"

end
