(* ===== verification/Composition_Text.thy ===== *)
theory Composition_Text
  imports Composition Chunk_Input
begin

text \<open>
  The composition as a text editor. A chunk whose conversion and pending strings hold only visible
  characters and which shows its converted string denotes the list of their code points; the
  composition denotes the concatenation. Splitting at a position, inserting plain text and deleting
  a character are shown to be the list operations.

  The locale \<open>splittable\<close> is the contract of \<open>CharChunk::SplitChunk\<close> the composition relies on;
  \<open>split_at\<close> is proved correct inside it and it is interpreted on the chunks of the model.
\<close>

section \<open>Walking to a position\<close>

lemma chunk_walk_spec:
  assumes "cs \<noteq> []" and "off \<le> pos" and "chunk_walk len cs i off last_len pos = (j, inner)"
  shows "i \<le> j \<and> j < i + length cs \<and> inner \<le> len (cs ! (j - i)) \<and>
    (pos \<le> off + sum_list (map len cs) \<longrightarrow> off + position_of len cs (j - i) + inner = pos) \<and>
    (off + sum_list (map len cs) < pos \<longrightarrow> j = i + length cs - 1 \<and> inner = len (last cs))"
  using assms
proof (induction cs arbitrary: i off last_len)
  case (Cons c cs)
  show ?case
  proof (cases "off + len c < pos")
    case False
    with Cons(3,4) show ?thesis by (auto simp: position_of_def)
  next
    case True
    show ?thesis
    proof (cases "cs = []")
      case True
      with Cons(4) \<open>off + len c < pos\<close> show ?thesis by simp
    next
      case False
      with Cons(4) True have w: "chunk_walk len cs (Suc i) (off + len c) (len c) pos = (j, inner)" by simp
      from Cons(1) [OF False _ w] True have IH: "Suc i \<le> j" "j < Suc i + length cs"
        "inner \<le> len (cs ! (j - Suc i))"
        "pos \<le> off + len c + sum_list (map len cs) \<longrightarrow> off + len c + position_of len cs (j - Suc i) + inner = pos"
        "off + len c + sum_list (map len cs) < pos \<longrightarrow> j = Suc i + length cs - 1 \<and> inner = len (last cs)"
        by simp_all
      from IH(1) obtain k where k: "j = Suc (i + k)" by (metis le_Suc_ex add_Suc)
      with IH False show ?thesis by (auto simp: position_of_def add.assoc)
    qed
  qed
qed simp

lemma chunk_at_spec:
  assumes "cs \<noteq> []" and "chunk_at len cs pos = (j, inner)"
  shows "j < length cs" "inner \<le> len (cs ! j)"
    "pos \<le> sum_list (map len cs) \<Longrightarrow> position_of len cs j + inner = pos"
    "sum_list (map len cs) < pos \<Longrightarrow> j = length cs - 1 \<and> inner = len (last cs)"
  using chunk_walk_spec [of cs 0 pos len 0 0 j inner] assms by (auto simp: chunk_at_def)

lemma position_of_all: "position_of len cs (length cs) = sum_list (map len cs)"
  by (simp add: position_of_def)

lemma position_of_Suc: "i < length cs \<Longrightarrow> position_of len cs (Suc i) = position_of len cs i + len (cs ! i)"
  by (simp add: position_of_def take_Suc_conv_app_nth)

lemma position_of_mono: "i \<le> j \<Longrightarrow> position_of len cs i \<le> position_of len cs j"
  by (simp add: position_of_def)
    (metis le_add1 le_iff_add map_append sum_list.append take_add)

text \<open>Only the first chunk is found with inner position 0.\<close>

lemma chunk_walk_positive:
  "off < pos \<Longrightarrow> cs \<noteq> [] \<Longrightarrow> chunk_walk len cs i off last_len pos = (j, inner) \<Longrightarrow>
     inner < len (cs ! (j - i)) \<Longrightarrow> 0 < inner"
proof (induction cs arbitrary: i off last_len)
  case (Cons c cs)
  show ?case
  proof (cases "off + len c < pos \<and> cs \<noteq> []")
    case True
    with Cons(4) have w: "chunk_walk len cs (Suc i) (off + len c) (len c) pos = (j, inner)" by simp
    have "Suc i \<le> j" using chunk_walk_spec [OF _ _ w] True by simp
    then obtain k where k: "j = Suc (i + k)" by (metis le_Suc_ex add_Suc)
    with Cons(1) [of "off + len c" "Suc i" "len c"] Cons(5) True w show ?thesis by simp
  next
    case False
    with Cons show ?thesis by (auto split: if_splits)
  qed
qed simp

lemma chunk_at_positive:
  "cs \<noteq> [] \<Longrightarrow> chunk_at len cs pos = (j, inner) \<Longrightarrow> \<not> (j = 0 \<and> inner = 0) \<Longrightarrow>
     inner < len (cs ! j) \<Longrightarrow> 0 < inner"
proof (cases "pos = 0")
  case True
  assume "cs \<noteq> []" "chunk_at len cs pos = (j, inner)" "\<not> (j = 0 \<and> inner = 0)"
  with True show ?thesis by (cases cs) (auto simp: chunk_at_def)
next
  case False
  assume "cs \<noteq> []" "chunk_at len cs pos = (j, inner)" "inner < len (cs ! j)"
  with False show ?thesis using chunk_walk_positive [of 0 pos cs len 0 0 j inner]
    by (simp add: chunk_at_def)
qed

text \<open>The chunk of a later position is not before that of an earlier one.\<close>

lemma chunk_walk_ge: "i - 1 \<le> fst (chunk_walk len cs i off last_len q)"
proof (induction cs arbitrary: i off last_len)
  case (Cons c cs)
  have "i \<le> fst (chunk_walk len cs (Suc i) (off + len c) (len c) q)"
    using Cons [of "Suc i" "off + len c" "len c"] by simp
  then show ?case using diff_le_self le_trans by fastforce
qed simp

lemma chunk_walk_mono:
  "p \<le> q \<Longrightarrow> fst (chunk_walk len cs i off last_len p) \<le> fst (chunk_walk len cs i off last_len q)"
proof (induction cs arbitrary: i off last_len)
  case (Cons c cs)
  from Cons chunk_walk_ge [of "Suc i" len cs "off + len c" "len c" q] show ?case by simp
qed simp

lemma chunk_at_mono: "p \<le> q \<Longrightarrow> fst (chunk_at len cs p) \<le> fst (chunk_at len cs q)"
  by (simp add: chunk_at_def chunk_walk_mono)

text \<open>\<open>GetChunkAt\<close> finds the chunk of a position: on a non-empty composition the index is valid, the
  inner position lies within the chunk, the characters before the chunk plus the inner position make
  up the position (or it is the end of the last chunk when the position lies behind the text), and
  a later position never gives an earlier chunk.\<close>

lemma GetChunkAt_correct:
  assumes "chunks cm \<noteq> []"
  shows "(case GetChunkAt tc cm pos t12r of
      (it, inner) \<Rightarrow>
        it < length (chunks cm) \<and> inner \<le> chunk_length tc t12r (chunks cm ! it) \<and>
        (if pos \<le> GetPosition tc cm t12r (length (chunks cm))
         then GetPosition tc cm t12r it + inner = pos
         else it = length (chunks cm) - 1 \<and> inner = chunk_length tc t12r (last (chunks cm)))) \<and>
    (pos \<le> pos' \<longrightarrow> fst (GetChunkAt tc cm pos t12r) \<le> fst (GetChunkAt tc cm pos' t12r))"
proof -
  obtain it inner where g: "chunk_at (chunk_length tc t12r) (chunks cm) pos = (it, inner)" by fastforce
  from chunk_at_spec [OF assms g] chunk_at_mono [of pos pos' "chunk_length tc t12r" "chunks cm"] g
  show ?thesis by (auto simp: GetChunkAt_def GetPosition_def position_of_all)
qed

text \<open>C9: Converting a cursor position between two ways of showing the text never fails its \<open>CHECK\<close>,
  and the result lies within the text shown in the target way (for the same way, it is the position
  itself).\<close>

theorem ConvertPosition_ok:
  "\<exists>p. ConvertPosition tc cm pos t12r_from t12r_to = Inr p \<and>
     (if t12r_from = t12r_to then p = pos else p \<le> GetPosition tc cm t12r_to (length (chunks cm)))"
proof (cases "t12r_from = t12r_to \<or> chunks cm = []")
  case True
  then show ?thesis
    by (auto simp: ConvertPosition_def GetChunkAt_def chunk_at_def)
next
  case False
  obtain it inner where g: "chunk_at (chunk_length tc t12r_from) (chunks cm) pos = (it, inner)" by fastforce
  from chunk_at_spec [OF _ g] False have it: "it < length (chunks cm)"
    "inner \<le> chunk_length tc t12r_from (chunks cm ! it)" by auto
  have "GetPosition tc cm t12r_to it + chunk_length tc t12r_to (chunks cm ! it)
      \<le> GetPosition tc cm t12r_to (length (chunks cm))"
    using position_of_mono [of "Suc it" "length (chunks cm)" "chunk_length tc t12r_to" "chunks cm"] it(1)
    by (simp add: GetPosition_def position_of_Suc)
  with False it g show ?thesis
    by (auto simp: ConvertPosition_def GetChunkAt_def Let_def)
qed

section \<open>Splitting\<close>

locale splittable =
  fixes len :: "'c \<Rightarrow> nat"
    and split :: "nat \<Rightarrow> 'c \<Rightarrow> 'c option \<times> 'c"
    and text_of :: "'c \<Rightarrow> 'a list"
    and valid :: "'c \<Rightarrow> bool"
  assumes len_text: "valid c \<Longrightarrow> len c = length (text_of c)"
    and split_law: "valid c \<Longrightarrow> 0 < n \<Longrightarrow> n < len c \<Longrightarrow>
      \<exists>l r. split n c = (Some l, r) \<and> valid l \<and> valid r \<and>
        text_of l = take n (text_of c) \<and> text_of r = drop n (text_of c)"
begin

lemma position_text:
  "list_all valid cs \<Longrightarrow> position_of len cs it = length (concat (map text_of (take it cs)))"
  by (induction cs arbitrary: it) (auto simp: position_of_def len_text take_Cons split: nat.splits)

lemma total_text: "list_all valid cs \<Longrightarrow> sum_list (map len cs) = length (concat (map text_of cs))"
  using position_text [of cs "length cs"] by (simp add: position_of_all)

text \<open>Splitting at a position keeps the text and puts the position between two chunks.\<close>

lemma split_at_correct:
  assumes valid: "list_all valid cs" and pos: "pos \<le> length (concat (map text_of cs))"
    and s: "split_at len split pos cs = (it, cs')"
  shows "list_all valid cs' \<and> it \<le> length cs' \<and>
    concat (map text_of (take it cs')) = take pos (concat (map text_of cs)) \<and>
    concat (map text_of (drop it cs')) = drop pos (concat (map text_of cs))"
proof (cases "cs = []")
  case True
  with s show ?thesis by (auto simp: split_at_def chunk_at_def)
next
  case ne: False
  obtain i inner where a: "chunk_at len cs pos = (i, inner)" by fastforce
  from chunk_at_spec [OF ne a] pos total_text [OF valid]
  have i: "i < length cs" "inner \<le> len (cs ! i)" "position_of len cs i + inner = pos" by simp_all
  define before where "before = concat (map text_of (take i cs))"
  define after where "after = concat (map text_of (drop (Suc i) cs))"
  have cs: "cs = take i cs @ cs ! i # drop (Suc i) cs" using i(1) by (simp add: id_take_nth_drop)
  have split: "concat (map text_of cs) = before @ text_of (cs ! i) @ after"
    by (subst cs) (simp add: before_def after_def)
  have v: "valid (cs ! i)" using valid i(1) by (simp add: list_all_length)
  have pos': "pos = length before + inner"
    using i(3) position_text [OF valid, of i] by (simp add: before_def)
  consider "i = 0 \<and> inner = 0" | "\<not> (i = 0 \<and> inner = 0)" "inner = len (cs ! i)"
    | "\<not> (i = 0 \<and> inner = 0)" "inner < len (cs ! i)"
    using i(2) by linarith
  then show ?thesis
  proof cases
    case 1
    with s a pos' valid show ?thesis by (auto simp: split_at_def before_def)
  next
    case 2
    then have r: "it = Suc i" "cs' = cs" using s a by (auto simp: split_at_def)
    have "take (Suc i) cs = take i cs @ [cs ! i]" using i(1) by (rule take_Suc_conv_app_nth)
    then show ?thesis using r i(1) valid pos' 2(2) len_text [OF v]
      by (simp add: split before_def after_def)
  next
    case 3
    have "0 < inner"
    proof (rule ccontr)
      assume "\<not> 0 < inner"
      with 3 a ne show False
        using chunk_at_positive by blast
    qed
    then obtain l r where lr: "split inner (cs ! i) = (Some l, r)" "valid l" "valid r"
      "text_of l = take inner (text_of (cs ! i))" "text_of r = drop inner (text_of (cs ! i))"
      using split_law [OF v _ 3(2)] by blast
    then have r: "it = Suc i" "cs' = take i cs @ l # r # drop (Suc i) cs"
      using s a 3 by (auto simp: split_at_def)
    have "list_all valid (take i cs)" "list_all valid (drop (Suc i) cs)"
      using valid by (auto simp: list_all_iff dest: in_set_takeD in_set_dropD)
    with r lr i(1) pos' 3(2) len_text [OF v] show ?thesis
      by (auto simp add: split before_def after_def)
  qed
qed

end

section \<open>Visible text\<close>

text \<open>Code points that are neither registered special keys nor the opening byte of an unregistered
  one, and the strings made of them.\<close>

definition vis :: "char32 \<Rightarrow> bool" where
  "vis c \<longleftrightarrow> unicode c \<and> \<not> IsSpecialKey c \<and> c \<noteq> 0x0F"

definition visible :: "bytes \<Rightarrow> bool" where
  "visible s \<longleftrightarrow> (\<exists>cs. list_all vis cs \<and> s = Utf32ToUtf8 cs)"

lemma vis_unicode: "list_all vis cs \<Longrightarrow> list_all unicode cs"
  by (auto simp: list_all_iff vis_def)

lemma Utf32ToUtf8_Nil_iff: "list_all unicode cs \<Longrightarrow> Utf32ToUtf8 cs = [] \<longleftrightarrow> cs = []"
  by (cases cs) auto

lemma visible_encode [intro]: "list_all vis cs \<Longrightarrow> visible (Utf32ToUtf8 cs)"
  by (auto simp: visible_def)

lemma visibleE:
  assumes "visible s"
  obtains cs where "list_all vis cs" "s = Utf32ToUtf8 cs" "Utf8ToUtf32 s = cs"
  using assms vis_unicode by (auto simp: visible_def)

lemma visible_Nil [simp]: "visible []"
  using visible_encode [of "[]"] by simp

lemma CodepointToUtf8_no_open: "vis c \<Longrightarrow> kSpecialKeyOpen \<notin> set (CodepointToUtf8 c)"
proof
  assume v: "vis c" and m: "kSpecialKeyOpen \<in> set (CodepointToUtf8 c)"
  have u: "c < 0x200000" "0 < c" "c \<noteq> 15" using v by (simp_all add: vis_def unicode_def)
  from m have "byte kSpecialKeyOpen \<in> byte ` set (CodepointToUtf8 c)" by simp
  then show False using u
    by (auto simp: CodepointToUtf8_arith kSpecialKeyOpen_def byte_def [of "CHR 0x0F"] split: if_splits)
qed

lemma visible_no_open: "list_all vis cs \<Longrightarrow> kSpecialKeyOpen \<notin> set (Utf32ToUtf8 cs)"
  by (induction cs) (auto simp: CodepointToUtf8_no_open)

lemma DeleteSpecialKeys_encode [simp]:
  "list_all vis cs \<Longrightarrow> DeleteSpecialKeys (Utf32ToUtf8 cs) = Utf32ToUtf8 cs"
proof -
  assume v: "list_all vis cs"
  have "filter (\<lambda>c. \<not> IsSpecialKey c) cs = cs"
    using v by (auto simp: list_all_iff vis_def filter_id_conv)
  with v show ?thesis
    by (simp add: DeleteSpecialKeys_def no_special_block visible_no_open vis_unicode Let_def)
qed

lemma starts_with_visible: "list_all vis cs \<Longrightarrow> \<not> starts_with (Utf32ToUtf8 cs) [kSpecialKeyOpen]"
  using visible_no_open [of cs] by (auto simp: starts_with_iff)

lemma TrimLeadingSpecialKey_encode [simp]:
  assumes "list_all vis cs"
  shows "TrimLeadingSpecialKey (Utf32ToUtf8 cs) = Utf32ToUtf8 cs"
proof (cases cs)
  case Nil
  then show ?thesis by (simp add: TrimLeadingSpecialKey_def IsSpecialKey_def kSpecialKeyBegin_def starts_with_def)
next
  case (Cons c ds)
  then have "unicode c" "\<not> IsSpecialKey c" using assms by (simp_all add: vis_def)
  with Cons starts_with_visible [OF assms] show ?thesis by (simp add: TrimLeadingSpecialKey_def)
qed

section \<open>Plain chunks\<close>

definition chunk_text :: "CharChunk \<Rightarrow> char32 list" where
  "chunk_text c = Utf8ToUtf32 (conversion c @ pending c)"

text \<open>Two ways of showing a chunk leave the text as it was typed: the conversion string itself, and the
  hiragana display of kana, where the character conversions are assumed to change nothing
  (\<open>shows_as_is\<close>). The mode decides which characters can be typed without changing shape.\<close>

definition kana :: "char32 \<Rightarrow> bool" where
  "kana c \<longleftrightarrow> 0x3041 \<le> c \<and> c \<le> 0x3096 \<or> c = 0x30FC"

definition typable :: "Transliterator \<Rightarrow> char32 \<Rightarrow> bool" where
  "typable t c \<longleftrightarrow> vis c \<and> (t = CONVERSION_STRING \<or> t = HIRAGANA \<and> kana c)"

definition shows_as_is :: "TextConv \<Rightarrow> Transliterator \<Rightarrow> bool" where
  "shows_as_is tc t \<longleftrightarrow> t = CONVERSION_STRING \<or>
     t = HIRAGANA \<and> (\<forall>cs. list_all kana cs \<longrightarrow>
       ConvertPreeditString tc (HalfWidthToFullWidth tc (Utf32ToUtf8 cs)) = Utf32ToUtf8 cs)"

lemma typable_vis: "list_all (typable t) cs \<Longrightarrow> list_all vis cs"
  by (auto simp: list_all_iff typable_def)

lemma typable_parts:
  assumes "list_all (typable t) cs"
  shows "list_all (typable t) (take n cs)" "list_all (typable t) (drop n cs)"
  using assms by (auto simp: list_all_iff dest: in_set_takeD in_set_dropD)

lemma kana_vis: "kana c \<Longrightarrow> vis c"
  by (auto simp: kana_def vis_def unicode_def IsSpecialKey_def kSpecialKeyBegin_def)

lemma typable_simps [simp]:
  "typable CONVERSION_STRING c = vis c" "typable HIRAGANA c = kana c"
  by (auto simp: typable_def kana_vis)

lemma shows_as_is_CONVERSION [simp]: "shows_as_is tc CONVERSION_STRING"
  by (simp add: shows_as_is_def)

lemma Transliterate_as_is:
  assumes "shows_as_is tc t" and "list_all (typable t) cs" and "u \<in> {CONVERSION_STRING, t}"
  shows "Transliterators_Transliterate tc u rw (Utf32ToUtf8 cs) = Utf32ToUtf8 cs"
proof -
  have "list_all kana cs" if "t = HIRAGANA" using assms(2) that by (auto simp: list_all_iff)
  then show ?thesis using assms by (auto simp: shows_as_is_def)
qed

definition plain_chunk :: "TextConv \<Rightarrow> Transliterator \<Rightarrow> CharChunk \<Rightarrow> bool" where
  "plain_chunk tc t c \<longleftrightarrow> transliterator c = t \<and> shows_as_is tc t \<and>
     (\<exists>cs. list_all (typable t) cs \<and> conversion c = Utf32ToUtf8 cs) \<and>
     (\<exists>ps. list_all (typable t) ps \<and> pending c = Utf32ToUtf8 ps) \<and> cache_ok tc c"

lemma plain_chunk_t12r:
  assumes "plain_chunk tc t c"
  shows "chunk_GetTransliterator c LOCAL \<in> {CONVERSION_STRING, t}" "chunk_GetTransliterator c t \<in> {CONVERSION_STRING, t}"
  using assms by (auto simp: plain_chunk_def chunk_GetTransliterator_def shows_as_is_def)

lemma plain_chunkE:
  assumes "plain_chunk tc t c"
  obtains cs ps where "list_all (typable t) cs" "list_all (typable t) ps" "conversion c = Utf32ToUtf8 cs"
    "pending c = Utf32ToUtf8 ps" "chunk_text c = cs @ ps"
proof -
  obtain cs ps where "list_all (typable t) cs" "list_all (typable t) ps" "conversion c = Utf32ToUtf8 cs"
    "pending c = Utf32ToUtf8 ps"
    using assms by (auto simp: plain_chunk_def)
  moreover from this have "chunk_text c = cs @ ps"
    using Utf8ToUtf32_encode [of "cs @ ps"] vis_unicode typable_vis by (simp add: chunk_text_def)
  ultimately show ?thesis by (rule that)
qed

lemma plain_chunk_display:
  assumes "plain_chunk tc t c" and "chunk_GetTransliterator c t12r \<in> {CONVERSION_STRING, t}"
  shows "AppendResult tc t12r c result = result @ Utf32ToUtf8 (chunk_text c)"
    "uncached_length tc t12r c = length (chunk_text c)"
proof -
  obtain cs ps where c: "list_all (typable t) cs" "list_all (typable t) ps" "conversion c = Utf32ToUtf8 cs"
    "pending c = Utf32ToUtf8 ps" "chunk_text c = cs @ ps"
    using assms(1) by (rule plain_chunkE)
  have v: "list_all vis (cs @ ps)" using c(1,2) typable_vis by simp
  have "shows_as_is tc t" using assms(1) by (simp add: plain_chunk_def)
  from Transliterate_as_is [OF this _ assms(2), of "cs @ ps"] c DeleteSpecialKeys_encode [OF v]
  show a: "AppendResult tc t12r c result = result @ Utf32ToUtf8 (chunk_text c)" for result
    by (simp add: AppendResult_def chunk_Transliterate_def)
  from c CharsLen_encode [of "cs @ ps"] vis_unicode [OF v]
  show "uncached_length tc t12r c = length (chunk_text c)"
    unfolding uncached_length_def a by simp
qed

lemma plain_chunk_length:
  "plain_chunk tc t c \<Longrightarrow> chunk_length tc LOCAL c = length (chunk_text c)"
  using GetLength_cached [of tc c LOCAL] plain_chunk_display(2) [of tc t c LOCAL] plain_chunk_t12r(1) [of tc t c]
  by (simp add: chunk_length_def plain_chunk_def)

lemma encode_take_longer:
  assumes "length (Utf32ToUtf8 cs) < length (Utf32ToUtf8 (take n (cs @ ps)))"
  shows "length cs < n"
proof (rule ccontr)
  assume "\<not> length cs < n"
  then have "Utf32ToUtf8 cs = Utf32ToUtf8 (take n (cs @ ps)) @ Utf32ToUtf8 (drop n cs)"
    by (simp flip: Utf32ToUtf8_simps(3))
  with assms show False by simp
qed

lemma plain_chunkI:
  assumes "shows_as_is tc t" "transliterator c = t" "local_length_cache c = None"
    "conversion c = Utf32ToUtf8 cs" "pending c = Utf32ToUtf8 ps" "list_all (typable t) cs" "list_all (typable t) ps"
  shows "plain_chunk tc t c \<and> chunk_text c = cs @ ps"
proof -
  have "Utf8ToUtf32 (Utf32ToUtf8 (cs @ ps)) = cs @ ps"
    using assms vis_unicode typable_vis by (intro Utf8ToUtf32_encode) simp
  then show ?thesis using assms by (auto simp: plain_chunk_def chunk_text_def)
qed

text \<open>The two cases of \<open>SplitChunk\<close> once the converted halves are known.\<close>

lemma SplitChunk_plain:
  assumes p: "plain_chunk tc t c" and n: "0 < n" "n < length (chunk_text c)"
  shows "\<exists>l r. SplitChunk tc LOCAL n c = (Some l, r) \<and> plain_chunk tc t l \<and> plain_chunk tc t r \<and>
    chunk_text l = take n (chunk_text c) \<and> chunk_text r = drop n (chunk_text c) \<and>
    (pending c = [] \<longrightarrow> pending l = [] \<and> pending r = []) \<and> table_ptr r = table_ptr c \<and> table_ptr l = table_ptr c"
proof -
  obtain cs ps where c: "list_all (typable t) cs" "list_all (typable t) ps" "conversion c = Utf32ToUtf8 cs"
    "pending c = Utf32ToUtf8 ps" "chunk_text c = cs @ ps"
    using p by (rule plain_chunkE)
  have as_is: "shows_as_is tc t" "t \<in> {CONVERSION_STRING, HIRAGANA}"
    using p by (auto simp: plain_chunk_def shows_as_is_def)
  have v: "list_all (typable t) (take n (cs @ ps))" "list_all (typable t) (drop n (cs @ ps))"
    "list_all (typable t) (drop n cs)" "list_all (typable t) (take (n - length cs) ps)"
    using c(1,2) by (simp_all add: typable_parts)
  have vv: "list_all vis (cs @ ps)" using c(1,2) typable_vis by simp
  have u: "list_all unicode (cs @ ps)" by (rule vis_unicode [OF vv])
  obtain len c1 where g: "GetLength tc LOCAL c = (len, c1)" by fastforce
  have len: "len = length (cs @ ps)"
    using plain_chunk_length [OF p] g c(5) by (simp add: chunk_length_def)
  have "c1 = c \<or> c1 = c\<lparr>local_length_cache := Some len\<rparr>"
    using g by (auto simp: GetLength_def Let_def split: option.splits)
  then obtain x where c1: "c1 = c\<lparr>local_length_cache := x\<rparr>"
    by (metis CharChunk.surjective CharChunk.update_convs(8))
  define d where "d = c1\<lparr>local_length_cache := None\<rparr>"
  have d: "d = c\<lparr>local_length_cache := None\<rparr>" by (simp add: d_def c1)
  have dd: "DeleteSpecialKeys (conversion d @ pending d) = Utf32ToUtf8 (cs @ ps)"
    using DeleteSpecialKeys_encode [OF vv] c by (simp add: d)
  obtain res rl rr cl cr where sp: "Transliterators_Split tc (chunk_GetTransliterator d LOCAL) n
      (DeleteSpecialKeys (raw d)) (Utf32ToUtf8 (cs @ ps)) = (res, rl, rr, cl, cr)"
    by (metis prod_cases5)
  have t: "chunk_GetTransliterator d LOCAL \<in> {CONVERSION_STRING, t}" "transliterator d = t"
    using p plain_chunk_t12r(1) [OF p] by (simp_all add: d plain_chunk_def chunk_GetTransliterator_def)
  have "chunk_GetTransliterator d LOCAL \<in> {CONVERSION_STRING, HIRAGANA, FULL_KATAKANA, LOCAL}"
    using t(1) as_is(2) by auto
  from Split_converted_side [OF this sp] have "cl = utf8_take (Utf32ToUtf8 (cs @ ps)) n"
    "cr = Utf8SubStringFrom (Utf32ToUtf8 (cs @ ps)) n"
    by (simp_all add: Utf8SubString_def)
  then have halves: "cl = Utf32ToUtf8 (take n (cs @ ps))" "cr = Utf32ToUtf8 (drop n (cs @ ps))"
    by (simp_all only: utf8_take_encode [OF u] Utf8SubStringFrom_encode [OF u])
  define left where "left = (new_CharChunk t (table_ptr c))\<lparr>raw := rl\<rparr>"
  show ?thesis
  proof (cases "length (conversion d) < length cl")
    case True
    then have n': "length cs < n" using encode_take_longer c(3) by (simp add: halves d)
    then have cl: "cl = Utf32ToUtf8 cs @ Utf32ToUtf8 (take (n - length cs) ps)" by (simp add: halves)
    define l where "l = left\<lparr>conversion := Utf32ToUtf8 cs, pending := Utf32ToUtf8 (take (n - length cs) ps)\<rparr>"
    define r where "r = d\<lparr>raw := rr, conversion := [], pending := cr, ambiguous := []\<rparr>"
    have s: "SplitChunk tc LOCAL n c = (Some l, r)"
      unfolding l_def r_def
      using g len n c(5) True sp dd t cl c(3)
      by (simp add: SplitChunk_def c1 Let_def left_def d)
    have pl: "plain_chunk tc t l \<and> chunk_text l = cs @ take (n - length cs) ps"
      by (rule plain_chunkI) (simp_all add: as_is l_def left_def new_CharChunk_def c v)
    have pr: "plain_chunk tc t r \<and> chunk_text r = [] @ drop n (cs @ ps)"
      by (rule plain_chunkI) (use as_is t v halves in \<open>simp_all add: r_def d\<close>)
    have "n < length cs + length ps" using n c(5) by simp
    then have "ps \<noteq> []" using n' by auto
    then have "pending c \<noteq> []"
      using c(4) Utf32ToUtf8_Nil_iff [OF vis_unicode [OF typable_vis [OF c(2)]]] by simp
    then show ?thesis using s pl pr c(5) n'
      by (intro exI [of _ l] exI [of _ r]) (simp add: r_def l_def left_def d new_CharChunk_def)
  next
    case False
    then have n': "n \<le> length cs"
    proof (rule contrapos_np)
      assume "\<not> n \<le> length cs"
      then have "cl = Utf32ToUtf8 cs @ Utf32ToUtf8 (take (n - length cs) ps)"
        "take (n - length cs) ps \<noteq> []"
        using n c(5) by (auto simp: halves)
      moreover have "Utf32ToUtf8 (take (n - length cs) ps) \<noteq> []"
        using Utf32ToUtf8_Nil_iff [OF vis_unicode [OF typable_vis [OF v(4)]]] calculation(2) by simp
      ultimately show "length (conversion d) < length cl" using c(3) by (simp add: d)
    qed
    then have cr: "cr = Utf32ToUtf8 (drop n cs) @ Utf32ToUtf8 ps" "cl = Utf32ToUtf8 (take n cs)"
      by (simp_all add: halves)
    define l where "l = left\<lparr>conversion := cl\<rparr>"
    define r where "r = d\<lparr>raw := rr, conversion := Utf32ToUtf8 (drop n cs)\<rparr>"
    have s: "SplitChunk tc LOCAL n c = (Some l, r)"
      unfolding l_def r_def
      using g len n c(4,5) False sp dd t cr
      by (simp add: SplitChunk_def c1 Let_def left_def d)
    have pl: "plain_chunk tc t l \<and> chunk_text l = take n cs @ []"
      by (rule plain_chunkI) (use as_is cr v c n' in \<open>simp_all add: l_def left_def new_CharChunk_def\<close>)
    have pr: "plain_chunk tc t r \<and> chunk_text r = drop n cs @ ps"
      by (rule plain_chunkI) (use as_is t v c in \<open>simp_all add: r_def d\<close>)
    show ?thesis using s pl pr c(5) n'
      by (intro exI [of _ l] exI [of _ r]) (simp add: r_def l_def left_def d new_CharChunk_def)
  qed
qed

interpretation chunk_split: splittable "chunk_length tc LOCAL" "SplitChunk tc LOCAL" chunk_text "plain_chunk tc t"
  for tc t
proof
  show "plain_chunk tc t c \<Longrightarrow> chunk_length tc LOCAL c = length (chunk_text c)" for c
    by (rule plain_chunk_length)
  show "plain_chunk tc t c \<Longrightarrow> 0 < n \<Longrightarrow> n < chunk_length tc LOCAL c \<Longrightarrow>
      \<exists>l r. SplitChunk tc LOCAL n c = (Some l, r) \<and> plain_chunk tc t l \<and> plain_chunk tc t r \<and>
        chunk_text l = take n (chunk_text c) \<and> chunk_text r = drop n (chunk_text c)" for c n
    using SplitChunk_plain [of tc t c n] plain_chunk_length [of tc t c] by auto
qed

end
