(* ===== verification/Composition_Edit.thy ===== *)
theory Composition_Edit
  imports Composition_Text
begin

text \<open>
  Editing plain text: with a table that has no rules, a composition whose chunks are settled (nothing
  pending) is a list of code points, \<open>InsertAt\<close> is list insertion and \<open>DeleteAt\<close> removes one
  element. The last section shows the two loops of the composition that can run for ever.
\<close>

section \<open>Settled compositions\<close>

definition settled_chunk :: "TextConv \<Rightarrow> Transliterator \<Rightarrow> CharChunk \<Rightarrow> bool" where
  "settled_chunk tc t c \<longleftrightarrow> plain_chunk tc t c \<and> pending c = [] \<and> chunk_text c \<noteq> []"

text \<open>A table is quiet for a mode when no rule starts with a character that can be typed in it, as the
  romaji tables are for kana: their rules start with letters and signs.\<close>

definition quiet :: "Transliterator \<Rightarrow> Table \<Rightarrow> bool" where
  "quiet t tb \<longleftrightarrow> (\<forall>c cs. list_all (typable t) (c # cs) \<longrightarrow>
     (\<exists>fixed. Table_LookUpPrefix tb (Utf32ToUtf8 (c # cs)) = (None, 0, fixed)))"

definition settled :: "TextConv \<Rightarrow> Composition \<Rightarrow> bool" where
  "settled tc cm \<longleftrightarrow> list_all (settled_chunk tc (input_t12r cm)) (chunks cm) \<and> shows_as_is tc (input_t12r cm) \<and>
     quiet (input_t12r cm) (snd (comp_table cm))"

definition preedit :: "Composition \<Rightarrow> char32 list" where
  "preedit cm = concat (map chunk_text (chunks cm))"

interpretation settled_split: splittable "chunk_length tc LOCAL" "SplitChunk tc LOCAL" chunk_text "settled_chunk tc t"
  for tc t
proof
  show "settled_chunk tc t c \<Longrightarrow> chunk_length tc LOCAL c = length (chunk_text c)" for c
    using plain_chunk_length [of tc t c] by (simp add: settled_chunk_def)
  show "settled_chunk tc t c \<Longrightarrow> 0 < n \<Longrightarrow> n < chunk_length tc LOCAL c \<Longrightarrow>
      \<exists>l r. SplitChunk tc LOCAL n c = (Some l, r) \<and> settled_chunk tc t l \<and> settled_chunk tc t r \<and>
        chunk_text l = take n (chunk_text c) \<and> chunk_text r = drop n (chunk_text c)" for c n
    using SplitChunk_plain [of tc t c n] plain_chunk_length [of tc t c]
    by (auto simp: settled_chunk_def)
qed

lemma append_all_plain:
  "list_all (plain_chunk tc t) cs \<Longrightarrow> append_all tc LOCAL cs = Utf32ToUtf8 (concat (map chunk_text cs))"
  unfolding append_all_def
proof (induction cs rule: rev_induct)
  case (snoc c cs)
  then show ?case using plain_chunk_display(1) [of tc t c LOCAL] plain_chunk_t12r(1) [of tc t c] by simp
qed simp

lemma settled_plain: "settled tc cm \<Longrightarrow> list_all (plain_chunk tc (input_t12r cm)) (chunks cm)"
  by (auto simp: settled_def settled_chunk_def list_all_iff)

lemma settled_GetString: "settled tc cm \<Longrightarrow> GetString tc cm = Utf32ToUtf8 (preedit cm)"
  by (simp add: GetString_def preedit_def append_all_plain [OF settled_plain])

lemma settled_GetPosition:
  "settled tc cm \<Longrightarrow> GetPosition tc cm LOCAL it = length (concat (map chunk_text (take it (chunks cm))))"
  using settled_split.position_text [of tc "input_t12r cm" "chunks cm" it]
  by (simp add: settled_def GetPosition_def)

lemma settled_GetLength: "settled tc cm \<Longrightarrow> Composition_GetLength tc cm = length (preedit cm)"
  by (simp add: Composition_GetLength_def settled_GetPosition preedit_def)

lemma settled_MaybeSplitChunkAt:
  assumes "settled tc cm" and "pos \<le> length (preedit cm)"
    and "MaybeSplitChunkAt tc pos cm = (it, cm')"
  shows "settled tc cm' \<and> it \<le> length (chunks cm') \<and>
    concat (map chunk_text (take it (chunks cm'))) = take pos (preedit cm) \<and>
    concat (map chunk_text (drop it (chunks cm'))) = drop pos (preedit cm) \<and>
    comp_table cm' = comp_table cm \<and> input_t12r cm' = input_t12r cm"
proof -
  obtain cs' where s: "split_at (chunk_length tc LOCAL) (SplitChunk tc LOCAL) pos (chunks cm) = (it, cs')"
    and cm': "cm' = cm\<lparr>chunks := cs'\<rparr>"
    using assms(3) by (auto simp: MaybeSplitChunkAt_def split: prod.splits)
  from assms(1) have v: "list_all (settled_chunk tc (input_t12r cm)) (chunks cm)" by (simp add: settled_def)
  from settled_split.split_at_correct [OF v _ s] assms(1,2) show ?thesis
    by (simp add: cm' settled_def preedit_def)
qed

text \<open>Editing changes neither the table nor the mode of a composition.\<close>

definition same_frame :: "Composition \<Rightarrow> Composition \<Rightarrow> bool" where
  "same_frame cm cm' \<longleftrightarrow> comp_table cm' = comp_table cm \<and> input_t12r cm' = input_t12r cm"

section \<open>Typing plain text\<close>

lemma LookUpPrefix_no_rules:
  "entries t = empty_trie \<Longrightarrow> Table_LookUpPrefix t key = (None, 0, True)"
  by (simp add: Table_LookUpPrefix_def trie_LookUpPrefix_deepest empty_trie_def)

lemma quiet_no_rules: "entries tb = empty_trie \<Longrightarrow> quiet t tb"
  unfolding quiet_def using LookUpPrefix_no_rules by blast

definition typed_chunk :: "Transliterator \<Rightarrow> TablePtr \<Rightarrow> char32 \<Rightarrow> CharChunk" where
  "typed_chunk t12r t c = (new_CharChunk t12r t)\<lparr>raw := CodepointToUtf8 c, conversion := CodepointToUtf8 c\<rparr>"

lemma FrontChar_encode:
  "unicode c \<Longrightarrow> FrontChar (CodepointToUtf8 c @ rest) = (CodepointToUtf8 c, rest)"
  using OneCharLen_encode [of c] by (auto simp: FrontChar_def ClippedSubstr_def)

lemma typed_chunk_settled:
  assumes "shows_as_is tc t12r" and "typable t12r c"
  shows "settled_chunk tc t12r (typed_chunk t12r t c) \<and> chunk_text (typed_chunk t12r t c) = [c]"
proof -
  have "plain_chunk tc t12r (typed_chunk t12r t c) \<and> chunk_text (typed_chunk t12r t c) = [c] @ []"
    by (rule plain_chunkI) (use assms in \<open>simp_all add: typed_chunk_def new_CharChunk_def\<close>)
  then show ?thesis by (simp add: settled_chunk_def typed_chunk_def new_CharChunk_def)
qed

lemma AddCompositionInput_fresh:
  assumes "quiet t12r (snd t)" and "list_all (typable t12r) (c # cs)" and "input_conversion input = []"
    and "input_raw input = Utf32ToUtf8 (c # cs)"
  shows "AddCompositionInput (new_CharChunk t12r t) input =
    Some (Inr (typed_chunk t12r t c, input\<lparr>input_raw := Utf32ToUtf8 cs\<rparr>))"
proof -
  obtain fixed where l: "Table_LookUpPrefix (snd t) (CodepointToUtf8 c @ Utf32ToUtf8 cs) = (None, 0, fixed)"
    using assms(1,2) unfolding quiet_def by (metis Utf32ToUtf8_simps(2))
  note v = typable_vis [OF assms(2)]
  have "TrimLeadingSpecialKey (CodepointToUtf8 c @ Utf32ToUtf8 cs) = CodepointToUtf8 c @ Utf32ToUtf8 cs"
    using TrimLeadingSpecialKey_encode [OF v] by simp
  moreover have "unicode c" using v by (simp add: vis_def)
  ultimately have "AddInput (new_CharChunk t12r t) (CodepointToUtf8 c @ Utf32ToUtf8 cs) =
      Some (Inr (Utf32ToUtf8 cs, typed_chunk t12r t c))"
    by (subst AddInput.simps) (simp add: AddInputInternal_def l new_CharChunk_def
        add_input_no_entry_def FrontChar_encode typed_chunk_def)
  moreover have "ShouldInsertNewChunk (new_CharChunk t12r t) input = False"
    by (simp add: ShouldInsertNewChunk_def new_CharChunk_def)
  ultimately show ?thesis
    using assms(3,4) by (simp add: AddCompositionInput_def new_CharChunk_def)
qed

lemma insert_loop_plain:
  assumes "quiet t12r (snd (comp_table cm))" and "input_t12r cm = t12r"
    and "chunks cm = before @ new_CharChunk t12r (comp_table cm) # after"
    and "cs \<noteq> []" and "list_all (typable t12r) cs" and "input_conversion input = []" and "input_raw input = Utf32ToUtf8 cs"
  shows "insert_loop (length after) (length before) input cm =
    Some (Inr (length before + length cs - 1,
      cm\<lparr>chunks := before @ map (typed_chunk t12r (comp_table cm)) cs @ after\<rparr>))"
  using assms
proof (induction cs arbitrary: cm before input)
  case (Cons c cs)
  define cm1 where "cm1 = cm\<lparr>chunks := before @ typed_chunk t12r (comp_table cm) c # after\<rparr>"
  have nth: "chunks cm ! length before = new_CharChunk t12r (comp_table cm)"
    and upd: "(chunks cm)[length before := typed_chunk t12r (comp_table cm) c] =
      before @ typed_chunk t12r (comp_table cm) c # after"
    using Cons(4) by (simp_all add: list_update_append)
  have a: "AddCompositionInput (chunks cm ! length before) input =
      Some (Inr (typed_chunk t12r (comp_table cm) c, input\<lparr>input_raw := Utf32ToUtf8 cs\<rparr>))"
    unfolding nth by (rule AddCompositionInput_fresh) (use Cons in auto)
  show ?case
  proof (cases "cs = []")
    case True
    with a upd Cons(7) show ?thesis
      by (subst insert_loop.simps) (simp add: input_Empty_def)
  next
    case False
    then have ne: "Utf32ToUtf8 cs \<noteq> []"
      using Utf32ToUtf8_Nil_iff [OF vis_unicode [OF typable_vis]] Cons(6) by auto
    have ins: "InsertChunk (length (chunks cm) - length after) cm1 =
        (Suc (length before), cm1\<lparr>chunks := (before @ [typed_chunk t12r (comp_table cm) c]) @
           new_CharChunk t12r (comp_table cm) # after\<rparr>)"
      using Cons(3,4) by (simp add: InsertChunk_def cm1_def)
    have "insert_loop (length after) (length before) input cm =
        insert_loop (length after) (Suc (length before))
          (input\<lparr>input_raw := Utf32ToUtf8 cs, is_new_input := False\<rparr>)
          (cm1\<lparr>chunks := (before @ [typed_chunk t12r (comp_table cm) c]) @
             new_CharChunk t12r (comp_table cm) # after\<rparr>)"
      using a upd ne ins by (subst insert_loop.simps) (simp add: input_Empty_def cm1_def)
    also have "\<dots> = Some (Inr (length (before @ [typed_chunk t12r (comp_table cm) c]) + length cs - 1,
        cm1\<lparr>chunks := (before @ [typed_chunk t12r (comp_table cm) c]) @
          map (typed_chunk t12r (comp_table cm)) cs @ after\<rparr>))"
      using Cons(1) [of "cm1\<lparr>chunks := (before @ [typed_chunk t12r (comp_table cm) c]) @
             new_CharChunk t12r (comp_table cm) # after\<rparr>"
          "before @ [typed_chunk t12r (comp_table cm) c]"
          "input\<lparr>input_raw := Utf32ToUtf8 cs, is_new_input := False\<rparr>"] Cons False
      by (simp add: cm1_def)
    finally show ?thesis using False by (simp add: cm1_def)
  qed
qed simp

lemma settled_length_pos:
  assumes "settled_chunk tc t c"
  shows "chunk_length tc t c \<noteq> 0"
proof -
  have p: "plain_chunk tc t c" "chunk_text c \<noteq> []" using assms by (simp_all add: settled_chunk_def)
  from p(2) plain_chunk_display(2) [OF p(1) plain_chunk_t12r(2) [OF p(1)]]
    GetLength_cached [of tc c t] p(1)
  show ?thesis by (simp add: chunk_length_def plain_chunk_def)
qed

lemma skip_invisible_settled: "settled tc cm \<Longrightarrow> skip_invisible tc cm it = it"
  using settled_length_pos
  by (cases "drop it (chunks cm)")
    (auto simp: skip_invisible_def settled_def list_all_iff dest: in_set_dropD
      split: list.splits, metis in_set_dropD list.set_intros(1))

lemma settled_not_appendable: "settled tc cm \<Longrightarrow> i < length (chunks cm) \<Longrightarrow> \<not> IsAppendable x t (chunks cm ! i)"
  by (auto simp: settled_def settled_chunk_def list_all_length IsAppendable_def)

lemma InsertInput_settled:
  assumes cm: "settled tc cm" and pos: "pos \<le> length (preedit cm)" and cs: "cs \<noteq> []" "list_all (typable (input_t12r cm)) cs"
    and input: "input_conversion input = []" "input_raw input = Utf32ToUtf8 cs"
  shows "\<exists>cm'. InsertInput tc pos input cm = Some (Inr (pos + length cs, cm')) \<and>
    settled tc cm' \<and> same_frame cm cm' \<and> preedit cm' = take pos (preedit cm) @ cs @ drop pos (preedit cm)"
proof -
  obtain it cm1 where m: "MaybeSplitChunkAt tc pos cm = (it, cm1)" by fastforce
  from settled_MaybeSplitChunkAt [OF cm pos m] have cm1: "settled tc cm1" "it \<le> length (chunks cm1)"
    "concat (map chunk_text (take it (chunks cm1))) = take pos (preedit cm)"
    "concat (map chunk_text (drop it (chunks cm1))) = drop pos (preedit cm)"
    "comp_table cm1 = comp_table cm" "input_t12r cm1 = input_t12r cm" by simp_all
  define t12r where "t12r = input_t12r cm"
  define before where "before = take it (chunks cm1)"
  define after where "after = drop it (chunks cm1)"
  define fresh where "fresh = new_CharChunk t12r (comp_table cm)"
  define cm2 where "cm2 = cm1\<lparr>chunks := before @ fresh # after\<rparr>"
  have mode: "input_t12r cm1 = t12r" "quiet t12r (snd (comp_table cm))" "shows_as_is tc t12r"
    using cm1(6) cm by (simp_all add: settled_def t12r_def)
  have g: "GetInsertionChunk it cm1 = (it, cm2)"
    using settled_not_appendable [OF cm1(1), of "it - 1"] cm1(2,5) mode
    by (auto simp: GetInsertionChunk_def InsertChunk_def cm2_def before_def after_def fresh_def)
  have comb: "CombinePendingChunks it input cm2 = (it, cm2)"
  proof (cases it)
    case (Suc i)
    then have "chunks cm2 ! i = chunks cm1 ! i" "i < length (chunks cm1)"
      using cm1(2) by (simp_all add: cm2_def before_def nth_append)
    then have "\<not> IsConvertible x t s (chunks cm2 ! i)" for x t s
      using settled_not_appendable [OF cm1(1)] by (simp add: IsConvertible_def)
    then show ?thesis using Suc by (simp add: CombinePendingChunks_def Let_def)
  qed (simp add: CombinePendingChunks_def)
  have len: "length before = it" "length (chunks cm1) - it = length after"
    using cm1(2) by (simp_all add: before_def after_def)
  define cm3 where "cm3 = cm2\<lparr>chunks := before @ map (typed_chunk t12r (comp_table cm)) cs @ after\<rparr>"
  have loop: "insert_loop (length after) it input cm2 = Some (Inr (it + length cs - 1, cm3))"
    using insert_loop_plain [of t12r cm2 before after cs input] cs mode cm1(5) len input
    by (simp add: cm2_def cm3_def fresh_def t12r_def)
  have tcs: "list_all (settled_chunk tc t12r) (map (typed_chunk t12r (comp_table cm)) cs)"
    "concat (map chunk_text (map (typed_chunk t12r (comp_table cm)) cs)) = cs"
    using cs(2) typed_chunk_settled [OF mode(3)] unfolding t12r_def by (induction cs) auto
  have parts: "list_all (settled_chunk tc t12r) before" "list_all (settled_chunk tc t12r) after"
    using cm1(1) mode(1) by (auto simp: settled_def before_def after_def list_all_iff dest: in_set_takeD in_set_dropD)
  have cm3: "settled tc cm3" "preedit cm3 = take pos (preedit cm) @ cs @ drop pos (preedit cm)"
    using parts tcs mode cm1 by (simp_all add: settled_def cm3_def cm2_def preedit_def before_def after_def)
  have ne: "remove_if_empty (it + length cs - 1) cm3 = cm3"
  proof -
    have "it + length cs - 1 < length (chunks cm3)" using cs(1) len by (cases cs) (auto simp: cm3_def)
    then have "settled_chunk tc t12r (chunks cm3 ! (it + length cs - 1))"
      using cm3(1) mode(1) by (simp add: settled_def list_all_length cm3_def cm2_def)
    then have "conversion (chunks cm3 ! (it + length cs - 1)) \<noteq> []"
      by (auto simp: settled_chunk_def chunk_text_def)
    then show ?thesis by (simp add: remove_if_empty_def)
  qed
  have "take (length (chunks cm3) - length after) (chunks cm3) = before @ map (typed_chunk t12r (comp_table cm)) cs"
    by (simp add: cm3_def)
  then have "GetPosition tc cm3 LOCAL (length (chunks cm3) - length after) = pos + length cs"
    using settled_GetPosition [OF cm3(1)] tcs(2) cm1(3) pos by (simp add: before_def)
  moreover have "\<not> input_Empty input"
    using cs Utf32ToUtf8_Nil_iff [OF vis_unicode [OF typable_vis [OF cs(2)]]] input by (auto simp: input_Empty_def)
  ultimately have "InsertInput tc pos input cm = Some (Inr (pos + length cs, cm3))"
    using m skip_invisible_settled [OF cm1(1)] g comb loop ne len
    by (simp add: InsertInput_def Let_def)
  moreover have "same_frame cm cm3" using cm1(5,6) by (simp add: same_frame_def cm3_def cm2_def)
  ultimately show ?thesis using cm3 by blast
qed

text \<open>Typing characters no rule starts with into a composition with nothing pending is list insertion:
  \<open>InsertAt\<close> returns, puts exactly the typed characters at the cursor position, moves the cursor behind
  them, keeps the composition settled, and \<open>GetString\<close> shows the result. This covers kana typed in
  hiragana mode over a romaji table, and any visible text in the mode that shows it unchanged.\<close>

lemma InsertAt_refines_insertion:
  assumes "settled tc cm" and "pos \<le> length (preedit cm)" and "cs \<noteq> []" and "list_all (typable (input_t12r cm)) cs"
  shows "\<exists>cm'. InsertAt tc pos (Utf32ToUtf8 cs) cm = Some (Inr (pos + length cs, cm')) \<and>
    settled tc cm' \<and> preedit cm' = take pos (preedit cm) @ cs @ drop pos (preedit cm) \<and>
    GetString tc cm' = Utf32ToUtf8 (take pos (preedit cm) @ cs @ drop pos (preedit cm))"
  using InsertInput_settled [OF assms, of "empty_input\<lparr>input_raw := Utf32ToUtf8 cs\<rparr>"] settled_GetString
  by (auto simp: InsertAt_def empty_input_def)

section \<open>Deleting a character\<close>

lemma DeleteAt_settled:
  assumes cm: "settled tc cm" and pos: "pos < length (preedit cm)"
  shows "\<exists>cm'. DeleteAt tc pos cm = Some (pos, cm') \<and> settled tc cm' \<and> same_frame cm cm' \<and>
    preedit cm' = take pos (preedit cm) @ drop (Suc pos) (preedit cm)"
proof -
  obtain it cm1 where m: "MaybeSplitChunkAt tc pos cm = (it, cm1)" by fastforce
  from settled_MaybeSplitChunkAt [OF cm _ m] pos have cm1: "settled tc cm1" "it \<le> length (chunks cm1)"
    "concat (map chunk_text (take it (chunks cm1))) = take pos (preedit cm)"
    "concat (map chunk_text (drop it (chunks cm1))) = drop pos (preedit cm)" by simp_all
  have it: "it < length (chunks cm1)"
    using cm1(2,4) pos by (cases "it = length (chunks cm1)") auto
  define c where "c = chunks cm1 ! it"
  define before where "before = take it (chunks cm1)"
  define after where "after = drop (Suc it) (chunks cm1)"
  have cs: "chunks cm1 = before @ c # after" "length before = it"
    using it by (simp_all add: before_def after_def c_def id_take_nth_drop [symmetric])
  have sc: "settled_chunk tc (input_t12r cm1) c" and parts: "list_all (settled_chunk tc (input_t12r cm1)) before" "list_all (settled_chunk tc (input_t12r cm1)) after"
    using cm1(1) by (simp_all add: settled_def cs)
  have tx: "take pos (preedit cm) = concat (map chunk_text before)"
    "drop pos (preedit cm) = chunk_text c @ concat (map chunk_text after)"
    using cm1(3,4) cs by simp_all
  have suc: "drop (Suc pos) (preedit cm) = drop 1 (chunk_text c) @ concat (map chunk_text after)"
    using arg_cong [OF tx(2), of "drop 1"] sc by (cases "chunk_text c") (auto simp: settled_chunk_def)
  have newpos: "GetPosition tc cm1 LOCAL it = pos"
    using settled_GetPosition [OF cm1(1), of it] arg_cong [OF cm1(3), of length] pos by simp
  have size: "Composition_GetLength tc cm = length (preedit cm)" "chunks cm \<noteq> []"
    using settled_GetLength [OF cm] pos by (auto simp: preedit_def)
  have clen: "chunk_length tc LOCAL c = length (chunk_text c)"
    using sc plain_chunk_length [of tc "input_t12r cm1" c] by (simp add: settled_chunk_def)
  define cm2 where "cm2 = cm1\<lparr>chunks := (if length (chunk_text c) \<le> 1 then before @ after
      else before @ snd (SplitChunk tc LOCAL 1 c) # after)\<rparr>"
  have right: "\<not> length (chunk_text c) \<le> 1 \<Longrightarrow> settled_chunk tc (input_t12r cm1) (snd (SplitChunk tc LOCAL 1 c)) \<and>
      chunk_text (snd (SplitChunk tc LOCAL 1 c)) = drop 1 (chunk_text c)"
    using settled_split.split_law [OF sc, of 1] clen by auto
  have cm2: "settled tc cm2" "preedit cm2 = take pos (preedit cm) @ drop (Suc pos) (preedit cm)"
    using cm1(1) parts right tx(1) suc sc
    by (auto simp: settled_def cm2_def preedit_def settled_chunk_def)
  have stop: "delete_loop tc (length (preedit cm)) pos pos cm2 = Some (pos, cm2)"
  proof -
    have "Composition_GetLength tc cm2 \<noteq> length (preedit cm)"
      using settled_GetLength [OF cm2(1)] cm2(2) pos by simp
    then show ?thesis by (subst delete_loop.simps) simp
  qed
  have at: "chunks cm1 ! it = c" "(chunks cm1)[it := x] = before @ x # after"
    "take it (chunks cm1) = before" "drop (Suc it) (chunks cm1) = after" for x
    using it by (simp_all add: c_def before_def after_def upd_conv_take_nth_drop)
  have "delete_loop tc (length (preedit cm)) pos pos cm =
      delete_loop tc (length (preedit cm)) pos pos cm2"
  proof (cases "length (chunk_text c) \<le> 1")
    case True
    then show ?thesis
      using size m it newpos clen by (subst delete_loop.simps) (simp add: cm2_def at)
  next
    case False
    then show ?thesis
      using size m it newpos clen by (subst delete_loop.simps) (simp add: cm2_def at)
  qed
  moreover have "same_frame cm cm2"
    using settled_MaybeSplitChunkAt [OF cm _ m] pos by (simp add: same_frame_def cm2_def)
  ultimately show ?thesis using stop cm2 size by (auto simp: DeleteAt_def)
qed

text \<open>Deleting in such a composition is list deletion: \<open>DeleteAt\<close> returns, removes exactly the
  character at the position, and returns the position.\<close>

lemma DeleteAt_refines_deletion:
  assumes "settled tc cm" and "pos < length (preedit cm)"
  shows "\<exists>cm'. DeleteAt tc pos cm = Some (pos, cm') \<and> settled tc cm' \<and>
    preedit cm' = take pos (preedit cm) @ drop (Suc pos) (preedit cm) \<and>
    GetString tc cm' = Utf32ToUtf8 (take pos (preedit cm) @ drop (Suc pos) (preedit cm))"
  using DeleteAt_settled [OF assms] settled_GetString by metis

text \<open>At the end of the text nothing is deleted.\<close>

lemma DeleteAt_end_settled:
  assumes cm: "settled tc cm"
  shows "\<exists>cm'. DeleteAt tc (length (preedit cm)) cm = Some (length (preedit cm), cm') \<and> settled tc cm' \<and>
    same_frame cm cm' \<and> preedit cm' = preedit cm"
proof (cases "chunks cm = []")
  case True
  then have "DeleteAt tc (length (preedit cm)) cm = Some (length (preedit cm), cm)"
    unfolding DeleteAt_def by (subst delete_loop.simps) simp
  then show ?thesis using cm by (auto simp: same_frame_def)
next
  case False
  obtain it cm1 where m: "MaybeSplitChunkAt tc (length (preedit cm)) cm = (it, cm1)" by fastforce
  from settled_MaybeSplitChunkAt [OF cm _ m] have cm1: "settled tc cm1" "it \<le> length (chunks cm1)"
    "concat (map chunk_text (take it (chunks cm1))) = preedit cm"
    "concat (map chunk_text (drop it (chunks cm1))) = []"
    "comp_table cm1 = comp_table cm" "input_t12r cm1 = input_t12r cm" by simp_all
  have "list_all (settled_chunk tc (input_t12r cm1)) (drop it (chunks cm1))"
    using cm1(1) by (auto simp: settled_def list_all_iff dest: in_set_dropD)
  then have "drop it (chunks cm1) = []"
    using cm1(4) by (cases "drop it (chunks cm1)") (auto simp: settled_chunk_def)
  then have it: "it = length (chunks cm1)" using cm1(2) by simp
  have p: "GetPosition tc cm1 LOCAL it = length (preedit cm)" using settled_GetPosition [OF cm1(1), of it] cm1(3) by simp
  have "preedit cm1 = preedit cm" using cm1(3) it by (simp add: preedit_def)
  moreover have "DeleteAt tc (length (preedit cm)) cm = Some (length (preedit cm), cm1)"
    unfolding DeleteAt_def using False m it p by (subst delete_loop.simps) simp
  ultimately show ?thesis using cm1 by (auto simp: same_frame_def)
qed

section \<open>Tables that are quiet for kana\<close>

text \<open>A table whose trie has no branch for kana at its root has no rule that starts with one.\<close>

lemma quiet_kana:
  assumes "\<And>c. kana c \<Longrightarrow> map_of (subs (entries tb)) c = None" and "data (entries tb) = None"
  shows "quiet HIRAGANA tb"
  unfolding quiet_def
proof (intro allI impI)
  fix c cs assume k: "list_all (typable HIRAGANA) (c # cs)"
  have s: "list_all scalar (c # cs)"
    using k by (auto simp: list_all_iff scalar_def unicode_def kana_def)
  have l: "lower32 c = c" using k by (auto simp: lower32_def is_upper_letter_def kana_def)
  define ds where "ds = (if case_sensitive tb then c # cs else map lower32 (c # cs))"
  have n: "normalize_key tb (Utf32ToUtf8 (c # cs)) = Utf32ToUtf8 ds"
    using LowerString_encode [OF s] by (simp add: normalize_key_def ds_def del: Utf32ToUtf8_simps)
  have d: "list_all unicode ds" "ds \<noteq> []" "hd ds = c"
    using s l by (auto simp: ds_def list_all_iff scalar_def lower32_def is_upper_letter_def unicode_def)
  then obtain es where es: "ds = c # es" by (cases ds) auto
  have "deepest ds (entries tb) = (entries tb, 0)" using assms(1) k es by simp
  then show "\<exists>fixed. Table_LookUpPrefix tb (Utf32ToUtf8 (c # cs)) = (None, 0, fixed)"
    unfolding Table_LookUpPrefix_def n trie_LookUpPrefix_deepest trie_path_encode [OF d(1)]
    using assms(2) by (simp add: exI [of _ True])
qed

section \<open>Loops that do not end\<close>

text \<open>A set of compositions that \<open>delete_loop\<close> never leaves.\<close>

lemma delete_loop_diverges:
  assumes closed: "\<And>cm. cm \<in> K \<Longrightarrow> chunks cm \<noteq> [] \<and> Composition_GetLength tc cm = sz \<and>
      MaybeSplitChunkAt tc position cm = (it, cm) \<and> it < length (chunks cm) \<and>
      1 < chunk_length tc LOCAL (chunks cm ! it) \<and>
      cm\<lparr>chunks := (chunks cm)[it := snd (SplitChunk tc LOCAL 1 (chunks cm ! it))]\<rparr> \<in> K"
    and "cm \<in> K"
  shows "delete_loop tc sz position p cm = None"
proof -
  have "\<not> (tc' = tc \<and> s' = sz \<and> pos' = position \<and> cm' \<in> K)"
    if run: "delete_loop tc' s' pos' p' cm' = Some r" for tc' s' pos' p' cm' r
  proof (rule delete_loop.raw_induct [OF _ run,
        of "\<lambda>tc' s' pos' p' cm' r. \<not> (tc' = tc \<and> s' = sz \<and> pos' = position \<and> cm' \<in> K)"], goal_cases)
    case (1 loop tc' s' pos' p' cm' r)
    show ?case
    proof
      assume a: "tc' = tc \<and> s' = sz \<and> pos' = position \<and> cm' \<in> K"
      with closed [of cm'] have k: "chunks cm' \<noteq> []" "Composition_GetLength tc cm' = sz"
        "MaybeSplitChunkAt tc position cm' = (it, cm')" "it < length (chunks cm')"
        "1 < chunk_length tc LOCAL (chunks cm' ! it)"
        "cm'\<lparr>chunks := (chunks cm')[it := snd (SplitChunk tc LOCAL 1 (chunks cm' ! it))]\<rparr> \<in> K" by auto
      with 1(2) a have "loop tc sz position (GetPosition tc cm' LOCAL it)
          (cm'\<lparr>chunks := (chunks cm')[it := snd (SplitChunk tc LOCAL 1 (chunks cm' ! it))]\<rparr>) = Some r"
        by auto
      with 1(1) k(6) show False by blast
    qed
  qed
  with assms(2) show ?thesis by (cases "delete_loop tc sz position p cm") blast+
qed

text \<open>A chunk that shows one determined character followed by an invisible special key and one pending
  character, as the rule \<open>q \<rightarrow> x\<close> with pending \<open>{!}y\<close> leaves it.\<close>

definition stuck_chunk :: "TextConv \<Rightarrow> char32 \<Rightarrow> char32 \<Rightarrow> CharChunk \<Rightarrow> bool" where
  "stuck_chunk tc s y c \<longleftrightarrow> (\<exists>x. vis x \<and> conversion c = Utf32ToUtf8 [x]) \<and>
     pending c = Utf32ToUtf8 [s, y] \<and> transliterator c = CONVERSION_STRING \<and> cache_ok tc c"

lemma special_no_open: "IsSpecialKey s \<Longrightarrow> kSpecialKeyOpen \<notin> set (CodepointToUtf8 s)"
proof
  assume v: "IsSpecialKey s" and m: "kSpecialKeyOpen \<in> set (CodepointToUtf8 s)"
  have u: "0xF000 \<le> s" "s \<le> 0xF8FF" using v by (simp_all add: IsSpecialKey_def kSpecialKeyBegin_def kSpecialKeyEnd_def)
  from m have "byte kSpecialKeyOpen \<in> byte ` set (CodepointToUtf8 s)" by simp
  then show False using u
    by (auto simp: CodepointToUtf8_arith kSpecialKeyOpen_def byte_def [of "CHR 0x0F"] split: if_splits)
qed

lemma DeleteSpecialKeys_stuck:
  assumes "vis x" and "vis y" and "IsSpecialKey s"
  shows "DeleteSpecialKeys (Utf32ToUtf8 [x, s, y]) = Utf32ToUtf8 [x, y]"
proof -
  have u: "list_all unicode [x, s, y]"
    using assms by (auto simp: vis_def unicode_def IsSpecialKey_def kSpecialKeyBegin_def kSpecialKeyEnd_def)
  have "kSpecialKeyOpen \<notin> set (Utf32ToUtf8 [x, s, y])"
    using CodepointToUtf8_no_open assms special_no_open by auto
  then have "delete_blocks (Utf32ToUtf8 [x, s, y]) = Utf32ToUtf8 [x, s, y]" by (rule no_special_block)
  moreover have "Utf8ToUtf32 (Utf32ToUtf8 [x, s, y]) = [x, s, y]" by (rule Utf8ToUtf32_encode [OF u])
  moreover have "\<not> IsSpecialKey x" "\<not> IsSpecialKey y" using assms by (simp_all add: vis_def)
  ultimately show ?thesis using assms(3)
    by (simp add: DeleteSpecialKeys_def Let_def del: Utf32ToUtf8_simps)
qed

lemma stuck_chunk_step:
  assumes c: "stuck_chunk tc s y c" and "vis y" and "IsSpecialKey s"
  shows "chunk_length tc LOCAL c = 2" "stuck_chunk tc s y (snd (SplitChunk tc LOCAL 1 c))"
proof -
  obtain x where x: "vis x" "conversion c = Utf32ToUtf8 [x]" "pending c = Utf32ToUtf8 [s, y]"
    and t: "transliterator c = CONVERSION_STRING" "cache_ok tc c"
    using c by (auto simp: stuck_chunk_def)
  have t12r: "chunk_GetTransliterator c LOCAL = CONVERSION_STRING"
    using t by (simp add: chunk_GetTransliterator_def)
  have del: "DeleteSpecialKeys (conversion c @ pending c) = Utf32ToUtf8 [x, y]"
    using DeleteSpecialKeys_stuck [OF x(1) assms(2,3)] x(2,3) by simp
  have u: "list_all unicode [x, y]" using x(1) assms(2) by (simp add: vis_def)
  show len: "chunk_length tc LOCAL c = 2"
    using GetLength_cached [OF t(2), of LOCAL] CharsLen_encode [OF u] del t12r
    by (simp add: chunk_length_def uncached_length_def AppendResult_def chunk_Transliterate_def)
  obtain n c1 where g: "GetLength tc LOCAL c = (n, c1)" by fastforce
  have n: "n = 2" using len g by (simp add: chunk_length_def)
  have "c1 = c \<or> c1 = c\<lparr>local_length_cache := Some n\<rparr>"
    using g by (auto simp: GetLength_def Let_def split: option.splits)
  then obtain z where c1: "c1 = c\<lparr>local_length_cache := z\<rparr>"
    by (metis CharChunk.surjective CharChunk.update_convs(8))
  obtain res rl rr cl cr where sp: "Transliterators_Split tc CONVERSION_STRING 1
      (DeleteSpecialKeys (raw c)) (Utf32ToUtf8 [x, y]) = (res, rl, rr, cl, cr)"
    by (metis prod_cases5)
  from Split_converted_side [OF _ sp] have "cl = utf8_take (Utf32ToUtf8 [x, y]) 1"
    "cr = Utf8SubStringFrom (Utf32ToUtf8 [x, y]) 1"
    by (simp_all add: Utf8SubString_def)
  then have halves: "cl = Utf32ToUtf8 [x]" "cr = Utf32ToUtf8 [y]"
    by (simp_all only: utf8_take_encode [OF u] Utf8SubStringFrom_encode [OF u]) simp_all
  have shorter: "length cr < length (pending c)"
  proof -
    have "s \<noteq> 0" using assms(3) by (simp add: IsSpecialKey_def kSpecialKeyBegin_def)
    then have "CodepointToUtf8 s \<noteq> []" by simp
    then show ?thesis by (simp add: halves x(3))
  qed
  have "snd (SplitChunk tc LOCAL 1 c) = c\<lparr>local_length_cache := None, raw := rr, conversion := cr\<rparr>"
    using g n sp del t(1) shorter x(2) halves
    by (simp add: SplitChunk_def c1 Let_def chunk_GetTransliterator_def)
  then show "stuck_chunk tc s y (snd (SplitChunk tc LOCAL 1 c))"
    using assms(2) x(3) t halves by (auto simp: stuck_chunk_def)
qed

lemma DeleteAt_stuck:
  assumes "stuck_chunk tc s y c" and "vis y" and "IsSpecialKey s" and "chunks cm = [c]"
  shows "DeleteAt tc 0 cm = None"
proof -
  define K where "K = {cm'. \<exists>c'. stuck_chunk tc s y c' \<and> cm' = cm\<lparr>chunks := [c']\<rparr>}"
  have size: "Composition_GetLength tc (cm\<lparr>chunks := [c']\<rparr>) = 2" if "stuck_chunk tc s y c'" for c'
    using stuck_chunk_step(1) [OF that assms(2,3)]
    by (simp add: Composition_GetLength_def GetPosition_def position_of_def)
  have cm: "cm = cm\<lparr>chunks := [c]\<rparr>" using assms(4) by simp
  have "delete_loop tc 2 0 0 cm = None"
  proof (rule delete_loop_diverges [of K tc 2 0 0])
    show "cm \<in> K" using assms(1) cm by (auto simp: K_def)
    fix cm' assume "cm' \<in> K"
    then obtain c' where c': "stuck_chunk tc s y c'" "cm' = cm\<lparr>chunks := [c']\<rparr>" by (auto simp: K_def)
    from stuck_chunk_step [OF c'(1) assms(2,3)] c' size
    show "chunks cm' \<noteq> [] \<and> Composition_GetLength tc cm' = 2 \<and> MaybeSplitChunkAt tc 0 cm' = (0, cm') \<and>
      0 < length (chunks cm') \<and> 1 < chunk_length tc LOCAL (chunks cm' ! 0) \<and>
      cm'\<lparr>chunks := (chunks cm')[0 := snd (SplitChunk tc LOCAL 1 (chunks cm' ! 0))]\<rparr> \<in> K"
      by (auto simp: K_def MaybeSplitChunkAt_def split_at_def chunk_at_def)
  qed
  moreover have "Composition_GetLength tc cm = 2" using size [OF assms(1)] cm by simp
  ultimately show ?thesis by (simp add: DeleteAt_def)
qed

text \<open>\<open>DeleteAt\<close> can run for ever. On a composition of one chunk that shows a determined character
  followed by a registered special key and one pending character (the state the rule \<open>q\<close> with
  result \<open>x\<close> and pending \<open>{!}y\<close> leaves after one key), \<open>SplitChunk\<close> subtracts the length of the
  pending string, special key included, from the shorter visible right half; the difference wraps
  round, the pending character is copied into the conversion string and stays pending, so the text
  keeps its length and the deletion loop starts again.\<close>

lemma DeleteAt_hangs:
  assumes "chunks cm = [c]" and "conversion c = Utf32ToUtf8 [x]" and "pending c = Utf32ToUtf8 [s, y]"
    and "transliterator c = CONVERSION_STRING" and "local_length_cache c = None"
    and "vis x" and "vis y" and "IsSpecialKey s"
  shows "DeleteAt tc 0 cm = None"
  using DeleteAt_stuck [of tc s y c cm] assms by (auto simp: stuck_chunk_def)

definition q_rule_table :: Table where
  "q_rule_table = new_Table\<lparr>entries := Trie None
     [(113, Trie (Some \<lparr>entry_input = ''q'', entry_result = ''x'',
        entry_pending = Utf32ToUtf8 [0xF003, 0x79], entry_attributes = 0\<rparr>) [])]\<rparr>"

section \<open>A rule with an empty input\<close>

lemma AddCompositionInput_empty_rule:
  assumes "entries (snd t) = Trie (Some e) []" and "entry_pending e = []" and "k \<noteq> []"
    and "input_conversion input = []" and "input_raw input = k"
  shows "\<exists>c. AddCompositionInput (new_CharChunk t12r t) input = Some (Inr (c, input))"
proof -
  have l: "Table_LookUpPrefix (snd t) key = (Some e, 0, True)" for key
    using assms(1) by (simp add: Table_LookUpPrefix_def trie_LookUpPrefix_deepest)
  have "\<exists>c. AddInput (new_CharChunk t12r t) k = Some (Inr (k, c))"
    using assms(2,3) by (subst AddInput.simps)
      (simp add: AddInputInternal_def l add_input_entry_def take_entry_def new_CharChunk_def substr_from_def
        is_first_entry_def)
  then obtain c where "AddInput (new_CharChunk t12r t) k = Some (Inr (k, c))" by blast
  then show ?thesis using assms(4,5)
    by (auto simp: AddCompositionInput_def Let_def ShouldInsertNewChunk_def new_CharChunk_def)
qed

lemma insert_loop_empty_rule:
  assumes "entries (snd (comp_table cm)) = Trie (Some e) []" and "entry_pending e = []"
    and "input_conversion input = []" and "input_raw input \<noteq> []"
    and "left < length (chunks cm)" and "left + 1 + right = length (chunks cm)"
    and "chunks cm ! left = new_CharChunk (input_t12r cm) (comp_table cm)"
  shows "insert_loop right left input cm = None"
proof -
  have "\<not> (entries (snd (comp_table cm')) = Trie (Some e) [] \<and> input_conversion input' = [] \<and>
      input_raw input' \<noteq> [] \<and> left' + 1 + right' = length (chunks cm') \<and>
      chunks cm' ! left' = new_CharChunk (input_t12r cm') (comp_table cm'))"
    if run: "insert_loop right' left' input' cm' = Some r" for right' left' input' cm' r
  proof (rule insert_loop.raw_induct [OF _ run, of "\<lambda>right' left' input' cm' r.
      \<not> (entries (snd (comp_table cm')) = Trie (Some e) [] \<and> input_conversion input' = [] \<and>
      input_raw input' \<noteq> [] \<and> left' + 1 + right' = length (chunks cm') \<and>
      chunks cm' ! left' = new_CharChunk (input_t12r cm') (comp_table cm'))"], goal_cases)
    case (1 loop right left input cm r)
    show ?case
    proof
      assume a: "entries (snd (comp_table cm)) = Trie (Some e) [] \<and> input_conversion input = [] \<and>
        input_raw input \<noteq> [] \<and> left + 1 + right = length (chunks cm) \<and>
        chunks cm ! left = new_CharChunk (input_t12r cm) (comp_table cm)"
      then obtain c where c: "AddCompositionInput (chunks cm ! left) input = Some (Inr (c, input))"
        using AddCompositionInput_empty_rule [of "comp_table cm" e "input_raw input" input "input_t12r cm"]
          assms(2) by auto
      define cm1 where "cm1 = snd (InsertChunk (length (chunks cm) - right)
          (cm\<lparr>chunks := (chunks cm)[left := c]\<rparr>))"
      have l: "loop right (length (chunks cm) - right) (input\<lparr>is_new_input := False\<rparr>) cm1 = Some r"
        using 1(2) c a by (simp add: input_Empty_def cm1_def InsertChunk_def)
      have "comp_table cm1 = comp_table cm" "input_t12r cm1 = input_t12r cm"
        "(length (chunks cm) - right) + 1 + right = length (chunks cm1)"
        "chunks cm1 ! (length (chunks cm) - right) = new_CharChunk (input_t12r cm) (comp_table cm)"
        using a by (auto simp: cm1_def InsertChunk_def nth_append)
      with 1(1) [OF l] a show False by simp
    qed
  qed
  with assms show ?thesis by (cases "insert_loop right left input cm") blast+
qed

text \<open>A rule with an empty input makes typing hang. A table line that starts with the separator
  stores a rule under the empty key; with that rule alone, every key looks up the rule, consumes
  nothing, and \<open>InsertInput\<close> goes on making chunks without end.\<close>

lemma InsertAt_hangs_on_empty_rule:
  assumes "k \<noteq> []"
  shows "\<exists>t. LoadFromString new_Table ([CHR 0x09] @ ''x'') = Some t \<and>
    InsertAt tc 0 k (new_Composition (0, t)) = None"
proof -
  define e where "e = \<lparr>entry_input = [], entry_result = ''x'', entry_pending = [], entry_attributes = 0\<rparr>"
  define t where "t = new_Table\<lparr>entries := Trie (Some e) []\<rparr>"
  have new: "entries new_Table = Trie None []" "case_sensitive new_Table = False"
    by (simp_all add: new_Table_def empty_trie_def Let_def)
  have "\<not> has_capital (DeleteSpecialKeys [])"
    by (simp add: DeleteSpecialKeys_def no_special_block has_capital_def)
  then have load: "LoadFromString new_Table ([CHR 0x09] @ ''x'') = Some t"
    by (simp add: LoadFromString_def load_line_def ChopReturns_def Let_def AddRule_AddRule_body
        AddRule_body_def kMaxSize_def NO_TABLE_ATTRIBUTE_def trie_AddEntry_path new t_def e_def)
  define cm where "cm = (new_Composition (0, t))\<lparr>chunks := [new_CharChunk CONVERSION_STRING (0, t)]\<rparr>"
  define input where "input = empty_input\<lparr>input_raw := k\<rparr>"
  have "insert_loop 0 0 input cm = None"
    by (rule insert_loop_empty_rule [of cm e])
      (use assms in \<open>simp_all add: cm_def input_def empty_input_def new_Composition_def t_def e_def\<close>)
  then have "InsertAt tc 0 k (new_Composition (0, t)) = None"
    using assms
    by (simp add: InsertAt_def InsertInput_def input_Empty_def empty_input_def input_def cm_def
        MaybeSplitChunkAt_def split_at_def chunk_at_def new_Composition_def skip_invisible_def
        GetInsertionChunk_def InsertChunk_def CombinePendingChunks_def)
  with load show ?thesis by blast
qed

text \<open>The rule that reaches such a state.\<close>

lemma DeleteAt_hangs_example:
  "\<exists>c. AddInput (new_CharChunk CONVERSION_STRING (0, q_rule_table)) ''q'' = Some (Inr ([], c)) \<and>
     DeleteAt id_conv 0 ((new_Composition (0, q_rule_table))\<lparr>chunks := [c]\<rparr>) = None"
proof -
  define c where "c = (new_CharChunk CONVERSION_STRING (0, q_rule_table))\<lparr>raw := ''q'', conversion := ''x'',
    pending := Utf32ToUtf8 [0xF003, 0x79]\<rparr>"
  have low: "LowerString ''q'' = ''q''" by (rule LowerString_lower) (simp add: byte_def)
  have skip: "skip_chars 1 ''q'' = []" by (simp add: SplitFirstChar32_ascii byte_def)
  have l: "Table_LookUpPrefix q_rule_table ''q'' =
    (Some \<lparr>entry_input = ''q'', entry_result = ''x'', entry_pending = Utf32ToUtf8 [0xF003, 0x79],
      entry_attributes = 0\<rparr>, 1, True)"
    using low skip by (simp add: Table_LookUpPrefix_def q_rule_table_def normalize_key_def new_Table_def Let_def
        trie_LookUpPrefix_deepest ascii_path byte_def del: Utf32ToUtf8_simps)
  have a: "AddInput (new_CharChunk CONVERSION_STRING (0, q_rule_table)) ''q'' = Some (Inr ([], c))"
    by (subst AddInput.simps)
      (simp add: AddInputInternal_def l add_input_entry_def take_entry_def new_CharChunk_def substr_from_def
        is_first_entry_def NO_TABLE_ATTRIBUTE_def c_def del: Utf32ToUtf8_simps)
  have v: "vis 0x78" "vis 0x79" "IsSpecialKey 0xF003"
    by (simp_all add: vis_def unicode_def IsSpecialKey_def kSpecialKeyBegin_def kSpecialKeyEnd_def)
  have x: "conversion c = Utf32ToUtf8 [0x78]"
    using ascii_encode [of "''x''"] by (simp add: c_def byte_def del: Utf32ToUtf8_simps)
  have "DeleteAt id_conv 0 ((new_Composition (0, q_rule_table))\<lparr>chunks := [c]\<rparr>) = None"
    by (rule DeleteAt_hangs [OF _ x _ _ _ v(1,2,3)])
      (simp_all add: c_def new_CharChunk_def del: Utf32ToUtf8_simps)
  with a show ?thesis by blast
qed

end
