(* ===== verification/Composer_Text.thy ===== *)
theory Composer_Text
  imports Composition_Text Util_Text
begin

text \<open>
  The queries of \<open>composer/composer.cc\<close>: what is shown, what is handed to the converter and to the
  predictor, and how a part of the composition reads in another transliteration. These are the
  functions of the anonymous namespace \<open>common\<close>, which \<open>Composer\<close> and \<open>ComposerData\<close> both call.
\<close>

section \<open>Transliteration types\<close>

datatype TransliterationType =
    T13n_HIRAGANA | T13n_FULL_KATAKANA | T13n_HALF_ASCII | T13n_HALF_ASCII_UPPER
  | T13n_HALF_ASCII_LOWER | T13n_HALF_ASCII_CAPITALIZED | T13n_FULL_ASCII | T13n_FULL_ASCII_UPPER
  | T13n_FULL_ASCII_LOWER | T13n_FULL_ASCII_CAPITALIZED | T13n_HALF_KATAKANA | NUM_T13N_TYPES

definition TransliterationTypeArray :: "TransliterationType list" where
  "TransliterationTypeArray =
     [T13n_HIRAGANA, T13n_FULL_KATAKANA, T13n_HALF_ASCII, T13n_HALF_ASCII_UPPER, T13n_HALF_ASCII_LOWER,
      T13n_HALF_ASCII_CAPITALIZED, T13n_FULL_ASCII, T13n_FULL_ASCII_UPPER, T13n_FULL_ASCII_LOWER,
      T13n_FULL_ASCII_CAPITALIZED, T13n_HALF_KATAKANA]"

fun GetTransliterator :: "TransliterationType \<Rightarrow> Transliterator" where
  "GetTransliterator T13n_HALF_ASCII = HALF_ASCII"
| "GetTransliterator T13n_HALF_ASCII_UPPER = HALF_ASCII"
| "GetTransliterator T13n_HALF_ASCII_LOWER = HALF_ASCII"
| "GetTransliterator T13n_HALF_ASCII_CAPITALIZED = HALF_ASCII"
| "GetTransliterator T13n_FULL_ASCII = FULL_ASCII"
| "GetTransliterator T13n_FULL_ASCII_UPPER = FULL_ASCII"
| "GetTransliterator T13n_FULL_ASCII_LOWER = FULL_ASCII"
| "GetTransliterator T13n_FULL_ASCII_CAPITALIZED = FULL_ASCII"
| "GetTransliterator T13n_HALF_KATAKANA = HALF_KATAKANA"
| "GetTransliterator T13n_FULL_KATAKANA = FULL_KATAKANA"
| "GetTransliterator T13n_HIRAGANA = HIRAGANA"
| "GetTransliterator NUM_T13N_TYPES = CONVERSION_STRING"

definition GetTransliterationType :: "Transliterator \<Rightarrow> TransliterationType \<Rightarrow> TransliterationType" where
  "GetTransliterationType t12r default_type =
     (if t12r = HIRAGANA then T13n_HIRAGANA
      else if t12r = HALF_ASCII then T13n_HALF_ASCII
      else if t12r = FULL_ASCII then T13n_FULL_ASCII
      else if t12r = FULL_KATAKANA then T13n_FULL_KATAKANA
      else if t12r = HALF_KATAKANA then T13n_HALF_KATAKANA
      else default_type)"

fun Transliterate :: "TextConv \<Rightarrow> TransliterationType \<Rightarrow> bytes \<Rightarrow> bytes" where
  "Transliterate tc T13n_HALF_KATAKANA s = FullWidthToHalfWidth tc (HiraganaToKatakana tc s)"
| "Transliterate tc T13n_HALF_ASCII s = FullWidthAsciiToHalfWidthAscii tc s"
| "Transliterate tc T13n_HALF_ASCII_UPPER s = UpperString (FullWidthAsciiToHalfWidthAscii tc s)"
| "Transliterate tc T13n_HALF_ASCII_LOWER s = LowerString (FullWidthAsciiToHalfWidthAscii tc s)"
| "Transliterate tc T13n_HALF_ASCII_CAPITALIZED s = CapitalizeString (FullWidthAsciiToHalfWidthAscii tc s)"
| "Transliterate tc T13n_FULL_ASCII s = HalfWidthAsciiToFullWidthAscii tc s"
| "Transliterate tc T13n_FULL_ASCII_UPPER s = UpperString (HalfWidthAsciiToFullWidthAscii tc s)"
| "Transliterate tc T13n_FULL_ASCII_LOWER s = LowerString (HalfWidthAsciiToFullWidthAscii tc s)"
| "Transliterate tc T13n_FULL_ASCII_CAPITALIZED s = CapitalizeString (HalfWidthAsciiToFullWidthAscii tc s)"
| "Transliterate tc T13n_FULL_KATAKANA s = HiraganaToKatakana tc s"
| "Transliterate tc T13n_HIRAGANA s = s"
| "Transliterate tc NUM_T13N_TYPES s = s"

section \<open>Numbers\<close>

datatype NumberScript = NUM_ALPHABET | NUM_NUMBER | JA_HYPHEN | JA_COMMA | JA_PERIOD | NUM_OTHER

definition IsAlphabetOrNumber :: "NumberScript \<Rightarrow> bool" where
  "IsAlphabetOrNumber script \<longleftrightarrow> script = NUM_ALPHABET \<or> script = NUM_NUMBER"

text \<open>The switch of the first loop: the script of a character, and whether it sets \<open>has_symbols\<close> or
  \<open>has_alphanumerics\<close>.\<close>

definition operator_char :: "char32 \<Rightarrow> bool" where
  "operator_char c \<longleftrightarrow>
     c \<in> {0x2B, 0x2A, 0x2F, 0x3D, 0x28, 0x29, 0x3C, 0x3E,
           0xFF0B, 0xFF0A, 0xFF0F, 0xFF1D, 0xFF08, 0xFF09, 0xFF1C, 0xFF1E}"

definition number_script :: "char32 \<Rightarrow> NumberScript \<times> bool \<times> bool" where
  "number_script c =
     (if c = 0x30FC then (JA_HYPHEN, True, False)
      else if c = 0x3001 then (JA_COMMA, True, False)
      else if c = 0x3002 then (JA_PERIOD, True, False)
      else if operator_char c then (NUM_ALPHABET, False, False)
      else if script_of_char c = Script_NUMBER then (NUM_NUMBER, False, True)
      else if script_of_char c = Script_ALPHABET then (NUM_ALPHABET, False, True)
      else (NUM_OTHER, False, False))"

fun hyphen_back :: "NumberScript list \<Rightarrow> nat \<Rightarrow> bool" where
  "hyphen_back scripts 0 = False"
| "hyphen_back scripts (Suc j) =
     (if scripts ! j = JA_HYPHEN then hyphen_back scripts j else IsAlphabetOrNumber (scripts ! j))"

text \<open>\<open>append_char\<close> of the second loop.\<close>

definition number_char :: "TextConv \<Rightarrow> nat \<Rightarrow> NumberScript list \<Rightarrow> nat \<Rightarrow> bytes" where
  "number_char tc chars_len scripts i =
     (case scripts ! i of
        JA_HYPHEN \<Rightarrow>
          if (if i = 0 \<and> chars_len > 1 then scripts ! 1 = NUM_NUMBER else hyphen_back scripts i)
          then ConvertPreeditString tc (CodepointToUtf8 0x2212) else []
      | JA_COMMA \<Rightarrow>
          if i > 0 \<and> IsAlphabetOrNumber (scripts ! (i - 1))
          then ConvertPreeditString tc (CodepointToUtf8 0xFF0C) else []
      | JA_PERIOD \<Rightarrow>
          if i > 0 \<and> IsAlphabetOrNumber (scripts ! (i - 1))
          then ConvertPreeditString tc (CodepointToUtf8 0xFF0E) else []
      | _ \<Rightarrow> [])"

definition TransformCharactersForNumbers :: "TextConv \<Rightarrow> bytes \<Rightarrow> bool \<times> bytes" where
  "TransformCharactersForNumbers tc query =
     (let chars_len = CharsLen query;
          chars = Utf8ToUtf32 query;
          char_scripts = map (fst \<circ> number_script) chars;
          has_symbols = list_ex (fst \<circ> snd \<circ> number_script) chars;
          has_alphanumerics = list_ex (snd \<circ> snd \<circ> number_script) chars
      in if \<not> has_alphanumerics \<or> \<not> has_symbols then (False, query)
         else
           let appended = map (number_char tc chars_len char_scripts) [0 ..< length chars];
               transformed_query = concat (map2 (\<lambda>c append_char.
                 if append_char = [] then CodepointToUtf8 c else append_char) chars appended)
           in if list_all (\<lambda>append_char. append_char = []) appended then (False, query)
              else (True, transformed_query))"

section \<open>The shown text and the queries\<close>

datatype InputFieldType = Field_NORMAL | Field_PASSWORD | Field_TEL | Field_NUMBER

definition common_GetStringForPreedit :: "TextConv \<Rightarrow> Composition \<Rightarrow> InputFieldType \<Rightarrow> bytes" where
  "common_GetStringForPreedit tc cm field =
     (let output = snd (TransformCharactersForNumbers tc (GetString tc cm))
      in if field = Field_NUMBER \<or> field = Field_PASSWORD \<or> field = Field_TEL
         then FullWidthAsciiToHalfWidthAscii tc output else output)"

definition common_GetQueryForConversion :: "TextConv \<Rightarrow> Composition \<Rightarrow> bytes" where
  "common_GetQueryForConversion tc cm =
     FullWidthAsciiToHalfWidthAscii tc (snd (TransformCharactersForNumbers tc (GetStringWithTrimMode tc FIX cm)))"

text \<open>\<open>std::string (str, pos)\<close> throws when \<open>pos\<close> is past the end; \<open>CharsLen - 1\<close> is taken of a string
  that is not empty.\<close>

definition GetBaseQueryForPrediction :: "bytes \<Rightarrow> bytes \<Rightarrow> bytes res" where
  "GetBaseQueryForPrediction asis_query trimed_query =
     (if length asis_query = length trimed_query then Inr asis_query
      else res_bind (substr_from asis_query (length trimed_query)) (\<lambda>asis_tail.
        if GetScriptType asis_tail \<noteq> Script_ALPHABET then Inr asis_query
        else if trimed_query = [] then
          (if GetScriptType asis_query = Script_ALPHABET then Inr asis_query else Inr trimed_query)
        else if GetScriptType (Utf8SubStringFrom trimed_query (CharsLen trimed_query - 1)) = Script_ALPHABET
        then Inr asis_query else Inr trimed_query))"

definition common_GetQueryForPrediction :: "TextConv \<Rightarrow> Composition \<Rightarrow> TransliterationType \<Rightarrow> bytes res" where
  "common_GetQueryForPrediction tc cm mode =
     (let asis_query = GetStringWithTrimMode tc ASIS cm
      in if mode = T13n_HALF_ASCII then Inr asis_query
         else if mode = T13n_FULL_ASCII then Inr (FullWidthAsciiToHalfWidthAscii tc asis_query)
         else res_bind (GetBaseQueryForPrediction asis_query (GetStringWithTrimMode tc TRIM cm)) (\<lambda>base_query.
           Inr (FullWidthAsciiToHalfWidthAscii tc (snd (TransformCharactersForNumbers tc base_query)))))"

definition kModifierRemovalMap :: "(char32 \<times> char32) list" where
  "kModifierRemovalMap =
     [(0x3041, 0x3042), (0x3043, 0x3044), (0x3045, 0x3046), (0x3045, 0x3094), (0x3094, 0x3046),
      (0x3094, 0x3045), (0x3047, 0x3048), (0x3049, 0x304A), (0x304C, 0x304B), (0x304E, 0x304D),
      (0x3050, 0x304F), (0x3052, 0x3051), (0x3054, 0x3053), (0x3056, 0x3055), (0x3058, 0x3057),
      (0x305A, 0x3059), (0x305C, 0x305B), (0x305E, 0x305D), (0x3060, 0x305F), (0x3062, 0x3061),
      (0x3065, 0x3064), (0x3065, 0x3063), (0x3063, 0x3064), (0x3063, 0x3065), (0x3067, 0x3066),
      (0x3069, 0x3068), (0x3070, 0x306F), (0x3070, 0x3071), (0x3071, 0x306F), (0x3071, 0x3070),
      (0x3073, 0x3072), (0x3073, 0x3074), (0x3074, 0x3072), (0x3074, 0x3073), (0x3076, 0x3075),
      (0x3076, 0x3077), (0x3077, 0x3075), (0x3077, 0x3076), (0x3079, 0x3078), (0x3079, 0x307A),
      (0x307A, 0x3078), (0x307A, 0x3079), (0x307C, 0x307B), (0x307C, 0x307D), (0x307D, 0x307B),
      (0x307D, 0x307C), (0x3083, 0x3084), (0x3085, 0x3086), (0x3087, 0x3088), (0x308E, 0x308F)]"

definition RemoveExpandedCharsForModifier :: "bytes \<Rightarrow> bytes \<Rightarrow> bytes set \<Rightarrow> bytes set" where
  "RemoveExpandedCharsForModifier asis base expanded =
     (if \<not> starts_with asis base then expanded
      else let trailing = drop (length base) asis
           in expanded - (\<lambda>(k, c). CodepointToUtf8 c) ` {(k, c) \<in> set kModifierRemovalMap. CodepointToUtf8 k = trailing})"

definition common_GetQueriesForPrediction ::
  "TextConv \<Rightarrow> Composition \<Rightarrow> TransliterationType \<Rightarrow> (bytes \<times> bytes set) res" where
  "common_GetQueriesForPrediction tc cm mode =
     (if mode = T13n_HALF_ASCII \<or> mode = T13n_FULL_ASCII
      then res_bind (common_GetQueryForPrediction tc cm mode) (\<lambda>q. Inr (q, {}))
      else
        let (base_query, expanded) = GetExpandedStrings tc cm;
            asis = GetStringWithTrimMode tc ASIS cm
        in Inr (FullWidthAsciiToHalfWidthAscii tc base_query,
                RemoveExpandedCharsForModifier asis base_query expanded))"

definition common_GetStringForTypeCorrection :: "TextConv \<Rightarrow> Composition \<Rightarrow> bytes" where
  "common_GetStringForTypeCorrection tc cm = GetStringWithTrimMode tc ASIS cm"

section \<open>Parts of the composition\<close>

text \<open>\<open>t13n_end - t13n_start\<close> is unsigned: if the end came first, the length would wrap round and the
  rest of the text be taken. It does not (\<open>ConvertPosition_mono\<close>).\<close>

definition common_GetTransliteratedText ::
  "TextConv \<Rightarrow> Composition \<Rightarrow> Transliterator \<Rightarrow> nat \<Rightarrow> nat \<Rightarrow> bytes res" where
  "common_GetTransliteratedText tc cm t12r pos sz =
     (let full_base = GetStringWithTransliterator tc t12r cm
      in res_bind (ConvertPosition tc cm pos LOCAL t12r) (\<lambda>t13n_start.
         res_bind (ConvertPosition tc cm (pos + sz) LOCAL t12r) (\<lambda>t13n_end.
           Inr (if t13n_end < t13n_start then Utf8SubStringFrom full_base t13n_start
                else Utf8SubString full_base t13n_start (t13n_end - t13n_start)))))"

definition common_GetRawSubString :: "TextConv \<Rightarrow> Composition \<Rightarrow> nat \<Rightarrow> nat \<Rightarrow> bytes res" where
  "common_GetRawSubString tc cm pos sz = common_GetTransliteratedText tc cm RAW_STRING pos sz"

definition common_GetRawString :: "TextConv \<Rightarrow> Composition \<Rightarrow> bytes res" where
  "common_GetRawString tc cm = common_GetRawSubString tc cm 0 (Composition_GetLength tc cm)"

definition common_GetSubTransliteration ::
  "TextConv \<Rightarrow> Composition \<Rightarrow> TransliterationType \<Rightarrow> nat \<Rightarrow> nat \<Rightarrow> bytes res" where
  "common_GetSubTransliteration tc cm type pos sz =
     res_bind (common_GetTransliteratedText tc cm (GetTransliterator type) pos sz) (\<lambda>result.
       Inr (Transliterate tc type result))"

fun collect :: "('a \<Rightarrow> 'b res) \<Rightarrow> 'a list \<Rightarrow> 'b list res" where
  "collect f [] = Inr []"
| "collect f (x # xs) = res_bind (f x) (\<lambda>y. res_bind (collect f xs) (\<lambda>ys. Inr (y # ys)))"

definition common_GetSubTransliterations :: "TextConv \<Rightarrow> Composition \<Rightarrow> nat \<Rightarrow> nat \<Rightarrow> bytes list res" where
  "common_GetSubTransliterations tc cm pos sz =
     collect (\<lambda>type. common_GetSubTransliteration tc cm type pos sz) TransliterationTypeArray"

definition common_GetTransliterations :: "TextConv \<Rightarrow> Composition \<Rightarrow> bytes list res" where
  "common_GetTransliterations tc cm = common_GetSubTransliterations tc cm 0 (Composition_GetLength tc cm)"

section \<open>Cutting a range\<close>

lemma Utf8SubStringFrom_add: "Utf8SubStringFrom (Utf8SubStringFrom s a) b = Utf8SubStringFrom s (a + b)"
proof (induction s a rule: Utf8SubStringFrom.induct)
  case (1 s)
  then show ?case by (cases s) simp_all
next
  case (2 n)
  then show ?case by (cases b) simp_all
next
  case (3 c cs n)
  then show ?case by simp
qed

lemma utf8_take_add: "utf8_take s (a + b) = utf8_take s a @ utf8_take (Utf8SubStringFrom s a) b"
proof (induction s a rule: utf8_take.induct)
  case (1 s)
  then show ?case by (cases s) simp_all
next
  case (2 n)
  then show ?case by (cases b) simp_all
next
  case (3 c cs n)
  then show ?case by simp
qed

lemma Utf8SubString_cut:
  "x \<le> y \<Longrightarrow> y \<le> z \<Longrightarrow>
     Utf8SubString s x (y - x) @ Utf8SubString s y (z - y) = Utf8SubString s x (z - x)"
  using utf8_take_add [of "Utf8SubStringFrom s x" "y - x" "z - y"] Utf8SubStringFrom_add [of s x "y - x"]
  by (simp add: Utf8SubString_def)

lemma GetChunkAt_spec:
  assumes "chunks cm \<noteq> []" and "GetChunkAt tc cm pos t12r = (it, inner)"
  shows "it < length (chunks cm)" "inner \<le> chunk_length tc t12r (chunks cm ! it)"
    "pos \<le> GetPosition tc cm t12r (length (chunks cm)) \<Longrightarrow> GetPosition tc cm t12r it + inner = pos"
    "GetPosition tc cm t12r (length (chunks cm)) < pos \<Longrightarrow>
      it = length (chunks cm) - 1 \<and> inner = chunk_length tc t12r (last (chunks cm))"
  using chunk_at_spec [of "chunks cm" "chunk_length tc t12r" pos it inner] assms
  by (simp_all add: GetChunkAt_def GetPosition_def position_of_all)

lemma GetChunkAt_mono: "p \<le> q \<Longrightarrow> fst (GetChunkAt tc cm p t12r) \<le> fst (GetChunkAt tc cm q t12r)"
  by (simp add: GetChunkAt_def chunk_at_mono)

lemma GetChunkAt_inner_mono:
  assumes "chunks cm \<noteq> []" and p: "GetChunkAt tc cm p t12r = (i, m)" and q: "GetChunkAt tc cm q t12r = (i, n)"
    and "p \<le> q"
  shows "m \<le> n"
proof (cases "q \<le> GetPosition tc cm t12r (length (chunks cm))")
  case True
  then show ?thesis
    using GetChunkAt_spec(3) [OF assms(1) p] GetChunkAt_spec(3) [OF assms(1) q] assms(4) by linarith
next
  case False
  then have "i = length (chunks cm) - 1" "n = chunk_length tc t12r (last (chunks cm))"
    using GetChunkAt_spec(4) [OF assms(1) q] by simp_all
  then show ?thesis using GetChunkAt_spec(2) [OF assms(1) p] assms(1) by (simp add: last_conv_nth)
qed

text \<open>The position in the target of a chunk's inner position.\<close>

definition inner_to :: "nat \<Rightarrow> nat \<Rightarrow> nat \<Rightarrow> nat" where
  "inner_to len_from len_to inner = (if inner = 0 then 0 else if inner = len_from then len_to else min inner len_to)"

lemma inner_to_mono: "a \<le> b \<Longrightarrow> b \<le> len_from \<Longrightarrow> inner_to len_from len_to a \<le> inner_to len_from len_to b"
  by (auto simp: inner_to_def)

lemma inner_to_le: "inner_to len_from len_to inner \<le> len_to"
  by (simp add: inner_to_def)

lemma ConvertPosition_inner:
  assumes "t12r_from \<noteq> t12r_to" and "chunks cm \<noteq> []" and g: "GetChunkAt tc cm pos t12r_from = (it, inner)"
  shows "it < length (chunks cm)" "inner \<le> chunk_length tc t12r_from (chunks cm ! it)"
    "ConvertPosition tc cm pos t12r_from t12r_to =
       Inr (GetPosition tc cm t12r_to it +
            inner_to (chunk_length tc t12r_from (chunks cm ! it)) (chunk_length tc t12r_to (chunks cm ! it)) inner)"
proof -
  show b: "it < length (chunks cm)" "inner \<le> chunk_length tc t12r_from (chunks cm ! it)"
    using GetChunkAt_spec [OF assms(2) g] by simp_all
  show "ConvertPosition tc cm pos t12r_from t12r_to =
       Inr (GetPosition tc cm t12r_to it +
            inner_to (chunk_length tc t12r_from (chunks cm ! it)) (chunk_length tc t12r_to (chunks cm ! it)) inner)"
    using assms b by (auto simp: ConvertPosition_def Let_def inner_to_def min_def)
qed

lemma ConvertPosition_trivial:
  "t12r_from = t12r_to \<Longrightarrow> ConvertPosition tc cm pos t12r_from t12r_to = Inr pos"
  "t12r_from \<noteq> t12r_to \<Longrightarrow> chunks cm = [] \<Longrightarrow> ConvertPosition tc cm pos t12r_from t12r_to = Inr 0"
  by (simp_all add: ConvertPosition_def GetChunkAt_def chunk_at_def)

lemma ConvertPosition_mono:
  assumes "p \<le> q" and "ConvertPosition tc cm p t12r_from t12r_to = Inr a"
    and "ConvertPosition tc cm q t12r_from t12r_to = Inr b"
  shows "a \<le> b"
proof (cases "t12r_from = t12r_to \<or> chunks cm = []")
  case True
  with assms show ?thesis by (cases "t12r_from = t12r_to") (simp_all add: ConvertPosition_trivial)
next
  case False
  then have ne: "t12r_from \<noteq> t12r_to" "chunks cm \<noteq> []" by simp_all
  obtain i m where i: "GetChunkAt tc cm p t12r_from = (i, m)" by fastforce
  obtain j n where j: "GetChunkAt tc cm q t12r_from = (j, n)" by fastforce
  note ci = ConvertPosition_inner [OF ne i] and cj = ConvertPosition_inner [OF ne j]
  have ij: "i \<le> j" using GetChunkAt_mono [OF assms(1), of tc cm t12r_from] i j by simp
  show ?thesis
  proof (cases "i = j")
    case True
    have "m \<le> n" using GetChunkAt_inner_mono [OF ne(2) i j [folded True] assms(1)] .
    then have le: "inner_to (chunk_length tc t12r_from (chunks cm ! j)) l m
        \<le> inner_to (chunk_length tc t12r_from (chunks cm ! j)) l n" for l
      using cj(2) by (rule inner_to_mono)
    have "a = GetPosition tc cm t12r_to j +
        inner_to (chunk_length tc t12r_from (chunks cm ! j)) (chunk_length tc t12r_to (chunks cm ! j)) m"
      using assms(2) ci(3) unfolding True by simp
    moreover have "b = GetPosition tc cm t12r_to j +
        inner_to (chunk_length tc t12r_from (chunks cm ! j)) (chunk_length tc t12r_to (chunks cm ! j)) n"
      using assms(3) cj(3) by simp
    ultimately show ?thesis using le by simp
  next
    case False
    then have "GetPosition tc cm t12r_to (Suc i) \<le> GetPosition tc cm t12r_to j"
      using ij by (simp add: GetPosition_def position_of_mono)
    moreover have "GetPosition tc cm t12r_to (Suc i) =
        GetPosition tc cm t12r_to i + chunk_length tc t12r_to (chunks cm ! i)"
      using ci(1) by (simp add: GetPosition_def position_of_Suc)
    moreover have "a \<le> GetPosition tc cm t12r_to i + chunk_length tc t12r_to (chunks cm ! i)"
      using assms(2) ci(3) by (auto intro: inner_to_le)
    moreover have "GetPosition tc cm t12r_to j \<le> b" using assms(3) cj(3) by simp
    ultimately show ?thesis by linarith
  qed
qed

lemma ConvertPosition_returns: "\<exists>p. ConvertPosition tc cm pos t12r_from t12r_to = Inr p"
proof (cases "t12r_from = t12r_to \<or> chunks cm = []")
  case True
  then show ?thesis by (cases "t12r_from = t12r_to") (simp_all add: ConvertPosition_trivial)
next
  case False
  then show ?thesis using ConvertPosition_inner(3) [of t12r_from t12r_to cm tc pos] by (metis surj_pair)
qed

lemma GetTransliteratedText_range:
  "\<exists>a b. ConvertPosition tc cm pos LOCAL t12r = Inr a \<and> ConvertPosition tc cm (pos + sz) LOCAL t12r = Inr b \<and>
     a \<le> b \<and> common_GetTransliteratedText tc cm t12r pos sz =
       Inr (Utf8SubString (GetStringWithTransliterator tc t12r cm) a (b - a))"
proof -
  obtain a b where "ConvertPosition tc cm pos LOCAL t12r = Inr a"
    "ConvertPosition tc cm (pos + sz) LOCAL t12r = Inr b"
    by (metis ConvertPosition_returns)
  then show ?thesis using ConvertPosition_mono [of pos "pos + sz" tc cm LOCAL t12r a b]
    by (simp add: common_GetTransliteratedText_def Let_def)
qed

text \<open>Cutting a range of the composition anywhere and transliterating the pieces gives the pieces of the
  transliteration: \<open>GetTransliteratedText\<close> never fails, and the text of a range is the text of its
  first part followed by the text of the rest, in every transliteration. The converted end of a range
  is never before its start.\<close>

lemma GetTransliteratedText_pieces:
  "\<exists>left right. common_GetTransliteratedText tc cm t12r pos m = Inr left \<and>
     common_GetTransliteratedText tc cm t12r (pos + m) n = Inr right \<and>
     common_GetTransliteratedText tc cm t12r pos (m + n) = Inr (left @ right)"
proof -
  obtain a b where ab: "ConvertPosition tc cm pos LOCAL t12r = Inr a"
    "ConvertPosition tc cm (pos + m) LOCAL t12r = Inr b" "a \<le> b"
    "common_GetTransliteratedText tc cm t12r pos m =
       Inr (Utf8SubString (GetStringWithTransliterator tc t12r cm) a (b - a))"
    using GetTransliteratedText_range [of tc cm pos t12r m] by blast
  obtain b' c where bc: "ConvertPosition tc cm (pos + m) LOCAL t12r = Inr b'"
    "ConvertPosition tc cm (pos + m + n) LOCAL t12r = Inr c" "b' \<le> c"
    "common_GetTransliteratedText tc cm t12r (pos + m) n =
       Inr (Utf8SubString (GetStringWithTransliterator tc t12r cm) b' (c - b'))"
    using GetTransliteratedText_range [of tc cm "pos + m" t12r n] by blast
  obtain a' c' where ac: "ConvertPosition tc cm pos LOCAL t12r = Inr a'"
    "ConvertPosition tc cm (pos + (m + n)) LOCAL t12r = Inr c'"
    "common_GetTransliteratedText tc cm t12r pos (m + n) =
       Inr (Utf8SubString (GetStringWithTransliterator tc t12r cm) a' (c' - a'))"
    using GetTransliteratedText_range [of tc cm pos t12r "m + n"] by blast
  have "a' = a" "b' = b" "c' = c" using ab bc ac by (simp_all add: add.assoc)
  then show ?thesis using ab bc ac Utf8SubString_cut [OF ab(3), of c] by simp
qed

section \<open>Numbers\<close>

text \<open>The character a position of a number is shown as: a hyphen that starts the text and is followed
  by a digit, or whose run of hyphens follows a letter or digit, becomes a minus sign; a comma and a
  full stop after a letter or digit become their full-width Latin forms.\<close>

definition after_alnum :: "char32 list \<Rightarrow> bool" where
  "after_alnum before \<longleftrightarrow> before \<noteq> [] \<and> IsAlphabetOrNumber (fst (number_script (last before)))"

definition run_start :: "char32 list \<Rightarrow> char32 list" where
  "run_start before = rev (dropWhile (\<lambda>c. c = 0x30FC) (rev before))"

definition shown_number_char :: "char32 list \<Rightarrow> char32 \<Rightarrow> char32 list \<Rightarrow> char32 \<Rightarrow> char32 \<Rightarrow> char32 \<Rightarrow> char32" where
  "shown_number_char before c after mn cma prd =
     (if c = 0x30FC \<and> (if before = [] then after \<noteq> [] \<and> fst (number_script (hd after)) = NUM_NUMBER
                        else after_alnum (run_start before)) then mn
      else if c = 0x3001 \<and> after_alnum before then cma
      else if c = 0x3002 \<and> after_alnum before then prd
      else c)"

text \<open>The positions that are converted; \<open>number_script\<close> counts the operators among the letters.\<close>

definition number_mark :: "char32 list \<Rightarrow> char32 \<Rightarrow> char32 list \<Rightarrow> bool" where
  "number_mark before c after \<longleftrightarrow>
     c = 0x30FC \<and> (if before = [] then after \<noteq> [] \<and> fst (number_script (hd after)) = NUM_NUMBER
                  else after_alnum (run_start before)) \<or>
     (c = 0x3001 \<or> c = 0x3002) \<and> after_alnum before"

definition is_alnum_char :: "char32 \<Rightarrow> bool" where
  "is_alnum_char c \<longleftrightarrow> \<not> operator_char c \<and> script_of_char c \<in> {Script_NUMBER, Script_ALPHABET}"

lemma number_script_simps:
  "fst (number_script c) = JA_HYPHEN \<longleftrightarrow> c = 0x30FC" "fst (number_script c) = JA_COMMA \<longleftrightarrow> c = 0x3001"
  "fst (number_script c) = JA_PERIOD \<longleftrightarrow> c = 0x3002"
  "fst (snd (number_script c)) \<longleftrightarrow> c \<in> {0x30FC, 0x3001, 0x3002}"
  by (simp_all add: number_script_def)

lemma number_script_alnum: "snd (snd (number_script c)) \<longleftrightarrow> is_alnum_char c"
proof -
  have "script_of_char 0x30FC = Script_KATAKANA" "script_of_char 0x3001 = UNKNOWN_SCRIPT"
    "script_of_char 0x3002 = UNKNOWN_SCRIPT" by (simp_all add: script_of_char_def)
  then show ?thesis by (auto simp: number_script_def is_alnum_char_def)
qed

lemma run_start_snoc: "run_start (xs @ [x]) = (if x = 0x30FC then run_start xs else xs @ [x])"
  by (simp add: run_start_def)

lemma hyphen_back_run:
  "i \<le> length cs \<Longrightarrow> hyphen_back (map (fst \<circ> number_script) cs) i \<longleftrightarrow> after_alnum (run_start (take i cs))"
proof (induction i)
  case 0
  then show ?case by (simp add: run_start_def after_alnum_def)
next
  case (Suc i)
  then show ?case
    by (auto simp: take_Suc_conv_app_nth run_start_snoc number_script_simps after_alnum_def)
qed

lemma number_char_piece:
  assumes i: "i < length cs"
    and conv: "ConvertPreeditString tc (CodepointToUtf8 0x2212) = CodepointToUtf8 mn" "mn \<noteq> 0"
      "ConvertPreeditString tc (CodepointToUtf8 0xFF0C) = CodepointToUtf8 cma" "cma \<noteq> 0"
      "ConvertPreeditString tc (CodepointToUtf8 0xFF0E) = CodepointToUtf8 prd" "prd \<noteq> 0"
  shows "(let a = number_char tc (length cs) (map (fst \<circ> number_script) cs) i
      in if a = [] then CodepointToUtf8 (cs ! i) else a) =
    CodepointToUtf8 (shown_number_char (take i cs) (cs ! i) (drop (Suc i) cs) mn cma prd)" (is ?shown)
    and "number_char tc (length cs) (map (fst \<circ> number_script) cs) i = [] \<longleftrightarrow>
      \<not> number_mark (take i cs) (cs ! i) (drop (Suc i) cs)" (is ?mark)
proof -
  let ?scripts = "map (fst \<circ> number_script) cs"
  have before: "take i cs = [] \<longleftrightarrow> i = 0" using i by auto
  have hyphen: "(if i = 0 \<and> length cs > 1 then ?scripts ! 1 = NUM_NUMBER else hyphen_back ?scripts i) \<longleftrightarrow>
      (if take i cs = [] then drop (Suc i) cs \<noteq> [] \<and> fst (number_script (hd (drop (Suc i) cs))) = NUM_NUMBER
       else after_alnum (run_start (take i cs)))"
    unfolding before using i hyphen_back_run [of i cs] by (cases "i = 0") (auto simp: hd_drop_conv_nth)
  have prev: "i > 0 \<and> IsAlphabetOrNumber (?scripts ! (i - 1)) \<longleftrightarrow> after_alnum (take i cs)"
    using i before by (auto simp: after_alnum_def last_conv_nth min_def)
  have sc: "?scripts ! i = fst (number_script (cs ! i))" using i by simp
  have sh: "shown_number_char (take i cs) (cs ! i) (drop (Suc i) cs) mn cma prd =
      (if cs ! i = 0x30FC \<and> (if i = 0 \<and> length cs > 1 then ?scripts ! 1 = NUM_NUMBER else hyphen_back ?scripts i) then mn
       else if cs ! i = 0x3001 \<and> i > 0 \<and> IsAlphabetOrNumber (?scripts ! (i - 1)) then cma
       else if cs ! i = 0x3002 \<and> i > 0 \<and> IsAlphabetOrNumber (?scripts ! (i - 1)) then prd
       else cs ! i)"
    unfolding shown_number_char_def hyphen prev by simp
  have mk: "number_mark (take i cs) (cs ! i) (drop (Suc i) cs) \<longleftrightarrow>
      cs ! i = 0x30FC \<and> (if i = 0 \<and> length cs > 1 then ?scripts ! 1 = NUM_NUMBER else hyphen_back ?scripts i) \<or>
      (cs ! i = 0x3001 \<or> cs ! i = 0x3002) \<and> i > 0 \<and> IsAlphabetOrNumber (?scripts ! (i - 1))"
    unfolding number_mark_def hyphen prev ..
  show ?mark unfolding mk number_char_def sc conv(1,3,5)
    by (cases "fst (number_script (cs ! i))") (use conv(2,4,6) number_script_simps [of "cs ! i"] in auto)
  show ?shown unfolding sh number_char_def sc Let_def conv(1,3,5)
    by (cases "fst (number_script (cs ! i))") (use conv(2,4,6) number_script_simps [of "cs ! i"] in auto)
qed

text \<open>C17: Numbers are shown in Latin punctuation and nothing else changes: on a text with a letter or digit,
  \<open>TransformCharactersForNumbers\<close> replaces each character by \<open>shown_number_char\<close> of its surroundings, so
  only sound marks (one that starts the text and is followed by a digit, or a run of them after a letter, a
  digit or an operator) and the commas and full stops directly after a letter, a digit or an operator change,
  each to one character, whatever follows; a text without a letter or digit is left alone. The flag tells
  whether there was such a position. The character form manager is assumed to give one character for each of
  the three symbols.\<close>

theorem TransformCharactersForNumbers_spec:
  assumes "list_all unicode cs"
    and "ConvertPreeditString tc (CodepointToUtf8 0x2212) = CodepointToUtf8 mn" "mn \<noteq> 0"
    and "ConvertPreeditString tc (CodepointToUtf8 0xFF0C) = CodepointToUtf8 cma" "cma \<noteq> 0"
    and "ConvertPreeditString tc (CodepointToUtf8 0xFF0E) = CodepointToUtf8 prd" "prd \<noteq> 0"
  shows "TransformCharactersForNumbers tc (Utf32ToUtf8 cs) =
    (list_ex is_alnum_char cs \<and>
       list_ex (\<lambda>i. number_mark (take i cs) (cs ! i) (drop (Suc i) cs)) [0 ..< length cs],
     if list_ex is_alnum_char cs
     then Utf32ToUtf8 (map (\<lambda>i. shown_number_char (take i cs) (cs ! i) (drop (Suc i) cs) mn cma prd) [0 ..< length cs])
     else Utf32ToUtf8 cs)"
proof -
  define f where "f i = shown_number_char (take i cs) (cs ! i) (drop (Suc i) cs) mn cma prd" for i
  define scripts where "scripts = map (fst \<circ> number_script) cs"
  have piece: "(let a = number_char tc (length cs) scripts i in if a = [] then CodepointToUtf8 (cs ! i) else a) =
      CodepointToUtf8 (f i)" if "i < length cs" for i
    unfolding scripts_def f_def by (rule number_char_piece(1) [OF that assms(2-7)])
  have pieces: "concat (map2 (\<lambda>c a. if a = [] then CodepointToUtf8 c else a) cs
      (map (number_char tc (length cs) scripts) [0 ..< length cs])) = Utf32ToUtf8 (map f [0 ..< length cs])"
    unfolding Utf32ToUtf8_def
    by (intro arg_cong [of _ _ concat] nth_equalityI) (use piece in \<open>simp_all add: Let_def\<close>)
  have keep: "Utf32ToUtf8 cs = Utf32ToUtf8 (map f [0 ..< length cs])"
    if "\<And>i. i < length cs \<Longrightarrow> CodepointToUtf8 (f i) = CodepointToUtf8 (cs ! i)"
    unfolding Utf32ToUtf8_def by (intro arg_cong [of _ _ concat] nth_equalityI) (use that in simp_all)
  have t: "CharsLen (Utf32ToUtf8 cs) = length cs" "Utf8ToUtf32 (Utf32ToUtf8 cs) = cs"
    using assms(1) by (simp_all add: CharsLen_encode)
  have al: "list_ex (snd \<circ> snd \<circ> number_script) cs \<longleftrightarrow> list_ex is_alnum_char cs"
    by (simp add: list_ex_iff number_script_alnum)
  have T: "TransformCharactersForNumbers tc (Utf32ToUtf8 cs) =
      (if \<not> list_ex is_alnum_char cs \<or> \<not> list_ex (fst \<circ> snd \<circ> number_script) cs then (False, Utf32ToUtf8 cs)
       else if list_all (\<lambda>a. a = []) (map (number_char tc (length cs) scripts) [0 ..< length cs])
       then (False, Utf32ToUtf8 cs) else (True, Utf32ToUtf8 (map f [0 ..< length cs])))"
    by (simp add: TransformCharactersForNumbers_def t al Let_def scripts_def pieces [unfolded scripts_def])
  have plain: "Utf32ToUtf8 (map f [0 ..< length cs]) = Utf32ToUtf8 cs"
    if "\<not> list_ex (fst \<circ> snd \<circ> number_script) cs"
  proof (rule keep [symmetric])
    show "i < length cs \<Longrightarrow> CodepointToUtf8 (f i) = CodepointToUtf8 (cs ! i)" for i
      using that by (auto simp: f_def shown_number_char_def list_ex_iff number_script_simps)
  qed
  have none: "Utf32ToUtf8 (map f [0 ..< length cs]) = Utf32ToUtf8 cs"
    if "list_all (\<lambda>a. a = []) (map (number_char tc (length cs) scripts) [0 ..< length cs])"
    by (rule keep [symmetric]) (use that piece in \<open>auto simp: list_all_iff Let_def\<close>)
  define marks where "marks = list_ex (\<lambda>i. number_mark (take i cs) (cs ! i) (drop (Suc i) cs)) [0 ..< length cs]"
  have m: "list_all (\<lambda>a. a = []) (map (number_char tc (length cs) scripts) [0 ..< length cs]) \<longleftrightarrow> \<not> marks"
    unfolding marks_def scripts_def list_all_iff list_ex_iff set_map set_upt
    using number_char_piece(2) [OF _ assms(2-7)] by fastforce
  have s: "marks \<Longrightarrow> list_ex (fst \<circ> snd \<circ> number_script) cs"
    unfolding marks_def list_ex_iff number_mark_def set_upt comp_apply number_script_simps(4)
    by (metis atLeastLessThan_iff insertI1 insertI2 nth_mem)
  have "TransformCharactersForNumbers tc (Utf32ToUtf8 cs) =
      (list_ex is_alnum_char cs \<and> marks,
       if list_ex is_alnum_char cs then Utf32ToUtf8 (map f [0 ..< length cs]) else Utf32ToUtf8 cs)"
    unfolding T m using plain none [unfolded m] s by (cases marks; cases "list_ex is_alnum_char cs"; cases "list_ex (fst \<circ> snd \<circ> number_script) cs") simp_all
  moreover have "f = (\<lambda>i. shown_number_char (take i cs) (cs ! i) (drop (Suc i) cs) mn cma prd)"
    by (rule ext) (rule f_def)
  ultimately show ?thesis unfolding marks_def by (simp only:)
qed

theorem TransformCharactersForNumbers_spec_witness:
  "TransformCharactersForNumbers id_conv (Utf32ToUtf8 [0x30FC, 0x31, 0x3001, 0x30, 0x30FC, 0x3042, 0x3002]) =
     (True, Utf32ToUtf8 [0x2212, 0x31, 0xFF0C, 0x30, 0x2212, 0x3042, 0x3002])"
proof -
  let ?cs = "[0x30FC, 0x31, 0x3001, 0x30, 0x30FC, 0x3042, 0x3002] :: nat list"
  have c: "ConvertPreeditString id_conv s = s" for s by (simp add: id_conv_def)
  have a: "list_ex is_alnum_char ?cs"
    by (simp add: is_alnum_char_def operator_char_def script_of_char_def)
  have u: "list_all unicode ?cs" by (simp add: unicode_def)
  have m: "map (\<lambda>i. shown_number_char (take i ?cs) (?cs ! i) (drop (Suc i) ?cs) 0x2212 0xFF0C 0xFF0E) [0 ..< length ?cs] =
      [0x2212, 0x31, 0xFF0C, 0x30, 0x2212, 0x3042, 0x3002]"
    by (simp add: upt_conv_Cons shown_number_char_def after_alnum_def run_start_def IsAlphabetOrNumber_def
        number_script_def operator_char_def script_of_char_def)
  have k: "list_ex (\<lambda>i. number_mark (take i ?cs) (?cs ! i) (drop (Suc i) ?cs)) [0 ..< length ?cs]"
    by (simp add: upt_conv_Cons number_mark_def after_alnum_def run_start_def IsAlphabetOrNumber_def
        number_script_def operator_char_def script_of_char_def)
  from TransformCharactersForNumbers_spec [OF u c _ c _ c] a m k show ?thesis by (simp del: Utf32ToUtf8_simps)
qed

end
