(* ===== verification/Key_Event.thy ===== *)
theory Key_Event
  imports Char_Chunk Table_Rules
begin

text \<open>
  Key events: the message \<open>KeyEvent\<close> of \<open>protocol/commands.proto\<close>, \<open>composer/key_event_util.cc\<close> and
  \<open>composer/key_parser.cc\<close>. An optional field is an \<open>option\<close>; an enum value is its number. Unsigned
  integers keep their width. \<open>probable_key_event\<close> and \<open>activated\<close> are not read by the modelled code.
\<close>

section \<open>The message\<close>

abbreviation CTRL :: "32 word" where "CTRL \<equiv> 1"
abbreviation ALT :: "32 word" where "ALT \<equiv> 2"
abbreviation SHIFT :: "32 word" where "SHIFT \<equiv> 4"
abbreviation KEY_DOWN :: "32 word" where "KEY_DOWN \<equiv> 8"
abbreviation KEY_UP :: "32 word" where "KEY_UP \<equiv> 16"
abbreviation LEFT_CTRL :: "32 word" where "LEFT_CTRL \<equiv> 32"
abbreviation LEFT_ALT :: "32 word" where "LEFT_ALT \<equiv> 64"
abbreviation LEFT_SHIFT :: "32 word" where "LEFT_SHIFT \<equiv> 128"
abbreviation RIGHT_CTRL :: "32 word" where "RIGHT_CTRL \<equiv> 256"
abbreviation RIGHT_ALT :: "32 word" where "RIGHT_ALT \<equiv> 512"
abbreviation RIGHT_SHIFT :: "32 word" where "RIGHT_SHIFT \<equiv> 1024"
abbreviation CAPS :: "32 word" where "CAPS \<equiv> 2048"

text \<open>The names of the special keys, in the order of their numbers.\<close>

definition SpecialKey_names :: "bytes list" where
  "SpecialKey_names =
     [''NO_SPECIALKEY'', ''DIGIT'', ''ON'', ''OFF'', ''SPACE'', ''ENTER'',
      ''LEFT'', ''RIGHT'', ''UP'', ''DOWN'', ''ESCAPE'', ''DEL'',
      ''BACKSPACE'', ''HENKAN'', ''MUHENKAN'', ''KANA'', ''HOME'', ''END'',
      ''TAB'', ''F1'', ''F2'', ''F3'', ''F4'', ''F5'',
      ''F6'', ''F7'', ''F8'', ''F9'', ''F10'', ''F11'',
      ''F12'', ''PAGE_UP'', ''PAGE_DOWN'', ''INSERT'', ''F13'', ''F14'',
      ''F15'', ''F16'', ''F17'', ''F18'', ''F19'', ''F20'',
      ''F21'', ''F22'', ''F23'', ''F24'', ''EISU'', ''NUMPAD0'',
      ''NUMPAD1'', ''NUMPAD2'', ''NUMPAD3'', ''NUMPAD4'', ''NUMPAD5'', ''NUMPAD6'',
      ''NUMPAD7'', ''NUMPAD8'', ''NUMPAD9'', ''MULTIPLY'', ''ADD'', ''SEPARATOR'',
      ''SUBTRACT'', ''DECIMAL'', ''DIVIDE'', ''EQUALS'', ''TEXT_INPUT'', ''HANKAKU'',
      ''KANJI'', ''KATAKANA'', ''CAPS_LOCK'', ''UNDEFINED_KEY'', ''COMMA'', ''CLEAR'',
      ''VIRTUAL_LEFT'', ''VIRTUAL_RIGHT'', ''VIRTUAL_ENTER'', ''VIRTUAL_UP'', ''VIRTUAL_DOWN'', ''IME_ACTION'',
      ''NUM_SPECIALKEYS'']"

definition SpecialKey_Name :: "nat \<Rightarrow> bytes" where
  "SpecialKey_Name key = (if key < length SpecialKey_names then SpecialKey_names ! key else [])"

abbreviation (input) Key_ENTER :: nat where "Key_ENTER \<equiv> 5"
abbreviation (input) Key_NUMPAD0 :: nat where "Key_NUMPAD0 \<equiv> 47"
abbreviation (input) Key_NUMPAD9 :: nat where "Key_NUMPAD9 \<equiv> 56"
abbreviation (input) Key_SEPARATOR :: nat where "Key_SEPARATOR \<equiv> 59"
abbreviation (input) Key_EQUALS :: nat where "Key_EQUALS \<equiv> 63"
abbreviation (input) Key_TEXT_INPUT :: nat where "Key_TEXT_INPUT \<equiv> 64"
abbreviation (input) Key_COMMA :: nat where "Key_COMMA \<equiv> 70"

datatype InputStyle = FOLLOW_MODE | AS_IS_STYLE | DIRECT_INPUT_STYLE

datatype CompositionMode =
    Mode_DIRECT | Mode_HIRAGANA | Mode_FULL_KATAKANA | Mode_HALF_ASCII | Mode_FULL_ASCII
  | Mode_HALF_KATAKANA | Mode_MANYOSHU

record KeyEvent =
  key_code :: "32 word option"
  modifiers :: "32 word option"
  special_key :: "nat option"
  modifier_keys :: "32 word list"
  key_string :: "bytes option"
  input_style :: InputStyle
  key_mode :: "CompositionMode option"
  key_timestamp :: "int option"

definition empty_KeyEvent :: KeyEvent where
  "empty_KeyEvent = \<lparr>key_code = None, modifiers = None, special_key = None, modifier_keys = [],
     key_string = None, input_style = FOLLOW_MODE, key_mode = None, key_timestamp = None\<rparr>"

section \<open>Modifiers\<close>

definition GetModifiers :: "KeyEvent \<Rightarrow> 32 word" where
  "GetModifiers e =
     (case modifiers e of Some m \<Rightarrow> m | None \<Rightarrow> foldl (\<lambda>m key. m OR key) 0 (modifier_keys e))"

definition kAltMask :: "32 word" where "kAltMask = ALT OR LEFT_ALT OR RIGHT_ALT"
definition kCtrlMask :: "32 word" where "kCtrlMask = CTRL OR LEFT_CTRL OR RIGHT_CTRL"
definition kShiftMask :: "32 word" where "kShiftMask = SHIFT OR LEFT_SHIFT OR RIGHT_SHIFT"
definition kCapsMask :: "32 word" where "kCapsMask = CAPS"

definition Ignore :: "32 word \<Rightarrow> 32 word \<Rightarrow> 32 word" where
  "Ignore m ignored = m AND NOT ignored"

definition Any_of :: "32 word \<Rightarrow> 32 word \<Rightarrow> bool" where
  "Any_of m q \<longleftrightarrow> m AND q \<noteq> 0"

definition None_of :: "32 word \<Rightarrow> 32 word \<Rightarrow> bool" where
  "None_of m q \<longleftrightarrow> \<not> Any_of m q"

definition HasAlt :: "32 word \<Rightarrow> bool" where "HasAlt m = Any_of m kAltMask"
definition HasCtrl :: "32 word \<Rightarrow> bool" where "HasCtrl m = Any_of m kCtrlMask"
definition HasShift :: "32 word \<Rightarrow> bool" where "HasShift m = Any_of m kShiftMask"
definition HasCaps :: "32 word \<Rightarrow> bool" where "HasCaps m = Any_of m kCapsMask"

definition IsAlt :: "32 word \<Rightarrow> bool" where
  "IsAlt m = (if \<not> HasAlt m then False else None_of (Ignore m kCapsMask) (NOT kAltMask))"

definition IsCtrl :: "32 word \<Rightarrow> bool" where
  "IsCtrl m = (if \<not> HasCtrl m then False else None_of (Ignore m kCapsMask) (NOT kCtrlMask))"

definition IsShift :: "32 word \<Rightarrow> bool" where
  "IsShift m = (if \<not> HasShift m then False else None_of (Ignore m kCapsMask) (NOT kShiftMask))"

definition IsAltCtrl :: "32 word \<Rightarrow> bool" where
  "IsAltCtrl m = (if \<not> HasAlt m \<or> \<not> HasCtrl m then False
     else None_of (Ignore m kCapsMask) (NOT (kAltMask OR kCtrlMask)))"

definition IsAltShift :: "32 word \<Rightarrow> bool" where
  "IsAltShift m = (if \<not> HasAlt m \<or> \<not> HasShift m then False
     else None_of (Ignore m kCapsMask) (NOT (kAltMask OR kShiftMask)))"

definition IsCtrlShift :: "32 word \<Rightarrow> bool" where
  "IsCtrlShift m = (if \<not> HasCtrl m \<or> \<not> HasShift m then False
     else None_of (Ignore m kCapsMask) (NOT (kCtrlMask OR kShiftMask)))"

definition IsAltCtrlShift :: "32 word \<Rightarrow> bool" where
  "IsAltCtrlShift m = (if \<not> HasAlt m \<or> \<not> HasCtrl m \<or> \<not> HasShift m then False
     else None_of (Ignore m kCapsMask) (NOT (kAltMask OR kCtrlMask OR kShiftMask)))"

section \<open>Key information\<close>

text \<open>The narrowing casts to \<open>uint16_t\<close> are \<open>ucast\<close>.\<close>

definition GetKeyInformation :: "KeyEvent \<Rightarrow> 64 word option" where
  "GetKeyInformation e =
     (let mods = ucast (GetModifiers e) :: 16 word;
          special = of_nat (case special_key e of Some k \<Rightarrow> k | None \<Rightarrow> 0) :: 16 word;
          code = (case key_code e of Some c \<Rightarrow> c | None \<Rightarrow> 0)
      in if 0 < code \<and> code \<le> 32 then None
         else Some (push_bit 48 (ucast mods) OR push_bit 32 (ucast special) OR ucast code))"

definition RemoveModifiers :: "KeyEvent \<Rightarrow> 32 word \<Rightarrow> KeyEvent" where
  "RemoveModifiers e removed =
     (let removed = (if HasAlt removed then removed OR (LEFT_ALT OR RIGHT_ALT) else removed);
          removed = (if HasCtrl removed then removed OR (LEFT_CTRL OR RIGHT_CTRL) else removed);
          removed = (if HasShift removed then removed OR (LEFT_SHIFT OR RIGHT_SHIFT) else removed)
      in e\<lparr>modifier_keys := filter (\<lambda>k. removed AND k = 0) (modifier_keys e)\<rparr>)"

definition kIgnorableModifierMask :: "32 word" where
  "kIgnorableModifierMask =
     CAPS OR LEFT_ALT OR RIGHT_ALT OR LEFT_CTRL OR RIGHT_CTRL OR LEFT_SHIFT OR RIGHT_SHIFT"

definition NormalizeModifiers :: "KeyEvent \<Rightarrow> KeyEvent" where
  "NormalizeModifiers e =
     (let e' = RemoveModifiers e kIgnorableModifierMask
      in case key_code e of
           None \<Rightarrow> e'
         | Some c \<Rightarrow>
             if GetModifiers e AND CAPS \<noteq> 0 then
               (if 0x41 \<le> c \<and> c \<le> 0x5A then e'\<lparr>key_code := Some (c + 0x20)\<rparr>
                else if 0x61 \<le> c \<and> c \<le> 0x7A then e'\<lparr>key_code := Some (c - 0x20)\<rparr>
                else e')
             else e')"

definition IsNumpadKey :: "KeyEvent \<Rightarrow> bool" where
  "IsNumpadKey e =
     (case special_key e of
        None \<Rightarrow> False
      | Some k \<Rightarrow> Key_NUMPAD0 \<le> k \<and> k \<le> Key_EQUALS \<or> k = Key_COMMA)"

definition numpad_char :: "nat \<Rightarrow> char option" where
  "numpad_char k = map_of [(57, CHR ''*''), (58, CHR ''+''), (60, CHR ''-''), (61, CHR ''.''),
     (62, CHR ''/''), (63, CHR ''=''), (70, CHR '','')] k"

definition NormalizeNumpadKey :: "KeyEvent \<Rightarrow> KeyEvent" where
  "NormalizeNumpadKey e =
     (if \<not> IsNumpadKey e then e
      else
        let numpad_key = the (special_key e)
        in if numpad_key = Key_SEPARATOR then e\<lparr>special_key := Some Key_ENTER\<rparr>
           else
             let e = e\<lparr>special_key := None\<rparr>
             in if Key_NUMPAD0 \<le> numpad_key \<and> numpad_key \<le> Key_NUMPAD9
                then e\<lparr>key_code := Some (of_nat (48 + (numpad_key - Key_NUMPAD0)))\<rparr>
                else (case numpad_char numpad_key of
                        None \<Rightarrow> e
                      | Some c \<Rightarrow> e\<lparr>key_code := Some (of_nat (byte c))\<rparr>))"

definition MaybeGetKeyStub :: "KeyEvent \<Rightarrow> 64 word option" where
  "MaybeGetKeyStub e =
     (if GetModifiers e \<noteq> 0 then None
      else if special_key e \<noteq> None then None
      else if (case key_code e of None \<Rightarrow> True | Some c \<Rightarrow> c \<le> 32) \<and>
              (case key_string e of None \<Rightarrow> True | Some s \<Rightarrow> s = []) then None
      else GetKeyInformation (empty_KeyEvent\<lparr>special_key := Some Key_TEXT_INPUT\<rparr>))"

text \<open>\<open>isupper\<close> and \<open>islower\<close> of \<open><cctype>\<close> are defined for the values of an unsigned \<open>char\<close> only.\<close>

definition cctype_isupper :: "32 word \<Rightarrow> bool res" where
  "cctype_isupper c = (if 255 < c then Inl OutOfRange else Inr (0x41 \<le> c \<and> c \<le> 0x5A))"

definition cctype_islower :: "32 word \<Rightarrow> bool res" where
  "cctype_islower c = (if 255 < c then Inl OutOfRange else Inr (0x61 \<le> c \<and> c \<le> 0x7A))"

definition change_case :: "KeyEvent \<Rightarrow> bool" where
  "change_case e \<longleftrightarrow> HasShift (GetModifiers e) \<noteq> HasCaps (GetModifiers e)"

definition IsLowerAlphabet :: "KeyEvent \<Rightarrow> bool res" where
  "IsLowerAlphabet e =
     (case key_code e of
        None \<Rightarrow> Inr False
      | Some c \<Rightarrow> if change_case e then cctype_isupper c else cctype_islower c)"

definition IsUpperAlphabet :: "KeyEvent \<Rightarrow> bool res" where
  "IsUpperAlphabet e =
     (case key_code e of
        None \<Rightarrow> Inr False
      | Some c \<Rightarrow> if change_case e then cctype_islower c else cctype_isupper c)"

section \<open>The key parser\<close>

definition kModifierKeyMap :: "(bytes \<times> 32 word) list" where
  "kModifierKeyMap =
     [(''ctrl'', CTRL), (''control'', CTRL), (''alt'', ALT),
      (''option'', ALT), (''meta'', ALT), (''super'', ALT),
      (''hyper'', ALT), (''shift'', SHIFT), (''caps'', CAPS),
      (''keydown'', KEY_DOWN), (''keyup'', KEY_UP), (''leftctrl'', CTRL),
      (''leftctrl'', LEFT_CTRL), (''rightctrl'', CTRL), (''rightctrl'', RIGHT_CTRL),
      (''leftalt'', ALT), (''leftalt'', LEFT_ALT), (''rightalt'', ALT),
      (''rightalt'', RIGHT_ALT), (''altgr'', ALT), (''altgr'', RIGHT_ALT),
      (''leftshift'', SHIFT), (''leftshift'', LEFT_SHIFT), (''rightshift'', SHIFT),
      (''rightshift'', RIGHT_SHIFT)]"

definition kSpecialKeyMap :: "(bytes \<times> nat) list" where
  "kSpecialKeyMap =
     [(''on'', 2), (''off'', 3), (''left'', 6), (''down'', 9), (''up'', 8),
      (''right'', 7), (''enter'', 5), (''return'', 5), (''esc'', 10), (''escape'', 10),
      (''delete'', 11), (''del'', 11), (''bs'', 12), (''backspace'', 12), (''henkan'', 13),
      (''muhenkan'', 14), (''kana'', 15), (''hiragana'', 15), (''katakana'', 67), (''eisu'', 46),
      (''home'', 16), (''end'', 17), (''space'', 4), (''ascii'', 64), (''textinput'', 64),
      (''tab'', 18), (''pageup'', 31), (''pagedown'', 32), (''insert'', 33), (''hankaku'', 65),
      (''zenkaku'', 65), (''hankaku/zenkaku'', 65), (''kanji'', 66), (''f1'', 19), (''f2'', 20),
      (''f3'', 21), (''f4'', 22), (''f5'', 23), (''f6'', 24), (''f7'', 25),
      (''f8'', 26), (''f9'', 27), (''f10'', 28), (''f11'', 29), (''f12'', 30),
      (''f13'', 34), (''f14'', 35), (''f15'', 36), (''f16'', 37), (''f17'', 38),
      (''f18'', 39), (''f19'', 40), (''f20'', 41), (''f21'', 42), (''f22'', 43),
      (''f23'', 44), (''f24'', 45), (''numpad0'', 47), (''numpad1'', 48), (''numpad2'', 49),
      (''numpad3'', 50), (''numpad4'', 51), (''numpad5'', 52), (''numpad6'', 53), (''numpad7'', 54),
      (''numpad8'', 55), (''numpad9'', 56), (''multiply'', 57), (''add'', 58), (''separator'', 59),
      (''subtract'', 60), (''decimal'', 61), (''divide'', 62), (''equals'', 63), (''comma'', 70),
      (''clear'', 71), (''virtualleft'', 72), (''virtualright'', 73), (''virtualenter'', 74), (''virtualup'', 75),
      (''virtualdown'', 76), (''imeaction'', 77), (''undefinedkey'', 69)]"

text \<open>A \<open>btree_set\<close> of modifiers, as a sorted list.\<close>

definition set_add :: "32 word \<Rightarrow> 32 word list \<Rightarrow> 32 word list" where
  "set_add m ms = (if m \<in> set ms then ms else insort m ms)"

definition Utf8ToCodepoint :: "bytes \<Rightarrow> char32" where
  "Utf8ToCodepoint s = (case SplitFirstChar32 s of (found, c, _) \<Rightarrow> if found then c else 0)"

fun parse_keys :: "bytes list \<Rightarrow> KeyEvent \<Rightarrow> 32 word list \<Rightarrow> (KeyEvent \<times> 32 word list) option" where
  "parse_keys [] e ms = Some (e, ms)"
| "parse_keys (key # keys) e ms =
     (if CharsLen key = 1 then
        (if key_code e \<noteq> None then None
         else parse_keys keys (e\<lparr>key_code := Some (of_nat (Utf8ToCodepoint key))\<rparr>) ms)
      else
        let lower_key = LowerString key;
            mods = map snd (filter (\<lambda>p. fst p = lower_key) kModifierKeyMap)
        in if mods \<noteq> [] then parse_keys keys e (fold set_add mods ms)
           else (case map_of kSpecialKeyMap lower_key of
                   None \<Rightarrow> None
                 | Some k \<Rightarrow>
                     if special_key e \<noteq> None then None
                     else parse_keys keys (e\<lparr>special_key := Some k\<rparr>) ms))"

definition ParseKeyVector :: "bytes list \<Rightarrow> KeyEvent option" where
  "ParseKeyVector keys =
     map_option (\<lambda>(e, ms). e\<lparr>modifier_keys := modifier_keys e @ ms\<rparr>) (parse_keys keys empty_KeyEvent [])"

definition ParseKey :: "bytes \<Rightarrow> KeyEvent option" where
  "ParseKey s =
     (let keys = filter (\<lambda>k. k \<noteq> []) (StrSplit (CHR '' '') s)
      in if keys = [] then None else ParseKeyVector keys)"

definition GetSpecialKeyString :: "nat \<Rightarrow> bytes" where
  "GetSpecialKeyString key =
     (if key = 11 then ''delete'' else if key = 15 then ''hiragana''
      else if key = 65 then ''hankaku/zenkaku''
      else LowerString (filter (\<lambda>c. c \<noteq> CHR ''_'') (SpecialKey_Name key)))"

section \<open>Properties\<close>

text \<open>A \<open>KeyInformation\<close> determines the key it was made from: the modifiers (16 bits), the special
  key (16 bits) and the key code (32 bits) are read back from their places, so two events with the
  same information have the same modifiers, special key and code.\<close>

lemma GetKeyInformation_fields:
  assumes "GetKeyInformation e = Some k"
  shows "(ucast (drop_bit 48 k) :: 16 word) = ucast (GetModifiers e) \<and>
    (ucast (drop_bit 32 k) :: 16 word) = of_nat (case special_key e of Some s \<Rightarrow> s | None \<Rightarrow> 0) \<and>
    (ucast k :: 32 word) = (case key_code e of Some c \<Rightarrow> c | None \<Rightarrow> 0)"
proof -
  let ?m = "ucast (GetModifiers e) :: 16 word"
  let ?s = "of_nat (case special_key e of Some s \<Rightarrow> s | None \<Rightarrow> 0) :: 16 word"
  let ?c = "case key_code e of Some c \<Rightarrow> c | None \<Rightarrow> 0"
  have k: "k = push_bit 48 (ucast ?m) OR push_bit 32 (ucast ?s) OR ucast ?c"
    using assms unfolding GetKeyInformation_def Let_def by (metis option.distinct(1) option.inject)
  have m: "(ucast (drop_bit 48 (push_bit 48 (ucast x) OR push_bit 32 (ucast y) OR ucast z :: 64 word)) :: 16 word) = x"
    for x :: "16 word" and y :: "16 word" and z :: "32 word"
    by (rule bit_word_eqI) (auto simp: bit_simps dest: bit_imp_le_length)
  have s: "(ucast (drop_bit 32 (push_bit 48 (ucast x) OR push_bit 32 (ucast y) OR ucast z :: 64 word)) :: 16 word) = y"
    for x :: "16 word" and y :: "16 word" and z :: "32 word"
    by (rule bit_word_eqI) (auto simp: bit_simps dest: bit_imp_le_length)
  have c: "(ucast (push_bit 48 (ucast x) OR push_bit 32 (ucast y) OR ucast z :: 64 word) :: 32 word) = z"
    for x :: "16 word" and y :: "16 word" and z :: "32 word"
    by (rule bit_word_eqI) (auto simp: bit_simps dest: bit_imp_le_length)
  show ?thesis unfolding k using m s c by blast
qed

lemma or_and_zero: "(r OR x) AND k = 0 \<Longrightarrow> r AND k = 0" for r x k :: "32 word"
  by (rule bit_word_eqI) (metis bit_and_iff bit_or_iff bit_0_eq bot_apply bot_bool_def)

lemma foldl_or_and_zero:
  "m AND r = 0 \<Longrightarrow> \<forall>k \<in> set ks. r AND k = 0 \<Longrightarrow> foldl (\<lambda>m k. m OR k) m ks AND r = (0 :: 32 word)"
proof (induction ks arbitrary: m)
  case (Cons k ks)
  have "(m OR k) AND r = (m AND r) OR (r AND k)" by (rule bit_word_eqI) (auto simp: bit_simps)
  then have "(m OR k) AND r = 0" using Cons.prems by simp
  then show ?case using Cons by simp
qed simp

lemma RemoveModifiers_clean:
  assumes "modifiers e = None"
  shows "GetModifiers (RemoveModifiers e r) AND r = 0"
  using assms
  by (auto simp: GetModifiers_def RemoveModifiers_def Let_def dest!: or_and_zero intro!: foldl_or_and_zero)

lemma RemoveModifiers_other:
  "modifiers (RemoveModifiers e r) = modifiers e" "special_key (RemoveModifiers e r) = special_key e"
  "key_code (RemoveModifiers e r) = key_code e"
  by (simp_all add: RemoveModifiers_def Let_def)

lemma NormalizeModifiers_modifiers:
  "GetModifiers (NormalizeModifiers e) = GetModifiers (RemoveModifiers e kIgnorableModifierMask)"
  by (auto simp: NormalizeModifiers_def Let_def GetModifiers_def split: option.splits)

text \<open>\<open>NormalizeModifiers\<close> clears \<open>CAPS\<close> and every left or right modifier of an event that lists its
  modifiers in \<open>modifier_keys\<close>; an event with the older \<open>modifiers\<close> field keeps all of them, since only
  the list is filtered and \<open>GetModifiers\<close> prefers the field.\<close>

lemma NormalizeModifiers_spec:
  "(modifiers e = None \<longrightarrow> GetModifiers (NormalizeModifiers e) AND kIgnorableModifierMask = 0) \<and>
   (modifiers e \<noteq> None \<longrightarrow> GetModifiers (NormalizeModifiers e) = GetModifiers e)"
proof (intro conjI impI)
  assume "modifiers e = None"
  from RemoveModifiers_clean [OF this] show "GetModifiers (NormalizeModifiers e) AND kIgnorableModifierMask = 0"
    by (simp only: NormalizeModifiers_modifiers)
next
  assume "modifiers e \<noteq> None"
  then obtain m where m: "modifiers e = Some m" by blast
  have "GetModifiers (RemoveModifiers e kIgnorableModifierMask) = m"
    by (simp only: GetModifiers_def RemoveModifiers_other m option.case)
  then show "GetModifiers (NormalizeModifiers e) = GetModifiers e"
    by (simp only: NormalizeModifiers_modifiers) (simp add: GetModifiers_def m)
qed

section \<open>Naming the special keys\<close>

definition lower_ascii :: "char \<Rightarrow> char" where
  "lower_ascii c = (if 0x41 \<le> byte c \<and> byte c \<le> 0x5A then char_of (byte c + 0x20) else c)"

lemma lower32_byte: "byte c < 128 \<Longrightarrow> lower32 (byte c) = byte (lower_ascii c)"
  by (auto simp: lower32_def lower_ascii_def is_upper_letter_def)

lemma LowerString_ascii:
  assumes "list_all (\<lambda>c. 0 < byte c \<and> byte c < 128) s"
  shows "LowerString s = map lower_ascii s"
proof -
  have "LowerString s = Utf32ToUtf8 (map lower32 (map byte s))"
  proof -
    have "list_all scalar (map byte s)"
      using assms by (fastforce simp: list_all_iff scalar_def unicode_def)
    from LowerString_encode [OF this] show ?thesis by (simp only: ascii_encode [OF assms])
  qed
  also have "map lower32 (map byte s) = map byte (map lower_ascii s)"
    using assms by (auto simp: list_all_iff lower32_byte)
  also have "Utf32ToUtf8 \<dots> = map lower_ascii s"
    by (rule ascii_encode) (use assms in \<open>auto simp: list_all_iff lower_ascii_def\<close>)
  finally show ?thesis .
qed

text \<open>A word of the parser: at least two printable ASCII characters in lower case.\<close>

definition key_word :: "bytes \<Rightarrow> bool" where
  "key_word s \<longleftrightarrow> 2 \<le> length s \<and> list_all (\<lambda>b. 0x20 < byte b \<and> byte b < 0x80 \<and> \<not> (0x41 \<le> byte b \<and> byte b \<le> 0x5A)) s"

definition plain_name :: "nat \<Rightarrow> bytes" where
  "plain_name key = map lower_ascii (filter (\<lambda>c. c \<noteq> CHR ''_'') (SpecialKey_Name key))"

definition plain_name_list :: "bytes list" where
  "plain_name_list =
     [''nospecialkey'', ''digit'', ''on'', ''off'', ''space'', ''enter'', ''left'',
      ''right'', ''up'', ''down'', ''escape'', ''del'', ''backspace'', ''henkan'',
      ''muhenkan'', ''kana'', ''home'', ''end'', ''tab'', ''f1'', ''f2'',
      ''f3'', ''f4'', ''f5'', ''f6'', ''f7'', ''f8'', ''f9'',
      ''f10'', ''f11'', ''f12'', ''pageup'', ''pagedown'', ''insert'', ''f13'',
      ''f14'', ''f15'', ''f16'', ''f17'', ''f18'', ''f19'', ''f20'',
      ''f21'', ''f22'', ''f23'', ''f24'', ''eisu'', ''numpad0'', ''numpad1'',
      ''numpad2'', ''numpad3'', ''numpad4'', ''numpad5'', ''numpad6'', ''numpad7'', ''numpad8'',
      ''numpad9'', ''multiply'', ''add'', ''separator'', ''subtract'', ''decimal'', ''divide'',
      ''equals'', ''textinput'', ''hankaku'', ''kanji'', ''katakana'', ''capslock'', ''undefinedkey'',
      ''comma'', ''clear'', ''virtualleft'', ''virtualright'', ''virtualenter'', ''virtualup'', ''virtualdown'',
      ''imeaction'']"

lemma plain_names: "map plain_name [0 ..< 78] = plain_name_list"
  by (simp add: plain_name_def plain_name_list_def SpecialKey_Name_def SpecialKey_names_def upt_conv_Cons
      lower_ascii_def byte_def char_of_eq_iff)

lemma plain_name_nth: "key < 78 \<Longrightarrow> plain_name key = plain_name_list ! key"
  unfolding plain_names [symmetric] by simp

definition key_name :: "nat \<Rightarrow> bytes" where
  "key_name key =
     (if key = 11 then ''delete'' else if key = 15 then ''hiragana''
      else if key = 65 then ''hankaku/zenkaku'' else plain_name key)"

definition named_keys :: "nat list" where
  "named_keys = [2 ..< 68] @ [69 ..< 78]"

text \<open>Looking a literal up without building the map.\<close>

fun assoc_find :: "('a \<times> 'b) list \<Rightarrow> 'a \<Rightarrow> 'b option" where
  "assoc_find [] k = None"
| "assoc_find ((a, b) # ps) k = (if a = k then Some b else assoc_find ps k)"

lemma map_of_assoc_find: "map_of ps k = assoc_find ps k"
  by (induction ps k rule: assoc_find.induct) auto

lemma key_names_map:
  "list_all (\<lambda>key. assoc_find kSpecialKeyMap (plain_name_list ! key) = Some key) [2 ..< 11]"
  "list_all (\<lambda>key. assoc_find kSpecialKeyMap (plain_name_list ! key) = Some key) [12 ..< 15]"
  "list_all (\<lambda>key. assoc_find kSpecialKeyMap (plain_name_list ! key) = Some key) [16 ..< 35]"
  "list_all (\<lambda>key. assoc_find kSpecialKeyMap (plain_name_list ! key) = Some key) [35 ..< 50]"
  "list_all (\<lambda>key. assoc_find kSpecialKeyMap (plain_name_list ! key) = Some key) [50 ..< 65]"
  "list_all (\<lambda>key. assoc_find kSpecialKeyMap (plain_name_list ! key) = Some key) [66 ..< 68]"
  "list_all (\<lambda>key. assoc_find kSpecialKeyMap (plain_name_list ! key) = Some key) [69 ..< 78]"
  "list_all (\<lambda>(s, key). assoc_find kSpecialKeyMap s = Some key)
     [(''delete'', 11), (''hiragana'', 15), (''hankaku/zenkaku'', 65)]"
  by ((simp only: kSpecialKeyMap_def plain_name_list_def), code_simp)+

lemma named_keys_iff: "key \<in> set named_keys \<longleftrightarrow> 2 \<le> key \<and> key < 68 \<or> 69 \<le> key \<and> key < 78"
  by (simp only: named_keys_def set_append set_upt Un_iff atLeastLessThan_iff)

lemma key_name_cases:
  assumes "key \<in> set named_keys"
  shows "assoc_find kSpecialKeyMap (key_name key) = Some key"
proof (cases "key \<in> {11, 15, 65}")
  case True
  then show ?thesis using key_names_map(8) by (auto simp: key_name_def)
next
  case False
  then have "2 \<le> key \<and> key < 11 \<or> 12 \<le> key \<and> key < 15 \<or> 16 \<le> key \<and> key < 35 \<or> 35 \<le> key \<and> key < 50 \<or>
      50 \<le> key \<and> key < 65 \<or> 66 \<le> key \<and> key < 68 \<or> 69 \<le> key \<and> key < 78"
    using assms unfolding named_keys_iff by simp linarith
  then have "assoc_find kSpecialKeyMap (plain_name_list ! key) = Some key"
    using key_names_map(1-7) unfolding list_all_iff set_upt Ball_def atLeastLessThan_iff by blast
  moreover have "key < 78" using assms unfolding named_keys_iff by linarith
  ultimately show ?thesis using False by (simp add: key_name_def plain_name_nth)
qed

lemma key_names_words: "list_all (key_word \<circ> key_name) named_keys"
  by (simp add: named_keys_def key_name_def upt_conv_Cons plain_name_nth plain_name_list_def key_word_def byte_def)

lemma key_names_not_modifiers:
  "list_all (\<lambda>key. filter (\<lambda>p. fst p = key_name key) kModifierKeyMap = []) named_keys"
  by (simp add: named_keys_def key_name_def upt_conv_Cons plain_name_nth plain_name_list_def kModifierKeyMap_def)

lemma key_word_simps:
  assumes "key_word s"
  shows "LowerString s = s" "CharsLen s = length s" "StrSplit (CHR '' '') s = [s]" "s \<noteq> []"
proof -
  have w: "\<forall>b \<in> set s. 0x20 < byte b \<and> byte b < 0x80 \<and> \<not> (0x41 \<le> byte b \<and> byte b \<le> 0x5A)" "2 \<le> length s"
    using assms by (simp_all add: key_word_def list_all_iff)
  show "LowerString s = s" by (rule LowerString_lower) (use w in \<open>auto simp: list_all_iff\<close>)
  have e: "Utf32ToUtf8 (map byte s) = s" by (rule ascii_encode) (use w in \<open>auto simp: list_all_iff\<close>)
  have "list_all unicode (map byte s)" using w by (fastforce simp: list_all_iff unicode_def)
  from CharsLen_encode [OF this] show "CharsLen s = length s" unfolding e by simp
  show "StrSplit (CHR '' '') s = [s]"
    by (rule StrSplit_no_sep) (use w(1) in \<open>fastforce simp: byte_def\<close>)
  show "s \<noteq> []" using w(2) by auto
qed

lemma ParseKey_word:
  assumes "key_word s" and "filter (\<lambda>p. fst p = s) kModifierKeyMap = []" and "map_of kSpecialKeyMap s = Some key"
  shows "ParseKey s = Some (empty_KeyEvent\<lparr>special_key := Some key\<rparr>)"
proof -
  have "CharsLen s \<noteq> 1" using assms(1) by (simp add: key_word_simps key_word_def)
  then show ?thesis
    using assms key_word_simps [OF assms(1)] by (simp add: ParseKey_def ParseKeyVector_def empty_KeyEvent_def)
qed

lemma GetSpecialKeyString_name:
  assumes "key < 78"
  shows "GetSpecialKeyString key = key_name key"
proof -
  have "list_all (list_all (\<lambda>c. 0 < byte c \<and> byte c < 128)) SpecialKey_names"
    by (simp add: SpecialKey_names_def byte_def)
  moreover have "length SpecialKey_names = 79" by (simp add: SpecialKey_names_def)
  ultimately have "list_all (\<lambda>c. 0 < byte c \<and> byte c < 128) (filter (\<lambda>c. c \<noteq> CHR ''_'') (SpecialKey_Name key))"
    using assms nth_mem [of key SpecialKey_names] by (auto simp: SpecialKey_Name_def list_all_iff)
  from LowerString_ascii [OF this] show ?thesis
    by (simp add: GetSpecialKeyString_def key_name_def plain_name_def)
qed

text \<open>The parser understands the names the composer gives to the special keys: except for
  \<open>NO_SPECIALKEY\<close>, \<open>DIGIT\<close> and \<open>CAPS_LOCK\<close>, which the parser does not know, \<open>ParseKey\<close> of
  \<open>GetSpecialKeyString\<close> is the event of that special key and nothing else.\<close>

lemma ParseKey_GetSpecialKeyString:
  assumes "key < 78" and "key \<notin> {0, 1, 68}"
  shows "ParseKey (GetSpecialKeyString key) = Some (empty_KeyEvent\<lparr>special_key := Some key\<rparr>)"
proof -
  have k: "key \<in> set named_keys" using assms unfolding named_keys_iff by simp linarith
  have "key_word (key_name key)" "filter (\<lambda>p. fst p = key_name key) kModifierKeyMap = []"
    using k key_names_words key_names_not_modifiers by (auto simp: list_all_iff)
  then show ?thesis
    unfolding GetSpecialKeyString_name [OF assms(1)]
    by (rule ParseKey_word) (simp add: map_of_assoc_find key_name_cases [OF k])
qed

end
