(* ===== verification/Composer.thy ===== *)
theory Composer
  imports Composer_Text Key_Event
begin

text \<open>
  The state and the operations of \<open>composer/composer.cc\<close>, with \<open>composer/mode_switching_handler.cc\<close> and
  \<open>CompositionInput::Init\<close>. An operation that edits the composition may hang (\<open>None\<close>) or abort
  (\<open>Inl\<close>), as the operations of \<open>Composition\<close> it calls; its type is \<open>run\<close>. A shared pointer to the
  configuration, the request or the table is the value it points to. The clock is an argument. Of a
  handwriting result only the string is kept.
\<close>

section \<open>Runs\<close>

type_synonym 'a run = "'a res option"

definition run_bind :: "'a run \<Rightarrow> ('a \<Rightarrow> 'b run) \<Rightarrow> 'b run" where
  "run_bind m f = (case m of None \<Rightarrow> None | Some (Inl e) \<Rightarrow> Some (Inl e) | Some (Inr x) \<Rightarrow> f x)"

abbreviation ret :: "'a \<Rightarrow> 'a run" where "ret x \<equiv> Some (Inr x)"

lemma run_bind_simps [simp]:
  "run_bind None f = None" "run_bind (Some (Inl e)) f = Some (Inl e)" "run_bind (ret x) f = f x"
  by (simp_all add: run_bind_def)

lemma run_bind_retE:
  assumes "run_bind m f = ret y"
  obtains x where "m = ret x" "f x = ret y"
  using assms by (auto simp: run_bind_def split: option.splits sum.splits)

section \<open>State\<close>

datatype ShiftKeyModeSwitch = Switch_OFF | ASCII_INPUT_MODE | KATAKANA_INPUT_MODE
datatype PreeditMethod = ROMAN | KANA

record Config =
  shift_key_mode_switch :: ShiftKeyModeSwitch
  composing_timeout_threshold_msec :: int
  auto_switch_composition_mode :: bool
  preedit_method :: PreeditMethod

record Request =
  update_input_mode_from_surrounding_text :: bool

record Composer =
  position :: nat
  input_mode :: TransliterationType
  output_mode :: TransliterationType
  comeback_input_mode :: TransliterationType
  input_field_type :: InputFieldType
  shifted_sequence_count :: nat
  source_text :: bytes
  max_length :: nat
  request :: Request
  config :: Config
  composer_table :: TablePtr
  composition :: Composition
  timestamp_msec :: int
  timeout_threshold_msec :: int
  composer_is_new_input :: bool
  compositions_for_handwriting :: "bytes list"

definition kMaxPreeditLength :: nat where "kMaxPreeditLength = 256"

definition Composer_GetLength :: "TextConv \<Rightarrow> Composer \<Rightarrow> nat" where
  "Composer_GetLength tc c = Composition_GetLength tc (composition c)"

definition Composer_Empty :: "TextConv \<Rightarrow> Composer \<Rightarrow> bool" where
  "Composer_Empty tc c \<longleftrightarrow> Composer_GetLength tc c = 0"

section \<open>Modes\<close>

definition Composer_SetInputMode :: "TransliterationType \<Rightarrow> Composer \<Rightarrow> Composer" where
  "Composer_SetInputMode mode c =
     c\<lparr>comeback_input_mode := mode, input_mode := mode, shifted_sequence_count := 0,
       composer_is_new_input := True, composition := SetInputMode (GetTransliterator mode) (composition c)\<rparr>"

definition SetTemporaryInputMode :: "TransliterationType \<Rightarrow> Composer \<Rightarrow> Composer" where
  "SetTemporaryInputMode mode c =
     c\<lparr>comeback_input_mode := input_mode c, input_mode := mode, shifted_sequence_count := 0,
       composer_is_new_input := True, composition := SetInputMode (GetTransliterator mode) (composition c)\<rparr>"

definition SetOutputMode :: "TextConv \<Rightarrow> TransliterationType \<Rightarrow> Composer \<Rightarrow> Composer" where
  "SetOutputMode tc mode c =
     (let cm = SetTransliterator tc 0 (Composition_GetLength tc (composition c)) (GetTransliterator mode) (composition c)
      in c\<lparr>output_mode := mode, composition := cm, position := Composition_GetLength tc cm\<rparr>)"

definition ResetInputMode :: "Composer \<Rightarrow> Composer" where
  "ResetInputMode c = Composer_SetInputMode (comeback_input_mode c) c"

definition ToggleInputMode :: "Composer \<Rightarrow> Composer" where
  "ToggleInputMode c =
     (if input_mode c = T13n_HIRAGANA then Composer_SetInputMode T13n_HALF_ASCII c
      else Composer_SetInputMode T13n_HIRAGANA c)"

definition UpdateInputMode :: "TextConv \<Rightarrow> Composer \<Rightarrow> Composer res" where
  "UpdateInputMode tc c =
     (if position c \<noteq> 0 \<and> update_input_mode_from_surrounding_text (request c) then
        res_bind (Composition_GetTransliterator tc (position c) (composition c)) (\<lambda>current_t12r.
        res_bind (if position c = Composition_GetLength tc (composition c) then Inr True
                  else res_bind (Composition_GetTransliterator tc (position c + 1) (composition c))
                         (\<lambda>t. Inr (current_t12r = t))) (\<lambda>same.
          if same then
            let mode = GetTransliterationType current_t12r (comeback_input_mode c)
            in Inr (c\<lparr>input_mode := mode, shifted_sequence_count := 0, composer_is_new_input := True,
                      composition := SetInputMode (GetTransliterator mode) (composition c)\<rparr>)
          else Inr (Composer_SetInputMode (comeback_input_mode c) c)))
      else Inr (Composer_SetInputMode (comeback_input_mode c) c))"

text \<open>\<open>input.front ()\<close> of an empty input is out of range.\<close>

definition ApplyTemporaryInputMode :: "bytes \<Rightarrow> bool \<Rightarrow> Composer \<Rightarrow> Composer res" where
  "ApplyTemporaryInputMode input caps_locked c =
     (case input of
        [] \<Rightarrow> Inl OutOfRange
      | key # _ \<Rightarrow>
          let switch_mode = shift_key_mode_switch (config c);
              upper = 0x41 \<le> byte key \<and> byte key \<le> 0x5A;
              lower = 0x61 \<le> byte key \<and> byte key \<le> 0x7A
          in Inr
            (if OneCharLen key \<noteq> 1 then
               (if comeback_input_mode c \<noteq> input_mode c then Composer_SetInputMode (comeback_input_mode c) c else c)
             else if \<not> caps_locked \<and> upper \<or> caps_locked \<and> lower then
               let c' = (if switch_mode = ASCII_INPUT_MODE then
                           (if input_mode c = T13n_HALF_ASCII \<or> input_mode c = T13n_FULL_ASCII then c
                            else SetTemporaryInputMode T13n_HALF_ASCII c)
                         else if switch_mode = KATAKANA_INPUT_MODE then
                           (if input_mode c = T13n_HIRAGANA then SetTemporaryInputMode T13n_FULL_KATAKANA c else c)
                         else c)
               in c'\<lparr>shifted_sequence_count := shifted_sequence_count c' + 1\<rparr>
             else if caps_locked \<and> upper \<or> \<not> caps_locked \<and> lower then
               let c' = (if shifted_sequence_count c > 1 \<and> switch_mode = ASCII_INPUT_MODE
                         then Composer_SetInputMode (comeback_input_mode c) c else c);
                   c' = (if switch_mode = KATAKANA_INPUT_MODE
                         then Composer_SetInputMode (comeback_input_mode c') c' else c')
               in c'\<lparr>shifted_sequence_count := 0\<rparr>
             else c\<lparr>shifted_sequence_count := 0\<rparr>))"

section \<open>Construction and reset\<close>

definition EditErase :: "Composer \<Rightarrow> Composer" where
  "EditErase c =
     (let c = c\<lparr>composition := Erase (composition c), position := 0\<rparr>
      in Composer_SetInputMode (comeback_input_mode c) c)"

definition Composer_Reset :: "TextConv \<Rightarrow> Composer \<Rightarrow> Composer" where
  "Composer_Reset tc c =
     (let c = SetOutputMode tc T13n_HIRAGANA (ResetInputMode (EditErase c))
      in c\<lparr>source_text := [], timeout_threshold_msec := composing_timeout_threshold_msec (config c),
           compositions_for_handwriting := []\<rparr>)"

definition new_Composer :: "TextConv \<Rightarrow> TablePtr \<Rightarrow> Request \<Rightarrow> Config \<Rightarrow> Composer" where
  "new_Composer tc t r cfg =
     Composer_Reset tc (Composer_SetInputMode T13n_HIRAGANA
       \<lparr>position = 0, input_mode = T13n_HIRAGANA, output_mode = T13n_HIRAGANA,
        comeback_input_mode = T13n_HIRAGANA, input_field_type = Field_NORMAL, shifted_sequence_count = 0,
        source_text = [], max_length = kMaxPreeditLength, request = r, config = cfg, composer_table = t,
        composition = new_Composition t, timestamp_msec = 0, timeout_threshold_msec = 0,
        composer_is_new_input = True, compositions_for_handwriting = []\<rparr>)"

definition Composer_SetTable :: "TablePtr \<Rightarrow> Composer \<Rightarrow> Composer" where
  "Composer_SetTable t c = c\<lparr>composer_table := t, composition := SetTable t (composition c)\<rparr>"

definition SetRequest :: "Request \<Rightarrow> Composer \<Rightarrow> Composer" where
  "SetRequest r c = c\<lparr>request := r\<rparr>"

definition SetConfig :: "Config \<Rightarrow> Composer \<Rightarrow> Composer" where
  "SetConfig cfg c = c\<lparr>config := cfg\<rparr>"

definition SetNewInput :: "Composer \<Rightarrow> Composer" where
  "SetNewInput c = c\<lparr>composer_is_new_input := True\<rparr>"

definition set_source_text :: "bytes \<Rightarrow> Composer \<Rightarrow> Composer" where
  "set_source_text s c = c\<lparr>source_text := s\<rparr>"

definition SetInputFieldType :: "InputFieldType \<Rightarrow> Composer \<Rightarrow> Composer" where
  "SetInputFieldType f c = c\<lparr>input_field_type := f\<rparr>"

definition set_max_length :: "nat \<Rightarrow> Composer \<Rightarrow> Composer" where
  "set_max_length n c = c\<lparr>max_length := n\<rparr>"

definition set_timeout_threshold_msec :: "int \<Rightarrow> Composer \<Rightarrow> Composer" where
  "set_timeout_threshold_msec n c = c\<lparr>timeout_threshold_msec := n\<rparr>"

section \<open>Typing\<close>

definition EnableInsert :: "TextConv \<Rightarrow> Composer \<Rightarrow> bool" where
  "EnableInsert tc c \<longleftrightarrow> \<not> Composer_GetLength tc c \<ge> max_length c"

text \<open>The call of \<open>InsertInput\<close>, which \<open>ProcessCompositionInput\<close> guards by the length of the text.\<close>

definition insert_input :: "TextConv \<Rightarrow> CompositionInput \<Rightarrow> Composer \<Rightarrow> Composer run" where
  "insert_input tc input c =
     run_bind (InsertInput tc (position c) input (composition c)) (\<lambda>(pos, cm).
       ret (c\<lparr>position := pos, composition := cm, composer_is_new_input := False\<rparr>))"

definition ProcessCompositionInput :: "TextConv \<Rightarrow> CompositionInput \<Rightarrow> Composer \<Rightarrow> (bool \<times> Composer) run" where
  "ProcessCompositionInput tc input c =
     (if \<not> EnableInsert tc c then ret (False, c)
      else run_bind (insert_input tc input c) (\<lambda>c. ret (True, c)))"

definition InsertCharacter :: "TextConv \<Rightarrow> bytes \<Rightarrow> Composer \<Rightarrow> Composer run" where
  "InsertCharacter tc key c =
     run_bind (ProcessCompositionInput tc (InitFromRaw key (composer_is_new_input c) empty_input) c)
       (\<lambda>(_, c). ret c)"

datatype InternalCommand = REWIND | STOP_KEY_TOGGLING

fun command_key :: "InternalCommand \<Rightarrow> bytes" where
  "command_key REWIND = ''{<}''"
| "command_key STOP_KEY_TOGGLING = ''{!}''"

definition InsertCommandCharacter :: "TextConv \<Rightarrow> InternalCommand \<Rightarrow> Composer \<Rightarrow> Composer run" where
  "InsertCommandCharacter tc cmd c =
     InsertCharacter tc (ParseSpecialKey (snd (composer_table c)) (command_key cmd)) c"

definition InsertCharacterKeyAndPreedit :: "TextConv \<Rightarrow> bytes \<Rightarrow> bytes \<Rightarrow> Composer \<Rightarrow> (bool \<times> Composer) run" where
  "InsertCharacterKeyAndPreedit tc key preedit_text c =
     ProcessCompositionInput tc (InitFromRawAndConv key preedit_text (composer_is_new_input c) empty_input) c"

fun insert_chars :: "TextConv \<Rightarrow> bytes list \<Rightarrow> Composer \<Rightarrow> Composer run" where
  "insert_chars tc [] c = ret c"
| "insert_chars tc (character # cs) c =
     run_bind (InsertCharacterKeyAndPreedit tc character character c) (\<lambda>(inserted, c).
       if \<not> inserted then ret c else insert_chars tc cs c)"

definition InsertCharacterPreedit :: "TextConv \<Rightarrow> bytes \<Rightarrow> Composer \<Rightarrow> Composer run" where
  "InsertCharacterPreedit tc input c = insert_chars tc (SplitStringToUtf8Chars input) c"

fun insert_raw_chars :: "TextConv \<Rightarrow> bytes list \<Rightarrow> Composer \<Rightarrow> Composer run" where
  "insert_raw_chars tc [] c = ret c"
| "insert_raw_chars tc (character # cs) c =
     run_bind (insert_input tc (empty_input\<lparr>input_raw := character, is_new_input := composer_is_new_input c\<rparr>) c)
       (insert_raw_chars tc cs)"

definition IsLowerAscii :: "bytes \<Rightarrow> bool" where
  "IsLowerAscii s = list_all (\<lambda>b. 0x61 \<le> byte b \<and> byte b \<le> 0x7A) s"

definition SetPreeditTextForTestOnly :: "TextConv \<Rightarrow> bytes \<Rightarrow> Composer \<Rightarrow> Composer run" where
  "SetPreeditTextForTestOnly tc input c =
     run_bind (insert_raw_chars tc (AsChars input) (c\<lparr>composition := SetInputMode RAW_STRING (composition c)\<rparr>))
       (\<lambda>c. ret (if IsLowerAscii (LowerString input) then SetTemporaryInputMode T13n_HALF_ASCII c else c))"

definition SetCompositionsForHandwriting :: "TextConv \<Rightarrow> bytes list \<Rightarrow> Composer \<Rightarrow> Composer run" where
  "SetCompositionsForHandwriting tc compositions c =
     (let c = (Composer_Reset tc c)\<lparr>compositions_for_handwriting := compositions\<rparr>
      in case compositions of
           [] \<Rightarrow> ret c
         | first # _ \<Rightarrow>
             insert_raw_chars tc (AsChars first) (c\<lparr>composition := SetInputMode RAW_STRING (composition c)\<rparr>))"

section \<open>Automatic mode switching\<close>

datatype ModeSwitching =
    NO_CHANGE | REVERT_TO_PREVIOUS_MODE | PREFERRED_ALPHANUMERIC | HALF_ALPHANUMERIC | FULL_ALPHANUMERIC

record Rule =
  display_mode :: ModeSwitching
  rule_input_mode :: ModeSwitching

definition IsDriveLetter :: "bytes \<Rightarrow> bool" where
  "IsDriveLetter key \<longleftrightarrow>
     length key = 3 \<and>
     (0x41 \<le> byte (key ! 0) \<and> byte (key ! 0) \<le> 0x5A \<or> 0x61 \<le> byte (key ! 0) \<and> byte (key ! 0) \<le> 0x7A) \<and>
     key ! 1 = CHR '':'' \<and> key ! 2 = CHR 0x5C"

definition GetModeSwitchingRule :: "bytes \<Rightarrow> Rule" where
  "GetModeSwitchingRule key =
     (if key \<in> {''google'', ''Google'', ''Chrome'', ''chrome'', ''Android'', ''android''}
      then \<lparr>display_mode = PREFERRED_ALPHANUMERIC, rule_input_mode = REVERT_TO_PREVIOUS_MODE\<rparr>
      else if key \<in> {''http'', ''www.'', [CHR 0x5C, CHR 0x5C]}
      then \<lparr>display_mode = HALF_ALPHANUMERIC, rule_input_mode = HALF_ALPHANUMERIC\<rparr>
      else if IsDriveLetter key
      then \<lparr>display_mode = HALF_ALPHANUMERIC, rule_input_mode = HALF_ALPHANUMERIC\<rparr>
      else \<lparr>display_mode = NO_CHANGE, rule_input_mode = NO_CHANGE\<rparr>)"

fun apply_display_mode :: "TextConv \<Rightarrow> ModeSwitching \<Rightarrow> Composer \<Rightarrow> Composer" where
  "apply_display_mode tc NO_CHANGE c = c"
| "apply_display_mode tc REVERT_TO_PREVIOUS_MODE c = c"
| "apply_display_mode tc PREFERRED_ALPHANUMERIC c =
     (if input_mode c = T13n_FULL_ASCII then SetOutputMode tc T13n_FULL_ASCII c
      else SetOutputMode tc T13n_HALF_ASCII c)"
| "apply_display_mode tc HALF_ALPHANUMERIC c = SetOutputMode tc T13n_HALF_ASCII c"
| "apply_display_mode tc FULL_ALPHANUMERIC c = SetOutputMode tc T13n_FULL_ASCII c"

fun apply_input_mode :: "ModeSwitching \<Rightarrow> Composer \<Rightarrow> Composer" where
  "apply_input_mode NO_CHANGE c = c"
| "apply_input_mode REVERT_TO_PREVIOUS_MODE c = Composer_SetInputMode (comeback_input_mode c) c"
| "apply_input_mode PREFERRED_ALPHANUMERIC c =
     (if input_mode c \<noteq> T13n_HALF_ASCII \<and> input_mode c \<noteq> T13n_FULL_ASCII
      then SetTemporaryInputMode T13n_HALF_ASCII c else c)"
| "apply_input_mode HALF_ALPHANUMERIC c =
     (if input_mode c \<noteq> T13n_HALF_ASCII then SetTemporaryInputMode T13n_HALF_ASCII c else c)"
| "apply_input_mode FULL_ALPHANUMERIC c =
     (if input_mode c \<noteq> T13n_FULL_ASCII then SetTemporaryInputMode T13n_FULL_ASCII c else c)"

definition AutoSwitchMode :: "TextConv \<Rightarrow> Composer \<Rightarrow> Composer" where
  "AutoSwitchMode tc c =
     (if \<not> auto_switch_composition_mode (config c) then c
      else if preedit_method (config c) \<noteq> ROMAN then c
      else
        let key = GetStringWithTransliterator tc (GetTransliterator T13n_HALF_ASCII) (composition c);
            mode_switching = GetModeSwitchingRule key
        in apply_input_mode (rule_input_mode mode_switching)
             (apply_display_mode tc (display_mode mode_switching) c))"

section \<open>Key events\<close>

fun GetTransliterationTypeFromCompositionMode :: "CompositionMode \<Rightarrow> TransliterationType" where
  "GetTransliterationTypeFromCompositionMode Mode_HIRAGANA = T13n_HIRAGANA"
| "GetTransliterationTypeFromCompositionMode Mode_FULL_KATAKANA = T13n_FULL_KATAKANA"
| "GetTransliterationTypeFromCompositionMode Mode_HALF_ASCII = T13n_HALF_ASCII"
| "GetTransliterationTypeFromCompositionMode Mode_FULL_ASCII = T13n_FULL_ASCII"
| "GetTransliterationTypeFromCompositionMode Mode_HALF_KATAKANA = T13n_HALF_KATAKANA"
| "GetTransliterationTypeFromCompositionMode Mode_MANYOSHU = T13n_HIRAGANA"
| "GetTransliterationTypeFromCompositionMode Mode_DIRECT = T13n_HIRAGANA"

definition CompositionInput_Init :: "Table \<Rightarrow> KeyEvent \<Rightarrow> bool \<Rightarrow> CompositionInput option" where
  "CompositionInput_Init t key_event new_input =
     map_option (\<lambda>r.
       \<lparr>input_raw = r,
        input_conversion = (case key_string key_event of Some s \<Rightarrow> s | None \<Rightarrow> []),
        is_new_input = new_input,
        is_asis = (input_style key_event = AS_IS_STYLE \<or> input_style key_event = DIRECT_INPUT_STYLE)\<rparr>)
     (case key_code key_event of
        Some code \<Rightarrow> Some (CodepointToUtf8 (unat code))
      | None \<Rightarrow> (case key_string key_event of
          Some s \<Rightarrow> Some s
        | None \<Rightarrow> (case special_key key_event of
            Some k \<Rightarrow> Some (ParseSpecialKey t (''{'' @ GetSpecialKeyString k @ ''}''))
          | None \<Rightarrow> None)))"

text \<open>The guard of the loop over the modifier keys is \<open>key.modifier_keys_size ()\<close>, not a bound on the
  index: a list of modifiers without \<open>SHIFT\<close> is read past its end.\<close>

fun shift_loop :: "32 word list \<Rightarrow> bool res" where
  "shift_loop [] = Inl OutOfRange"
| "shift_loop (m # ms) = (if m = SHIFT then Inr True else shift_loop ms)"

definition only_shift :: "KeyEvent \<Rightarrow> bool res" where
  "only_shift key =
     (if key_code key = None then (if modifier_keys key = [] then Inr False else shift_loop (modifier_keys key))
      else Inr False)"

definition check_timeout :: "TextConv \<Rightarrow> int \<Rightarrow> KeyEvent \<Rightarrow> Composer \<Rightarrow> Composer run" where
  "check_timeout tc now key c =
     (if timeout_threshold_msec c > 0 then
        let current_msec = (case key_timestamp key of Some t \<Rightarrow> t | None \<Rightarrow> now)
        in run_bind (if timestamp_msec c > 0 \<and> current_msec - timestamp_msec c \<ge> timeout_threshold_msec c
                     then InsertCommandCharacter tc STOP_KEY_TOGGLING c else ret c)
             (\<lambda>c. ret (c\<lparr>timestamp_msec := current_msec\<rparr>))
      else ret c)"

definition set_key_mode :: "KeyEvent \<Rightarrow> Composer \<Rightarrow> Composer" where
  "set_key_mode key c =
     (case key_mode key of
        None \<Rightarrow> c
      | Some m \<Rightarrow>
          let new_input_mode = GetTransliterationTypeFromCompositionMode m
          in if new_input_mode \<noteq> input_mode c then Composer_SetInputMode new_input_mode c else c)"

definition process_key :: "TextConv \<Rightarrow> KeyEvent \<Rightarrow> CompositionInput \<Rightarrow> Composer \<Rightarrow> Composer run" where
  "process_key tc key input c =
     (if input_conversion input \<noteq> [] then
        (if is_asis input then
           run_bind (ProcessCompositionInput tc input
                       (c\<lparr>composition := SetInputMode CONVERSION_STRING (composition c)\<rparr>))
             (\<lambda>(_, c). ret (Composer_SetInputMode (comeback_input_mode c) c))
         else run_bind (ProcessCompositionInput tc input c) (\<lambda>(_, c). ret c))
      else
        run_bind (Some (ApplyTemporaryInputMode (input_raw input) (HasCaps (GetModifiers key)) c)) (\<lambda>c.
        run_bind (ProcessCompositionInput tc input c) (\<lambda>(_, c). ret c)))"

definition InsertCharacterKeyEvent :: "TextConv \<Rightarrow> int \<Rightarrow> KeyEvent \<Rightarrow> Composer \<Rightarrow> (bool \<times> Composer) run" where
  "InsertCharacterKeyEvent tc now key c =
     (if \<not> EnableInsert tc c then ret (False, c)
      else
        run_bind (check_timeout tc now key c) (\<lambda>c.
        let c = set_key_mode key c
        in run_bind (Some (only_shift key)) (\<lambda>shift.
           if shift then ret (True, Composer_SetInputMode (comeback_input_mode c) c)
           else
             (case CompositionInput_Init (snd (composer_table c)) key (composer_is_new_input c) of
                None \<Rightarrow> ret (False, c)
              | Some input \<Rightarrow>
                  run_bind (process_key tc key input c) (\<lambda>c.
                    ret (True, if comeback_input_mode c = input_mode c then AutoSwitchMode tc c else c))))))"

section \<open>Deleting and moving\<close>

definition composition_DeleteAt :: "TextConv \<Rightarrow> nat \<Rightarrow> Composer \<Rightarrow> (nat \<times> Composer) run" where
  "composition_DeleteAt tc pos c =
     (case DeleteAt tc pos (composition c) of
        None \<Rightarrow> None | Some (p, cm) \<Rightarrow> ret (p, c\<lparr>composition := cm\<rparr>))"

definition Composer_DeleteAt :: "TextConv \<Rightarrow> nat \<Rightarrow> Composer \<Rightarrow> Composer run" where
  "Composer_DeleteAt tc pos c =
     run_bind (composition_DeleteAt tc pos c) (\<lambda>(_, c).
       ret (if position c > pos then c\<lparr>position := position c - 1\<rparr> else c))"

definition Composer_Delete :: "TextConv \<Rightarrow> Composer \<Rightarrow> Composer run" where
  "Composer_Delete tc c =
     run_bind (composition_DeleteAt tc (position c) c) (\<lambda>(p, c).
       Some (UpdateInputMode tc (c\<lparr>position := p\<rparr>)))"

text \<open>The index of the loop is an \<open>int\<close>; the model counts the rounds that are left.\<close>

fun DeleteRange :: "TextConv \<Rightarrow> nat \<Rightarrow> nat \<Rightarrow> Composer \<Rightarrow> Composer run" where
  "DeleteRange tc pos 0 c = ret c"
| "DeleteRange tc pos (Suc len) c =
     (if pos < Composition_GetLength tc (composition c)
      then run_bind (Composer_DeleteAt tc pos c) (DeleteRange tc pos len) else ret c)"

definition Backspace :: "TextConv \<Rightarrow> Composer \<Rightarrow> Composer run" where
  "Backspace tc c =
     (if position c = 0 then ret c
      else run_bind (Some (UpdateInputMode tc (c\<lparr>position := position c - 1\<rparr>))) (\<lambda>c.
           run_bind (composition_DeleteAt tc (position c) c) (\<lambda>(p, c). ret (c\<lparr>position := p\<rparr>))))"

definition MoveCursorLeft :: "TextConv \<Rightarrow> Composer \<Rightarrow> Composer res" where
  "MoveCursorLeft tc c =
     UpdateInputMode tc (if position c > 0 then c\<lparr>position := position c - 1\<rparr> else c)"

definition MoveCursorRight :: "TextConv \<Rightarrow> Composer \<Rightarrow> Composer res" where
  "MoveCursorRight tc c =
     UpdateInputMode tc
       (if position c < Composition_GetLength tc (composition c) then c\<lparr>position := position c + 1\<rparr> else c)"

definition MoveCursorToBeginning :: "Composer \<Rightarrow> Composer" where
  "MoveCursorToBeginning c =
     (let c = c\<lparr>position := 0\<rparr> in Composer_SetInputMode (comeback_input_mode c) c)"

definition MoveCursorToEnd :: "TextConv \<Rightarrow> Composer \<Rightarrow> Composer" where
  "MoveCursorToEnd tc c =
     (let c = c\<lparr>position := Composition_GetLength tc (composition c)\<rparr>
      in Composer_SetInputMode (comeback_input_mode c) c)"

definition MoveCursorTo :: "TextConv \<Rightarrow> nat \<Rightarrow> Composer \<Rightarrow> Composer res" where
  "MoveCursorTo tc new_position c =
     (if new_position \<le> Composition_GetLength tc (composition c)
      then UpdateInputMode tc (c\<lparr>position := new_position\<rparr>) else Inr c)"

section \<open>Reading the state\<close>

definition Composer_GetPreedit :: "TextConv \<Rightarrow> Composer \<Rightarrow> bytes \<times> bytes \<times> bytes" where
  "Composer_GetPreedit tc c =
     (case GetPreedit tc (position c) (composition c) of
        (left, focused, right) \<Rightarrow>
          (case TransformCharactersForNumbers tc (left @ focused @ right) of
             (False, _) \<Rightarrow> (left, focused, right)
           | (True, text) \<Rightarrow>
               let left_size = CharsLen left; focused_size = CharsLen focused
               in (Utf8SubString text 0 left_size, Utf8SubString text left_size focused_size,
                   Utf8SubStringFrom text (left_size + focused_size))))"

definition Composer_GetStringForPreedit :: "TextConv \<Rightarrow> Composer \<Rightarrow> bytes" where
  "Composer_GetStringForPreedit tc c = common_GetStringForPreedit tc (composition c) (input_field_type c)"

definition Composer_GetStringForSubmission :: "TextConv \<Rightarrow> Composer \<Rightarrow> bytes" where
  "Composer_GetStringForSubmission tc c = Composer_GetStringForPreedit tc c"

definition Composer_GetQueryForConversion :: "TextConv \<Rightarrow> Composer \<Rightarrow> bytes" where
  "Composer_GetQueryForConversion tc c = common_GetQueryForConversion tc (composition c)"

definition Composer_GetQueryForPrediction :: "TextConv \<Rightarrow> Composer \<Rightarrow> bytes res" where
  "Composer_GetQueryForPrediction tc c = common_GetQueryForPrediction tc (composition c) (input_mode c)"

definition Composer_GetQueriesForPrediction :: "TextConv \<Rightarrow> Composer \<Rightarrow> (bytes \<times> bytes set) res" where
  "Composer_GetQueriesForPrediction tc c = common_GetQueriesForPrediction tc (composition c) (input_mode c)"

definition Composer_ShouldCommit :: "Composer \<Rightarrow> bool" where
  "Composer_ShouldCommit c = Composition_ShouldCommit (composition c)"

definition ShouldCommitHead :: "TextConv \<Rightarrow> Composer \<Rightarrow> nat option" where
  "ShouldCommitHead tc c =
     (let commit = (\<lambda>max_remaining.
            if Composer_GetLength tc c > max_remaining then Some (Composer_GetLength tc c - max_remaining) else None)
      in case input_field_type c of
           Field_PASSWORD \<Rightarrow> commit 1
         | Field_TEL \<Rightarrow> commit 0
         | Field_NUMBER \<Rightarrow> commit 0
         | _ \<Rightarrow> None)"

definition Composer_IsToggleable :: "TextConv \<Rightarrow> Composer \<Rightarrow> bool" where
  "Composer_IsToggleable tc c \<longleftrightarrow> \<not> composer_is_new_input c \<and> IsToggleable tc (position c) (composition c)"

record ComposerData =
  data_composition :: Composition
  data_position :: nat
  data_input_mode :: TransliterationType
  data_input_field_type :: InputFieldType
  data_source_text :: bytes
  data_handwriting :: "bytes list"

definition CreateComposerData :: "Composer \<Rightarrow> ComposerData" where
  "CreateComposerData c =
     \<lparr>data_composition = composition c, data_position = position c, data_input_mode = input_mode c,
      data_input_field_type = input_field_type c, data_source_text = source_text c,
      data_handwriting = compositions_for_handwriting c\<rparr>"

end
