(* ===== verification/Composer_Invariant.thy ===== *)
theory Composer_Invariant
  imports Composer Composition_Edit
begin

text \<open>
  What every operation of the composer keeps: the cursor lies within the text, the composition uses the
  composer's table and types in the composer's input mode. The states a composer can be in are the
  ones reached from the constructor by the operations.
\<close>

section \<open>What editing keeps\<close>

lemma GetPosition_le_length: "GetPosition tc cm LOCAL it \<le> Composition_GetLength tc cm"
proof (cases "it \<le> length (chunks cm)")
  case True
  then show ?thesis by (simp add: Composition_GetLength_def GetPosition_def position_of_mono)
next
  case False
  then show ?thesis by (simp add: Composition_GetLength_def GetPosition_def position_of_def)
qed

lemma GetLength_cong: "chunks cm = chunks cm' \<Longrightarrow> Composition_GetLength tc cm = Composition_GetLength tc cm'"
  by (simp add: Composition_GetLength_def GetPosition_def)

lemma same_frame_chunks [simp]: "same_frame cm (cm\<lparr>chunks := cs\<rparr>)"
  by (simp add: same_frame_def)

lemma same_frame_refl [simp]: "same_frame cm cm"
  by (simp add: same_frame_def)

lemma same_frame_trans: "same_frame a b \<Longrightarrow> same_frame b c \<Longrightarrow> same_frame a c"
  by (simp add: same_frame_def)

lemma MaybeSplitChunkAt_frame: "MaybeSplitChunkAt tc pos cm = (it, cm') \<Longrightarrow> same_frame cm cm'"
  by (auto simp: MaybeSplitChunkAt_def split: prod.splits)

lemma InsertChunk_frame: "same_frame cm (snd (InsertChunk it cm))"
  by (simp add: InsertChunk_def)

lemma GetInsertionChunk_frame: "same_frame cm (snd (GetInsertionChunk it cm))"
  by (simp add: GetInsertionChunk_def InsertChunk_frame)

lemma combine_left_frame: "same_frame cm (snd (combine_left next_input it cm))"
proof (induction next_input it cm rule: combine_left.induct)
  case (2 next_input left cm)
  then show ?case
    by (auto simp: Let_def intro: same_frame_trans [OF same_frame_chunks])
qed simp

lemma CombinePendingChunks_frame: "same_frame cm (snd (CombinePendingChunks it input cm))"
  by (simp add: CombinePendingChunks_def combine_left_frame)

lemma insert_loop_frame: "insert_loop right left input cm = Some (Inr (it, cm')) \<Longrightarrow> same_frame cm cm'"
proof -
  assume run: "insert_loop right left input cm = Some (Inr (it, cm'))"
  have "\<forall>it' cm'. r = Inr (it', cm') \<longrightarrow> same_frame cm cm'"
    if "insert_loop right left input cm = Some r" for r
  proof (rule insert_loop.raw_induct [OF _ that,
        of "\<lambda>right left input cm r. \<forall>it' cm'. r = Inr (it', cm') \<longrightarrow> same_frame cm cm'"], goal_cases)
    case (1 loop right left input cm r)
    note IH = 1(1) and run = 1(2)
    show ?case
    proof (intro allI impI)
      fix it' cm' assume r: "r = Inr (it', cm')"
      from run r obtain c input' where a: "AddCompositionInput (chunks cm ! left) input = Some (Inr (c, input'))"
        by (auto split: option.splits sum.splits)
      define cm1 where "cm1 = cm\<lparr>chunks := (chunks cm)[left := c]\<rparr>"
      show "same_frame cm cm'"
      proof (cases "input_Empty input'")
        case True
        with run a r show ?thesis by auto
      next
        case False
        with run a have "loop right (fst (InsertChunk (length (chunks cm) - right) cm1)) (input'\<lparr>is_new_input := False\<rparr>)
            (snd (InsertChunk (length (chunks cm) - right) cm1)) = Some r" by (simp add: cm1_def)
        from IH [OF this] r have "same_frame (snd (InsertChunk (length (chunks cm) - right) cm1)) cm'" by blast
        moreover have "same_frame cm cm1" by (simp add: cm1_def)
        ultimately show ?thesis using same_frame_trans InsertChunk_frame by blast
      qed
    qed
  qed
  with run show ?thesis by blast
qed

lemma InsertInput_keeps:
  assumes "InsertInput tc pos input cm = ret (p, cm')"
  shows "same_frame cm cm'" and "pos \<le> Composition_GetLength tc cm \<Longrightarrow> p \<le> Composition_GetLength tc cm'"
proof -
  have "same_frame cm cm' \<and> (pos \<le> Composition_GetLength tc cm \<longrightarrow> p \<le> Composition_GetLength tc cm')"
  proof (cases "input_Empty input")
    case True
    with assms show ?thesis by (simp add: InsertInput_def)
  next
    case False
    obtain it cm1 where m: "MaybeSplitChunkAt tc pos cm = (it, cm1)" by fastforce
    define it2 where "it2 = skip_invisible tc cm1 it"
    obtain l2 cm2 where g: "GetInsertionChunk it2 cm1 = (l2, cm2)" by fastforce
    obtain l3 cm3 where c: "CombinePendingChunks l2 input cm2 = (l3, cm3)" by fastforce
    from False assms m g c obtain l4 cm4 where
      l: "insert_loop (length (chunks cm1) - it2) l3 input cm3 = Some (Inr (l4, cm4))"
      and r: "cm' = remove_if_empty l4 cm4" "p = GetPosition tc cm' LOCAL (length (chunks cm') - (length (chunks cm1) - it2))"
      by (auto simp: InsertInput_def Let_def it2_def split: option.splits sum.splits)
    have "same_frame cm cm1" by (rule MaybeSplitChunkAt_frame [OF m])
    moreover have "same_frame cm1 cm2" using GetInsertionChunk_frame [of cm1 it2] g by simp
    moreover have "same_frame cm2 cm3" using CombinePendingChunks_frame [of cm2 l2 input] c by simp
    moreover have "same_frame cm3 cm4" by (rule insert_loop_frame [OF l])
    moreover have "same_frame cm4 cm'" by (simp add: r(1) remove_if_empty_def Let_def)
    ultimately have "same_frame cm cm'" by (meson same_frame_trans)
    then show ?thesis using GetPosition_le_length r(2) by blast
  qed
  then show "same_frame cm cm'" "pos \<le> Composition_GetLength tc cm \<Longrightarrow> p \<le> Composition_GetLength tc cm'"
    by blast+
qed

lemma GetPosition_take_cong:
  "take it (chunks cm) = take it (chunks cm') \<Longrightarrow> GetPosition tc cm t12r it = GetPosition tc cm' t12r it"
  by (simp add: GetPosition_def position_of_def)

lemma delete_loop_keeps:
  assumes "delete_loop tc sz pos p cm = Some (p', cm')" and "p \<le> Composition_GetLength tc cm"
  shows "same_frame cm cm' \<and> p' \<le> Composition_GetLength tc cm'"
proof -
  have "p \<le> Composition_GetLength tc cm \<longrightarrow> same_frame cm (snd r) \<and> fst r \<le> Composition_GetLength tc (snd r)"
    if "delete_loop tc sz pos p cm = Some r" for r
  proof (rule delete_loop.raw_induct [OF _ that,
        of "\<lambda>tc sz pos p cm r. p \<le> Composition_GetLength tc cm \<longrightarrow>
          same_frame cm (snd r) \<and> fst r \<le> Composition_GetLength tc (snd r)"], goal_cases)
    case (1 loop tc sz pos p cm r)
    note IH = 1(1) and run = 1(2)
    show ?case
    proof (cases "chunks cm = [] \<or> Composition_GetLength tc cm \<noteq> sz")
      case True
      with run show ?thesis by auto
    next
      case False
      obtain it cm1 where m: "MaybeSplitChunkAt tc pos cm = (it, cm1)" by fastforce
      note f = MaybeSplitChunkAt_frame [OF m]
      define erased where "erased = cm1\<lparr>chunks := take it (chunks cm1) @ drop (Suc it) (chunks cm1)\<rparr>"
      define cut where "cut = cm1\<lparr>chunks := (chunks cm1)[it := snd (SplitChunk tc LOCAL 1 (chunks cm1 ! it))]\<rparr>"
      have step: "same_frame cm (snd r) \<and> fst r \<le> Composition_GetLength tc (snd r)"
        if l: "loop tc sz pos (GetPosition tc cm1 LOCAL it) cm2 = Some r" and "same_frame cm1 cm2"
          and t: "take it (chunks cm1) = take it (chunks cm2)" for cm2
      proof -
        have "GetPosition tc cm1 LOCAL it \<le> Composition_GetLength tc cm2"
          using GetPosition_take_cong [OF t] GetPosition_le_length by simp
        with IH [OF l] same_frame_trans [OF f that(2)] show ?thesis using same_frame_trans by blast
      qed
      have te: "take it (chunks cm1) = take it (chunks erased)" "take it (chunks cm1) = take it (chunks cut)"
        by (auto simp: erased_def cut_def)
      show ?thesis
      proof (cases "it = length (chunks cm1)")
        case True
        with run False m have "r = (GetPosition tc cm1 LOCAL it, cm1)" by simp
        then show ?thesis using f GetPosition_le_length by simp
      next
        case it: False
        have "same_frame cm1 erased" "same_frame cm1 cut" by (simp_all add: erased_def cut_def)
        moreover have "loop tc sz pos (GetPosition tc cm1 LOCAL it) erased = Some r \<or>
            loop tc sz pos (GetPosition tc cm1 LOCAL it) cut = Some r"
          using run False m it by (auto simp: erased_def cut_def split: if_splits)
        ultimately show ?thesis using step te by blast
      qed
    qed
  qed
  with assms show ?thesis by fastforce
qed

lemma DeleteAt_keeps:
  assumes "DeleteAt tc pos cm = Some (p, cm')" and "pos \<le> Composition_GetLength tc cm"
  shows "same_frame cm cm'" and "p \<le> Composition_GetLength tc cm'"
  using delete_loop_keeps [of tc "Composition_GetLength tc cm" pos pos cm p cm'] assms
  by (simp_all add: DeleteAt_def)

section \<open>The invariant\<close>

definition cursor_ok :: "TextConv \<Rightarrow> Composer \<Rightarrow> bool" where
  "cursor_ok tc c \<longleftrightarrow> position c \<le> Composition_GetLength tc (composition c)"

definition table_ok :: "Composer \<Rightarrow> bool" where
  "table_ok c \<longleftrightarrow> comp_table (composition c) = composer_table c"

text \<open>The composition types in the composer's input mode; a handwriting result is typed as it is, and the
  composition stays in that state until the mode is set again.\<close>

definition mode_ok :: "Composer \<Rightarrow> bool" where
  "mode_ok c \<longleftrightarrow> input_t12r (composition c) = GetTransliterator (input_mode c) \<or>
     input_t12r (composition c) = RAW_STRING \<and> compositions_for_handwriting c \<noteq> []"

definition composer_ok :: "TextConv \<Rightarrow> Composer \<Rightarrow> bool" where
  "composer_ok tc c \<longleftrightarrow> cursor_ok tc c \<and> table_ok c \<and> mode_ok c"

lemma SetInputMode_simps [simp]:
  "chunks (SetInputMode t cm) = chunks cm" "comp_table (SetInputMode t cm) = comp_table cm"
  "input_t12r (SetInputMode t cm) = t" "Composition_GetLength tc (SetInputMode t cm) = Composition_GetLength tc cm"
  by (simp_all add: SetInputMode_def GetLength_cong [of "cm\<lparr>input_t12r := t\<rparr>" cm])

lemma SetTransliterator_simps [simp]:
  "comp_table (SetTransliterator tc a b t cm) = comp_table cm"
  "input_t12r (SetTransliterator tc a b t cm) = input_t12r cm"
  by (simp_all add: SetTransliterator_def split: prod.splits)

lemmas ok_defs = composer_ok_def cursor_ok_def table_ok_def mode_ok_def

lemma modes_ok:
  assumes "cursor_ok tc c" and "table_ok c"
  shows "composer_ok tc (Composer_SetInputMode m c)" "composer_ok tc (SetTemporaryInputMode m c)"
  using assms by (simp_all add: ok_defs Composer_SetInputMode_def SetTemporaryInputMode_def)

lemma SetOutputMode_ok: "table_ok c \<Longrightarrow> mode_ok c \<Longrightarrow> composer_ok tc (SetOutputMode tc m c)"
  by (simp add: ok_defs SetOutputMode_def Let_def)

lemma composer_okD: "composer_ok tc c \<Longrightarrow> cursor_ok tc c" "composer_ok tc c \<Longrightarrow> table_ok c" "composer_ok tc c \<Longrightarrow> mode_ok c"
  by (simp_all add: composer_ok_def)

lemma Composer_SetInputMode_simps [simp]:
  "position (Composer_SetInputMode m c) = position c"
  "chunks (composition (Composer_SetInputMode m c)) = chunks (composition c)"
  by (simp_all add: Composer_SetInputMode_def)

lemma UpdateInputMode_ok:
  assumes "cursor_ok tc c" and "table_ok c"
  shows "\<exists>c'. UpdateInputMode tc c = Inr c' \<and> composer_ok tc c' \<and> position c' = position c \<and>
    chunks (composition c') = chunks (composition c)"
proof (cases "position c \<noteq> 0 \<and> update_input_mode_from_surrounding_text (request c)")
  case False
  then have "UpdateInputMode tc c = Inr (Composer_SetInputMode (comeback_input_mode c) c)"
    unfolding UpdateInputMode_def by (simp only: if_False)
  then show ?thesis using modes_ok(1) [OF assms] by simp
next
  case True
  then have ne: "chunks (composition c) \<noteq> []"
    using assms(1) by (auto simp: cursor_ok_def Composition_GetLength_def GetPosition_def position_of_def)
  have get: "\<exists>t. Composition_GetTransliterator tc p (composition c) = Inr t" for p
    using GetChunkAt_spec(1) [OF ne, of tc p LOCAL]
    by (cases "GetChunkAt tc (composition c) p LOCAL") (auto simp: Composition_GetTransliterator_def)
  obtain t where t: "Composition_GetTransliterator tc (position c) (composition c) = Inr t" using get by blast
  obtain t' where t': "Composition_GetTransliterator tc (position c + 1) (composition c) = Inr t'" using get by blast
  show ?thesis
    unfolding UpdateInputMode_def if_P [OF True] t res_bind_simps t'
    using modes_ok(1) [OF assms] assms by (auto simp: Let_def ok_defs Composer_SetInputMode_def)
qed

lemma new_input_ok [simp]: "composer_ok tc (c\<lparr>composer_is_new_input := b\<rparr>) = composer_ok tc c"
  "composer_ok tc (c\<lparr>timestamp_msec := n\<rparr>) = composer_ok tc c"
  "composer_ok tc (c\<lparr>shifted_sequence_count := k\<rparr>) = composer_ok tc c"
  "composer_ok tc (c\<lparr>request := r\<rparr>) = composer_ok tc c" "composer_ok tc (c\<lparr>config := cfg\<rparr>) = composer_ok tc c"
  "composer_ok tc (c\<lparr>input_field_type := f\<rparr>) = composer_ok tc c"
  "composer_ok tc (c\<lparr>source_text := s\<rparr>) = composer_ok tc c"
  "composer_ok tc (c\<lparr>max_length := mx\<rparr>) = composer_ok tc c"
  "composer_ok tc (c\<lparr>timeout_threshold_msec := n\<rparr>) = composer_ok tc c"
  by (simp_all add: ok_defs)

lemma Composer_SetTable_ok: "composer_ok tc c \<Longrightarrow> composer_ok tc (Composer_SetTable t c)"
  using GetLength_cong [of "SetTable t (composition c)" "composition c" tc]
  by (simp add: ok_defs Composer_SetTable_def SetTable_def)

lemma insert_input_keeps:
  assumes "insert_input tc input c = ret c'"
  shows "\<exists>p cm. c' = c\<lparr>position := p, composition := cm, composer_is_new_input := False\<rparr> \<and>
    same_frame (composition c) cm \<and> (cursor_ok tc c \<longrightarrow> p \<le> Composition_GetLength tc cm)"
proof -
  from assms obtain p cm where i: "InsertInput tc (position c) input (composition c) = ret (p, cm)"
    and c': "c' = c\<lparr>position := p, composition := cm, composer_is_new_input := False\<rparr>"
    unfolding insert_input_def by (auto elim!: run_bind_retE)
  with InsertInput_keeps [OF i] show ?thesis by (auto simp: cursor_ok_def)
qed

lemma insert_input_ok:
  "insert_input tc input c = ret c' \<Longrightarrow> composer_ok tc c \<Longrightarrow> composer_ok tc c'"
  using insert_input_keeps [of tc input c c'] by (auto simp: ok_defs same_frame_def)

lemma ProcessCompositionInput_ok:
  assumes "ProcessCompositionInput tc input c = ret (b, c')" and "composer_ok tc c"
  shows "composer_ok tc c'"
  using assms by (auto simp: ProcessCompositionInput_def elim!: run_bind_retE intro: insert_input_ok split: if_splits)

lemma InsertCharacter_ok:
  "InsertCharacter tc key c = ret c' \<Longrightarrow> composer_ok tc c \<Longrightarrow> composer_ok tc c'"
  by (auto simp: InsertCharacter_def elim!: run_bind_retE dest: ProcessCompositionInput_ok)

lemma insert_chars_ok:
  "insert_chars tc cs c = ret c' \<Longrightarrow> composer_ok tc c \<Longrightarrow> composer_ok tc c'"
proof (induction cs arbitrary: c)
  case (Cons character cs)
  from Cons.prems(1) obtain b c1 where p: "InsertCharacterKeyAndPreedit tc character character c = ret (b, c1)"
    and r: "(if \<not> b then ret c1 else insert_chars tc cs c1) = ret c'"
    by (auto elim!: run_bind_retE)
  have "composer_ok tc c1" using p Cons.prems(2)
    by (auto simp: InsertCharacterKeyAndPreedit_def dest: ProcessCompositionInput_ok)
  with r Cons.IH show ?case by (auto split: if_splits)
qed simp

lemma insert_raw_chars_ok:
  "insert_raw_chars tc cs c = ret c' \<Longrightarrow> composer_ok tc c \<Longrightarrow> composer_ok tc c'"
  by (induction cs arbitrary: c) (auto elim!: run_bind_retE dest: insert_input_ok)

lemma ApplyTemporaryInputMode_ok:
  assumes "ApplyTemporaryInputMode s caps c = Inr c'" and "composer_ok tc c"
  shows "composer_ok tc c'"
  using assms composer_okD [OF assms(2)]
  by (auto simp: ApplyTemporaryInputMode_def Let_def intro!: modes_ok split: list.splits)

lemma AutoSwitchMode_ok:
  assumes "composer_ok tc c"
  shows "composer_ok tc (AutoSwitchMode tc c)"
proof -
  have d: "composer_ok tc (apply_display_mode tc m c)" for m
    using assms composer_okD [OF assms] by (cases m) (auto intro: SetOutputMode_ok)
  have i: "composer_ok tc (apply_input_mode m c')" if "composer_ok tc c'" for m c'
    using that composer_okD [OF that] by (cases m) (auto intro: modes_ok)
  show ?thesis using assms d i by (simp add: AutoSwitchMode_def Let_def)
qed

lemma check_timeout_ok:
  "check_timeout tc now key c = ret c' \<Longrightarrow> composer_ok tc c \<Longrightarrow> composer_ok tc c'"
  by (auto simp: check_timeout_def Let_def InsertCommandCharacter_def elim!: run_bind_retE
      dest: InsertCharacter_ok split: if_splits)

lemma set_key_mode_ok: "composer_ok tc c \<Longrightarrow> composer_ok tc (set_key_mode key c)"
  by (auto simp: set_key_mode_def Let_def intro: modes_ok composer_okD split: option.splits)

lemma process_key_ok:
  assumes "process_key tc key input c = ret c'" and "composer_ok tc c"
  shows "composer_ok tc c'"
proof (cases "input_conversion input \<noteq> [] \<and> is_asis input")
  case True
  then obtain b c1 where p: "ProcessCompositionInput tc input
      (c\<lparr>composition := SetInputMode CONVERSION_STRING (composition c)\<rparr>) = ret (b, c1)"
    and c': "c' = Composer_SetInputMode (comeback_input_mode c1) c1"
    using assms(1) by (auto simp: process_key_def elim!: run_bind_retE)
  have "cursor_ok tc c1 \<and> table_ok c1"
  proof (cases "EnableInsert tc (c\<lparr>composition := SetInputMode CONVERSION_STRING (composition c)\<rparr>)")
    case True
    with p have "insert_input tc input (c\<lparr>composition := SetInputMode CONVERSION_STRING (composition c)\<rparr>) = ret c1"
      by (auto simp: ProcessCompositionInput_def elim!: run_bind_retE)
    from insert_input_keeps [OF this] assms(2) show ?thesis by (auto simp: ok_defs same_frame_def)
  next
    case False
    with p assms(2) show ?thesis by (auto simp: ProcessCompositionInput_def ok_defs)
  qed
  then show ?thesis using c' modes_ok by simp
next
  case False
  with assms show ?thesis
    by (auto simp: process_key_def elim!: run_bind_retE
        dest: ProcessCompositionInput_ok ApplyTemporaryInputMode_ok split: if_splits)
qed

lemma InsertCharacterKeyEvent_ok:
  assumes "InsertCharacterKeyEvent tc now key c = ret (b, c')" and "composer_ok tc c"
  shows "composer_ok tc c'"
proof (cases "EnableInsert tc c")
  case False
  with assms show ?thesis by (simp add: InsertCharacterKeyEvent_def)
next
  case True
  with assms(1) obtain c1 where c1: "check_timeout tc now key c = ret c1"
    and r: "run_bind (Some (only_shift key)) (\<lambda>shift.
           if shift then ret (True, Composer_SetInputMode (comeback_input_mode (set_key_mode key c1)) (set_key_mode key c1))
           else
             (case CompositionInput_Init (snd (composer_table (set_key_mode key c1))) key
                (composer_is_new_input (set_key_mode key c1)) of
                None \<Rightarrow> ret (False, set_key_mode key c1)
              | Some input \<Rightarrow>
                  run_bind (process_key tc key input (set_key_mode key c1)) (\<lambda>c.
                    ret (True, if comeback_input_mode c = input_mode c then AutoSwitchMode tc c else c)))) = ret (b, c')"
    by (auto simp: InsertCharacterKeyEvent_def Let_def elim!: run_bind_retE)
  have ok: "composer_ok tc (set_key_mode key c1)"
    by (intro set_key_mode_ok check_timeout_ok [OF c1] assms(2))
  define c2 where "c2 = set_key_mode key c1"
  note r = r [folded c2_def] and ok = ok [folded c2_def]
  have mode: "composer_ok tc (Composer_SetInputMode m c2)" for m
    by (rule modes_ok) (rule composer_okD [OF ok])+
  from r obtain shift where "only_shift key = Inr shift" by (cases "only_shift key") auto
  moreover have "composer_ok tc (if comeback_input_mode c3 = input_mode c3 then AutoSwitchMode tc c3 else c3)"
    if "process_key tc key input c2 = ret c3" for input c3
    using process_key_ok [OF that ok] AutoSwitchMode_ok by simp
  ultimately show ?thesis using r mode ok
    by (cases shift) (auto elim!: run_bind_retE split: option.splits)
qed

lemma composition_DeleteAt_ok:
  assumes "composition_DeleteAt tc pos c = ret (p, c')" and "pos \<le> Composition_GetLength tc (composition c)"
    and "composer_ok tc c"
  shows "composer_ok tc (c'\<lparr>position := p\<rparr>)"
  using assms DeleteAt_keeps [of tc pos "composition c" p]
  by (auto simp: composition_DeleteAt_def ok_defs same_frame_def split: option.splits)

section \<open>Reachable states\<close>

datatype composer_op =
    Op_SetInputMode TransliterationType | Op_SetTemporaryInputMode TransliterationType
  | Op_SetOutputMode TransliterationType | Op_ToggleInputMode | Op_ResetInputMode | Op_Reset | Op_EditErase
  | Op_InsertCharacter bytes | Op_InsertKeyAndPreedit bytes bytes | Op_InsertPreedit bytes
  | Op_Command InternalCommand | Op_KeyEvent int KeyEvent | Op_Handwriting "bytes list"
  | Op_Delete | Op_Backspace | Op_Left | Op_Right | Op_Beginning | Op_End | Op_MoveTo nat
  | Op_SetTable TablePtr | Op_SetRequest Request | Op_SetConfig Config | Op_SetNewInput
  | Op_SetFieldType InputFieldType | Op_SetSource bytes | Op_SetMaxLength nat | Op_SetTimeout int

fun composer_step :: "TextConv \<Rightarrow> composer_op \<Rightarrow> Composer \<Rightarrow> Composer run" where
  "composer_step tc (Op_SetInputMode m) c = ret (Composer_SetInputMode m c)"
| "composer_step tc (Op_SetTemporaryInputMode m) c = ret (SetTemporaryInputMode m c)"
| "composer_step tc (Op_SetOutputMode m) c = ret (SetOutputMode tc m c)"
| "composer_step tc Op_ToggleInputMode c = ret (ToggleInputMode c)"
| "composer_step tc Op_ResetInputMode c = ret (ResetInputMode c)"
| "composer_step tc Op_Reset c = ret (Composer_Reset tc c)"
| "composer_step tc Op_EditErase c = ret (EditErase c)"
| "composer_step tc (Op_InsertCharacter key) c = InsertCharacter tc key c"
| "composer_step tc (Op_InsertKeyAndPreedit key text) c =
     run_bind (InsertCharacterKeyAndPreedit tc key text c) (\<lambda>(_, c). ret c)"
| "composer_step tc (Op_InsertPreedit text) c = InsertCharacterPreedit tc text c"
| "composer_step tc (Op_Command cmd) c = InsertCommandCharacter tc cmd c"
| "composer_step tc (Op_KeyEvent now key) c = run_bind (InsertCharacterKeyEvent tc now key c) (\<lambda>(_, c). ret c)"
| "composer_step tc (Op_Handwriting texts) c = SetCompositionsForHandwriting tc texts c"
| "composer_step tc Op_Delete c = Composer_Delete tc c"
| "composer_step tc Op_Backspace c = Backspace tc c"
| "composer_step tc Op_Left c = Some (MoveCursorLeft tc c)"
| "composer_step tc Op_Right c = Some (MoveCursorRight tc c)"
| "composer_step tc Op_Beginning c = ret (MoveCursorToBeginning c)"
| "composer_step tc Op_End c = ret (MoveCursorToEnd tc c)"
| "composer_step tc (Op_MoveTo n) c = Some (MoveCursorTo tc n c)"
| "composer_step tc (Op_SetTable t) c = ret (Composer_SetTable t c)"
| "composer_step tc (Op_SetRequest r) c = ret (SetRequest r c)"
| "composer_step tc (Op_SetConfig cfg) c = ret (SetConfig cfg c)"
| "composer_step tc Op_SetNewInput c = ret (SetNewInput c)"
| "composer_step tc (Op_SetFieldType f) c = ret (SetInputFieldType f c)"
| "composer_step tc (Op_SetSource s) c = ret (set_source_text s c)"
| "composer_step tc (Op_SetMaxLength n) c = ret (set_max_length n c)"
| "composer_step tc (Op_SetTimeout n) c = ret (set_timeout_threshold_msec n c)"

text \<open>
  \<open>Composer::DeleteRange\<close> moves the cursor by one for every deletion before it, so it keeps to the text only
  when a deletion takes one character. A plain composition guarantees this (\<open>settled_one_by_one\<close>), the code in
  general does not (\<open>DeleteRange_overruns\<close>).
\<close>

fun one_by_one :: "TextConv \<Rightarrow> nat \<Rightarrow> nat \<Rightarrow> Composer \<Rightarrow> bool" where
  "one_by_one tc pos 0 c = True"
| "one_by_one tc pos (Suc len) c =
     (pos < Composer_GetLength tc c \<longrightarrow>
       (case Composer_DeleteAt tc pos c of
          Some (Inr c') \<Rightarrow> Composer_GetLength tc c \<le> Suc (Composer_GetLength tc c') \<and> one_by_one tc pos len c'
        | _ \<Rightarrow> True))"

inductive reachable :: "TextConv \<Rightarrow> Composer \<Rightarrow> bool" for tc where
  reach_new: "reachable tc (new_Composer tc t r cfg)"
| reach_step: "reachable tc c \<Longrightarrow> composer_step tc op c = ret c' \<Longrightarrow> reachable tc c'"
| reach_range: "reachable tc c \<Longrightarrow> one_by_one tc pos len c \<Longrightarrow> DeleteRange tc pos len c = ret c' \<Longrightarrow>
    reachable tc c'"

lemma Reset_ok:
  assumes "table_ok c"
  shows "composer_ok tc (Composer_Reset tc c)"
proof -
  have "cursor_ok tc (c\<lparr>composition := Erase (composition c), position := 0\<rparr>)"
    "table_ok (c\<lparr>composition := Erase (composition c), position := 0\<rparr>)"
    using assms by (simp_all add: cursor_ok_def table_ok_def Erase_def)
  from modes_ok(1) [OF this] have e: "composer_ok tc (EditErase c)" by (simp add: EditErase_def Let_def)
  have r: "composer_ok tc (ResetInputMode (EditErase c))"
    unfolding ResetInputMode_def by (rule modes_ok) (rule composer_okD [OF e])+
  have m: "input_t12r (composition (ResetInputMode c)) = GetTransliterator (input_mode (ResetInputMode c))" for c
    by (simp add: ResetInputMode_def Composer_SetInputMode_def)
  have "composer_ok tc (SetOutputMode tc T13n_HIRAGANA (ResetInputMode (EditErase c)))"
    by (rule SetOutputMode_ok) (rule composer_okD [OF r])+
  then show ?thesis using m [of "EditErase c"]
    by (simp add: Composer_Reset_def Let_def ok_defs SetOutputMode_def)
qed

lemma new_Composer_ok: "composer_ok tc (new_Composer tc t r cfg)"
  unfolding new_Composer_def
  by (rule Reset_ok) (simp add: table_ok_def Composer_SetInputMode_def new_Composition_def)


lemma UpdateInputMode_okD:
  "UpdateInputMode tc c = Inr c' \<Longrightarrow> cursor_ok tc c \<Longrightarrow> table_ok c \<Longrightarrow> composer_ok tc c'"
  using UpdateInputMode_ok [of tc c] by auto

lemma Delete_ok:
  assumes "Composer_Delete tc c = ret c'" and ok: "composer_ok tc c"
  shows "composer_ok tc c'"
proof -
  from assms(1) obtain p c1 where d: "composition_DeleteAt tc (position c) c = ret (p, c1)"
    and u: "UpdateInputMode tc (c1\<lparr>position := p\<rparr>) = Inr c'"
    by (auto simp: Composer_Delete_def elim!: run_bind_retE)
  have "composer_ok tc (c1\<lparr>position := p\<rparr>)"
    by (rule composition_DeleteAt_ok [OF d _ ok]) (use ok in \<open>simp add: ok_defs\<close>)
  from UpdateInputMode_okD [OF u] composer_okD [OF this] show ?thesis by blast
qed

lemma Backspace_ok:
  assumes "Backspace tc c = ret c'" and ok: "composer_ok tc c"
  shows "composer_ok tc c'"
proof (cases "position c = 0")
  case True
  with assms show ?thesis by (simp add: Backspace_def)
next
  case False
  have "cursor_ok tc (c\<lparr>position := position c - 1\<rparr>)" "table_ok (c\<lparr>position := position c - 1\<rparr>)"
    using ok by (auto simp: ok_defs)
  from UpdateInputMode_ok [OF this] obtain c1 where
    u: "UpdateInputMode tc (c\<lparr>position := position c - 1\<rparr>) = Inr c1" "composer_ok tc c1" by blast
  with assms(1) False obtain p c2 where d: "composition_DeleteAt tc (position c1) c1 = ret (p, c2)"
    and c': "c' = c2\<lparr>position := p\<rparr>"
    by (auto simp: Backspace_def elim!: run_bind_retE)
  show ?thesis unfolding c'
    by (rule composition_DeleteAt_ok [OF d _ u(2)]) (use u(2) in \<open>simp add: ok_defs\<close>)
qed

lemma moves_ok:
  assumes "composer_ok tc c"
  shows "\<exists>c'. MoveCursorLeft tc c = Inr c' \<and> composer_ok tc c'"
    and "\<exists>c'. MoveCursorRight tc c = Inr c' \<and> composer_ok tc c'"
    and "\<exists>c'. MoveCursorTo tc n c = Inr c' \<and> composer_ok tc c'"
proof -
  have u: "\<exists>c'. UpdateInputMode tc (c\<lparr>position := p\<rparr>) = Inr c' \<and> composer_ok tc c'"
    if "p \<le> Composition_GetLength tc (composition c)" for p
    using UpdateInputMode_ok [of tc "c\<lparr>position := p\<rparr>"] that assms by (auto simp: ok_defs)
  have u0: "\<exists>c'. UpdateInputMode tc c = Inr c' \<and> composer_ok tc c'"
    using UpdateInputMode_ok [of tc c] composer_okD [OF assms] by blast
  show "\<exists>c'. MoveCursorLeft tc c = Inr c' \<and> composer_ok tc c'"
    using u [of "position c - 1"] u0 assms by (auto simp: MoveCursorLeft_def ok_defs)
  show "\<exists>c'. MoveCursorRight tc c = Inr c' \<and> composer_ok tc c'"
    using u [of "position c + 1"] u0 by (auto simp: MoveCursorRight_def)
  show "\<exists>c'. MoveCursorTo tc n c = Inr c' \<and> composer_ok tc c'"
    using u [of n] assms by (auto simp: MoveCursorTo_def)
qed

lemma Handwriting_ok:
  assumes "SetCompositionsForHandwriting tc texts c = ret c'" and "table_ok c"
  shows "composer_ok tc c'"
proof (cases texts)
  case Nil
  have "compositions_for_handwriting (Composer_Reset tc c) = []" by (simp add: Composer_Reset_def Let_def)
  with Nil assms Reset_ok [OF assms(2), of tc] show ?thesis
    by (auto simp: SetCompositionsForHandwriting_def Let_def ok_defs)
next
  case (Cons first ts)
  define c1 where "c1 = (Composer_Reset tc c)\<lparr>compositions_for_handwriting := texts\<rparr>"
  have "composer_ok tc (c1\<lparr>composition := SetInputMode RAW_STRING (composition c1)\<rparr>)"
    using Reset_ok [OF assms(2), of tc] Cons by (simp add: c1_def ok_defs)
  moreover have "insert_raw_chars tc (AsChars first)
      (c1\<lparr>composition := SetInputMode RAW_STRING (composition c1)\<rparr>) = ret c'"
    using assms(1) Cons by (simp add: SetCompositionsForHandwriting_def Let_def c1_def)
  ultimately show ?thesis by (blast intro: insert_raw_chars_ok)
qed

lemma composer_step_ok:
  assumes "composer_step tc op c = ret c'" and ok: "composer_ok tc c"
  shows "composer_ok tc c'"
proof -
  note d = composer_okD [OF ok]
  have e: "cursor_ok tc (c\<lparr>composition := Erase (composition c), position := 0\<rparr>)"
    "table_ok (c\<lparr>composition := Erase (composition c), position := 0\<rparr>)"
    using d by (simp_all add: cursor_ok_def table_ok_def Erase_def)
  have p: "cursor_ok tc (c\<lparr>position := q\<rparr>)" "table_ok (c\<lparr>position := q\<rparr>)"
    if "q \<le> Composition_GetLength tc (composition c)" for q
    using d that by (simp_all add: cursor_ok_def table_ok_def)
  from assms(1) show ?thesis
  proof (cases op)
    case (Op_InsertKeyAndPreedit key shown)
    with assms show ?thesis
      by (auto simp: InsertCharacterKeyAndPreedit_def elim!: run_bind_retE dest: ProcessCompositionInput_ok)
  next
    case (Op_KeyEvent now key)
    with assms show ?thesis by (auto elim!: run_bind_retE dest: InsertCharacterKeyEvent_ok)
  next
    case (Op_Handwriting texts)
    with assms(1) d(2) show ?thesis by (auto dest: Handwriting_ok)
  next
    case Op_Left
    with assms(1) moves_ok(1) [OF ok] show ?thesis by auto
  next
    case Op_Right
    with assms(1) moves_ok(2) [OF ok] show ?thesis by auto
  next
    case (Op_MoveTo n)
    with assms(1) moves_ok(3) [OF ok, of n] show ?thesis by auto
  qed (use assms d e p ok in \<open>auto simp: ToggleInputMode_def ResetInputMode_def EditErase_def Let_def
      MoveCursorToBeginning_def MoveCursorToEnd_def InsertCommandCharacter_def InsertCharacterPreedit_def
      SetRequest_def SetConfig_def SetNewInput_def SetInputFieldType_def
      set_source_text_def set_max_length_def set_timeout_threshold_msec_def
      intro: Composer_SetTable_ok modes_ok SetOutputMode_ok Reset_ok InsertCharacter_ok insert_chars_ok Delete_ok Backspace_ok\<close>)
qed

lemma Composer_DeleteAt_ok:
  assumes "Composer_DeleteAt tc pos c = ret c'" and "pos < Composer_GetLength tc c"
    and "Composer_GetLength tc c \<le> Suc (Composer_GetLength tc c')" and "composer_ok tc c"
  shows "composer_ok tc c'"
proof -
  from assms(1) obtain p cm where d: "DeleteAt tc pos (composition c) = Some (p, cm)"
    and c': "c' = (if position c > pos then c\<lparr>composition := cm, position := position c - 1\<rparr> else c\<lparr>composition := cm\<rparr>)"
    by (auto simp: Composer_DeleteAt_def composition_DeleteAt_def elim!: run_bind_retE split: option.splits if_splits)
  have "same_frame (composition c) cm"
    using DeleteAt_keeps(1) [OF d] assms(2) by (simp add: Composer_GetLength_def)
  then show ?thesis using assms(2-4) c' by (auto simp: ok_defs same_frame_def Composer_GetLength_def)
qed

lemma DeleteRange_ok:
  "DeleteRange tc pos len c = ret c' \<Longrightarrow> one_by_one tc pos len c \<Longrightarrow> composer_ok tc c \<Longrightarrow> composer_ok tc c'"
proof (induction len arbitrary: c)
  case (Suc len)
  show ?case
  proof (cases "pos < Composer_GetLength tc c")
    case True
    with Suc.prems(1) obtain c1 where c1: "Composer_DeleteAt tc pos c = ret c1" "DeleteRange tc pos len c1 = ret c'"
      by (auto simp: Composer_GetLength_def elim!: run_bind_retE)
    then show ?thesis
      using Suc.IH [OF c1(2)] Composer_DeleteAt_ok [OF c1(1) True] Suc.prems(2,3) True by simp
  next
    case False
    then show ?thesis using Suc.prems(1,3) by (simp add: Composer_GetLength_def)
  qed
qed simp

lemma reachable_ok: "reachable tc c \<Longrightarrow> composer_ok tc c"
  by (induction rule: reachable.induct) (auto intro: new_Composer_ok composer_step_ok DeleteRange_ok)

text \<open>Deletions in a plain composition take one character each.\<close>

lemma settled_one_by_one: "settled tc (composition c) \<Longrightarrow> one_by_one tc pos len c"
proof (induction len arbitrary: c)
  case (Suc len)
  show ?case
  proof (cases "pos < Composer_GetLength tc c")
    case True
    then have pos: "pos < length (preedit (composition c))"
      using settled_GetLength [OF Suc.prems] by (simp add: Composer_GetLength_def)
    from DeleteAt_settled [OF Suc.prems this] obtain cm where
      d: "DeleteAt tc pos (composition c) = Some (pos, cm)" "settled tc cm"
        "preedit cm = take pos (preedit (composition c)) @ drop (Suc pos) (preedit (composition c))" by blast
    then obtain c1 where c1: "Composer_DeleteAt tc pos c = ret c1" "composition c1 = cm"
      by (simp add: Composer_DeleteAt_def composition_DeleteAt_def)
    have "Composer_GetLength tc c = Suc (Composer_GetLength tc c1)"
      using settled_GetLength [OF Suc.prems] settled_GetLength [OF d(2)] d(3) pos c1(2)
      by (simp add: Composer_GetLength_def)
    then show ?thesis using c1 Suc.IH [of c1] d(2) by simp
  qed simp
qed simp

text \<open>
  Why a deletion before the cursor has to be watched: a chunk that was inserted without a key shows its text
  when it is changed to half-width letters, but is split by its keys, of which there are none. Its first split
  takes the whole text, so \<open>DeleteRange\<close> of one character takes two, moves the cursor by one and leaves it
  behind the end of the text.
\<close>

definition unkeyed_chunk :: "CharChunk" where
  "unkeyed_chunk = (new_CharChunk HALF_ASCII (0, new_Table))\<lparr>conversion := ''xy''\<rparr>"

lemma two_letters: "DeleteSpecialKeys ''xy'' = ''xy''" "CharsLen ''xy'' = 2" "DeleteSpecialKeys [] = []"
proof -
  have v: "list_all vis [0x78, 0x79]" "list_all unicode [0x78, 0x79]"
    by (simp_all add: vis_def unicode_def IsSpecialKey_def kSpecialKeyBegin_def kSpecialKeyEnd_def)
  have "Utf32ToUtf8 [0x78, 0x79] = ''xy''" using ascii_encode [of "''xy''"] by (simp add: byte_def)
  then show "DeleteSpecialKeys ''xy'' = ''xy''" "CharsLen ''xy'' = 2"
    using DeleteSpecialKeys_encode [OF v(1)] CharsLen_encode [OF v(2)] by simp_all
  show "DeleteSpecialKeys [] = []" using DeleteSpecialKeys_encode [of "[]"] by simp
qed

lemmas chunk_length_defs = chunk_length_def GetLength_def uncached_length_def AppendResult_def
  chunk_Transliterate_def chunk_GetTransliterator_def new_CharChunk_def id_conv_def

lemma unkeyed_length: "chunk_length id_conv LOCAL unkeyed_chunk = 2"
  by (simp add: unkeyed_chunk_def chunk_length_defs two_letters NO_TABLE_ATTRIBUTE_def)

lemma unkeyed_split: "chunk_length id_conv LOCAL (snd (SplitChunk id_conv LOCAL 1 unkeyed_chunk)) = 0"
  by (simp add: unkeyed_chunk_def SplitChunk_def chunk_length_defs two_letters NO_TABLE_ATTRIBUTE_def SplitRaw_def
      SplitPrimaryString_def Utf8SubString_def Let_def numeral_2_eq_2)

lemma DeleteRange_overruns:
  assumes "composition c = (new_Composition t)\<lparr>chunks := [unkeyed_chunk]\<rparr>" and "position c = 2"
  shows "\<exists>c'. DeleteRange id_conv 0 1 c = ret c' \<and> position c' = 1 \<and> Composer_GetLength id_conv c' = 0"
proof -
  let ?cm = "(new_Composition t)\<lparr>chunks := [unkeyed_chunk]\<rparr>"
  define right where "right = snd (SplitChunk id_conv LOCAL 1 unkeyed_chunk)"
  let ?cm' = "(new_Composition t)\<lparr>chunks := [right]\<rparr>"
  have len: "Composition_GetLength id_conv ?cm = 2" "Composition_GetLength id_conv ?cm' = 0"
    using unkeyed_length unkeyed_split by (simp_all add: Composition_GetLength_def GetPosition_def position_of_def right_def)
  have m: "MaybeSplitChunkAt id_conv 0 ?cm = (0, ?cm)"
    by (simp add: MaybeSplitChunkAt_def split_at_def chunk_at_def unkeyed_length)
  have stop: "delete_loop id_conv 2 0 p ?cm' = Some (p, ?cm')" for p
    by (subst delete_loop.simps) (simp add: len)
  have r: "snd (SplitChunk id_conv LOCAL (Suc 0) unkeyed_chunk) = right" by (simp add: right_def)
  have "DeleteAt id_conv 0 ?cm = Some (0, ?cm')"
    unfolding DeleteAt_def
    by (subst delete_loop.simps) (simp add: len m unkeyed_length stop r GetPosition_def position_of_def)
  then show ?thesis
    using assms len by (simp add: composition_DeleteAt_def Composer_DeleteAt_def Composer_GetLength_def)
qed

text \<open>C16: The invariant of the composer: in every state reached from the constructor by any sequence of its
  operations (typing in every form, deleting, moving, resetting, changing modes and tables, and
  \<open>DeleteRange\<close> as far as each of its deletions takes one character), the cursor
  lies within the text, the composition uses the composer's table, and it types in the composer's input
  mode (as it is, after a handwriting result); and from such a state the cursor movements never fail,
  so the transliterator of a character behind the end is never asked for.\<close>

theorem composer_invariant:
  assumes "reachable tc c"
  shows "position c \<le> Composer_GetLength tc c \<and> comp_table (composition c) = composer_table c \<and>
    (input_t12r (composition c) = GetTransliterator (input_mode c) \<or>
     input_t12r (composition c) = RAW_STRING \<and> compositions_for_handwriting c \<noteq> []) \<and>
    is_ok (MoveCursorLeft tc c) \<and> is_ok (MoveCursorRight tc c) \<and> is_ok (MoveCursorTo tc n c)"
proof -
  have ok: "composer_ok tc c" by (rule reachable_ok [OF assms])
  then have "is_ok (MoveCursorLeft tc c)" "is_ok (MoveCursorRight tc c)" "is_ok (MoveCursorTo tc n c)"
    using moves_ok [OF ok] by (metis is_ok_simps(1))+
  with ok show ?thesis by (simp add: ok_defs Composer_GetLength_def)
qed

theorem composer_invariant_witness:
  "\<exists>c. reachable id_conv c \<and> position c \<le> Composer_GetLength id_conv c \<and> is_ok (MoveCursorTo id_conv 7 c)"
proof -
  have "reachable id_conv (new_Composer id_conv (0, new_Table) \<lparr>update_input_mode_from_surrounding_text = True\<rparr>
      \<lparr>shift_key_mode_switch = ASCII_INPUT_MODE, composing_timeout_threshold_msec = 0,
       auto_switch_composition_mode = True, preedit_method = ROMAN\<rparr>)" (is "reachable _ ?c")
    by (rule reach_new)
  then have "reachable id_conv (ToggleInputMode ?c)" by (rule reach_step [where op = Op_ToggleInputMode]) simp
  from composer_invariant [OF this, of 7] this show ?thesis by blast
qed

section \<open>Shifted letters\<close>

definition is_upper_key :: "char \<Rightarrow> bool" where
  "is_upper_key k \<longleftrightarrow> 0x41 \<le> byte k \<and> byte k \<le> 0x5A"

definition is_lower_key :: "char \<Rightarrow> bool" where
  "is_lower_key k \<longleftrightarrow> 0x61 \<le> byte k \<and> byte k \<le> 0x7A"

fun apply_keys :: "char list \<Rightarrow> Composer \<Rightarrow> Composer res" where
  "apply_keys [] c = Inr c"
| "apply_keys (k # ks) c = res_bind (ApplyTemporaryInputMode [k] False c) (apply_keys ks)"

lemma apply_keys_append: "apply_keys (ks @ ls) c = res_bind (apply_keys ks c) (apply_keys ls)"
  by (induction ks arbitrary: c) (simp_all add: res_bind_def split: sum.splits)

lemma OneCharLen_ascii: "byte k < 128 \<Longrightarrow> OneCharLen k = 1"
  using OneCharLen_encode [of "byte k"] by (cases "byte k = 0") (auto simp: OneCharLen_def Let_def)

lemma upper_key_step:
  assumes "is_upper_key k" and "shift_key_mode_switch (config c) = ASCII_INPUT_MODE"
  shows "ApplyTemporaryInputMode [k] False c =
    Inr (let c' = (if input_mode c = T13n_HALF_ASCII \<or> input_mode c = T13n_FULL_ASCII then c
                   else SetTemporaryInputMode T13n_HALF_ASCII c)
         in c'\<lparr>shifted_sequence_count := shifted_sequence_count c' + 1\<rparr>)"
  using assms OneCharLen_ascii [of k] by (simp add: ApplyTemporaryInputMode_def is_upper_key_def Let_def)

lemma lower_key_step:
  assumes "is_lower_key k" and "shift_key_mode_switch (config c) = ASCII_INPUT_MODE"
  shows "ApplyTemporaryInputMode [k] False c =
    Inr ((if shifted_sequence_count c > 1 then Composer_SetInputMode (comeback_input_mode c) c else c)
          \<lparr>shifted_sequence_count := 0\<rparr>)"
  using assms OneCharLen_ascii [of k] by (simp add: ApplyTemporaryInputMode_def is_lower_key_def Let_def)

lemma upper_keys_ascii:
  assumes "list_all is_upper_key us" and "shift_key_mode_switch (config c) = ASCII_INPUT_MODE"
    and "input_mode c = T13n_HALF_ASCII"
  shows "apply_keys us c = Inr (c\<lparr>shifted_sequence_count := shifted_sequence_count c + length us\<rparr>)"
  using assms
proof (induction us arbitrary: c)
  case (Cons u us)
  then show ?case by (simp add: upper_key_step)
qed simp

text \<open>Shifted letters switch to half-width Latin for a while: from a kana mode, with the MS-IME setting,
  a run of shifted letters types Latin and remembers the mode; the next unshifted letter ends the
  Latin typing when two or more shifted letters came before it, and continues it after a single one.\<close>

lemma shifted_letters_switch:
  assumes "shift_key_mode_switch (config c) = ASCII_INPUT_MODE"
    and "input_mode c = m" "comeback_input_mode c = m" "m \<notin> {T13n_HALF_ASCII, T13n_FULL_ASCII}"
    and "list_all is_upper_key us" "us \<noteq> []" and "is_lower_key l"
  shows "\<exists>c1 c2. apply_keys us c = Inr c1 \<and> input_mode c1 = T13n_HALF_ASCII \<and> comeback_input_mode c1 = m \<and>
    apply_keys (us @ [l]) c = Inr c2 \<and> comeback_input_mode c2 = m \<and>
    input_mode c2 = (if length us > 1 then m else T13n_HALF_ASCII)"
proof -
  obtain u us' where us: "us = u # us'" using assms(6) by (cases us) auto
  define c0 where "c0 = (SetTemporaryInputMode T13n_HALF_ASCII c)\<lparr>shifted_sequence_count := 1\<rparr>"
  have c0: "ApplyTemporaryInputMode [u] False c = Inr c0" "input_mode c0 = T13n_HALF_ASCII"
    "comeback_input_mode c0 = m" "shift_key_mode_switch (config c0) = ASCII_INPUT_MODE" "shifted_sequence_count c0 = 1"
    using assms us upper_key_step [of u c] by (auto simp: c0_def SetTemporaryInputMode_def Let_def)
  define c1 where "c1 = c0\<lparr>shifted_sequence_count := length us\<rparr>"
  have c1: "apply_keys us c = Inr c1"
    using upper_keys_ascii [of us' c0] c0 assms(5) us by (simp add: c1_def)
  have s: "shift_key_mode_switch (config c1) = ASCII_INPUT_MODE" using c0(4) by (simp add: c1_def)
  have "apply_keys (us @ [l]) c = ApplyTemporaryInputMode [l] False c1"
    using c1 by (simp add: apply_keys_append res_bind_def split: sum.splits)
  then show ?thesis unfolding lower_key_step [OF assms(7) s] using c1 c0
    by (auto simp: c1_def Composer_SetInputMode_def)
qed

definition hiragana_composer :: Composer where
  "hiragana_composer = new_Composer id_conv (0, new_Table) \<lparr>update_input_mode_from_surrounding_text = False\<rparr>
     \<lparr>shift_key_mode_switch = ASCII_INPUT_MODE, composing_timeout_threshold_msec = 0,
      auto_switch_composition_mode = False, preedit_method = ROMAN\<rparr>"

lemma hiragana_composer_simps:
  "shift_key_mode_switch (config hiragana_composer) = ASCII_INPUT_MODE" "input_mode hiragana_composer = T13n_HIRAGANA"
  "comeback_input_mode hiragana_composer = T13n_HIRAGANA" "timeout_threshold_msec hiragana_composer = 0"
  "chunks (composition hiragana_composer) = []" "max_length hiragana_composer = 256"
  by (simp_all add: hiragana_composer_def new_Composer_def Composer_Reset_def EditErase_def ResetInputMode_def
      Composer_SetInputMode_def SetOutputMode_def SetTransliterator_def Erase_def SetInputMode_def Let_def
      kMaxPreeditLength_def)

section \<open>Reading modifiers past the end\<close>

lemma shift_loop_no_shift: "SHIFT \<notin> set ms \<Longrightarrow> shift_loop ms = Inl OutOfRange"
  by (induction ms) auto

text \<open>A key event without a key code whose modifiers do not include \<open>SHIFT\<close> reads the list of modifiers
  past its end: the loop of \<open>InsertCharacterKeyEvent\<close> is guarded by the size of the list, not by the
  index. Such an event, a key string or special key typed with \<open>CTRL\<close>, say, never gets as far as the
  composition.\<close>

lemma InsertCharacterKeyEvent_reads_past_end:
  assumes "EnableInsert tc c" and "timeout_threshold_msec c \<le> 0" and "key_code key = None"
    and "modifier_keys key \<noteq> []" and "SHIFT \<notin> set (modifier_keys key)"
  shows "InsertCharacterKeyEvent tc now key c = Some (Inl OutOfRange)"
  using assms by (simp add: InsertCharacterKeyEvent_def check_timeout_def only_shift_def shift_loop_no_shift)

end
