(* ===== verification/Composer_Edit.thy ===== *)
theory Composer_Edit
  imports Composer_Invariant
begin

text \<open>
  The composer as a text editor. In hiragana mode, over a table that has no rule starting with kana,
  the composer is a line of characters with a cursor: typing kana, deleting, moving and committing the
  head are the operations of a list editor, for every sequence of operations. The locale
  \<open>simulation\<close> states the contract of such a refinement and lifts one step to sequences.
\<close>

section \<open>The editor\<close>

type_synonym editor = "char32 list \<times> nat"

datatype edit_op =
    Ed_Type "char32 list" | Ed_Delete | Ed_Backspace | Ed_Left | Ed_Right | Ed_Home | Ed_End
  | Ed_Goto nat | Ed_DeleteRange nat nat | Ed_Erase

text \<open>\<open>cap\<close> is the length from which on nothing is typed.\<close>

fun editor_step :: "nat \<Rightarrow> edit_op \<Rightarrow> editor \<Rightarrow> editor" where
  "editor_step cap (Ed_Type cs) (t, n) =
     (if length t < cap then (take n t @ cs @ drop n t, n + length cs) else (t, n))"
| "editor_step cap Ed_Delete (t, n) = (take n t @ drop (Suc n) t, n)"
| "editor_step cap Ed_Backspace (t, n) = (if n = 0 then (t, n) else (take (n - 1) t @ drop n t, n - 1))"
| "editor_step cap Ed_Left (t, n) = (t, n - 1)"
| "editor_step cap Ed_Right (t, n) = (t, if n < length t then Suc n else n)"
| "editor_step cap Ed_Home (t, n) = (t, 0)"
| "editor_step cap Ed_End (t, n) = (t, length t)"
| "editor_step cap (Ed_Goto k) (t, n) = (t, if k \<le> length t then k else n)"
| "editor_step cap (Ed_DeleteRange k len) (t, n) =
     (take k t @ drop (k + len) t, if n \<le> k then n else max k (n - min len (length t - k)))"
| "editor_step cap Ed_Erase (t, n) = ([], 0)"

fun composer_edit :: "TextConv \<Rightarrow> edit_op \<Rightarrow> Composer \<Rightarrow> Composer run" where
  "composer_edit tc (Ed_Type cs) c = InsertCharacter tc (Utf32ToUtf8 cs) c"
| "composer_edit tc Ed_Delete c = Composer_Delete tc c"
| "composer_edit tc Ed_Backspace c = Backspace tc c"
| "composer_edit tc Ed_Left c = Some (MoveCursorLeft tc c)"
| "composer_edit tc Ed_Right c = Some (MoveCursorRight tc c)"
| "composer_edit tc Ed_Home c = ret (MoveCursorToBeginning c)"
| "composer_edit tc Ed_End c = ret (MoveCursorToEnd tc c)"
| "composer_edit tc (Ed_Goto k) c = Some (MoveCursorTo tc k c)"
| "composer_edit tc (Ed_DeleteRange k len) c = DeleteRange tc k len c"
| "composer_edit tc Ed_Erase c = ret (EditErase c)"

fun kana_op :: "edit_op \<Rightarrow> bool" where
  "kana_op (Ed_Type cs) = list_all kana cs"
| "kana_op _ = True"

section \<open>Simulation\<close>

locale simulation =
  fixes astep :: "'op \<Rightarrow> 'a \<Rightarrow> 'a" and cstep :: "'op \<Rightarrow> 's \<Rightarrow> 's run"
    and abs :: "'s \<Rightarrow> 'a" and inv :: "'s \<Rightarrow> bool" and valid :: "'op \<Rightarrow> bool"
  assumes step: "inv s \<Longrightarrow> valid op \<Longrightarrow> \<exists>s'. cstep op s = ret s' \<and> inv s' \<and> abs s' = astep op (abs s)"
begin

fun run_steps :: "'op list \<Rightarrow> 's \<Rightarrow> 's run" where
  "run_steps [] s = ret s"
| "run_steps (op # ops) s = run_bind (cstep op s) (run_steps ops)"

lemma run_refines:
  "inv s \<Longrightarrow> list_all valid ops \<Longrightarrow>
     \<exists>s'. run_steps ops s = ret s' \<and> inv s' \<and> abs s' = fold astep ops (abs s)"
proof (induction ops arbitrary: s)
  case (Cons op ops)
  from Cons.prems step [of s op] obtain s1 where
    "cstep op s = ret s1" "inv s1" "abs s1 = astep op (abs s)" by auto
  with Cons.IH [of s1] Cons.prems show ?case by auto
qed simp

end

section \<open>One step\<close>

definition edit_inv :: "TextConv \<Rightarrow> nat \<Rightarrow> Composer \<Rightarrow> bool" where
  "edit_inv tc cap c \<longleftrightarrow> settled tc (composition c) \<and> input_t12r (composition c) = HIRAGANA \<and>
     position c \<le> length (preedit (composition c)) \<and> input_mode c = T13n_HIRAGANA \<and>
     comeback_input_mode c = T13n_HIRAGANA \<and> max_length c = cap"

definition edit_abs :: "Composer \<Rightarrow> editor" where
  "edit_abs c = (preedit (composition c), position c)"

lemma settled_GetTransliterator:
  assumes "settled tc cm" and "input_t12r cm = HIRAGANA" and "chunks cm \<noteq> []"
  shows "\<exists>t \<in> {CONVERSION_STRING, HIRAGANA}. Composition_GetTransliterator tc p cm = Inr t"
proof -
  obtain it inner where g: "GetChunkAt tc cm p LOCAL = (it, inner)" by fastforce
  have it: "it < length (chunks cm)" by (rule GetChunkAt_spec(1) [OF assms(3) g])
  then have "plain_chunk tc HIRAGANA (chunks cm ! it)"
    using assms(1,2) by (auto simp: settled_def settled_chunk_def list_all_length)
  from plain_chunk_t12r(1) [OF this] it g show ?thesis
    by (auto simp: Composition_GetTransliterator_def)
qed

lemma SetInputMode_settled [simp]:
  "input_t12r cm = t \<Longrightarrow> SetInputMode t cm = cm"
  by (simp add: SetInputMode_def)

text \<open>In hiragana mode the update of the input mode resets two flags and nothing else.\<close>

lemma UpdateInputMode_edit:
  assumes "edit_inv tc cap c"
  shows "\<exists>c'. UpdateInputMode tc c = Inr c' \<and> edit_inv tc cap c' \<and> edit_abs c' = edit_abs c"
proof -
  define flags where "flags = c\<lparr>shifted_sequence_count := 0, composer_is_new_input := True\<rparr>"
  have f: "edit_inv tc cap flags \<and> edit_abs flags = edit_abs c"
    using assms by (simp add: edit_inv_def edit_abs_def flags_def)
  have d: "Composer_SetInputMode (comeback_input_mode c) c = flags"
    using assms by (simp add: Composer_SetInputMode_def edit_inv_def flags_def)
  show ?thesis
  proof (cases "position c \<noteq> 0 \<and> update_input_mode_from_surrounding_text (request c)")
    case False
    then have "UpdateInputMode tc c = Inr flags"
      unfolding UpdateInputMode_def d by (simp only: if_False)
    with f show ?thesis by blast
  next
    case True
    then have ne: "chunks (composition c) \<noteq> []"
      using assms by (auto simp: edit_inv_def preedit_def)
    obtain t t' where t: "t \<in> {CONVERSION_STRING, HIRAGANA}"
      "Composition_GetTransliterator tc (position c) (composition c) = Inr t"
      "Composition_GetTransliterator tc (position c + 1) (composition c) = Inr t'"
      using settled_GetTransliterator [OF _ _ ne] assms by (auto simp: edit_inv_def) metis
    have m: "GetTransliterationType t (comeback_input_mode c) = T13n_HIRAGANA"
      using t(1) assms by (auto simp: GetTransliterationType_def edit_inv_def)
    have k: "c\<lparr>input_mode := T13n_HIRAGANA, shifted_sequence_count := 0, composer_is_new_input := True,
        composition := SetInputMode HIRAGANA (composition c)\<rparr> = flags"
      using assms by (simp add: edit_inv_def flags_def)
    have "UpdateInputMode tc c = Inr flags"
      unfolding UpdateInputMode_def if_P [OF True] t(2,3) res_bind_simps m Let_def d
      using k by simp
    with f show ?thesis by blast
  qed
qed

lemma edit_inv_set:
  assumes "edit_inv tc cap c" and "settled tc cm" and "same_frame (composition c) cm" and "p \<le> length (preedit cm)"
    and "composition c' = cm" "position c' = p" "input_mode c' = input_mode c"
      "comeback_input_mode c' = comeback_input_mode c" "max_length c' = max_length c"
  shows "edit_inv tc cap c' \<and> edit_abs c' = (preedit cm, p)"
  using assms by (simp add: edit_inv_def edit_abs_def same_frame_def)

lemma edit_inv_simps:
  assumes "edit_inv tc cap c"
  shows "settled tc (composition c)" "input_t12r (composition c) = HIRAGANA"
    "position c \<le> length (preedit (composition c))" "max_length c = cap"
    "Composition_GetLength tc (composition c) = length (preedit (composition c))"
  using assms settled_GetLength by (auto simp: edit_inv_def)

text \<open>The result of a step: it returns, keeps the invariant and does what the editor does.\<close>

abbreviation does :: "TextConv \<Rightarrow> nat \<Rightarrow> Composer run \<Rightarrow> editor \<Rightarrow> bool" where
  "does tc cap m e \<equiv> \<exists>c'. m = ret c' \<and> edit_inv tc cap c' \<and> edit_abs c' = e"

lemma does_UpdateInputMode:
  assumes "edit_inv tc cap c"
  shows "does tc cap (Some (UpdateInputMode tc c)) (edit_abs c)"
  using UpdateInputMode_edit [OF assms] by auto

lemma does_bind:
  assumes "does tc cap m e" and "\<And>c'. edit_inv tc cap c' \<Longrightarrow> edit_abs c' = e \<Longrightarrow> does tc cap (f c') e'"
  shows "does tc cap (run_bind m f) e'"
  using assms by auto

lemma does_SetInputMode:
  assumes "edit_inv tc cap c" 
  shows "does tc cap (ret (Composer_SetInputMode (comeback_input_mode c) c)) (edit_abs c)"
  using assms by (simp add: Composer_SetInputMode_def edit_inv_def edit_abs_def)

lemma does_position:
  assumes "edit_inv tc cap c" and "p \<le> length (preedit (composition c))"
  shows "edit_inv tc cap (c\<lparr>position := p\<rparr>)" and "edit_abs (c\<lparr>position := p\<rparr>) = (fst (edit_abs c), p)"
  using assms by (simp_all add: edit_inv_def edit_abs_def)

lemma does_type:
  assumes c: "edit_inv tc cap c" and cs: "list_all kana cs"
  shows "does tc cap (InsertCharacter tc (Utf32ToUtf8 cs) c) (editor_step cap (Ed_Type cs) (edit_abs c))"
proof (cases "EnableInsert tc c")
  case False
  with c show ?thesis
    by (simp add: InsertCharacter_def ProcessCompositionInput_def edit_abs_def EnableInsert_def
        Composer_GetLength_def edit_inv_simps [OF c])
next
  case True
  then have len: "length (preedit (composition c)) < cap"
    using edit_inv_simps [OF c] by (simp add: EnableInsert_def Composer_GetLength_def)
  define input where "input = InitFromRaw (Utf32ToUtf8 cs) (composer_is_new_input c) empty_input"
  have i: "input_conversion input = []" "input_raw input = Utf32ToUtf8 cs"
    by (simp_all add: input_def InitFromRaw_def empty_input_def)
  have run: "InsertCharacter tc (Utf32ToUtf8 cs) c = insert_input tc input c"
    using True by (cases "insert_input tc input c") (auto simp: InsertCharacter_def ProcessCompositionInput_def
        input_def run_bind_def split: sum.splits)
  note inv = edit_inv_simps [OF c]
  have ty: "list_all (typable (input_t12r (composition c))) cs"
    using cs inv(2) kana_vis by (auto simp: typable_def list_all_iff)
  obtain cm' where "InsertInput tc (position c) input (composition c) = ret (position c + length cs, cm')"
    "settled tc cm'" "same_frame (composition c) cm'"
    "preedit cm' = take (position c) (preedit (composition c)) @ cs @ drop (position c) (preedit (composition c))"
  proof (cases "cs = []")
    case True
    then have "input_Empty input" using i by (simp add: input_Empty_def)
    then show ?thesis using that [of "composition c"] inv True by (simp add: InsertInput_def same_frame_def)
  next
    case False
    from InsertInput_settled [OF inv(1,3) False ty i] show ?thesis using that by blast
  qed
  then show ?thesis unfolding run insert_input_def using len
      edit_inv_set [OF c, of cm' "position c + length cs"] inv(3)
    by (simp add: edit_abs_def)
qed

lemma composition_DeleteAt_edit:
  assumes c: "edit_inv tc cap c" and p: "p \<le> length (preedit (composition c))"
  shows "\<exists>cm'. composition_DeleteAt tc p c = ret (p, c\<lparr>composition := cm'\<rparr>) \<and> settled tc cm' \<and>
    same_frame (composition c) cm' \<and> preedit cm' = take p (preedit (composition c)) @ drop (Suc p) (preedit (composition c))"
proof (cases "p = length (preedit (composition c))")
  case True
  from DeleteAt_end_settled [OF edit_inv_simps(1) [OF c]] True show ?thesis
    by (auto simp: composition_DeleteAt_def)
next
  case False
  from DeleteAt_settled [OF edit_inv_simps(1) [OF c], of p] False p show ?thesis
    by (auto simp: composition_DeleteAt_def)
qed

lemma does_delete:
  assumes c: "edit_inv tc cap c"
  shows "does tc cap (Composer_Delete tc c) (editor_step cap Ed_Delete (edit_abs c))"
proof -
  note inv = edit_inv_simps [OF c]
  obtain cm' where d: "composition_DeleteAt tc (position c) c = ret (position c, c\<lparr>composition := cm'\<rparr>)"
    "settled tc cm'" "same_frame (composition c) cm'"
    "preedit cm' = take (position c) (preedit (composition c)) @ drop (Suc (position c)) (preedit (composition c))"
    using composition_DeleteAt_edit [OF c inv(3)] by blast
  from edit_inv_set [OF c d(2,3), of "position c" "c\<lparr>composition := cm', position := position c\<rparr>"] inv(3) d(4)
  have "edit_inv tc cap (c\<lparr>composition := cm', position := position c\<rparr>) \<and>
      edit_abs (c\<lparr>composition := cm', position := position c\<rparr>) = editor_step cap Ed_Delete (edit_abs c)"
    by (simp add: edit_abs_def)
  with does_UpdateInputMode show ?thesis unfolding Composer_Delete_def d(1) by fastforce
qed

lemma does_backspace:
  assumes c: "edit_inv tc cap c"
  shows "does tc cap (Backspace tc c) (editor_step cap Ed_Backspace (edit_abs c))"
proof (cases "position c = 0")
  case True
  with c show ?thesis by (simp add: Backspace_def edit_abs_def)
next
  case False
  note inv = edit_inv_simps [OF c]
  define n where "n = position c - 1"
  have n: "n < length (preedit (composition c))" "position c = Suc n" using False inv(3) by (simp_all add: n_def)
  then obtain c1 where u: "UpdateInputMode tc (c\<lparr>position := n\<rparr>) = Inr c1" "edit_inv tc cap c1"
    "edit_abs c1 = (preedit (composition c), n)"
    using UpdateInputMode_edit [OF does_position(1) [OF c, of n]] does_position(2) [OF c, of n]
    by (auto simp: edit_abs_def)
  then have c1: "preedit (composition c1) = preedit (composition c)" "position c1 = n" by (simp_all add: edit_abs_def)
  obtain cm' where d: "composition_DeleteAt tc n c1 = ret (n, c1\<lparr>composition := cm'\<rparr>)"
    "settled tc cm'" "same_frame (composition c1) cm'"
    "preedit cm' = take n (preedit (composition c)) @ drop (Suc n) (preedit (composition c))"
    using composition_DeleteAt_edit [OF u(2), of n] n c1 by auto
  from edit_inv_set [OF u(2) d(2,3), of n "c1\<lparr>composition := cm', position := n\<rparr>"] d(4) n
  show ?thesis unfolding Backspace_def using False n u(1) c1 d(1)
    by (simp add: n_def [symmetric] edit_abs_def)
qed

lemma does_left:
  assumes c: "edit_inv tc cap c"
  shows "does tc cap (Some (MoveCursorLeft tc c)) (editor_step cap Ed_Left (edit_abs c))"
proof -
  have "edit_inv tc cap (if position c > 0 then c\<lparr>position := position c - 1\<rparr> else c) \<and>
    edit_abs (if position c > 0 then c\<lparr>position := position c - 1\<rparr> else c) = editor_step cap Ed_Left (edit_abs c)"
    using does_position [OF c, of "position c - 1"] c edit_inv_simps(3) [OF c] by (auto simp: edit_abs_def)
  then show ?thesis unfolding MoveCursorLeft_def using does_UpdateInputMode by metis
qed

lemma does_right:
  assumes c: "edit_inv tc cap c"
  shows "does tc cap (Some (MoveCursorRight tc c)) (editor_step cap Ed_Right (edit_abs c))"
proof -
  let ?c = "if position c < Composition_GetLength tc (composition c) then c\<lparr>position := position c + 1\<rparr> else c"
  have "edit_inv tc cap ?c \<and> edit_abs ?c = editor_step cap Ed_Right (edit_abs c)"
    using does_position [OF c, of "position c + 1"] c edit_inv_simps(3,5) [OF c] by (auto simp: edit_abs_def)
  then show ?thesis unfolding MoveCursorRight_def using does_UpdateInputMode by metis
qed

lemma does_goto:
  assumes c: "edit_inv tc cap c"
  shows "does tc cap (Some (MoveCursorTo tc k c)) (editor_step cap (Ed_Goto k) (edit_abs c))"
proof (cases "k \<le> Composition_GetLength tc (composition c)")
  case True
  then have "does tc cap (Some (UpdateInputMode tc (c\<lparr>position := k\<rparr>))) (fst (edit_abs c), k)"
    using does_UpdateInputMode [OF does_position(1) [OF c, of k]] does_position(2) [OF c, of k]
      edit_inv_simps(5) [OF c] by simp
  then show ?thesis using True edit_inv_simps(5) [OF c] by (simp add: MoveCursorTo_def edit_abs_def)
next
  case False
  then show ?thesis using c edit_inv_simps(5) [OF c] by (simp add: MoveCursorTo_def edit_abs_def)
qed

lemma does_home_end:
  assumes c: "edit_inv tc cap c"
  shows "does tc cap (ret (MoveCursorToBeginning c)) (editor_step cap Ed_Home (edit_abs c))"
    and "does tc cap (ret (MoveCursorToEnd tc c)) (editor_step cap Ed_End (edit_abs c))"
proof -
  show "does tc cap (ret (MoveCursorToBeginning c)) (editor_step cap Ed_Home (edit_abs c))"
    using does_SetInputMode [OF does_position(1) [OF c, of 0]]
    by (simp add: MoveCursorToBeginning_def edit_abs_def)
  show "does tc cap (ret (MoveCursorToEnd tc c)) (editor_step cap Ed_End (edit_abs c))"
    using does_SetInputMode [OF does_position(1) [OF c, of "length (preedit (composition c))"]]
      edit_inv_simps(5) [OF c]
    by (simp add: MoveCursorToEnd_def edit_abs_def)
qed

lemma does_erase:
  assumes c: "edit_inv tc cap c"
  shows "does tc cap (ret (EditErase c)) (editor_step cap Ed_Erase (edit_abs c))"
proof -
  have "edit_inv tc cap (c\<lparr>composition := Erase (composition c), position := 0\<rparr>)"
    using c by (auto simp: edit_inv_def Erase_def settled_def preedit_def)
  from does_SetInputMode [OF this] show ?thesis
    by (simp add: EditErase_def edit_abs_def Erase_def preedit_def)
qed

lemma does_DeleteAt:
  assumes c: "edit_inv tc cap c" and k: "k < length (preedit (composition c))"
  shows "does tc cap (Composer_DeleteAt tc k c)
    (take k (fst (edit_abs c)) @ drop (Suc k) (fst (edit_abs c)),
     if k < snd (edit_abs c) then snd (edit_abs c) - 1 else snd (edit_abs c))"
proof -
  obtain cm' where d: "composition_DeleteAt tc k c = ret (k, c\<lparr>composition := cm'\<rparr>)"
    "settled tc cm'" "same_frame (composition c) cm'"
    "preedit cm' = take k (preedit (composition c)) @ drop (Suc k) (preedit (composition c))"
    using composition_DeleteAt_edit [OF c, of k] k by auto
  define n where "n = (if k < position c then position c - 1 else position c)"
  have "n \<le> length (preedit cm')" using d(4) k edit_inv_simps(3) [OF c] by (auto simp: n_def)
  from edit_inv_set [OF c d(2,3) this, of "c\<lparr>composition := cm', position := n\<rparr>"] d(4)
  show ?thesis unfolding Composer_DeleteAt_def d(1)
    by (cases "k < position c") (simp_all add: n_def edit_abs_def)
qed

lemma does_range:
  assumes "edit_inv tc cap c"
  shows "does tc cap (DeleteRange tc k len c) (editor_step cap (Ed_DeleteRange k len) (edit_abs c))"
  using assms
proof (induction len arbitrary: c)
  case 0
  then show ?case using edit_inv_simps(3) [of tc cap c] by (auto simp: edit_abs_def)
next
  case (Suc len)
  note inv = edit_inv_simps [OF Suc.prems]
  show ?case
  proof (cases "k < length (preedit (composition c))")
    case False
    then show ?thesis using Suc.prems inv by (auto simp: edit_abs_def)
  next
    case True
    define t where "t = preedit (composition c)"
    define n where "n = position c"
    from does_DeleteAt [OF Suc.prems True] obtain c1 where c1: "Composer_DeleteAt tc k c = ret c1" "edit_inv tc cap c1"
      "edit_abs c1 = (take k t @ drop (Suc k) t, if k < n then n - 1 else n)"
      by (auto simp: edit_abs_def t_def n_def)
    have "editor_step cap (Ed_DeleteRange k len) (edit_abs c1) = editor_step cap (Ed_DeleteRange k (Suc len)) (t, n)"
      using True inv(3) unfolding c1(3) by (auto simp: t_def [symmetric] n_def [symmetric] min_def max_def add.commute)
    with Suc.IH [OF c1(2)] c1(1) True inv(5) show ?thesis by (simp add: edit_abs_def t_def n_def)
  qed
qed

section \<open>Any sequence of operations\<close>

interpretation ed: simulation "editor_step cap" "composer_edit tc" edit_abs "edit_inv tc cap" kana_op for cap tc
proof
  fix s op
  assume "edit_inv tc cap s" "kana_op op"
  then show "does tc cap (composer_edit tc op s) (editor_step cap op (edit_abs s))"
    using does_type [of tc cap s] does_delete [of tc cap s] does_backspace [of tc cap s]
      does_left [of tc cap s] does_right [of tc cap s] does_home_end [of tc cap s] does_goto [of tc cap s]
      does_range [of tc cap s] does_erase [of tc cap s]
    by (cases op) (simp_all del: editor_step.simps)
qed

fun run_edits :: "TextConv \<Rightarrow> edit_op list \<Rightarrow> Composer \<Rightarrow> Composer run" where
  "run_edits tc [] c = ret c"
| "run_edits tc (op # ops) c = run_bind (composer_edit tc op c) (run_edits tc ops)"

lemma run_edits_run_steps: "run_edits tc ops c = ed.run_steps tc ops c"
  by (induction ops arbitrary: c) (auto simp: run_bind_def split: option.splits sum.splits)

lemma edit_inv_new:
  assumes "shows_as_is tc HIRAGANA" and "quiet HIRAGANA (snd t)"
  shows "edit_inv tc 256 (new_Composer tc t r cfg)" and "edit_abs (new_Composer tc t r cfg) = ([], 0)"
  using assms
  by (simp_all add: edit_inv_def edit_abs_def new_Composer_def Composer_Reset_def EditErase_def ResetInputMode_def
      Composer_SetInputMode_def SetOutputMode_def SetTransliterator_def Erase_def SetInputMode_def Let_def
      kMaxPreeditLength_def settled_def preedit_def new_Composition_def Composition_GetLength_def GetPosition_def
      position_of_def)

text \<open>C1: The composer refines a text editor: in hiragana mode, over a table without rules that start with
  kana, every sequence of typing, deleting and moving on a new composer returns without error, shows
  exactly the text of a line editor that did the same operations, with the cursor at the same place,
  and types nothing once 256 characters are there.\<close>

theorem composer_refines_editor:
  assumes "shows_as_is tc HIRAGANA" and "quiet HIRAGANA (snd t)" and "list_all kana_op ops"
  shows "\<exists>c. run_edits tc ops (new_Composer tc t r cfg) = ret c \<and>
    GetString tc (composition c) = Utf32ToUtf8 (fst (fold (editor_step 256) ops ([], 0))) \<and>
    position c = snd (fold (editor_step 256) ops ([], 0)) \<and>
    position c \<le> Composer_GetLength tc c \<and> Composer_GetLength tc c = length (fst (fold (editor_step 256) ops ([], 0)))"
proof -
  note new = edit_inv_new [OF assms(1,2), of r cfg]
  obtain c where c: "run_edits tc ops (new_Composer tc t r cfg) = ret c" "edit_inv tc 256 c"
    "edit_abs c = fold (editor_step 256) ops ([], 0)"
    using ed.run_refines [OF new(1) assms(3)] unfolding run_edits_run_steps new(2) by blast
  have "preedit (composition c) = fst (fold (editor_step 256) ops ([], 0))" "position c = snd (fold (editor_step 256) ops ([], 0))"
    using c(3) by (simp_all add: edit_abs_def flip: c(3))
  with c(1) edit_inv_simps [OF c(2)] settled_GetString show ?thesis
    by (auto simp: Composer_GetLength_def)
qed

theorem composer_refines_editor_witness:
  "\<exists>c. run_edits id_conv [Ed_Type [0x3042, 0x3044, 0x3046], Ed_Left, Ed_Backspace, Ed_Type [0x304B], Ed_DeleteRange 2 5]
        (new_Composer id_conv (0, new_Table) \<lparr>update_input_mode_from_surrounding_text = True\<rparr>
          \<lparr>shift_key_mode_switch = ASCII_INPUT_MODE, composing_timeout_threshold_msec = 0,
           auto_switch_composition_mode = True, preedit_method = ROMAN\<rparr>) = ret c \<and>
     GetString id_conv (composition c) = Utf32ToUtf8 [0x3042, 0x304B] \<and> position c = 2"
proof -
  have "entries new_Table = empty_trie" by (simp add: new_Table_def)
  then have q: "quiet HIRAGANA (snd (0, new_Table))" by (simp add: quiet_no_rules)
  have s: "shows_as_is id_conv HIRAGANA" by (simp add: shows_as_is_def id_conv_def)
  from composer_refines_editor [OF s q, of "[Ed_Type [0x3042, 0x3044, 0x3046], Ed_Left, Ed_Backspace, Ed_Type [0x304B],
      Ed_DeleteRange 2 5]"] show ?thesis
    by (simp add: kana_def numeral_2_eq_2 del: run_edits.simps) blast
qed

end
