(* ===== verification/Number_Row.thy ===== *)
theory Number_Row
  imports Key_Event
begin

text \<open>
  \<open>session/marina_number_row_bindings_util.cc\<close>: the six configurable shortcuts on the number row. A binding
  sends a chord (a modifier and a physical key) to an action; the configuration holds a list of them, checked
  by \<open>ValidateMarinaNumberRowBindings\<close>. The enumerations of \<open>protocol/config.proto\<close> are closed, so the
  \<open>default\<close> labels of the switches over them are not reached.
\<close>

section \<open>The data\<close>

datatype MarinaNumberRowAction =
    MARINA_NR_ODORIJI_DEFAULT | MARINA_NR_ODORIJI_PALETTE | MARINA_NR_TRADITIONAL_KANJI
  | MARINA_NR_MANYOSHU_HIRAGANA | MARINA_NR_HIRAGANA_DIRECT | MARINA_NR_WORD_REGISTER

datatype MarinaShortcutModifier = MARINA_MOD_CTRL | MARINA_MOD_CTRL_SHIFT

datatype MarinaPhysicalSlot =
    MARINA_SLOT_1 | MARINA_SLOT_2 | MARINA_SLOT_3 | MARINA_SLOT_4 | MARINA_SLOT_5 | MARINA_SLOT_6
  | MARINA_SLOT_7 | MARINA_SLOT_8 | MARINA_SLOT_9 | MARINA_SLOT_0 | MARINA_SLOT_GRAVE

text \<open>An unset field reads as its default: the first value of the enumeration, or the one the field declares.\<close>

record MarinaNumberRowBinding =
  nr_action :: "MarinaNumberRowAction option"
  nr_modifier :: "MarinaShortcutModifier option"
  nr_slot :: "MarinaPhysicalSlot option"

definition binding_action :: "MarinaNumberRowBinding \<Rightarrow> MarinaNumberRowAction" where
  "binding_action b = (case nr_action b of Some a \<Rightarrow> a | None \<Rightarrow> MARINA_NR_ODORIJI_DEFAULT)"

definition binding_modifier :: "MarinaNumberRowBinding \<Rightarrow> MarinaShortcutModifier" where
  "binding_modifier b = (case nr_modifier b of Some m \<Rightarrow> m | None \<Rightarrow> MARINA_MOD_CTRL_SHIFT)"

definition binding_slot :: "MarinaNumberRowBinding \<Rightarrow> MarinaPhysicalSlot" where
  "binding_slot b = (case nr_slot b of Some s \<Rightarrow> s | None \<Rightarrow> MARINA_SLOT_1)"

definition MakeBinding ::
    "MarinaNumberRowAction \<Rightarrow> MarinaShortcutModifier \<Rightarrow> MarinaPhysicalSlot \<Rightarrow> MarinaNumberRowBinding" where
  "MakeBinding a m s = \<lparr>nr_action = Some a, nr_modifier = Some m, nr_slot = Some s\<rparr>"

definition GetDefaultMarinaNumberRowBindings :: "MarinaNumberRowBinding list" where
  "GetDefaultMarinaNumberRowBindings =
     [MakeBinding MARINA_NR_ODORIJI_DEFAULT MARINA_MOD_CTRL_SHIFT MARINA_SLOT_1,
      MakeBinding MARINA_NR_ODORIJI_PALETTE MARINA_MOD_CTRL_SHIFT MARINA_SLOT_2,
      MakeBinding MARINA_NR_TRADITIONAL_KANJI MARINA_MOD_CTRL_SHIFT MARINA_SLOT_3,
      MakeBinding MARINA_NR_MANYOSHU_HIRAGANA MARINA_MOD_CTRL_SHIFT MARINA_SLOT_4,
      MakeBinding MARINA_NR_HIRAGANA_DIRECT MARINA_MOD_CTRL_SHIFT MARINA_SLOT_5,
      MakeBinding MARINA_NR_WORD_REGISTER MARINA_MOD_CTRL_SHIFT MARINA_SLOT_0]"

text \<open>Of the configuration only the field \<open>marina_number_row_bindings\<close> is read.\<close>

definition GetEffectiveMarinaNumberRowBindings :: "MarinaNumberRowBinding list \<Rightarrow> MarinaNumberRowBinding list" where
  "GetEffectiveMarinaNumberRowBindings config =
     (if config = [] then GetDefaultMarinaNumberRowBindings else config)"

section \<open>Validation\<close>

fun slot_label :: "MarinaPhysicalSlot \<Rightarrow> char" where
  "slot_label MARINA_SLOT_1 = CHR ''1''"
| "slot_label MARINA_SLOT_2 = CHR ''2''"
| "slot_label MARINA_SLOT_3 = CHR ''3''"
| "slot_label MARINA_SLOT_4 = CHR ''4''"
| "slot_label MARINA_SLOT_5 = CHR ''5''"
| "slot_label MARINA_SLOT_6 = CHR ''6''"
| "slot_label MARINA_SLOT_7 = CHR ''7''"
| "slot_label MARINA_SLOT_8 = CHR ''8''"
| "slot_label MARINA_SLOT_9 = CHR ''9''"
| "slot_label MARINA_SLOT_0 = CHR ''0''"
| "slot_label MARINA_SLOT_GRAVE = CHR ''`''"

definition FormatMarinaBindingLabel :: "MarinaNumberRowBinding \<Rightarrow> bytes" where
  "FormatMarinaBindingLabel b =
     (if binding_modifier b = MARINA_MOD_CTRL_SHIFT then ''Ctrl Shift '' else ''Ctrl '') @
     [slot_label (binding_slot b)]"

text \<open>The loop of the validation; the two sets of the code are lists.\<close>

fun validate_loop ::
    "MarinaNumberRowBinding list \<Rightarrow> MarinaNumberRowAction list \<Rightarrow>
     (MarinaShortcutModifier \<times> MarinaPhysicalSlot) list \<Rightarrow> bytes + MarinaNumberRowAction list" where
  "validate_loop [] actions slots = Inr actions"
| "validate_loop (b # bs) actions slots =
     (if nr_action b = None \<or> nr_slot b = None
      then Inl ''Each binding must specify an action and a slot.''
      else
        let slot_key = (binding_modifier b, binding_slot b)
        in if List.member slots slot_key
           then Inl (''Duplicate shortcut: '' @ FormatMarinaBindingLabel b)
           else validate_loop bs (List.insert (binding_action b) actions) (slot_key # slots))"

definition kRequired :: "MarinaNumberRowAction list" where
  "kRequired = [MARINA_NR_ODORIJI_DEFAULT, MARINA_NR_ODORIJI_PALETTE, MARINA_NR_TRADITIONAL_KANJI,
     MARINA_NR_MANYOSHU_HIRAGANA, MARINA_NR_HIRAGANA_DIRECT, MARINA_NR_WORD_REGISTER]"

definition ValidateMarinaNumberRowBindings :: "MarinaNumberRowBinding list \<Rightarrow> bytes + unit" where
  "ValidateMarinaNumberRowBindings bindings =
     (if length bindings \<noteq> 6 then Inl ''Expected exactly six shortcut bindings.''
      else case validate_loop bindings [] [] of
             Inl e \<Rightarrow> Inl e
           | Inr actions \<Rightarrow>
               if list_all (\<lambda>required. required \<in> set actions) kRequired then Inr ()
               else Inl ''Missing binding for a required action.'')"

section \<open>The rows of a key map the bindings replace\<close>

definition kCtrlShiftKeys :: "bytes list" where
  "kCtrlShiftKeys =
     [''Ctrl Shift 1'', ''Ctrl Shift !'', ''Ctrl Shift 2'', ''Ctrl Shift @'',
      ''Ctrl Shift 3'', ''Ctrl Shift #'', ''Ctrl Shift 4'', ''Ctrl Shift $'',
      ''Ctrl Shift 5'', ''Ctrl Shift %'', ''Ctrl Shift '' @ [CHR 0xC2, CHR 0xB2]]"

definition IsCtrlShiftNumberRowKeyName :: "bytes \<Rightarrow> bool" where
  "IsCtrlShiftNumberRowKeyName key \<longleftrightarrow> key \<in> set kCtrlShiftKeys"

definition IsMarinaNumberRowCommandName :: "bytes \<Rightarrow> bool" where
  "IsMarinaNumberRowCommandName command_name \<longleftrightarrow>
     command_name = ''InsertOdorijiDefault'' \<or> command_name = ''ShowOdorijiPalette'' \<or>
     command_name = ''ToggleTraditionalKanji'' \<or> command_name = ''ToggleManyoshuHiragana'' \<or>
     command_name = ''ToggleHiraganaDirect''"

definition IsMarinaNumberRowKeymapBinding :: "bytes \<Rightarrow> bytes \<Rightarrow> bool" where
  "IsMarinaNumberRowKeymapBinding command_name key_event_name =
     (if command_name = ''LaunchWordRegisterDialog''
      then key_event_name = ''Ctrl 0'' \<or> key_event_name = ''Ctrl Shift 0''
      else if command_name = ''IMEOn''
      then IsCtrlShiftNumberRowKeyName key_event_name \<and>
           (key_event_name = ''Ctrl Shift 5'' \<or> key_event_name = ''Ctrl Shift %'' \<or>
            key_event_name = ''Ctrl Shift '' @ [CHR 0xC2, CHR 0xB2])
      else if \<not> IsMarinaNumberRowCommandName command_name then False
      else IsCtrlShiftNumberRowKeyName key_event_name)"

section \<open>Finding the action of a key\<close>

definition BindingMatchesPhysicalSlot ::
    "MarinaNumberRowBinding \<Rightarrow> MarinaShortcutModifier \<Rightarrow> MarinaPhysicalSlot \<Rightarrow> bool" where
  "BindingMatchesPhysicalSlot b m s \<longleftrightarrow> nr_slot b \<noteq> None \<and> binding_modifier b = m \<and> binding_slot b = s"

definition FindMarinaActionForPhysicalSlot ::
    "MarinaNumberRowBinding list \<Rightarrow> MarinaShortcutModifier \<Rightarrow> MarinaPhysicalSlot \<Rightarrow> MarinaNumberRowAction option" where
  "FindMarinaActionForPhysicalSlot config m s =
     map_option binding_action
       (find (\<lambda>b. BindingMatchesPhysicalSlot b m s) (GetEffectiveMarinaNumberRowBindings config))"

definition digit_slots :: "MarinaPhysicalSlot list" where
  "digit_slots = [MARINA_SLOT_1, MARINA_SLOT_2, MARINA_SLOT_3, MARINA_SLOT_4, MARINA_SLOT_5,
     MARINA_SLOT_6, MARINA_SLOT_7, MARINA_SLOT_8, MARINA_SLOT_9]"

definition PhysicalSlotFromKeyCode :: "32 word \<Rightarrow> MarinaPhysicalSlot option" where
  "PhysicalSlotFromKeyCode c =
     (if 0x31 \<le> c \<and> c \<le> 0x39 then Some (digit_slots ! unat (c - 0x31))
      else if c = 0x30 then Some MARINA_SLOT_0
      else if c = 0x60 \<or> c = 0x7E then Some MARINA_SLOT_GRAVE
      else None)"

definition KeyEventHasCtrlOnly :: "KeyEvent \<Rightarrow> bool" where
  "KeyEventHasCtrlOnly e =
     (if key_code e = None then False
      else GetModifiers e AND kCtrlMask \<noteq> 0 \<and> GetModifiers e AND kShiftMask = 0 \<and>
           GetModifiers e AND kAltMask = 0)"

definition KeyEventHasCtrlShiftOnly :: "KeyEvent \<Rightarrow> bool" where
  "KeyEventHasCtrlShiftOnly e =
     (if key_code e = None then False
      else GetModifiers e AND kCtrlMask \<noteq> 0 \<and> GetModifiers e AND kShiftMask \<noteq> 0 \<and>
           GetModifiers e AND kAltMask = 0)"

definition ModifierFromKeyEvent :: "KeyEvent \<Rightarrow> MarinaShortcutModifier" where
  "ModifierFromKeyEvent e =
     (if KeyEventHasCtrlShiftOnly e then MARINA_MOD_CTRL_SHIFT
      else if KeyEventHasCtrlOnly e then MARINA_MOD_CTRL
      else MARINA_MOD_CTRL_SHIFT)"

definition FindMarinaActionForKeyEvent :: "MarinaNumberRowBinding list \<Rightarrow> KeyEvent \<Rightarrow> MarinaNumberRowAction option" where
  "FindMarinaActionForKeyEvent config e =
     (case key_code e of
        None \<Rightarrow> None
      | Some c \<Rightarrow>
          case PhysicalSlotFromKeyCode c of
            None \<Rightarrow> None
          | Some slot \<Rightarrow>
              if \<not> KeyEventHasCtrlOnly e \<and> \<not> KeyEventHasCtrlShiftOnly e then None
              else FindMarinaActionForPhysicalSlot config (ModifierFromKeyEvent e) slot)"

section \<open>Names and the list of shortcuts\<close>

fun MarinaActionToKeymapCommandName :: "MarinaNumberRowAction \<Rightarrow> bytes" where
  "MarinaActionToKeymapCommandName MARINA_NR_ODORIJI_DEFAULT = ''InsertOdorijiDefault''"
| "MarinaActionToKeymapCommandName MARINA_NR_ODORIJI_PALETTE = ''ShowOdorijiPalette''"
| "MarinaActionToKeymapCommandName MARINA_NR_TRADITIONAL_KANJI = ''ToggleTraditionalKanji''"
| "MarinaActionToKeymapCommandName MARINA_NR_MANYOSHU_HIRAGANA = ''ToggleManyoshuHiragana''"
| "MarinaActionToKeymapCommandName MARINA_NR_HIRAGANA_DIRECT = ''ToggleHiraganaDirect''"
| "MarinaActionToKeymapCommandName MARINA_NR_WORD_REGISTER = ''LaunchWordRegisterDialog''"

fun PhysicalSlotShiftedLabel :: "MarinaPhysicalSlot \<Rightarrow> bytes" where
  "PhysicalSlotShiftedLabel MARINA_SLOT_1 = ''!''"
| "PhysicalSlotShiftedLabel MARINA_SLOT_2 = ''@''"
| "PhysicalSlotShiftedLabel MARINA_SLOT_3 = ''#''"
| "PhysicalSlotShiftedLabel MARINA_SLOT_4 = ''$''"
| "PhysicalSlotShiftedLabel MARINA_SLOT_5 = ''%''"
| "PhysicalSlotShiftedLabel MARINA_SLOT_6 = ''^''"
| "PhysicalSlotShiftedLabel MARINA_SLOT_7 = ''&''"
| "PhysicalSlotShiftedLabel MARINA_SLOT_8 = ''*''"
| "PhysicalSlotShiftedLabel MARINA_SLOT_9 = ''(''"
| "PhysicalSlotShiftedLabel MARINA_SLOT_0 = '')''"
| "PhysicalSlotShiftedLabel MARINA_SLOT_GRAVE = ''~''"

definition IsMarinaToolbarScriptCommand :: "bytes \<Rightarrow> bool" where
  "IsMarinaToolbarScriptCommand command_name \<longleftrightarrow>
     command_name = ''ToggleHiraganaDirect'' \<or> command_name = ''ToggleTraditionalKanji'' \<or>
     command_name = ''ToggleManyoshuHiragana''"

definition IsMarinaToolbarCompositionCommand :: "bytes \<Rightarrow> bool" where
  "IsMarinaToolbarCompositionCommand command_name \<longleftrightarrow>
     command_name = ''LaunchWordRegisterDialog'' \<or> command_name = ''InsertOdorijiDefault'' \<or>
     command_name = ''ShowOdorijiPalette''"

type_synonym ShortcutEntry = "bytes \<times> bytes"

definition add_binding_row ::
    "MarinaNumberRowBinding \<Rightarrow> ShortcutEntry list \<times> ShortcutEntry list \<Rightarrow> ShortcutEntry list \<times> ShortcutEntry list" where
  "add_binding_row b = (\<lambda>(script, composition).
     let command_name = MarinaActionToKeymapCommandName (binding_action b);
         entry = (FormatMarinaBindingLabel b, command_name)
     in if IsMarinaToolbarScriptCommand command_name then (script @ [entry], composition)
        else if IsMarinaToolbarCompositionCommand command_name then (script, composition @ [entry])
        else (script, composition))"

definition ApplyMarinaNumberRowShortcutEntries ::
    "MarinaNumberRowBinding list \<Rightarrow> ShortcutEntry list \<times> ShortcutEntry list \<Rightarrow>
     ShortcutEntry list \<times> ShortcutEntry list" where
  "ApplyMarinaNumberRowShortcutEntries config = (\<lambda>(script, composition).
     let keep = filter (\<lambda>e. \<not> IsMarinaNumberRowKeymapBinding (snd e) (fst e))
     in fold add_binding_row (GetEffectiveMarinaNumberRowBindings config) (keep script, keep composition))"

section \<open>Properties\<close>

text \<open>A chord is a modifier and a slot; a validated list of bindings has each chord once.\<close>

abbreviation chord :: "MarinaNumberRowBinding \<Rightarrow> MarinaShortcutModifier \<times> MarinaPhysicalSlot" where
  "chord b \<equiv> (binding_modifier b, binding_slot b)"

lemma validate_loop_sound:
  assumes "validate_loop bs actions slots = Inr actions'"
  shows "list_all (\<lambda>b. nr_action b \<noteq> None \<and> nr_slot b \<noteq> None) bs \<and> distinct (map chord bs) \<and>
    set (map chord bs) \<inter> set slots = {} \<and> set actions' = set actions \<union> set (map binding_action bs)"
  using assms
proof (induction bs arbitrary: actions slots)
  case (Cons b bs)
  let ?slots = "chord b # slots" and ?actions = "List.insert (binding_action b) actions"
  have b: "nr_action b \<noteq> None" "nr_slot b \<noteq> None" "chord b \<notin> set slots"
    and r: "validate_loop bs ?actions ?slots = Inr actions'"
    using Cons.prems by (auto simp: Let_def split: if_splits)
  from Cons.IH [OF r] show ?case using b by (auto simp del: not_None_eq)
qed simp

lemma actions_required: "set kRequired = UNIV"
  by (auto simp: kRequired_def intro: MarinaNumberRowAction.exhaust)

lemma Validate_sound:
  assumes "ValidateMarinaNumberRowBindings bs = Inr ()"
  shows "list_all (\<lambda>b. nr_slot b \<noteq> None) bs" "distinct (map chord bs)" "distinct (map binding_action bs)"
    "set (map binding_action bs) = UNIV" "bs \<noteq> []"
proof -
  from assms obtain actions where len: "length bs = 6" and l: "validate_loop bs [] [] = Inr actions"
    and all: "set kRequired \<subseteq> set actions"
    by (auto simp: ValidateMarinaNumberRowBindings_def list_all_iff split: if_splits sum.splits)
  note s = validate_loop_sound [OF l]
  show "list_all (\<lambda>b. nr_slot b \<noteq> None) bs" "distinct (map chord bs)" "bs \<noteq> []"
    using s len by (auto simp: list_all_iff)
  show u: "set (map binding_action bs) = UNIV" using s all by (simp add: actions_required top.extremum_unique)
  have "card (set kRequired) = 6" by (simp add: kRequired_def)
  then show "distinct (map binding_action bs)" using u len by (intro card_distinct) (simp add: actions_required)
qed

lemma find_chord:
  assumes "distinct (map chord bs)" and "list_all (\<lambda>b. nr_slot b \<noteq> None) bs" and "b \<in> set bs"
  shows "find (\<lambda>x. BindingMatchesPhysicalSlot x (binding_modifier b) (binding_slot b)) bs = Some b"
  using assms by (induction bs) (auto simp: BindingMatchesPhysicalSlot_def image_iff)

lemma FindMarinaActionForPhysicalSlot_iff:
  assumes "ValidateMarinaNumberRowBindings bs = Inr ()"
  shows "FindMarinaActionForPhysicalSlot bs m s = Some a \<longleftrightarrow>
    (\<exists>b \<in> set bs. binding_modifier b = m \<and> binding_slot b = s \<and> binding_action b = a)"
proof
  note v = Validate_sound [OF assms]
  assume "FindMarinaActionForPhysicalSlot bs m s = Some a"
  then show "\<exists>b \<in> set bs. binding_modifier b = m \<and> binding_slot b = s \<and> binding_action b = a"
    using v(5) by (auto simp: FindMarinaActionForPhysicalSlot_def GetEffectiveMarinaNumberRowBindings_def
      find_Some_iff BindingMatchesPhysicalSlot_def)
next
  note v = Validate_sound [OF assms]
  assume "\<exists>b \<in> set bs. binding_modifier b = m \<and> binding_slot b = s \<and> binding_action b = a"
  then obtain b where "b \<in> set bs" "binding_modifier b = m" "binding_slot b = s" "binding_action b = a" by blast
  then show "FindMarinaActionForPhysicalSlot bs m s = Some a"
    using find_chord [OF v(2,1)] v(5)
    by (auto simp: FindMarinaActionForPhysicalSlot_def GetEffectiveMarinaNumberRowBindings_def)
qed

text \<open>The event a platform sends for a chord: the character of the key without modifiers, and the modifiers.\<close>

definition chord_event :: "MarinaShortcutModifier \<Rightarrow> MarinaPhysicalSlot \<Rightarrow> KeyEvent" where
  "chord_event m s = empty_KeyEvent\<lparr>key_code := Some (of_nat (byte (slot_label s))),
     modifier_keys := (if m = MARINA_MOD_CTRL then [CTRL] else [CTRL, SHIFT])\<rparr>"

lemma slot_of_label: "PhysicalSlotFromKeyCode (of_nat (byte (slot_label s))) = Some s"
  by (cases s) (simp_all add: PhysicalSlotFromKeyCode_def byte_def digit_slots_def)

lemma chord_event_finds: "FindMarinaActionForKeyEvent bs (chord_event m s) = FindMarinaActionForPhysicalSlot bs m s"
proof -
  have "key_code (chord_event m s) = Some (of_nat (byte (slot_label s)))" by (simp add: chord_event_def)
  moreover have "ModifierFromKeyEvent (chord_event m s) = m"
    "KeyEventHasCtrlOnly (chord_event m s) \<or> KeyEventHasCtrlShiftOnly (chord_event m s)"
    by (cases m; simp add: chord_event_def ModifierFromKeyEvent_def KeyEventHasCtrlOnly_def
        KeyEventHasCtrlShiftOnly_def GetModifiers_def empty_KeyEvent_def kCtrlMask_def kShiftMask_def kAltMask_def)+
  ultimately show ?thesis by (auto simp: FindMarinaActionForKeyEvent_def slot_of_label)
qed

text \<open>C38: In a list of bindings that passes the validation each of the six actions has exactly one chord,
  and the key event of a chord triggers the action the list gives it: no action is lost, none has two chords,
  and no chord is shadowed by an earlier binding.\<close>

theorem validated_bindings_bijective:
  assumes "ValidateMarinaNumberRowBindings bs = Inr ()"
  shows "(\<exists>!c. FindMarinaActionForPhysicalSlot bs (fst c) (snd c) = Some a) \<and>
    (\<exists>e. FindMarinaActionForKeyEvent bs e = Some a) \<and>
    (b \<in> set bs \<longrightarrow>
      FindMarinaActionForKeyEvent bs (chord_event (binding_modifier b) (binding_slot b)) = Some (binding_action b))"
proof -
  note f = FindMarinaActionForPhysicalSlot_iff [OF assms] and v = Validate_sound [OF assms]
  from v(4) have "a \<in> binding_action ` set bs" by simp
  then obtain x where x: "x \<in> set bs" "binding_action x = a" by blast
  then have "FindMarinaActionForPhysicalSlot bs (binding_modifier x) (binding_slot x) = Some a" unfolding f by blast
  moreover have "c = chord x" if c: "FindMarinaActionForPhysicalSlot bs (fst c) (snd c) = Some a" for c
  proof -
    obtain y where y: "y \<in> set bs" "chord y = c" "binding_action y = a"
      using c unfolding f by (metis prod.collapse)
    then have "y = x" using v(3) x by (metis distinct_map inj_onD)
    then show ?thesis using y(2) by simp
  qed
  ultimately have "\<exists>!c. FindMarinaActionForPhysicalSlot bs (fst c) (snd c) = Some a"
    by (intro ex1I [of _ "chord x"]) simp_all
  moreover have "\<exists>e. FindMarinaActionForKeyEvent bs e = Some a"
    using f chord_event_finds x by metis
  ultimately show ?thesis using f by (auto simp: chord_event_finds)
qed

lemma default_bindings_valid: "ValidateMarinaNumberRowBindings GetDefaultMarinaNumberRowBindings = Inr ()"
  by (simp add: ValidateMarinaNumberRowBindings_def GetDefaultMarinaNumberRowBindings_def MakeBinding_def
      kRequired_def binding_action_def binding_modifier_def binding_slot_def Let_def)

theorem validated_bindings_bijective_witness:
  "(\<exists>!c. FindMarinaActionForPhysicalSlot GetDefaultMarinaNumberRowBindings (fst c) (snd c) = Some MARINA_NR_WORD_REGISTER)"
  using validated_bindings_bijective [OF default_bindings_valid] by blast

end
