(* ===== verification/Key_Commands.thy ===== *)
theory Key_Commands
  imports Prelude
begin

text \<open>
  The commands of \<open>session/keymap.h\<close>: what a key can stand for in each state of a session, and the names the
  tables of \<open>session/keymap.cc\<close> give to the commands. The enumerations are large, so only what the
  development uses of their datatypes is generated.
\<close>

section \<open>Commands\<close>

datatype (plugins only: size) DirectInputCommand =
    DirectInput_NONE | DirectInput_IME_ON | DirectInput_COMPOSITION_MODE_HIRAGANA |
    DirectInput_COMPOSITION_MODE_FULL_KATAKANA | DirectInput_COMPOSITION_MODE_HALF_KATAKANA |
    DirectInput_COMPOSITION_MODE_FULL_ALPHANUMERIC | DirectInput_COMPOSITION_MODE_HALF_ALPHANUMERIC |
    DirectInput_RECONVERT | DirectInput_LAUNCH_WORD_REGISTER_DIALOG | DirectInput_INSERT_MACRON_VOWEL |
    DirectInput_SET_MACRON_DEAD_KEY

datatype (plugins only: size) PrecompositionCommand =
    Precomposition_NONE | Precomposition_IME_OFF | Precomposition_IME_ON | Precomposition_INSERT_CHARACTER |
    Precomposition_INSERT_SPACE | Precomposition_INSERT_ALTERNATE_SPACE | Precomposition_INSERT_HALF_SPACE |
    Precomposition_INSERT_FULL_SPACE | Precomposition_TOGGLE_ALPHANUMERIC_MODE |
    Precomposition_TOGGLE_HIRAGANA_DIRECT | Precomposition_TOGGLE_TRADITIONAL_KANJI |
    Precomposition_SHOW_ODORIJI_PALETTE | Precomposition_INSERT_ODORIJI_DEFAULT |
    Precomposition_TOGGLE_FULL_HALF_WIDTH | Precomposition_TOGGLE_MANYOSHU_HIRAGANA |
    Precomposition_INSERT_MACRON_VOWEL | Precomposition_SET_MACRON_DEAD_KEY |
    Precomposition_COMPOSITION_MODE_HIRAGANA | Precomposition_COMPOSITION_MODE_FULL_KATAKANA |
    Precomposition_COMPOSITION_MODE_HALF_KATAKANA | Precomposition_COMPOSITION_MODE_FULL_ALPHANUMERIC |
    Precomposition_COMPOSITION_MODE_HALF_ALPHANUMERIC | Precomposition_COMPOSITION_MODE_SWITCH_KANA_TYPE |
    Precomposition_LAUNCH_CONFIG_DIALOG | Precomposition_LAUNCH_DICTIONARY_TOOL |
    Precomposition_LAUNCH_WORD_REGISTER_DIALOG | Precomposition_REVERT | Precomposition_UNDO |
    Precomposition_RECONVERT | Precomposition_CANCEL | Precomposition_CANCEL_AND_IME_OFF |
    Precomposition_COMMIT_FIRST_SUGGESTION | Precomposition_PREDICT_AND_CONVERT | Precomposition_IME_ACTION

datatype (plugins only: size) CompositionCommand =
    Composition_NONE | Composition_IME_OFF | Composition_IME_ON | Composition_INSERT_CHARACTER |
    Composition_DEL | Composition_BACKSPACE | Composition_INSERT_SPACE | Composition_INSERT_ALTERNATE_SPACE |
    Composition_INSERT_HALF_SPACE | Composition_INSERT_FULL_SPACE | Composition_CANCEL |
    Composition_CANCEL_AND_IME_OFF | Composition_UNDO | Composition_MOVE_CURSOR_LEFT |
    Composition_MOVE_CURSOR_RIGHT | Composition_MOVE_CURSOR_TO_BEGINNING |
    Composition_MOVE_MOVE_CURSOR_TO_END | Composition_COMMIT | Composition_COMMIT_FIRST_SUGGESTION |
    Composition_CONVERT | Composition_CONVERT_WITHOUT_HISTORY | Composition_PREDICT_AND_CONVERT |
    Composition_CONVERT_TO_HIRAGANA | Composition_CONVERT_TO_FULL_KATAKANA |
    Composition_CONVERT_TO_HALF_KATAKANA | Composition_CONVERT_TO_HALF_WIDTH |
    Composition_CONVERT_TO_FULL_ALPHANUMERIC | Composition_CONVERT_TO_HALF_ALPHANUMERIC |
    Composition_SWITCH_KANA_TYPE | Composition_DISPLAY_AS_HIRAGANA | Composition_DISPLAY_AS_FULL_KATAKANA |
    Composition_DISPLAY_AS_HALF_KATAKANA | Composition_TRANSLATE_HALF_WIDTH |
    Composition_TRANSLATE_FULL_ASCII | Composition_TRANSLATE_HALF_ASCII |
    Composition_TOGGLE_ALPHANUMERIC_MODE | Composition_TOGGLE_HIRAGANA_DIRECT |
    Composition_TOGGLE_TRADITIONAL_KANJI | Composition_SHOW_ODORIJI_PALETTE |
    Composition_INSERT_ODORIJI_DEFAULT | Composition_TOGGLE_FULL_HALF_WIDTH |
    Composition_TOGGLE_MANYOSHU_HIRAGANA | Composition_INSERT_MACRON_VOWEL | Composition_SET_MACRON_DEAD_KEY |
    Composition_LAUNCH_WORD_REGISTER_DIALOG | Composition_COMPOSITION_MODE_HIRAGANA |
    Composition_COMPOSITION_MODE_FULL_KATAKANA | Composition_COMPOSITION_MODE_HALF_KATAKANA |
    Composition_COMPOSITION_MODE_FULL_ALPHANUMERIC | Composition_COMPOSITION_MODE_HALF_ALPHANUMERIC

datatype (plugins only: size) ConversionCommand =
    Conversion_NONE | Conversion_IME_OFF | Conversion_IME_ON | Conversion_INSERT_CHARACTER |
    Conversion_INSERT_SPACE | Conversion_INSERT_ALTERNATE_SPACE | Conversion_INSERT_HALF_SPACE |
    Conversion_INSERT_FULL_SPACE | Conversion_CANCEL | Conversion_CANCEL_AND_IME_OFF | Conversion_UNDO |
    Conversion_SEGMENT_FOCUS_LEFT | Conversion_SEGMENT_FOCUS_RIGHT | Conversion_SEGMENT_FOCUS_FIRST |
    Conversion_SEGMENT_FOCUS_LAST | Conversion_SEGMENT_WIDTH_EXPAND | Conversion_SEGMENT_WIDTH_SHRINK |
    Conversion_CONVERT_NEXT | Conversion_CONVERT_PREV | Conversion_CONVERT_NEXT_PAGE |
    Conversion_CONVERT_PREV_PAGE | Conversion_PREDICT_AND_CONVERT | Conversion_COMMIT |
    Conversion_COMMIT_SEGMENT | Conversion_CONVERT_TO_HIRAGANA | Conversion_CONVERT_TO_FULL_KATAKANA |
    Conversion_CONVERT_TO_HALF_KATAKANA | Conversion_CONVERT_TO_HALF_WIDTH |
    Conversion_CONVERT_TO_FULL_ALPHANUMERIC | Conversion_CONVERT_TO_HALF_ALPHANUMERIC |
    Conversion_SWITCH_KANA_TYPE | Conversion_DISPLAY_AS_HIRAGANA | Conversion_DISPLAY_AS_FULL_KATAKANA |
    Conversion_DISPLAY_AS_HALF_KATAKANA | Conversion_TRANSLATE_HALF_WIDTH | Conversion_TRANSLATE_FULL_ASCII |
    Conversion_TRANSLATE_HALF_ASCII | Conversion_TOGGLE_ALPHANUMERIC_MODE |
    Conversion_TOGGLE_HIRAGANA_DIRECT | Conversion_TOGGLE_TRADITIONAL_KANJI |
    Conversion_SHOW_ODORIJI_PALETTE | Conversion_INSERT_ODORIJI_DEFAULT | Conversion_TOGGLE_FULL_HALF_WIDTH |
    Conversion_TOGGLE_MANYOSHU_HIRAGANA | Conversion_INSERT_MACRON_VOWEL | Conversion_SET_MACRON_DEAD_KEY |
    Conversion_COMPOSITION_MODE_HIRAGANA | Conversion_COMPOSITION_MODE_FULL_KATAKANA |
    Conversion_COMPOSITION_MODE_HALF_KATAKANA | Conversion_COMPOSITION_MODE_FULL_ALPHANUMERIC |
    Conversion_COMPOSITION_MODE_HALF_ALPHANUMERIC | Conversion_DELETE_SELECTED_CANDIDATE |
    Conversion_REPORT_BUG | Conversion_LAUNCH_WORD_REGISTER_DIALOG

datatype Platform = Macos | Ios | Chromeos | Other_platform

record Build =
  platform :: Platform
  release :: bool

definition composition_mode_x :: "Build \<Rightarrow> bool" where
  "composition_mode_x b \<longleftrightarrow> platform b \<noteq> Macos \<and> platform b \<noteq> Ios"

text \<open>The commands of each state by name, in the order \<open>InitCommandData\<close> registers them.\<close>

definition direct_commands :: "Build \<Rightarrow> (bytes \<times> DirectInputCommand) list" where
  "direct_commands b =
     [(''IMEOn'', DirectInput_IME_ON)] @
     (if composition_mode_x b then
       [(''CompositionModeHiragana'', DirectInput_COMPOSITION_MODE_HIRAGANA),
        (''CompositionModeFullKatakana'', DirectInput_COMPOSITION_MODE_FULL_KATAKANA),
        (''CompositionModeHalfKatakana'', DirectInput_COMPOSITION_MODE_HALF_KATAKANA),
        (''CompositionModeFullAlphanumeric'', DirectInput_COMPOSITION_MODE_FULL_ALPHANUMERIC),
        (''CompositionModeHalfAlphanumeric'', DirectInput_COMPOSITION_MODE_HALF_ALPHANUMERIC)]
      else
       [(''CompositionModeHiragana'', DirectInput_NONE),
        (''CompositionModeFullKatakana'', DirectInput_NONE),
        (''CompositionModeHalfKatakana'', DirectInput_NONE),
        (''CompositionModeFullAlphanumeric'', DirectInput_NONE),
        (''CompositionModeHalfAlphanumeric'', DirectInput_NONE)]) @
     [(''Reconvert'', DirectInput_RECONVERT),
      (''LaunchWordRegisterDialog'', DirectInput_LAUNCH_WORD_REGISTER_DIALOG),
      (''InsertMacronVowel'', DirectInput_INSERT_MACRON_VOWEL),
      (''SetMacronDeadKey'', DirectInput_SET_MACRON_DEAD_KEY)]"

definition precomposition_commands :: "Build \<Rightarrow> (bytes \<times> PrecompositionCommand) list" where
  "precomposition_commands b =
     [(''IMEOff'', Precomposition_IME_OFF), (''IMEOn'', Precomposition_IME_ON),
      (''InsertCharacter'', Precomposition_INSERT_CHARACTER),
      (''InsertSpace'', Precomposition_INSERT_SPACE),
      (''InsertAlternateSpace'', Precomposition_INSERT_ALTERNATE_SPACE),
      (''InsertHalfSpace'', Precomposition_INSERT_HALF_SPACE),
      (''InsertFullSpace'', Precomposition_INSERT_FULL_SPACE),
      (''ToggleAlphanumericMode'', Precomposition_TOGGLE_ALPHANUMERIC_MODE),
      (''ToggleHiraganaDirect'', Precomposition_TOGGLE_HIRAGANA_DIRECT),
      (''ToggleTraditionalKanji'', Precomposition_TOGGLE_TRADITIONAL_KANJI),
      (''ShowOdorijiPalette'', Precomposition_SHOW_ODORIJI_PALETTE),
      (''InsertOdorijiDefault'', Precomposition_INSERT_ODORIJI_DEFAULT),
      (''ToggleFullHalfWidth'', Precomposition_TOGGLE_FULL_HALF_WIDTH),
      (''ToggleManyoshuHiragana'', Precomposition_TOGGLE_MANYOSHU_HIRAGANA),
      (''InsertMacronVowel'', Precomposition_INSERT_MACRON_VOWEL),
      (''SetMacronDeadKey'', Precomposition_SET_MACRON_DEAD_KEY)] @
     (if composition_mode_x b then
       [(''CompositionModeHiragana'', Precomposition_COMPOSITION_MODE_HIRAGANA),
        (''CompositionModeFullKatakana'', Precomposition_COMPOSITION_MODE_FULL_KATAKANA),
        (''CompositionModeHalfKatakana'', Precomposition_COMPOSITION_MODE_HALF_KATAKANA),
        (''CompositionModeFullAlphanumeric'', Precomposition_COMPOSITION_MODE_FULL_ALPHANUMERIC),
        (''CompositionModeHalfAlphanumeric'', Precomposition_COMPOSITION_MODE_HALF_ALPHANUMERIC),
        (''CompositionModeSwitchKanaType'', Precomposition_COMPOSITION_MODE_SWITCH_KANA_TYPE)]
      else
       [(''CompositionModeHiragana'', Precomposition_NONE),
        (''CompositionModeFullKatakana'', Precomposition_NONE),
        (''CompositionModeHalfKatakana'', Precomposition_NONE),
        (''CompositionModeFullAlphanumeric'', Precomposition_NONE),
        (''CompositionModeHalfAlphanumeric'', Precomposition_NONE),
        (''CompositionModeSwitchKanaType'', Precomposition_NONE)]) @
     [(''LaunchConfigDialog'', Precomposition_LAUNCH_CONFIG_DIALOG),
      (''LaunchDictionaryTool'', Precomposition_LAUNCH_DICTIONARY_TOOL),
      (''LaunchWordRegisterDialog'', Precomposition_LAUNCH_WORD_REGISTER_DIALOG),
      (''Revert'', Precomposition_REVERT), (''Undo'', Precomposition_UNDO),
      (''Reconvert'', Precomposition_RECONVERT), (''Cancel'', Precomposition_CANCEL),
      (''CancelAndIMEOff'', Precomposition_CANCEL_AND_IME_OFF),
      (''CommitFirstSuggestion'', Precomposition_COMMIT_FIRST_SUGGESTION),
      (''PredictAndConvert'', Precomposition_PREDICT_AND_CONVERT)]"

definition composition_commands :: "Build \<Rightarrow> (bytes \<times> CompositionCommand) list" where
  "composition_commands b =
     [(''IMEOff'', Composition_IME_OFF), (''IMEOn'', Composition_IME_ON),
      (''InsertCharacter'', Composition_INSERT_CHARACTER), (''Delete'', Composition_DEL),
      (''Backspace'', Composition_BACKSPACE), (''InsertSpace'', Composition_INSERT_SPACE),
      (''InsertAlternateSpace'', Composition_INSERT_ALTERNATE_SPACE),
      (''InsertHalfSpace'', Composition_INSERT_HALF_SPACE),
      (''InsertFullSpace'', Composition_INSERT_FULL_SPACE), (''Cancel'', Composition_CANCEL),
      (''CancelAndIMEOff'', Composition_CANCEL_AND_IME_OFF), (''Undo'', Composition_UNDO),
      (''MoveCursorLeft'', Composition_MOVE_CURSOR_LEFT),
      (''MoveCursorRight'', Composition_MOVE_CURSOR_RIGHT),
      (''MoveCursorToBeginning'', Composition_MOVE_CURSOR_TO_BEGINNING),
      (''MoveCursorToEnd'', Composition_MOVE_MOVE_CURSOR_TO_END), (''Commit'', Composition_COMMIT),
      (''CommitFirstSuggestion'', Composition_COMMIT_FIRST_SUGGESTION), (''Convert'', Composition_CONVERT),
      (''ConvertWithoutHistory'', Composition_CONVERT_WITHOUT_HISTORY),
      (''PredictAndConvert'', Composition_PREDICT_AND_CONVERT),
      (''ConvertToHiragana'', Composition_CONVERT_TO_HIRAGANA),
      (''ConvertToFullKatakana'', Composition_CONVERT_TO_FULL_KATAKANA),
      (''ConvertToHalfKatakana'', Composition_CONVERT_TO_HALF_KATAKANA),
      (''ConvertToHalfWidth'', Composition_CONVERT_TO_HALF_WIDTH),
      (''ConvertToFullAlphanumeric'', Composition_CONVERT_TO_FULL_ALPHANUMERIC),
      (''ConvertToHalfAlphanumeric'', Composition_CONVERT_TO_HALF_ALPHANUMERIC),
      (''SwitchKanaType'', Composition_SWITCH_KANA_TYPE),
      (''DisplayAsHiragana'', Composition_DISPLAY_AS_HIRAGANA),
      (''DisplayAsFullKatakana'', Composition_DISPLAY_AS_FULL_KATAKANA),
      (''DisplayAsHalfKatakana'', Composition_DISPLAY_AS_HALF_KATAKANA),
      (''DisplayAsHalfWidth'', Composition_TRANSLATE_HALF_WIDTH),
      (''DisplayAsFullAlphanumeric'', Composition_TRANSLATE_FULL_ASCII),
      (''DisplayAsHalfAlphanumeric'', Composition_TRANSLATE_HALF_ASCII),
      (''ToggleAlphanumericMode'', Composition_TOGGLE_ALPHANUMERIC_MODE),
      (''ToggleHiraganaDirect'', Composition_TOGGLE_HIRAGANA_DIRECT),
      (''ToggleTraditionalKanji'', Composition_TOGGLE_TRADITIONAL_KANJI),
      (''ShowOdorijiPalette'', Composition_SHOW_ODORIJI_PALETTE),
      (''InsertOdorijiDefault'', Composition_INSERT_ODORIJI_DEFAULT),
      (''ToggleFullHalfWidth'', Composition_TOGGLE_FULL_HALF_WIDTH),
      (''ToggleManyoshuHiragana'', Composition_TOGGLE_MANYOSHU_HIRAGANA),
      (''InsertMacronVowel'', Composition_INSERT_MACRON_VOWEL),
      (''SetMacronDeadKey'', Composition_SET_MACRON_DEAD_KEY),
      (''LaunchWordRegisterDialog'', Composition_LAUNCH_WORD_REGISTER_DIALOG)] @
     (if composition_mode_x b then
       [(''CompositionModeHiragana'', Composition_COMPOSITION_MODE_HIRAGANA),
        (''CompositionModeFullKatakana'', Composition_COMPOSITION_MODE_FULL_KATAKANA),
        (''CompositionModeHalfKatakana'', Composition_COMPOSITION_MODE_HALF_KATAKANA),
        (''CompositionModeFullAlphanumeric'', Composition_COMPOSITION_MODE_FULL_ALPHANUMERIC),
        (''CompositionModeHalfAlphanumeric'', Composition_COMPOSITION_MODE_HALF_ALPHANUMERIC)]
      else
       [(''CompositionModeHiragana'', Composition_NONE),
        (''CompositionModeFullKatakana'', Composition_NONE),
        (''CompositionModeHalfKatakana'', Composition_NONE),
        (''CompositionModeFullAlphanumeric'', Composition_NONE),
        (''CompositionModeHalfAlphanumeric'', Composition_NONE)])"

definition conversion_commands :: "Build \<Rightarrow> (bytes \<times> ConversionCommand) list" where
  "conversion_commands b =
     [(''IMEOff'', Conversion_IME_OFF), (''IMEOn'', Conversion_IME_ON),
      (''InsertCharacter'', Conversion_INSERT_CHARACTER), (''InsertSpace'', Conversion_INSERT_SPACE),
      (''InsertAlternateSpace'', Conversion_INSERT_ALTERNATE_SPACE),
      (''InsertHalfSpace'', Conversion_INSERT_HALF_SPACE),
      (''InsertFullSpace'', Conversion_INSERT_FULL_SPACE), (''Cancel'', Conversion_CANCEL),
      (''CancelAndIMEOff'', Conversion_CANCEL_AND_IME_OFF), (''Undo'', Conversion_UNDO),
      (''SegmentFocusLeft'', Conversion_SEGMENT_FOCUS_LEFT),
      (''SegmentFocusRight'', Conversion_SEGMENT_FOCUS_RIGHT),
      (''SegmentFocusFirst'', Conversion_SEGMENT_FOCUS_FIRST),
      (''SegmentFocusLast'', Conversion_SEGMENT_FOCUS_LAST),
      (''SegmentWidthExpand'', Conversion_SEGMENT_WIDTH_EXPAND),
      (''SegmentWidthShrink'', Conversion_SEGMENT_WIDTH_SHRINK),
      (''ConvertNext'', Conversion_CONVERT_NEXT), (''ConvertPrev'', Conversion_CONVERT_PREV),
      (''ConvertNextPage'', Conversion_CONVERT_NEXT_PAGE),
      (''ConvertPrevPage'', Conversion_CONVERT_PREV_PAGE),
      (''PredictAndConvert'', Conversion_PREDICT_AND_CONVERT), (''Commit'', Conversion_COMMIT),
      (''CommitOnlyFirstSegment'', Conversion_COMMIT_SEGMENT),
      (''ConvertToHiragana'', Conversion_CONVERT_TO_HIRAGANA),
      (''ConvertToFullKatakana'', Conversion_CONVERT_TO_FULL_KATAKANA),
      (''ConvertToHalfKatakana'', Conversion_CONVERT_TO_HALF_KATAKANA),
      (''ConvertToHalfWidth'', Conversion_CONVERT_TO_HALF_WIDTH),
      (''ConvertToFullAlphanumeric'', Conversion_CONVERT_TO_FULL_ALPHANUMERIC),
      (''ConvertToHalfAlphanumeric'', Conversion_CONVERT_TO_HALF_ALPHANUMERIC),
      (''SwitchKanaType'', Conversion_SWITCH_KANA_TYPE),
      (''ToggleAlphanumericMode'', Conversion_TOGGLE_ALPHANUMERIC_MODE),
      (''ToggleHiraganaDirect'', Conversion_TOGGLE_HIRAGANA_DIRECT),
      (''ToggleTraditionalKanji'', Conversion_TOGGLE_TRADITIONAL_KANJI),
      (''ShowOdorijiPalette'', Conversion_SHOW_ODORIJI_PALETTE),
      (''InsertOdorijiDefault'', Conversion_INSERT_ODORIJI_DEFAULT),
      (''ToggleFullHalfWidth'', Conversion_TOGGLE_FULL_HALF_WIDTH),
      (''ToggleManyoshuHiragana'', Conversion_TOGGLE_MANYOSHU_HIRAGANA),
      (''InsertMacronVowel'', Conversion_INSERT_MACRON_VOWEL),
      (''SetMacronDeadKey'', Conversion_SET_MACRON_DEAD_KEY),
      (''DisplayAsHiragana'', Conversion_DISPLAY_AS_HIRAGANA),
      (''DisplayAsFullKatakana'', Conversion_DISPLAY_AS_FULL_KATAKANA),
      (''DisplayAsHalfKatakana'', Conversion_DISPLAY_AS_HALF_KATAKANA),
      (''DisplayAsHalfWidth'', Conversion_TRANSLATE_HALF_WIDTH),
      (''DisplayAsFullAlphanumeric'', Conversion_TRANSLATE_FULL_ASCII),
      (''DisplayAsHalfAlphanumeric'', Conversion_TRANSLATE_HALF_ASCII),
      (''DeleteSelectedCandidate'', Conversion_DELETE_SELECTED_CANDIDATE)] @
     (if composition_mode_x b then
       [(''CompositionModeHiragana'', Conversion_COMPOSITION_MODE_HIRAGANA),
        (''CompositionModeFullKatakana'', Conversion_COMPOSITION_MODE_FULL_KATAKANA),
        (''CompositionModeHalfKatakana'', Conversion_COMPOSITION_MODE_HALF_KATAKANA),
        (''CompositionModeFullAlphanumeric'', Conversion_COMPOSITION_MODE_FULL_ALPHANUMERIC),
        (''CompositionModeHalfAlphanumeric'', Conversion_COMPOSITION_MODE_HALF_ALPHANUMERIC)]
      else
       [(''CompositionModeHiragana'', Conversion_NONE), (''CompositionModeFullKatakana'', Conversion_NONE),
        (''CompositionModeHalfKatakana'', Conversion_NONE),
        (''CompositionModeFullAlphanumeric'', Conversion_NONE),
        (''CompositionModeHalfAlphanumeric'', Conversion_NONE)]) @
     (if release b then [] else [(''ReportBug'', Conversion_REPORT_BUG)]) @
     [(''LaunchWordRegisterDialog'', Conversion_LAUNCH_WORD_REGISTER_DIALOG)]"

text \<open>Registering fills a map and its reverse; a later registration replaces an earlier one.\<close>

record 'c CommandMaps =
  command_map :: "bytes \<rightharpoonup> 'c"
  reverse_command_map :: "'c \<rightharpoonup> bytes"

definition RegisterCommand :: "bytes \<times> 'c \<Rightarrow> 'c CommandMaps \<Rightarrow> 'c CommandMaps" where
  "RegisterCommand r m =
     m\<lparr>command_map := (command_map m)(fst r \<mapsto> snd r),
       reverse_command_map := (reverse_command_map m)(snd r \<mapsto> fst r)\<rparr>"

definition InitCommandData :: "(bytes \<times> 'c) list \<Rightarrow> 'c CommandMaps" where
  "InitCommandData regs = fold RegisterCommand regs \<lparr>command_map = Map.empty, reverse_command_map = Map.empty\<rparr>"

definition kLegacyCommandStrings :: "(bytes \<times> bytes) list" where
  "kLegacyCommandStrings =
     [(''InputModeHiragana'', ''CompositionModeHiragana''),
      (''InputModeFullKatakana'', ''CompositionModeFullKatakana''),
      (''InputModeHalfKatakana'', ''CompositionModeHalfKatakana''),
      (''InputModeFullAlphanumeric'', ''CompositionModeFullAlphanumeric''),
      (''InputModeHalfAlphanumeric'', ''CompositionModeHalfAlphanumeric''),
      (''InputModeSwitchKanaType'', ''CompositionModeSwitchKanaType'')]"

definition NormalizeCommand :: "bytes \<Rightarrow> bytes" where
  "NormalizeCommand s = (case map_of kLegacyCommandStrings s of Some n \<Rightarrow> n | None \<Rightarrow> s)"

definition ParseCommand :: "(bytes \<times> 'c) list \<Rightarrow> bytes \<Rightarrow> 'c option" where
  "ParseCommand regs s = command_map (InitCommandData regs) (NormalizeCommand s)"

definition GetNameFromCommand :: "(bytes \<times> 'c) list \<Rightarrow> 'c \<Rightarrow> bytes option" where
  "GetNameFromCommand regs c = reverse_command_map (InitCommandData regs) c"

definition AvailableCommandNames :: "(bytes \<times> 'c) list \<Rightarrow> bytes set" where
  "AvailableCommandNames regs = dom (command_map (InitCommandData regs))"

end
