(* ===== verification/Key_Names.thy ===== *)
theory Key_Names
  imports Key_Commands
begin

text \<open>
  The names of the commands (\<open>session/keymap.cc\<close>): each table of names is a table in which every command is
  named once, so that reading and naming are inverse.
\<close>

section \<open>Names of commands\<close>

lemma fold_RegisterCommand:
  "command_map (fold RegisterCommand regs m) = command_map m ++ map_of (rev regs)"
  "reverse_command_map (fold RegisterCommand regs m) = reverse_command_map m ++ map_of (rev (map prod.swap regs))"
  by (induction regs arbitrary: m) (auto simp: RegisterCommand_def map_add_def fun_eq_iff split: option.splits)

lemma InitCommandData_maps:
  "command_map (InitCommandData regs) = map_of (rev regs)"
  "reverse_command_map (InitCommandData regs) = map_of (rev (map prod.swap regs))"
  by (simp_all add: InitCommandData_def fold_RegisterCommand)

text \<open>
  The table of one state: no name twice, none of the old names, and no command with two names except the
  one that does nothing.
\<close>

locale command_table =
  fixes regs :: "(bytes \<times> 'c) list" and none :: 'c
  assumes names: "distinct (map fst regs)"
    and normal: "list_all (\<lambda>r. fst r \<notin> fst ` set kLegacyCommandStrings) regs"
    and commands: "distinct (map snd (filter (\<lambda>r. snd r \<noteq> none) regs))"
begin

lemma Parse_iff: "ParseCommand regs s = Some c \<longleftrightarrow> (NormalizeCommand s, c) \<in> set regs"
  using names by (simp add: ParseCommand_def InitCommandData_maps map_of_eq_Some_iff rev_map [symmetric])

lemma normalized: "(n, c) \<in> set regs \<Longrightarrow> NormalizeCommand n = n"
proof -
  assume "(n, c) \<in> set regs"
  then have "n \<notin> fst ` set kLegacyCommandStrings" using normal unfolding list_all_iff by (metis fst_conv)
  then have "map_of kLegacyCommandStrings n = None" by (simp only: map_of_eq_None_iff not_False_eq_True)
  then show ?thesis by (simp only: NormalizeCommand_def option.case)
qed

lemma name_parses: "GetNameFromCommand regs c = Some n \<Longrightarrow> ParseCommand regs n = Some c"
proof -
  assume "GetNameFromCommand regs c = Some n"
  then have "(n, c) \<in> set regs"
    by (auto simp: GetNameFromCommand_def InitCommandData_maps dest!: map_of_SomeD)
  then show ?thesis using normalized by (simp add: Parse_iff)
qed

lemma command_named: "ParseCommand regs s = Some c \<Longrightarrow> c \<noteq> none \<Longrightarrow> GetNameFromCommand regs c = Some (NormalizeCommand s)"
proof -
  assume p: "ParseCommand regs s = Some c" and c: "c \<noteq> none"
  let ?named = "filter (\<lambda>r. snd r \<noteq> none) regs"
  have m: "(NormalizeCommand s, c) \<in> set ?named" using p c by (simp add: Parse_iff)
  have "map_of (rev (map prod.swap regs)) c = Some n" if "(n, c) \<in> set ?named" for n
  proof -
    have "(c, n) \<in> set (rev (map prod.swap regs))" using that by force
    then obtain n' where n': "map_of (rev (map prod.swap regs)) c = Some n'"
      by (metis not_Some_eq weak_map_of_SomeI)
    then have "(n', c) \<in> set ?named" using c by (auto dest!: map_of_SomeD)
    then have "n' = n" using that commands by (auto dest: eq_key_imp_eq_value simp: distinct_map inj_on_def)
    then show ?thesis using n' by simp
  qed
  from this [OF m] show ?thesis by (simp only: GetNameFromCommand_def InitCommandData_maps)
qed

end

lemmas legacy_names = kLegacyCommandStrings_def

lemma direct_table_names:
  "distinct (map fst (direct_commands b))"
  "list_all (\<lambda>r. fst r \<notin> fst ` set kLegacyCommandStrings) (direct_commands b)"
  by (simp_all add: direct_commands_def legacy_names if_distrib [of "map fst"] if_distrib [of set])

lemma direct_table_commands:
  "distinct (map snd (filter (\<lambda>r. snd r \<noteq> DirectInput_NONE) (direct_commands b)))"
  by (cases "composition_mode_x b"; simp add: direct_commands_def)

interpretation direct_table: command_table "direct_commands b" DirectInput_NONE for b
  by (unfold_locales; rule direct_table_names direct_table_commands)

lemma precomposition_table_names:
  "distinct (map fst (precomposition_commands b))"
  "list_all (\<lambda>r. fst r \<notin> fst ` set kLegacyCommandStrings) (precomposition_commands b)"
  by (simp_all add: precomposition_commands_def legacy_names if_distrib [of "map fst"] if_distrib [of set])

lemma precomposition_table_commands:
  "distinct (map snd (filter (\<lambda>r. snd r \<noteq> Precomposition_NONE) (precomposition_commands b)))"
  by (cases "composition_mode_x b"; simp add: precomposition_commands_def)

interpretation precomposition_table: command_table "precomposition_commands b" Precomposition_NONE for b
  by (unfold_locales; rule precomposition_table_names precomposition_table_commands)

lemma composition_table_names:
  "distinct (map fst (composition_commands b))"
  "list_all (\<lambda>r. fst r \<notin> fst ` set kLegacyCommandStrings) (composition_commands b)"
  by (simp_all add: composition_commands_def legacy_names if_distrib [of "map fst"] if_distrib [of set])

lemma composition_table_commands:
  "distinct (map snd (filter (\<lambda>r. snd r \<noteq> Composition_NONE) (composition_commands b)))"
  by (cases "composition_mode_x b"; simp add: composition_commands_def)

interpretation composition_table: command_table "composition_commands b" Composition_NONE for b
  by (unfold_locales; rule composition_table_names composition_table_commands)

lemma conversion_table_names:
  "distinct (map fst (conversion_commands b))"
  "list_all (\<lambda>r. fst r \<notin> fst ` set kLegacyCommandStrings) (conversion_commands b)"
  by (simp_all add: conversion_commands_def legacy_names if_distrib [of "map fst"] if_distrib [of set])

lemma conversion_table_commands:
  "distinct (map snd (filter (\<lambda>r. snd r \<noteq> Conversion_NONE) (conversion_commands b)))"
  by (cases "composition_mode_x b"; simp add: conversion_commands_def)

interpretation conversion_table: command_table "conversion_commands b" Conversion_NONE for b
  by (unfold_locales; rule conversion_table_names conversion_table_commands)

text \<open>In every state and on every platform the name the code gives to a command is read back as that
  command; a name that is read as a command other than the empty one is, up to the old spelling, the name
  the code gives to it.\<close>

lemma command_names_roundtrip:
  "(GetNameFromCommand (direct_commands b) c1 = Some n \<longrightarrow> ParseCommand (direct_commands b) n = Some c1) \<and>
   (GetNameFromCommand (precomposition_commands b) c2 = Some n \<longrightarrow> ParseCommand (precomposition_commands b) n = Some c2) \<and>
   (GetNameFromCommand (composition_commands b) c3 = Some n \<longrightarrow> ParseCommand (composition_commands b) n = Some c3) \<and>
   (GetNameFromCommand (conversion_commands b) c4 = Some n \<longrightarrow> ParseCommand (conversion_commands b) n = Some c4) \<and>
   (ParseCommand (direct_commands b) s = Some c1 \<and> c1 \<noteq> DirectInput_NONE \<longrightarrow>
     GetNameFromCommand (direct_commands b) c1 = Some (NormalizeCommand s)) \<and>
   (ParseCommand (precomposition_commands b) s = Some c2 \<and> c2 \<noteq> Precomposition_NONE \<longrightarrow>
     GetNameFromCommand (precomposition_commands b) c2 = Some (NormalizeCommand s)) \<and>
   (ParseCommand (composition_commands b) s = Some c3 \<and> c3 \<noteq> Composition_NONE \<longrightarrow>
     GetNameFromCommand (composition_commands b) c3 = Some (NormalizeCommand s)) \<and>
   (ParseCommand (conversion_commands b) s = Some c4 \<and> c4 \<noteq> Conversion_NONE \<longrightarrow>
     GetNameFromCommand (conversion_commands b) c4 = Some (NormalizeCommand s))"
  by (intro conjI impI; (elim conjE)?)
    (rule direct_table.name_parses precomposition_table.name_parses composition_table.name_parses
      conversion_table.name_parses direct_table.command_named precomposition_table.command_named
      composition_table.command_named conversion_table.command_named; assumption)+

end
