(* ===== verification/Key_Map.thy ===== *)
theory Key_Map
  imports Number_Row Key_Commands
begin

text \<open>
  \<open>session/keymap.cc\<close>, \<open>session/keymap.h\<close> and \<open>session/key_info_util.cc\<close>: which command a key stands for in
  each state of a session. A key map is read from a table of tab separated rows; the embedded tables, which
  the build generates, are the parameter \<open>files\<close>.
\<close>

section \<open>One key map\<close>

type_synonym 'c KeyMap = "64 word \<rightharpoonup> 'c"

definition KeyMap_AddRule :: "'c KeyMap \<Rightarrow> KeyEvent \<Rightarrow> 'c \<Rightarrow> 'c KeyMap" where
  "KeyMap_AddRule km e c = (case GetKeyInformation e of None \<Rightarrow> km | Some k \<Rightarrow> km(k \<mapsto> c))"

definition right_shift_only :: KeyEvent where
  "right_shift_only = empty_KeyEvent\<lparr>modifier_keys := [RIGHT_SHIFT]\<rparr>"

definition lookup_key :: "'c KeyMap \<Rightarrow> 64 word option \<Rightarrow> 'c option" where
  "lookup_key km k = (case k of None \<Rightarrow> None | Some k \<Rightarrow> km k)"

definition KeyMap_GetCommand :: "'c KeyMap \<Rightarrow> KeyEvent \<Rightarrow> 'c option" where
  "KeyMap_GetCommand km e =
     (case (if key_code e = None \<and> special_key e = None \<and> GetModifiers e AND RIGHT_SHIFT \<noteq> 0
            then lookup_key km (GetKeyInformation right_shift_only) else None) of
        Some c \<Rightarrow> Some c
      | None \<Rightarrow>
          let n = NormalizeModifiers e
          in case GetKeyInformation n of
               None \<Rightarrow> None
             | Some key \<Rightarrow>
                 case km key of
                   Some c \<Rightarrow> Some c
                 | None \<Rightarrow> lookup_key km (MaybeGetKeyStub n))"

section \<open>The manager\<close>

record KeyMapManager =
  keymap_direct :: "DirectInputCommand KeyMap"
  keymap_precomposition :: "PrecompositionCommand KeyMap"
  keymap_composition :: "CompositionCommand KeyMap"
  keymap_conversion :: "ConversionCommand KeyMap"
  keymap_zero_query_suggestion :: "PrecompositionCommand KeyMap"
  keymap_suggestion :: "CompositionCommand KeyMap"
  keymap_prediction :: "ConversionCommand KeyMap"

definition empty_KeyMapManager :: KeyMapManager where
  "empty_KeyMapManager = \<lparr>keymap_direct = Map.empty, keymap_precomposition = Map.empty,
     keymap_composition = Map.empty, keymap_conversion = Map.empty,
     keymap_zero_query_suggestion = Map.empty, keymap_suggestion = Map.empty, keymap_prediction = Map.empty\<rparr>"

text \<open>A row that is understood gives the changed manager, any other \<open>None\<close>.\<close>

definition AddCommand :: "Build \<Rightarrow> bytes \<Rightarrow> bytes \<Rightarrow> bytes \<Rightarrow> KeyMapManager \<Rightarrow> KeyMapManager option" where
  "AddCommand b state_name key_event_name command_name m =
     (if IsMarinaNumberRowKeymapBinding command_name key_event_name then Some m
      else if release b \<and> command_name = ''ReportBug'' then Some m
      else case ParseKey key_event_name of
        None \<Rightarrow> None
      | Some e \<Rightarrow>
          if state_name = ''DirectInput'' \<or> state_name = ''Direct'' then
            map_option (\<lambda>c. m\<lparr>keymap_direct := KeyMap_AddRule (keymap_direct m) e c\<rparr>)
              (ParseCommand (direct_commands b) command_name)
          else if state_name = ''Precomposition'' then
            map_option (\<lambda>c. m\<lparr>keymap_precomposition := KeyMap_AddRule (keymap_precomposition m) e c\<rparr>)
              (ParseCommand (precomposition_commands b) command_name)
          else if state_name = ''Composition'' then
            map_option (\<lambda>c. m\<lparr>keymap_composition := KeyMap_AddRule (keymap_composition m) e c\<rparr>)
              (ParseCommand (composition_commands b) command_name)
          else if state_name = ''Conversion'' then
            map_option (\<lambda>c. m\<lparr>keymap_conversion := KeyMap_AddRule (keymap_conversion m) e c\<rparr>)
              (ParseCommand (conversion_commands b) command_name)
          else if state_name = ''ZeroQuerySuggestion'' then
            map_option (\<lambda>c. m\<lparr>keymap_zero_query_suggestion :=
                KeyMap_AddRule (keymap_zero_query_suggestion m) e c\<rparr>)
              (ParseCommand (precomposition_commands b) command_name)
          else if state_name = ''Suggestion'' then
            map_option (\<lambda>c. m\<lparr>keymap_suggestion := KeyMap_AddRule (keymap_suggestion m) e c\<rparr>)
              (ParseCommand (composition_commands b) command_name)
          else if state_name = ''Prediction'' then
            map_option (\<lambda>c. m\<lparr>keymap_prediction := KeyMap_AddRule (keymap_prediction m) e c\<rparr>)
              (ParseCommand (conversion_commands b) command_name)
          else None)"

text \<open>
  \<open>getline\<close> until the end of the stream yields the pieces between newlines; the first one is skipped. The
  lines whose row is not understood are collected.
\<close>

definition row_fields :: "bytes \<Rightarrow> bytes list" where
  "row_fields line = filter (\<lambda>f. f \<noteq> []) (StrSplit (CHR 0x09) line)"

definition is_row :: "bytes \<Rightarrow> bool" where
  "is_row line \<longleftrightarrow> line \<noteq> [] \<and> hd line \<noteq> CHR ''#''"

definition keymap_line :: "Build \<Rightarrow> bytes \<Rightarrow> KeyMapManager \<times> bytes list \<Rightarrow> KeyMapManager \<times> bytes list" where
  "keymap_line b unread = (\<lambda>(m, errors).
     let line = ChopReturns unread
     in if \<not> is_row line then (m, errors)
        else case row_fields line of
          [state_name, key_event_name, command_name] \<Rightarrow>
            (case AddCommand b state_name key_event_name command_name m of
               None \<Rightarrow> (m, errors @ [line])
             | Some m' \<Rightarrow> (m', errors))
        | _ \<Rightarrow> (m, errors))"

definition parsed_key :: "bytes \<Rightarrow> KeyEvent" where
  "parsed_key s = (case ParseKey s of Some e \<Rightarrow> e | None \<Rightarrow> empty_KeyEvent)"

definition add_fixed_rules :: "KeyMapManager \<Rightarrow> KeyMapManager" where
  "add_fixed_rules m =
     (let text_input = parsed_key ''TextInput'';
          shift = parsed_key ''Shift'';
          ime_action = empty_KeyEvent\<lparr>special_key := Some 77\<rparr>;
          m = m\<lparr>keymap_precomposition :=
                  KeyMap_AddRule (keymap_precomposition m) text_input Precomposition_INSERT_CHARACTER\<rparr>;
          m = m\<lparr>keymap_composition :=
                  KeyMap_AddRule (keymap_composition m) text_input Composition_INSERT_CHARACTER\<rparr>;
          m = m\<lparr>keymap_conversion :=
                  KeyMap_AddRule (keymap_conversion m) text_input Conversion_INSERT_CHARACTER\<rparr>;
          m = m\<lparr>keymap_composition :=
                  KeyMap_AddRule (keymap_composition m) shift Composition_INSERT_CHARACTER\<rparr>
      in m\<lparr>keymap_precomposition :=
             KeyMap_AddRule (keymap_precomposition m) ime_action Precomposition_IME_ACTION\<rparr>)"

definition LoadStreamWithErrors :: "Build \<Rightarrow> bytes \<Rightarrow> KeyMapManager \<Rightarrow> KeyMapManager \<times> bytes list" where
  "LoadStreamWithErrors b text m =
     (case fold (keymap_line b) (tl (StrSplit (CHR 0x0A) text)) (m, []) of
        (m', errors) \<Rightarrow> (add_fixed_rules m', errors))"

definition LoadStream :: "Build \<Rightarrow> bytes \<Rightarrow> KeyMapManager \<Rightarrow> KeyMapManager" where
  "LoadStream b text m = fst (LoadStreamWithErrors b text m)"

type_synonym Files = "bytes \<Rightarrow> bytes option"

definition KeyMap_LoadFile :: "Build \<Rightarrow> Files \<Rightarrow> bytes \<Rightarrow> KeyMapManager \<Rightarrow> bool \<times> KeyMapManager" where
  "KeyMap_LoadFile b files name m =
     (case files name of None \<Rightarrow> (False, m) | Some text \<Rightarrow> (True, LoadStream b text m))"

section \<open>The configuration\<close>

datatype SessionKeymap =
    Keymap_NONE | Keymap_CUSTOM | Keymap_ATOK | Keymap_MSIME | Keymap_KOTOERI | Keymap_MOBILE | Keymap_CHROMEOS
  | OVERLAY_HENKAN_MUHENKAN_TO_IME_ON_OFF | OVERLAY_FOR_TEST

record KeymapConfig =
  session_keymap :: SessionKeymap
  custom_keymap_table :: bytes
  overlay_keymaps :: "SessionKeymap list"

definition GetDefaultKeyMap :: "Build \<Rightarrow> SessionKeymap" where
  "GetDefaultKeyMap b =
     (case platform b of Macos \<Rightarrow> Keymap_KOTOERI | Chromeos \<Rightarrow> Keymap_CHROMEOS | _ \<Rightarrow> Keymap_MSIME)"

fun keymap_file :: "SessionKeymap \<Rightarrow> bytes option" where
  "keymap_file Keymap_ATOK = Some ''system://atok.tsv''"
| "keymap_file Keymap_MOBILE = Some ''system://mobile.tsv''"
| "keymap_file Keymap_MSIME = Some ''system://ms-ime.tsv''"
| "keymap_file Keymap_KOTOERI = Some ''system://kotoeri.tsv''"
| "keymap_file Keymap_CHROMEOS = Some ''system://chromeos.tsv''"
| "keymap_file Keymap_CUSTOM = Some ''user://keymap.tsv''"
| "keymap_file OVERLAY_HENKAN_MUHENKAN_TO_IME_ON_OFF =
     Some ''system://overlay_henkan_muhenkan_to_ime_on_off.tsv''"
| "keymap_file OVERLAY_FOR_TEST = None"
| "keymap_file Keymap_NONE = None"

text \<open>The function of the code calls itself on the default key map, which always has a file.\<close>

definition GetKeyMapFileName :: "Build \<Rightarrow> SessionKeymap \<Rightarrow> bytes" where
  "GetKeyMapFileName b k =
     (case keymap_file k of
        Some f \<Rightarrow> f
      | None \<Rightarrow> (case keymap_file (GetDefaultKeyMap b) of Some f \<Rightarrow> f | None \<Rightarrow> []))"

definition ApplyPrimarySessionKeymap ::
    "Build \<Rightarrow> Files \<Rightarrow> SessionKeymap \<Rightarrow> bytes \<Rightarrow> KeyMapManager \<Rightarrow> bool \<times> KeyMapManager" where
  "ApplyPrimarySessionKeymap b files k custom m =
     (if k = Keymap_CUSTOM \<and> custom = [] then
        KeyMap_LoadFile b files (GetKeyMapFileName b (GetDefaultKeyMap b)) m
      else if k \<noteq> Keymap_CUSTOM then KeyMap_LoadFile b files (GetKeyMapFileName b k) m
      else (True, LoadStream b custom m))"

definition ApplyOverlaySessionKeymap ::
    "Build \<Rightarrow> Files \<Rightarrow> SessionKeymap list \<Rightarrow> KeyMapManager \<Rightarrow> KeyMapManager" where
  "ApplyOverlaySessionKeymap b files overlays m =
     fold (\<lambda>k m. snd (KeyMap_LoadFile b files (GetKeyMapFileName b k) m)) overlays m"

definition new_KeyMapManager :: "Build \<Rightarrow> Files \<Rightarrow> KeymapConfig \<Rightarrow> KeyMapManager" where
  "new_KeyMapManager b files config =
     ApplyOverlaySessionKeymap b files (overlay_keymaps config)
       (snd (ApplyPrimarySessionKeymap b files (session_keymap config) (custom_keymap_table config)
          empty_KeyMapManager))"

text \<open>The manager of a context that was given none: the default key map, without overlays.\<close>

definition default_KeyMapManager :: "Build \<Rightarrow> Files \<Rightarrow> KeyMapManager" where
  "default_KeyMapManager b files =
     snd (ApplyPrimarySessionKeymap b files (GetDefaultKeyMap b) [] empty_KeyMapManager)"

text \<open>\<open>std::equal\<close> is given both ends of both lists, so it compares the lists.\<close>

definition IsSameKeyMapManagerApplicable :: "KeymapConfig \<Rightarrow> KeymapConfig \<Rightarrow> bool" where
  "IsSameKeyMapManagerApplicable old new =
     (if session_keymap old \<noteq> session_keymap new then False
      else if overlay_keymaps old \<noteq> overlay_keymaps new then False
      else if session_keymap old = Keymap_CUSTOM \<and> custom_keymap_table old \<noteq> custom_keymap_table new
      then False else True)"

section \<open>The key maps of the session handler\<close>

text \<open>
  \<open>session/session_handler.cc\<close> keeps the configuration it last saw, the manager built from one, and the
  sessions, each with the manager it was last handed (the request and the romaji table, which are handed out
  beside it, are left out). \<open>UpdateSessions\<close> is called with the shared
  configuration of the moment; the code sees that it changed by its address, and the addresses of different
  configurations differ. A configuration that was replaced by an equal one makes no difference here, since
  then the manager is kept too.
\<close>

record KeyMapHandler =
  handler_config :: KeymapConfig
  handler_manager :: KeyMapManager
  session_managers :: "(64 word \<times> KeyMapManager) list"

definition new_KeyMapHandler :: "Build \<Rightarrow> Files \<Rightarrow> KeymapConfig \<Rightarrow> KeyMapHandler" where
  "new_KeyMapHandler b files config =
     \<lparr>handler_config = config, handler_manager = new_KeyMapManager b files config, session_managers = []\<rparr>"

definition UpdateSessions :: "Build \<Rightarrow> Files \<Rightarrow> KeymapConfig \<Rightarrow> KeyMapHandler \<Rightarrow> KeyMapHandler" where
  "UpdateSessions b files shared h =
     (let is_config_updated = (shared \<noteq> handler_config h);
          is_key_manager_updated =
            (is_config_updated \<and> \<not> IsSameKeyMapManagerApplicable (handler_config h) shared);
          h = (if is_config_updated then h\<lparr>handler_config := shared\<rparr> else h);
          h = (if is_key_manager_updated
               then h\<lparr>handler_manager := new_KeyMapManager b files (handler_config h)\<rparr> else h)
      in h\<lparr>session_managers := map (\<lambda>(i, _). (i, handler_manager h)) (session_managers h)\<rparr>)"

text \<open>
  A new session starts with the default manager and is brought up to date with the others; a session goes
  when it is deleted, when it is the oldest one of a full map, or when its application is gone.
\<close>

definition handler_CreateSession ::
    "Build \<Rightarrow> Files \<Rightarrow> 64 word \<Rightarrow> KeymapConfig \<Rightarrow> KeyMapHandler \<Rightarrow> KeyMapHandler" where
  "handler_CreateSession b files new_id shared h =
     UpdateSessions b files shared
       (h\<lparr>session_managers := (new_id, default_KeyMapManager b files) # session_managers h\<rparr>)"

definition handler_DeleteSessionID :: "64 word \<Rightarrow> KeyMapHandler \<Rightarrow> KeyMapHandler" where
  "handler_DeleteSessionID i h = h\<lparr>session_managers := filter (\<lambda>s. fst s \<noteq> i) (session_managers h)\<rparr>"

datatype HandlerStep =
    Step_UpdateSessions KeymapConfig | Step_CreateSession "64 word" KeymapConfig | Step_DeleteSession "64 word"

fun handler_step :: "Build \<Rightarrow> Files \<Rightarrow> HandlerStep \<Rightarrow> KeyMapHandler \<Rightarrow> KeyMapHandler" where
  "handler_step b files (Step_UpdateSessions shared) h = UpdateSessions b files shared h"
| "handler_step b files (Step_CreateSession i shared) h = handler_CreateSession b files i shared h"
| "handler_step b files (Step_DeleteSession i) h = handler_DeleteSessionID i h"

section \<open>Asking for the command of a key\<close>

definition GetCommandDirect :: "KeyMapManager \<Rightarrow> KeyEvent \<Rightarrow> DirectInputCommand option" where
  "GetCommandDirect m e = KeyMap_GetCommand (keymap_direct m) e"

definition GetCommandPrecomposition :: "KeyMapManager \<Rightarrow> KeyEvent \<Rightarrow> PrecompositionCommand option" where
  "GetCommandPrecomposition m e = KeyMap_GetCommand (keymap_precomposition m) e"

definition GetCommandComposition :: "KeyMapManager \<Rightarrow> KeyEvent \<Rightarrow> CompositionCommand option" where
  "GetCommandComposition m e = KeyMap_GetCommand (keymap_composition m) e"

definition GetCommandConversion :: "KeyMapManager \<Rightarrow> KeyEvent \<Rightarrow> ConversionCommand option" where
  "GetCommandConversion m e = KeyMap_GetCommand (keymap_conversion m) e"

definition GetCommandZeroQuerySuggestion :: "KeyMapManager \<Rightarrow> KeyEvent \<Rightarrow> PrecompositionCommand option" where
  "GetCommandZeroQuerySuggestion m e =
     (case KeyMap_GetCommand (keymap_zero_query_suggestion m) e of
        Some c \<Rightarrow> Some c | None \<Rightarrow> KeyMap_GetCommand (keymap_precomposition m) e)"

definition GetCommandSuggestion :: "KeyMapManager \<Rightarrow> KeyEvent \<Rightarrow> CompositionCommand option" where
  "GetCommandSuggestion m e =
     (case KeyMap_GetCommand (keymap_suggestion m) e of
        Some c \<Rightarrow> Some c | None \<Rightarrow> KeyMap_GetCommand (keymap_composition m) e)"

definition GetCommandPrediction :: "KeyMapManager \<Rightarrow> KeyEvent \<Rightarrow> ConversionCommand option" where
  "GetCommandPrediction m e =
     (case KeyMap_GetCommand (keymap_prediction m) e of
        Some c \<Rightarrow> Some c | None \<Rightarrow> KeyMap_GetCommand (keymap_conversion m) e)"

section \<open>The keys of the direct input state\<close>

text \<open>
  The client keeps the keys that mean something while the input method is off, to pass on only those.
  \<open>std::sort\<close> and \<open>std::binary_search\<close> work on the 64-bit key information.
\<close>

definition direct_row_key :: "bytes \<Rightarrow> 64 word option" where
  "direct_row_key unread =
     (let line = ChopReturns unread
      in if \<not> is_row line then None
         else case row_fields line of
           [state_name, key_event_name, _] \<Rightarrow>
             if state_name = ''Direct'' \<or> state_name = ''DirectInput''
             then (case ParseKey key_event_name of None \<Rightarrow> None | Some e \<Rightarrow> GetKeyInformation e)
             else None
         | _ \<Rightarrow> None)"

definition ExtractSortedDirectModeKeysFromStream :: "bytes \<Rightarrow> 64 word list" where
  "ExtractSortedDirectModeKeysFromStream text =
     sort (List.map_filter direct_row_key (tl (StrSplit (CHR 0x0A) text)))"

definition ExtractSortedDirectModeKeysFromFile :: "Files \<Rightarrow> bytes \<Rightarrow> 64 word list" where
  "ExtractSortedDirectModeKeysFromFile files name =
     (case files name of None \<Rightarrow> [] | Some text \<Rightarrow> ExtractSortedDirectModeKeysFromStream text)"

definition ExtractSortedDirectModeKeys :: "Build \<Rightarrow> Files \<Rightarrow> KeymapConfig \<Rightarrow> 64 word list" where
  "ExtractSortedDirectModeKeys b files config =
     (if session_keymap config = Keymap_CUSTOM then
        if custom_keymap_table config = []
        then ExtractSortedDirectModeKeysFromFile files (GetKeyMapFileName b (GetDefaultKeyMap b))
        else ExtractSortedDirectModeKeysFromStream (custom_keymap_table config)
      else ExtractSortedDirectModeKeysFromFile files (GetKeyMapFileName b (session_keymap config)))"

function lower_bound :: "'a::linorder list \<Rightarrow> 'a \<Rightarrow> nat \<Rightarrow> nat \<Rightarrow> nat" where
  "lower_bound xs k first len =
     (if len = 0 then first
      else let half = len div 2; middle = first + half
           in if xs ! middle < k then lower_bound xs k (middle + 1) (len - half - 1)
              else lower_bound xs k first half)"
  by pat_completeness auto
termination by (relation "measure (\<lambda>(_, _, _, len). len)") auto

declare lower_bound.simps [simp del]

definition binary_search :: "'a::linorder list \<Rightarrow> 'a \<Rightarrow> bool" where
  "binary_search xs k =
     (let i = lower_bound xs k 0 (length xs) in i < length xs \<and> \<not> k < xs ! i)"

definition ContainsKey :: "64 word list \<Rightarrow> KeyEvent \<Rightarrow> bool" where
  "ContainsKey sorted_keys e =
     (case GetKeyInformation e of None \<Rightarrow> False | Some k \<Rightarrow> binary_search sorted_keys k)"

end
