(* ===== verification/Key_Map_Facts.thy ===== *)
theory Key_Map_Facts
  imports Key_Map
begin

text \<open>
  Properties of the key maps: what a table makes of the maps, that no table takes away typing, when a manager
  may be kept, and the keys the client passes on in the direct input state.
\<close>

section \<open>What a table makes of the maps\<close>

text \<open>A row that is understood and not entered.\<close>

definition dropped_row :: "Build \<Rightarrow> bytes \<Rightarrow> bytes \<Rightarrow> bool" where
  "dropped_row b key_event_name command_name \<longleftrightarrow>
     IsMarinaNumberRowKeymapBinding command_name key_event_name \<or> release b \<and> command_name = ''ReportBug''"

text \<open>
  The row of a line, for a state with the given names and commands: the key and the command it binds, when
  the row is understood.
\<close>

definition row_rule :: "Build \<Rightarrow> bytes list \<Rightarrow> (bytes \<times> 'c) list \<Rightarrow> bytes \<Rightarrow> (64 word \<times> 'c) option" where
  "row_rule b states regs line =
     (if \<not> is_row (ChopReturns line) then None
      else case row_fields (ChopReturns line) of
        [state_name, key_event_name, command_name] \<Rightarrow>
          if state_name \<notin> set states \<or> dropped_row b key_event_name command_name then None
          else (case (ParseKey key_event_name, ParseCommand regs command_name) of
              (Some e, Some c) \<Rightarrow> map_option (\<lambda>k. (k, c)) (GetKeyInformation e)
            | _ \<Rightarrow> None)
      | _ \<Rightarrow> None)"

definition table_rules :: "Build \<Rightarrow> bytes list \<Rightarrow> (bytes \<times> 'c) list \<Rightarrow> bytes \<Rightarrow> (64 word \<times> 'c) list" where
  "table_rules b states regs text = List.map_filter (row_rule b states regs) (tl (StrSplit (CHR 0x0A) text))"

definition bind_rule :: "(64 word \<times> 'c) option \<Rightarrow> 'c KeyMap \<Rightarrow> 'c KeyMap" where
  "bind_rule r km = (case r of None \<Rightarrow> km | Some (k, c) \<Rightarrow> km(k \<mapsto> c))"

lemma bind_rules: "fold (\<lambda>l. bind_rule (f l)) ls km = km ++ map_of (rev (List.map_filter f ls))"
  by (induction ls arbitrary: km)
    (auto simp: bind_rule_def map_filter_simps map_add_def fun_eq_iff split: option.splits)

abbreviation (input) row_of :: "Build \<Rightarrow> bytes \<Rightarrow> KeyMapManager \<Rightarrow> KeyMapManager" where
  "row_of b l m \<equiv> fst (keymap_line b l (m, []))"

lemma keymap_line_errors: "fst (keymap_line b l (m, es)) = fst (keymap_line b l (m, []))"
  by (auto simp: keymap_line_def Let_def split: list.splits option.splits)

lemma fold_keymap_line: "fst (fold (keymap_line b) ls (m, es)) = fold (\<lambda>l m. fst (keymap_line b l (m, []))) ls m"
proof (induction ls arbitrary: m es)
  case (Cons l ls)
  obtain m' es' where l: "keymap_line b l (m, es) = (m', es')" by (metis surj_pair)
  then have "m' = fst (keymap_line b l (m, []))" using keymap_line_errors [of b l m es] by simp
  then show ?case using Cons l by simp
qed simp

lemma keymap_line_cases:
  "fst (keymap_line b l (m, [])) =
     (if \<not> is_row (ChopReturns l) then m
      else case row_fields (ChopReturns l) of
        [s, k, c] \<Rightarrow> (case AddCommand b s k c m of None \<Rightarrow> m | Some m' \<Rightarrow> m')
      | _ \<Rightarrow> m)"
  by (auto simp: keymap_line_def Let_def split: list.splits option.splits)

text \<open>One line changes each map by the rule it has for the state of the map.\<close>

definition command_rule ::
    "Build \<Rightarrow> bytes list \<Rightarrow> (bytes \<times> 'c) list \<Rightarrow> bytes \<Rightarrow> bytes \<Rightarrow> bytes \<Rightarrow> (64 word \<times> 'c) option" where
  "command_rule b states regs s k c =
     (if s \<notin> set states \<or> dropped_row b k c then None
      else (case (ParseKey k, ParseCommand regs c) of
          (Some e, Some d) \<Rightarrow> map_option (\<lambda>i. (i, d)) (GetKeyInformation e)
        | _ \<Rightarrow> None))"

lemma row_rule_command:
  "row_rule b states regs l =
     (if \<not> is_row (ChopReturns l) then None
      else case row_fields (ChopReturns l) of [s, k, c] \<Rightarrow> command_rule b states regs s k c | _ \<Rightarrow> None)"
  by (simp only: row_rule_def command_rule_def)

lemma command_rule_simps:
  "s \<notin> set states \<Longrightarrow> command_rule b states regs s k c = None"
  "s \<in> set states \<Longrightarrow> \<not> dropped_row b k c \<Longrightarrow>
   ParseKey k = Some e \<Longrightarrow>
   bind_rule (command_rule b states regs s k c) km =
     (case ParseCommand regs c of None \<Rightarrow> km | Some d \<Rightarrow> KeyMap_AddRule km e d)"
  by (auto simp: command_rule_def bind_rule_def KeyMap_AddRule_def split: option.split)

lemma bind_rule_None [simp]: "bind_rule None km = km"
  by (simp add: bind_rule_def)

abbreviation (input) added :: "Build \<Rightarrow> bytes \<Rightarrow> bytes \<Rightarrow> bytes \<Rightarrow> KeyMapManager \<Rightarrow> KeyMapManager" where
  "added b s k c m \<equiv> case AddCommand b s k c m of None \<Rightarrow> m | Some m' \<Rightarrow> m'"

lemma AddCommand_key:
  assumes "ParseKey k = Some e" "\<not> dropped_row b k c"
  shows
  "keymap_direct (added b s k c m) =
     bind_rule (command_rule b [''Direct'', ''DirectInput''] (direct_commands b) s k c) (keymap_direct m)"
  "keymap_precomposition (added b s k c m) =
     bind_rule (command_rule b [''Precomposition''] (precomposition_commands b) s k c) (keymap_precomposition m)"
  "keymap_composition (added b s k c m) =
     bind_rule (command_rule b [''Composition''] (composition_commands b) s k c) (keymap_composition m)"
  "keymap_conversion (added b s k c m) =
     bind_rule (command_rule b [''Conversion''] (conversion_commands b) s k c) (keymap_conversion m)"
  "keymap_zero_query_suggestion (added b s k c m) =
     bind_rule (command_rule b [''ZeroQuerySuggestion''] (precomposition_commands b) s k c)
       (keymap_zero_query_suggestion m)"
  "keymap_suggestion (added b s k c m) =
     bind_rule (command_rule b [''Suggestion''] (composition_commands b) s k c) (keymap_suggestion m)"
  "keymap_prediction (added b s k c m) =
     bind_rule (command_rule b [''Prediction''] (conversion_commands b) s k c) (keymap_prediction m)"
proof -
  have "\<not> IsMarinaNumberRowKeymapBinding c k" "\<not> (release b \<and> c = ''ReportBug'')"
    using assms(2) by (simp_all add: dropped_row_def)
  note a = this command_rule_simps(1) command_rule_simps(2) [OF _ assms(2,1)] assms(1)
  show "keymap_direct (added b s k c m) =
     bind_rule (command_rule b [''Direct'', ''DirectInput''] (direct_commands b) s k c) (keymap_direct m)"
    "keymap_precomposition (added b s k c m) =
     bind_rule (command_rule b [''Precomposition''] (precomposition_commands b) s k c) (keymap_precomposition m)"
    "keymap_composition (added b s k c m) =
     bind_rule (command_rule b [''Composition''] (composition_commands b) s k c) (keymap_composition m)"
    "keymap_conversion (added b s k c m) =
     bind_rule (command_rule b [''Conversion''] (conversion_commands b) s k c) (keymap_conversion m)"
    "keymap_zero_query_suggestion (added b s k c m) =
     bind_rule (command_rule b [''ZeroQuerySuggestion''] (precomposition_commands b) s k c)
       (keymap_zero_query_suggestion m)"
    "keymap_suggestion (added b s k c m) =
     bind_rule (command_rule b [''Suggestion''] (composition_commands b) s k c) (keymap_suggestion m)"
    "keymap_prediction (added b s k c m) =
     bind_rule (command_rule b [''Prediction''] (conversion_commands b) s k c) (keymap_prediction m)"
    by (simp_all add: AddCommand_def a split: option.split)
qed

lemma AddCommand_None:
  "dropped_row b k c \<Longrightarrow> AddCommand b s k c m = Some m"
  "ParseKey k = None \<Longrightarrow> \<not> dropped_row b k c \<Longrightarrow> AddCommand b s k c m = None"
  "dropped_row b k c \<Longrightarrow> command_rule b states regs s k c = None"
  "ParseKey k = None \<Longrightarrow> command_rule b states regs s k c = None"
  by (auto simp: AddCommand_def dropped_row_def command_rule_def)

lemma added_map:
  assumes "\<And>e. ParseKey k = Some e \<Longrightarrow> \<not> dropped_row b k c \<Longrightarrow>
    sel (added b s k c m) = bind_rule (command_rule b states regs s k c) (sel m)"
  shows "sel (added b s k c m) = bind_rule (command_rule b states regs s k c) (sel m)"
proof (cases "dropped_row b k c")
  case True
  then show ?thesis by (simp only: AddCommand_None option.case bind_rule_None)
next
  case False
  then show ?thesis
  proof (cases "ParseKey k")
    case None
    then show ?thesis using False by (simp only: AddCommand_None option.case bind_rule_None simp_thms)
  next
    case (Some e)
    then show ?thesis using False by (rule assms)
  qed
qed

lemma AddCommand_maps:
  "keymap_direct (added b s k c m) =
     bind_rule (command_rule b [''Direct'', ''DirectInput''] (direct_commands b) s k c) (keymap_direct m)"
  "keymap_precomposition (added b s k c m) =
     bind_rule (command_rule b [''Precomposition''] (precomposition_commands b) s k c) (keymap_precomposition m)"
  "keymap_composition (added b s k c m) =
     bind_rule (command_rule b [''Composition''] (composition_commands b) s k c) (keymap_composition m)"
  "keymap_conversion (added b s k c m) =
     bind_rule (command_rule b [''Conversion''] (conversion_commands b) s k c) (keymap_conversion m)"
  "keymap_zero_query_suggestion (added b s k c m) =
     bind_rule (command_rule b [''ZeroQuerySuggestion''] (precomposition_commands b) s k c)
       (keymap_zero_query_suggestion m)"
  "keymap_suggestion (added b s k c m) =
     bind_rule (command_rule b [''Suggestion''] (composition_commands b) s k c) (keymap_suggestion m)"
  "keymap_prediction (added b s k c m) =
     bind_rule (command_rule b [''Prediction''] (conversion_commands b) s k c) (keymap_prediction m)"
  by (rule added_map; rule AddCommand_key; assumption)+

lemma line_maps:
  "keymap_direct (row_of b l m) =
     bind_rule (row_rule b [''Direct'', ''DirectInput''] (direct_commands b) l) (keymap_direct m)"
  "keymap_precomposition (row_of b l m) =
     bind_rule (row_rule b [''Precomposition''] (precomposition_commands b) l) (keymap_precomposition m)"
  "keymap_composition (row_of b l m) =
     bind_rule (row_rule b [''Composition''] (composition_commands b) l) (keymap_composition m)"
  "keymap_conversion (row_of b l m) =
     bind_rule (row_rule b [''Conversion''] (conversion_commands b) l) (keymap_conversion m)"
  "keymap_zero_query_suggestion (row_of b l m) =
     bind_rule (row_rule b [''ZeroQuerySuggestion''] (precomposition_commands b) l)
       (keymap_zero_query_suggestion m)"
  "keymap_suggestion (row_of b l m) =
     bind_rule (row_rule b [''Suggestion''] (composition_commands b) l) (keymap_suggestion m)"
  "keymap_prediction (row_of b l m) =
     bind_rule (row_rule b [''Prediction''] (conversion_commands b) l) (keymap_prediction m)"
  unfolding keymap_line_cases row_rule_command
  by (auto simp: AddCommand_maps split: list.split)

section \<open>The fixed rules\<close>

lemma ascii_word:
  assumes "list_all (\<lambda>b. 0x20 < byte b \<and> byte b < 0x80) s" "2 \<le> length s"
  shows "LowerString s = map lower_ascii s" "CharsLen s = length s" "StrSplit (CHR '' '') s = [s]"
proof -
  have w: "\<forall>b \<in> set s. 0x20 < byte b \<and> byte b < 0x80" using assms(1) by (simp add: list_all_iff)
  show "LowerString s = map lower_ascii s" by (rule LowerString_ascii) (use w in \<open>auto simp: list_all_iff\<close>)
  have e: "Utf32ToUtf8 (map byte s) = s" by (rule ascii_encode) (use w in \<open>auto simp: list_all_iff\<close>)
  have "list_all unicode (map byte s)" using w by (fastforce simp: list_all_iff unicode_def)
  from CharsLen_encode [OF this] show "CharsLen s = length s" unfolding e by simp
  show "StrSplit (CHR '' '') s = [s]" by (rule StrSplit_no_sep) (use w in \<open>fastforce simp: byte_def\<close>)
qed

lemma ParseKey_text_input: "ParseKey ''TextInput'' = Some (empty_KeyEvent\<lparr>special_key := Some 64\<rparr>)"
  using ascii_word [of "''TextInput''"]
  by (simp add: ParseKey_def ParseKeyVector_def byte_def lower_ascii_def char_of_eq_iff kModifierKeyMap_def map_of_assoc_find
    kSpecialKeyMap_def empty_KeyEvent_def Let_def)

lemma char_of_s: "char_of (115 :: nat) = CHR ''s''"
  by (simp add: char_of_eq_iff byte_def)

lemma ParseKey_shift: "ParseKey ''Shift'' = Some (empty_KeyEvent\<lparr>modifier_keys := [SHIFT]\<rparr>)"
  using ascii_word [of "''Shift''"] char_of_s
  by (simp add: ParseKey_def ParseKeyVector_def byte_def lower_ascii_def char_of_eq_iff kModifierKeyMap_def map_of_assoc_find
    kSpecialKeyMap_def empty_KeyEvent_def Let_def set_add_def)

abbreviation key_text_input :: "64 word" where "key_text_input \<equiv> 0x4000000000"
abbreviation key_shift :: "64 word" where "key_shift \<equiv> 0x4000000000000"
abbreviation key_ime_action :: "64 word" where "key_ime_action \<equiv> 0x4D00000000"
abbreviation key_right_shift :: "64 word" where "key_right_shift \<equiv> 0x400000000000000"

lemma fixed_keys:
  "GetKeyInformation (parsed_key ''TextInput'') = Some key_text_input"
  "GetKeyInformation (parsed_key ''Shift'') = Some key_shift"
  "GetKeyInformation (empty_KeyEvent\<lparr>special_key := Some 77\<rparr>) = Some key_ime_action"
  "GetKeyInformation right_shift_only = Some key_right_shift"
  by (simp_all add: parsed_key_def ParseKey_text_input ParseKey_shift right_shift_only_def GetKeyInformation_def
      GetModifiers_def empty_KeyEvent_def Let_def push_bit_eq_mult)

lemma add_fixed_rules_maps:
  "add_fixed_rules m = m
     \<lparr>keymap_precomposition := (keymap_precomposition m)
        (key_text_input \<mapsto> Precomposition_INSERT_CHARACTER, key_ime_action \<mapsto> Precomposition_IME_ACTION),
      keymap_composition := (keymap_composition m)
        (key_text_input \<mapsto> Composition_INSERT_CHARACTER, key_shift \<mapsto> Composition_INSERT_CHARACTER),
      keymap_conversion := (keymap_conversion m)(key_text_input \<mapsto> Conversion_INSERT_CHARACTER)\<rparr>"
  by (simp add: add_fixed_rules_def Let_def KeyMap_AddRule_def fixed_keys)

lemma fold_maps:
  assumes "\<And>l m. sel (f l m) = bind_rule (g l) (sel m)"
  shows "sel (fold f ls m) = sel m ++ map_of (rev (List.map_filter g ls))"
proof -
  have "sel (fold f ls m) = fold (\<lambda>l. bind_rule (g l)) ls (sel m)"
    by (induction ls arbitrary: m) (simp_all add: assms)
  then show ?thesis by (simp add: bind_rules)
qed

lemma LoadStream_fold:
  "LoadStream b text m = add_fixed_rules (fold (\<lambda>l m. row_of b l m) (tl (StrSplit (CHR 0x0A) text)) m)"
  by (simp add: LoadStream_def LoadStreamWithErrors_def case_prod_unfold fold_keymap_line)

lemmas rows_maps =
  fold_maps [where sel = keymap_direct and f = "\<lambda>l m. row_of b l m" for b, OF line_maps(1)]
  fold_maps [where sel = keymap_precomposition and f = "\<lambda>l m. row_of b l m" for b, OF line_maps(2)]
  fold_maps [where sel = keymap_composition and f = "\<lambda>l m. row_of b l m" for b, OF line_maps(3)]
  fold_maps [where sel = keymap_conversion and f = "\<lambda>l m. row_of b l m" for b, OF line_maps(4)]
  fold_maps [where sel = keymap_zero_query_suggestion and f = "\<lambda>l m. row_of b l m" for b, OF line_maps(5)]
  fold_maps [where sel = keymap_suggestion and f = "\<lambda>l m. row_of b l m" for b, OF line_maps(6)]
  fold_maps [where sel = keymap_prediction and f = "\<lambda>l m. row_of b l m" for b, OF line_maps(7)]

text \<open>A table is read as it is written: each map is the old one, overridden by the rules of the rows of
  its state, of which a later one replaces an earlier one; the rules every table gets (typing in three
  states, Shift while composing and the action key) replace whatever the table says for these keys.\<close>

lemma LoadStream_maps:
  "keymap_direct (LoadStream b text m) =
     keymap_direct m ++ map_of (rev (table_rules b [''Direct'', ''DirectInput''] (direct_commands b) text)) \<and>
   keymap_precomposition (LoadStream b text m) =
     (keymap_precomposition m ++ map_of (rev (table_rules b [''Precomposition''] (precomposition_commands b) text)))
       (key_text_input \<mapsto> Precomposition_INSERT_CHARACTER, key_ime_action \<mapsto> Precomposition_IME_ACTION) \<and>
   keymap_composition (LoadStream b text m) =
     (keymap_composition m ++ map_of (rev (table_rules b [''Composition''] (composition_commands b) text)))
       (key_text_input \<mapsto> Composition_INSERT_CHARACTER, key_shift \<mapsto> Composition_INSERT_CHARACTER) \<and>
   keymap_conversion (LoadStream b text m) =
     (keymap_conversion m ++ map_of (rev (table_rules b [''Conversion''] (conversion_commands b) text)))
       (key_text_input \<mapsto> Conversion_INSERT_CHARACTER) \<and>
   keymap_zero_query_suggestion (LoadStream b text m) =
     keymap_zero_query_suggestion m ++
       map_of (rev (table_rules b [''ZeroQuerySuggestion''] (precomposition_commands b) text)) \<and>
   keymap_suggestion (LoadStream b text m) =
     keymap_suggestion m ++ map_of (rev (table_rules b [''Suggestion''] (composition_commands b) text)) \<and>
   keymap_prediction (LoadStream b text m) =
     keymap_prediction m ++ map_of (rev (table_rules b [''Prediction''] (conversion_commands b) text))"
  by (simp add: LoadStream_fold add_fixed_rules_maps table_rules_def rows_maps)

lemma LoadStream_maps_direct:
  "keymap_direct (LoadStream b text m) =
     keymap_direct m ++ map_of (rev (table_rules b [''Direct'', ''DirectInput''] (direct_commands b) text))"
  by (simp add: LoadStream_fold add_fixed_rules_maps table_rules_def rows_maps)

section \<open>Typing\<close>

text \<open>A typed character: a key code behind the space, and no modifiers but the ones that are ignored.\<close>

definition typed_key :: "KeyEvent \<Rightarrow> bool" where
  "typed_key e \<longleftrightarrow>
     (case key_code e of None \<Rightarrow> False | Some c \<Rightarrow> 32 < c) \<and> special_key e = None \<and> modifiers e = None \<and>
     list_all (\<lambda>k. k AND kIgnorableModifierMask \<noteq> 0) (modifier_keys e)"

lemma typed_normal:
  assumes "typed_key e"
  shows "\<exists>c. key_code (NormalizeModifiers e) = Some c \<and> 32 < c"
    and "special_key (NormalizeModifiers e) = None" and "GetModifiers (NormalizeModifiers e) = 0"
proof -
  obtain c where c: "key_code e = Some c" "32 < c" using assms by (auto simp: typed_key_def split: option.splits)
  have up: "32 < c + 0x20" if "0x41 \<le> c" "c \<le> 0x5A"
    using that by (simp add: word_less_nat_alt word_le_nat_alt unat_word_ariths)
  have down: "32 < c - 0x20" if "0x61 \<le> c" "c \<le> 0x7A"
    using that by (simp add: word_less_nat_alt word_le_nat_alt unat_sub)
  show "\<exists>c. key_code (NormalizeModifiers e) = Some c \<and> 32 < c"
    using c up down by (auto simp: NormalizeModifiers_def Let_def RemoveModifiers_other)
  show "special_key (NormalizeModifiers e) = None"
    using assms by (auto simp: typed_key_def NormalizeModifiers_def Let_def RemoveModifiers_other split: option.splits)
  have "modifier_keys (RemoveModifiers e kIgnorableModifierMask) = []"
  proof -
    have "modifier_keys (RemoveModifiers e kIgnorableModifierMask) =
        filter (\<lambda>k. kIgnorableModifierMask AND k = 0) (modifier_keys e)"
      by (simp add: RemoveModifiers_def Let_def kIgnorableModifierMask_def HasAlt_def HasCtrl_def HasShift_def
          Any_of_def kAltMask_def kCtrlMask_def kShiftMask_def)
    then show ?thesis using assms by (auto simp: typed_key_def list_all_iff filter_empty_conv and.commute)
  qed
  then show "GetModifiers (NormalizeModifiers e) = 0"
    unfolding NormalizeModifiers_modifiers
    using assms by (simp add: GetModifiers_def RemoveModifiers_other typed_key_def)
qed

lemma text_input_event: "parsed_key ''TextInput'' = empty_KeyEvent\<lparr>special_key := Some Key_TEXT_INPUT\<rparr>"
  by (simp add: parsed_key_def ParseKey_text_input)

lemma typed_has_key:
  assumes "typed_key e"
  shows "\<exists>k. GetKeyInformation (NormalizeModifiers e) = Some k"
proof -
  obtain c where "key_code (NormalizeModifiers e) = Some c" "32 < c" using typed_normal(1) [OF assms] by blast
  then show ?thesis by (auto simp: GetKeyInformation_def Let_def not_le)
qed

lemma typed_lookup:
  assumes "typed_key e" and k: "GetKeyInformation (NormalizeModifiers e) = Some k"
  shows "KeyMap_GetCommand km e = (case km k of Some c \<Rightarrow> Some c | None \<Rightarrow> km key_text_input)"
proof -
  note n = typed_normal [OF assms(1)]
  obtain d where e: "key_code e = Some d" using assms(1) by (cases "key_code e") (simp_all add: typed_key_def)
  obtain c where c: "key_code (NormalizeModifiers e) = Some c" "32 < c" using n(1) by blast
  have "MaybeGetKeyStub (NormalizeModifiers e) = Some key_text_input"
    using n(2,3) c fixed_keys(1) by (simp add: MaybeGetKeyStub_def text_input_event not_le)
  then show ?thesis
    using e k by (simp add: KeyMap_GetCommand_def Let_def lookup_key_def split: option.split)
qed

definition has_typing :: "KeyMapManager \<Rightarrow> bool" where
  "has_typing m \<longleftrightarrow>
     keymap_precomposition m key_text_input = Some Precomposition_INSERT_CHARACTER \<and>
     keymap_composition m key_text_input = Some Composition_INSERT_CHARACTER \<and>
     keymap_conversion m key_text_input = Some Conversion_INSERT_CHARACTER"

lemma LoadStream_has_typing: "has_typing (LoadStream b text m)"
  by (simp add: has_typing_def LoadStream_fold add_fixed_rules_maps)

definition primary_table :: "Build \<Rightarrow> Files \<Rightarrow> KeymapConfig \<Rightarrow> bytes option" where
  "primary_table b files config =
     (if session_keymap config = Keymap_CUSTOM then
        if custom_keymap_table config = [] then files (GetKeyMapFileName b (GetDefaultKeyMap b))
        else Some (custom_keymap_table config)
      else files (GetKeyMapFileName b (session_keymap config)))"

lemma ApplyPrimary_table:
  "snd (ApplyPrimarySessionKeymap b files (session_keymap config) (custom_keymap_table config) m) =
     (case primary_table b files config of None \<Rightarrow> m | Some text \<Rightarrow> LoadStream b text m)"
  by (auto simp: ApplyPrimarySessionKeymap_def primary_table_def KeyMap_LoadFile_def split: option.split)

lemma ApplyOverlay_has_typing: "has_typing m \<Longrightarrow> has_typing (ApplyOverlaySessionKeymap b files ks m)"
  unfolding ApplyOverlaySessionKeymap_def
proof (induction ks arbitrary: m)
  case (Cons k ks)
  have "has_typing (snd (KeyMap_LoadFile b files (GetKeyMapFileName b k) m))"
    using Cons.prems by (cases "files (GetKeyMapFileName b k)") (simp_all add: KeyMap_LoadFile_def LoadStream_has_typing)
  from Cons.IH [OF this] show ?case by simp
qed simp

lemma new_has_typing:
  assumes "primary_table b files config \<noteq> None"
  shows "has_typing (new_KeyMapManager b files config)"
proof -
  obtain t where "primary_table b files config = Some t" using assms by blast
  then show ?thesis
    by (simp add: new_KeyMapManager_def ApplyPrimary_table ApplyOverlay_has_typing LoadStream_has_typing)
qed

text \<open>The first answer there is, and else the given one.\<close>

fun first_of :: "'a option list \<Rightarrow> 'a \<Rightarrow> 'a" where
  "first_of [] d = d"
| "first_of (None # xs) d = first_of xs d"
| "first_of (Some x # xs) d = x"

text \<open>C34: No table takes away typing: whatever rows the custom table and the overlays have, a character
  without modifiers (CapsLock and the left and right variants are ignored) has a command in every state in
  which the input method is on. Before typing, while composing and while converting this is the command the
  map binds to just this key, and else to insert the character. With suggestions or predictions on the screen
  the map of that state is asked first, for this key and then for text input in general (to which a table may
  bind anything there), then the map of the state below it for this key, and else the character is
  inserted.\<close>

theorem typing_survives:
  assumes "primary_table b files config \<noteq> None" and "typed_key e"
  shows "\<exists>k. GetKeyInformation (NormalizeModifiers e) = Some k \<and>
    (\<forall>m. m = new_KeyMapManager b files config \<longrightarrow>
      GetCommandPrecomposition m e =
        Some (first_of [keymap_precomposition m k] Precomposition_INSERT_CHARACTER) \<and>
      GetCommandComposition m e = Some (first_of [keymap_composition m k] Composition_INSERT_CHARACTER) \<and>
      GetCommandConversion m e = Some (first_of [keymap_conversion m k] Conversion_INSERT_CHARACTER) \<and>
      GetCommandZeroQuerySuggestion m e =
        Some (first_of [keymap_zero_query_suggestion m k, keymap_zero_query_suggestion m key_text_input,
          keymap_precomposition m k] Precomposition_INSERT_CHARACTER) \<and>
      GetCommandSuggestion m e =
        Some (first_of [keymap_suggestion m k, keymap_suggestion m key_text_input,
          keymap_composition m k] Composition_INSERT_CHARACTER) \<and>
      GetCommandPrediction m e =
        Some (first_of [keymap_prediction m k, keymap_prediction m key_text_input,
          keymap_conversion m k] Conversion_INSERT_CHARACTER))"
proof -
  have t: "has_typing (new_KeyMapManager b files config)" by (rule new_has_typing [OF assms(1)])
  obtain k where k: "GetKeyInformation (NormalizeModifiers e) = Some k" using typed_has_key [OF assms(2)] by blast
  note l = typed_lookup [OF assms(2) k]
  show ?thesis
    unfolding GetCommandPrecomposition_def GetCommandComposition_def GetCommandConversion_def
      GetCommandZeroQuerySuggestion_def GetCommandSuggestion_def GetCommandPrediction_def l
    using t k unfolding has_typing_def by (intro exI [of _ k]) (simp split: option.split)
qed

definition toy_build :: Build where
  "toy_build = \<lparr>platform = Other_platform, release = True\<rparr>"

definition toy_keymap_config :: "bytes \<Rightarrow> KeymapConfig" where
  "toy_keymap_config table = \<lparr>session_keymap = Keymap_CUSTOM, custom_keymap_table = table, overlay_keymaps = []\<rparr>"

theorem typing_survives_witness:
  "GetCommandPrecomposition (new_KeyMapManager toy_build (\<lambda>_. None) (toy_keymap_config ''x''))
     (empty_KeyEvent\<lparr>key_code := Some 0x61, modifier_keys := [CAPS]\<rparr>) \<noteq> None"
proof -
  have "primary_table toy_build (\<lambda>_. None) (toy_keymap_config ''x'') \<noteq> None"
    by (simp add: primary_table_def toy_keymap_config_def)
  moreover have "typed_key (empty_KeyEvent\<lparr>key_code := Some 0x61, modifier_keys := [CAPS]\<rparr>)"
    by (simp add: typed_key_def empty_KeyEvent_def kIgnorableModifierMask_def)
  ultimately show ?thesis using typing_survives by (metis option.distinct(1))
qed

section \<open>Keeping a manager\<close>

lemma IsSameKeyMapManagerApplicable_sound:
  assumes "IsSameKeyMapManagerApplicable old new"
  shows "new_KeyMapManager b files old = new_KeyMapManager b files new"
  using assms
  by (cases "session_keymap old = Keymap_CUSTOM")
    (simp_all add: IsSameKeyMapManagerApplicable_def new_KeyMapManager_def ApplyPrimarySessionKeymap_def
      split: if_splits)

definition handler_current :: "Build \<Rightarrow> Files \<Rightarrow> KeyMapHandler \<Rightarrow> bool" where
  "handler_current b files h \<longleftrightarrow>
     handler_manager h = new_KeyMapManager b files (handler_config h) \<and>
     snd ` set (session_managers h) \<subseteq> {handler_manager h}"

lemma UpdateSessions_fields:
  "handler_config (UpdateSessions b files shared h) = shared"
  "handler_manager (UpdateSessions b files shared h) =
     (if shared \<noteq> handler_config h \<and> \<not> IsSameKeyMapManagerApplicable (handler_config h) shared
      then new_KeyMapManager b files shared else handler_manager h)"
  "session_managers (UpdateSessions b files shared h) =
     map (\<lambda>s. (fst s, handler_manager (UpdateSessions b files shared h))) (session_managers h)"
  by (simp_all add: UpdateSessions_def Let_def case_prod_unfold)

lemma UpdateSessions_manager:
  assumes "handler_manager h = new_KeyMapManager b files (handler_config h)"
  shows "handler_manager (UpdateSessions b files shared h) = new_KeyMapManager b files shared"
proof (cases "shared \<noteq> handler_config h \<and> \<not> IsSameKeyMapManagerApplicable (handler_config h) shared")
  case False
  then have "new_KeyMapManager b files (handler_config h) = new_KeyMapManager b files shared"
    using IsSameKeyMapManagerApplicable_sound [of "handler_config h" shared b files] by (metis (full_types))
  then show ?thesis unfolding UpdateSessions_fields(2) if_not_P [OF False] assms .
qed (simp only: UpdateSessions_fields(2) if_True simp_thms)

lemma UpdateSessions_current:
  assumes "handler_manager h = new_KeyMapManager b files (handler_config h)"
  shows "handler_current b files (UpdateSessions b files shared h)"
proof -
  have "snd ` set (session_managers (UpdateSessions b files shared h)) \<subseteq>
      {handler_manager (UpdateSessions b files shared h)}"
    unfolding UpdateSessions_fields(3) [of b files shared h] by auto
  then show ?thesis
    unfolding handler_current_def UpdateSessions_fields(1) using UpdateSessions_manager [OF assms] by blast
qed

lemma handler_step_current:
  assumes "handler_current b files h"
  shows "handler_current b files (handler_step b files s h)"
proof (cases s)
  case (Step_UpdateSessions shared)
  have "handler_manager h = new_KeyMapManager b files (handler_config h)"
    using assms by (simp add: handler_current_def)
  then show ?thesis unfolding Step_UpdateSessions handler_step.simps by (rule UpdateSessions_current)
next
  case (Step_CreateSession i shared)
  have "handler_manager h = new_KeyMapManager b files (handler_config h)"
    using assms by (simp add: handler_current_def)
  then show ?thesis
    unfolding Step_CreateSession handler_step.simps handler_CreateSession_def
    by (intro UpdateSessions_current) simp
next
  case (Step_DeleteSession i)
  then show ?thesis using assms by (auto simp: handler_DeleteSessionID_def handler_current_def)
qed

text \<open>The shared configuration the handler saw last.\<close>

fun seen_config :: "HandlerStep list \<Rightarrow> KeymapConfig \<Rightarrow> KeymapConfig" where
  "seen_config [] config = config"
| "seen_config (Step_UpdateSessions shared # ss) config = seen_config ss shared"
| "seen_config (Step_CreateSession i shared # ss) config = seen_config ss shared"
| "seen_config (Step_DeleteSession i # ss) config = seen_config ss config"

lemma handler_steps:
  "handler_current b files h \<Longrightarrow>
   handler_current b files (fold (handler_step b files) steps h) \<and>
   handler_config (fold (handler_step b files) steps h) = seen_config steps (handler_config h)"
proof (induction steps arbitrary: h)
  case (Cons s ss)
  have m: "handler_manager h = new_KeyMapManager b files (handler_config h)"
    using Cons.prems by (simp add: handler_current_def)
  have "handler_config (handler_step b files s h) =
      (case s of Step_DeleteSession i \<Rightarrow> handler_config h
       | Step_UpdateSessions c \<Rightarrow> c | Step_CreateSession i c \<Rightarrow> c)"
    using m UpdateSessions_fields(1)
    by (cases s) (simp_all add: handler_CreateSession_def handler_DeleteSessionID_def)
  then show ?case
    using Cons.IH [OF handler_step_current [OF Cons.prems, of s]] by (cases s) simp_all
qed simp

text \<open>C36: No session works with an outdated key map: however the configuration changes and sessions come and
  go, the handler and all its sessions have the manager that would be built afresh from the configuration seen
  last, although the handler builds a new one only when \<open>IsSameKeyMapManagerApplicable\<close> tells it to.\<close>

theorem session_key_maps_current:
  "let h = fold (handler_step b files) steps (new_KeyMapHandler b files config);
       m = new_KeyMapManager b files (seen_config steps config)
   in handler_manager h = m \<and> snd ` set (session_managers h) \<subseteq> {m}"
proof -
  define h where "h = fold (handler_step b files) steps (new_KeyMapHandler b files config)"
  have "handler_current b files (new_KeyMapHandler b files config)"
    by (simp add: handler_current_def new_KeyMapHandler_def)
  from handler_steps [OF this, of steps] have "handler_current b files h" "handler_config h = seen_config steps config"
    by (simp_all add: h_def new_KeyMapHandler_def)
  then show ?thesis unfolding Let_def h_def [symmetric] handler_current_def by metis
qed

text \<open>A table that gives the key Henkan a command in the direct input state.\<close>

definition overlay_text :: bytes where
  "overlay_text = ''head'' @ [CHR 0x0A] @ ''DirectInput'' @ [CHR 0x09] @ ''henkan'' @ [CHR 0x09] @ ''IMEOn''"

lemma overlay_rules:
  "table_rules toy_build [''Direct'', ''DirectInput''] (direct_commands toy_build) overlay_text =
     [(0xD00000000, DirectInput_IME_ON)]"
proof -
  have p: "ParseKey ''henkan'' = Some (empty_KeyEvent\<lparr>special_key := Some 13\<rparr>)"
    by (rule ParseKey_word) (simp_all add: key_word_def byte_def kModifierKeyMap_def map_of_assoc_find kSpecialKeyMap_def)
  have i: "GetKeyInformation (empty_KeyEvent\<lparr>special_key := Some 13\<rparr>) = Some 0xD00000000"
    by (simp add: GetKeyInformation_def GetModifiers_def empty_KeyEvent_def Let_def push_bit_eq_mult)
  have c: "ParseCommand (direct_commands toy_build) ''IMEOn'' = Some DirectInput_IME_ON"
    by (simp add: ParseCommand_def NormalizeCommand_def kLegacyCommandStrings_def InitCommandData_def RegisterCommand_def
        direct_commands_def toy_build_def composition_mode_x_def)
  show ?thesis
    by (simp add: table_rules_def overlay_text_def row_rule_def map_filter_simps ChopReturns_def is_row_def row_fields_def
        p i c dropped_row_def IsMarinaNumberRowKeymapBinding_def IsMarinaNumberRowCommandName_def
        IsCtrlShiftNumberRowKeyName_def kCtrlShiftKeys_def)
qed

section \<open>The keys of the direct input state\<close>

lemma lower_bound_correct:
  assumes "sorted xs" and "first + len \<le> length xs" and "\<forall>i < first. xs ! i < k"
    and "\<forall>i < length xs. first + len \<le> i \<longrightarrow> k \<le> xs ! i"
  shows "lower_bound xs k first len \<le> length xs \<and> (\<forall>i < lower_bound xs k first len. xs ! i < k) \<and>
    (\<forall>i < length xs. lower_bound xs k first len \<le> i \<longrightarrow> k \<le> xs ! i)"
  using assms
proof (induction xs k first len rule: lower_bound.induct)
  case (1 xs k first len)
  show ?case
  proof (cases "len = 0")
    case True
    then show ?thesis using "1.prems" by (subst (1 2 3) lower_bound.simps) simp
  next
    case False
    let ?mid = "first + len div 2"
    have mid: "?mid < length xs" "len div 2 < len" using False "1.prems"(2) by auto
    show ?thesis
    proof (cases "xs ! ?mid < k")
      case True
      have lb: "lower_bound xs k first len = lower_bound xs k (?mid + 1) (len - len div 2 - 1)"
        using False True by (subst lower_bound.simps) (simp add: Let_def)
      have "\<forall>i < ?mid + 1. xs ! i < k"
        using sorted_nth_mono [OF "1.prems"(1)] True mid(1) by (metis Suc_eq_plus1 le_less_trans less_Suc_eq_le)
      moreover have "\<forall>i < length xs. ?mid + 1 + (len - len div 2 - 1) \<le> i \<longrightarrow> k \<le> xs ! i"
        using "1.prems"(4) mid(2) by simp
      ultimately show ?thesis
        unfolding lb using False True "1.prems"(1,2) mid(2) by (intro "1.IH"(1)) (auto simp: Let_def)
    next
      case ge: False
      have lb: "lower_bound xs k first len = lower_bound xs k first (len div 2)"
        using False ge by (subst lower_bound.simps) (simp add: Let_def)
      have "\<forall>i < length xs. ?mid \<le> i \<longrightarrow> k \<le> xs ! i"
        using sorted_nth_mono [OF "1.prems"(1)] ge by (meson leI order_trans)
      then show ?thesis
        unfolding lb using False ge "1.prems"(1,2,3) mid(2) by (intro "1.IH"(2)) (auto simp: Let_def)
    qed
  qed
qed

lemma binary_search_correct:
  assumes "sorted xs"
  shows "binary_search xs k \<longleftrightarrow> k \<in> set xs"
proof -
  let ?i = "lower_bound xs k 0 (length xs)"
  have i: "\<forall>j < ?i. xs ! j < k" "\<forall>j < length xs. ?i \<le> j \<longrightarrow> k \<le> xs ! j"
    using lower_bound_correct [OF assms, of 0 "length xs" k] by auto
  show ?thesis
  proof
    assume "binary_search xs k"
    then have "?i < length xs" "xs ! ?i = k" using i(2) by (auto simp: binary_search_def Let_def intro: antisym)
    then show "k \<in> set xs" by (metis nth_mem)
  next
    assume "k \<in> set xs"
    then obtain j where j: "j < length xs" "xs ! j = k" by (auto simp: in_set_conv_nth)
    then have "?i \<le> j" using i(1) by (meson leI less_irrefl)
    then have "?i < length xs" "xs ! ?i \<le> k" using j sorted_nth_mono [OF assms, of ?i j] by auto
    then show "binary_search xs k" by (simp add: binary_search_def Let_def)
  qed
qed

lemma ExtractSortedDirectModeKeys_primary:
  "ExtractSortedDirectModeKeys b files config =
     (case primary_table b files config of
        None \<Rightarrow> [] | Some t \<Rightarrow> ExtractSortedDirectModeKeysFromStream t)"
  by (simp add: ExtractSortedDirectModeKeys_def primary_table_def ExtractSortedDirectModeKeysFromFile_def)

lemma in_map_filter: "x \<in> set (List.map_filter f xs) \<longleftrightarrow> (\<exists>l \<in> set xs. f l = Some x)"
  by (induction xs) (auto simp: map_filter_simps split: option.split)

lemma ContainsKey_iff:
  "ContainsKey (ExtractSortedDirectModeKeysFromStream t) e \<longleftrightarrow>
     (\<exists>k l. GetKeyInformation e = Some k \<and> l \<in> set (tl (StrSplit (CHR 0x0A) t)) \<and> direct_row_key l = Some k)"
  by (auto simp: ContainsKey_def binary_search_correct ExtractSortedDirectModeKeysFromStream_def in_map_filter
      split: option.split)

lemma row_rule_key:
  "row_rule b [''Direct'', ''DirectInput''] regs l = Some (k, c) \<Longrightarrow> direct_row_key l = Some k"
  by (auto simp: row_rule_def direct_row_key_def Let_def split: if_splits list.splits option.splits)

lemma direct_rule_contained:
  assumes "overlay_keymaps config = []" and "keymap_direct (new_KeyMapManager b files config) k = Some c"
    and "GetKeyInformation e = Some k"
  shows "ContainsKey (ExtractSortedDirectModeKeys b files config) e"
proof (cases "primary_table b files config")
  case None
  then show ?thesis
    using assms(1,2) by (simp add: new_KeyMapManager_def ApplyPrimary_table ApplyOverlaySessionKeymap_def empty_KeyMapManager_def)
next
  case (Some t)
  then have "new_KeyMapManager b files config = LoadStream b t empty_KeyMapManager"
    using assms(1) by (simp add: new_KeyMapManager_def ApplyPrimary_table ApplyOverlaySessionKeymap_def)
  then have "map_of (rev (table_rules b [''Direct'', ''DirectInput''] (direct_commands b) t)) k = Some c"
    using assms(2) by (simp add: LoadStream_maps_direct empty_KeyMapManager_def)
  then have "(k, c) \<in> set (table_rules b [''Direct'', ''DirectInput''] (direct_commands b) t)"
    by (auto dest: map_of_SomeD)
  then obtain l where "l \<in> set (tl (StrSplit (CHR 0x0A) t))" "direct_row_key l = Some k"
    by (auto simp: table_rules_def in_map_filter dest: row_rule_key)
  then show ?thesis using assms(3) Some by (auto simp: ExtractSortedDirectModeKeys_primary ContainsKey_iff)
qed

text \<open>C35: Without overlays the client knows the keys that have a command in the direct input state: for an
  event that is a special key, or a character with modifiers, and that has none of the modifiers the session
  ignores (CapsLock and the left and right variants), a command of the session's key map means that the list
  of the client has the event. Plain characters and modifiers alone are left out.\<close>

theorem direct_keys_known:
  assumes "overlay_keymaps config = []"
    and "NormalizeModifiers e = e"
    and "special_key e \<noteq> None \<or> key_code e \<noteq> None \<and> GetModifiers e \<noteq> 0"
    and "GetCommandDirect (new_KeyMapManager b files config) e \<noteq> None"
  shows "ContainsKey (ExtractSortedDirectModeKeys b files config) e"
proof -
  let ?km = "keymap_direct (new_KeyMapManager b files config)"
  have "MaybeGetKeyStub e = None" using assms(3) by (auto simp: MaybeGetKeyStub_def)
  moreover have "\<not> (key_code e = None \<and> special_key e = None)" using assms(3) by auto
  ultimately obtain k c where "GetKeyInformation e = Some k" "?km k = Some c"
    using assms(2,4)
    by (auto simp: GetCommandDirect_def KeyMap_GetCommand_def lookup_key_def Let_def split: option.splits if_splits)
  then show ?thesis using direct_rule_contained [OF assms(1)] by blast
qed

text \<open>
  The client looks the event up as it is, though, where the session ignores CapsLock and the left and right
  variants: with CapsLock on, the key that switches the input method on is not passed on.
\<close>

definition henkan_caps :: KeyEvent where
  "henkan_caps = empty_KeyEvent\<lparr>special_key := Some 13, modifier_keys := [CAPS]\<rparr>"

lemma henkan_direct:
  "keymap_direct (new_KeyMapManager toy_build files (toy_keymap_config overlay_text)) = [0xD00000000 \<mapsto> DirectInput_IME_ON]"
  using overlay_rules
  by (simp add: new_KeyMapManager_def toy_keymap_config_def ApplyPrimarySessionKeymap_def ApplyOverlaySessionKeymap_def
      LoadStream_maps_direct empty_KeyMapManager_def overlay_text_def)

lemma henkan_caps_command:
  "GetCommandDirect (new_KeyMapManager toy_build files (toy_keymap_config overlay_text)) henkan_caps = Some DirectInput_IME_ON"
proof -
  have "GetKeyInformation (NormalizeModifiers henkan_caps) = Some 0xD00000000"
    by (simp add: henkan_caps_def NormalizeModifiers_def RemoveModifiers_def kIgnorableModifierMask_def empty_KeyEvent_def
        GetKeyInformation_def GetModifiers_def Let_def HasAlt_def HasCtrl_def HasShift_def Any_of_def kAltMask_def
        kCtrlMask_def kShiftMask_def push_bit_eq_mult)
  then show ?thesis
    by (simp add: GetCommandDirect_def henkan_direct KeyMap_GetCommand_def Let_def henkan_caps_def)
qed

lemma caps_key_unknown:
  "\<not> ContainsKey (ExtractSortedDirectModeKeys toy_build files (toy_keymap_config overlay_text)) henkan_caps"
proof -
  have p: "ParseKey ''henkan'' = Some (empty_KeyEvent\<lparr>special_key := Some 13\<rparr>)"
    by (rule ParseKey_word) (simp_all add: key_word_def byte_def kModifierKeyMap_def map_of_assoc_find kSpecialKeyMap_def)
  have "StrSplit (CHR 0x0A) overlay_text =
      [''head'', ''DirectInput'' @ [CHR 0x09] @ ''henkan'' @ [CHR 0x09] @ ''IMEOn'']"
    by (simp add: overlay_text_def)
  moreover have "direct_row_key (''DirectInput'' @ [CHR 0x09] @ ''henkan'' @ [CHR 0x09] @ ''IMEOn'') = Some 0xD00000000"
    by (simp add: direct_row_key_def ChopReturns_def is_row_def row_fields_def p GetKeyInformation_def GetModifiers_def
        empty_KeyEvent_def Let_def push_bit_eq_mult)
  moreover have "GetKeyInformation henkan_caps = Some 0x800000D00000000"
    by (simp add: henkan_caps_def GetKeyInformation_def GetModifiers_def empty_KeyEvent_def Let_def push_bit_eq_mult)
  moreover have "primary_table toy_build files (toy_keymap_config overlay_text) = Some overlay_text"
    by (simp add: primary_table_def toy_keymap_config_def overlay_text_def)
  ultimately show ?thesis by (simp add: ExtractSortedDirectModeKeys_primary ContainsKey_iff)
qed

definition henkan :: KeyEvent where
  "henkan = empty_KeyEvent\<lparr>special_key := Some 13\<rparr>"

theorem direct_keys_known_witness:
  "ContainsKey (ExtractSortedDirectModeKeys toy_build (\<lambda>_. None) (toy_keymap_config overlay_text)) henkan"
proof -
  have o: "overlay_keymaps (toy_keymap_config overlay_text) = []" by (simp add: toy_keymap_config_def)
  have n: "NormalizeModifiers henkan = henkan"
    by (simp add: henkan_def NormalizeModifiers_def RemoveModifiers_def kIgnorableModifierMask_def empty_KeyEvent_def
        Let_def HasAlt_def HasCtrl_def HasShift_def Any_of_def kAltMask_def kCtrlMask_def kShiftMask_def)
  have "GetKeyInformation henkan = Some 0xD00000000"
    by (simp add: henkan_def empty_KeyEvent_def GetKeyInformation_def GetModifiers_def Let_def push_bit_eq_mult)
  then have "GetCommandDirect (new_KeyMapManager toy_build (\<lambda>_. None) (toy_keymap_config overlay_text)) henkan =
      Some DirectInput_IME_ON"
    by (simp add: GetCommandDirect_def henkan_direct KeyMap_GetCommand_def Let_def n) (simp add: henkan_def)
  then have c: "GetCommandDirect (new_KeyMapManager toy_build (\<lambda>_. None) (toy_keymap_config overlay_text)) henkan \<noteq> None"
    by simp
  have s: "special_key henkan \<noteq> None \<or> key_code henkan \<noteq> None \<and> GetModifiers henkan \<noteq> 0"
    by (simp add: henkan_def)
  show ?thesis by (rule direct_keys_known [OF o n s c])
qed

section \<open>Rows for the right Shift key\<close>

lemma char_of_r: "char_of (114 :: nat) = CHR ''r''"
  by (simp add: char_of_eq_iff byte_def)

lemma ParseKey_right_shift:
  "ParseKey ''RightShift'' = Some (empty_KeyEvent\<lparr>modifier_keys := [SHIFT, RIGHT_SHIFT]\<rparr>)"
  using ascii_word [of "''RightShift''"] char_of_s char_of_r
  by (simp add: ParseKey_def ParseKeyVector_def byte_def lower_ascii_def char_of_eq_iff kModifierKeyMap_def map_of_assoc_find
    kSpecialKeyMap_def empty_KeyEvent_def Let_def set_add_def)

abbreviation key_RightShift_row :: "64 word" where "key_RightShift_row \<equiv> 0x404000000000000"

lemma RightShift_row_key: "GetKeyInformation (parsed_key ''RightShift'') = Some key_RightShift_row"
  by (simp add: parsed_key_def ParseKey_right_shift GetKeyInformation_def GetModifiers_def empty_KeyEvent_def Let_def
      push_bit_eq_mult)

lemma normalized_key_not_row:
  assumes "modifiers e = None" and "GetKeyInformation (NormalizeModifiers e) = Some k"
  shows "k \<noteq> key_RightShift_row"
proof
  assume k: "k = key_RightShift_row"
  let ?m = "GetModifiers (NormalizeModifiers e)"
  have "(ucast (drop_bit 48 k) :: 16 word) = ucast ?m" using GetKeyInformation_fields [OF assms(2)] by blast
  then have "(ucast ?m :: 16 word) = 0x404" unfolding k by (simp add: drop_bit_eq_div)
  then have "(ucast (?m AND RIGHT_SHIFT) :: 16 word) = 0x400" by (simp add: unsigned_and_eq)
  moreover have "?m AND RIGHT_SHIFT = 0"
  proof -
    have "RIGHT_SHIFT = kIgnorableModifierMask AND RIGHT_SHIFT" by (simp add: kIgnorableModifierMask_def)
    then have "?m AND RIGHT_SHIFT = (?m AND kIgnorableModifierMask) AND RIGHT_SHIFT" by (simp add: and.assoc)
    then show ?thesis using NormalizeModifiers_spec assms(1) by simp
  qed
  ultimately show False by simp
qed

text \<open>C37: A row for the right Shift key does nothing: the parser reads its name as Shift together with right
  Shift, whereas the map is asked for right Shift alone or for the event without its left and right
  variants. Entering such a row changes the command of no event that lists its modifiers.\<close>

theorem RightShift_row_dead:
  assumes "modifiers e = None"
  shows "KeyMap_GetCommand (KeyMap_AddRule km (parsed_key ''RightShift'') c) e = KeyMap_GetCommand km e"
proof -
  let ?km = "km(key_RightShift_row \<mapsto> c)"
  have a: "KeyMap_AddRule km (parsed_key ''RightShift'') c = ?km" by (simp add: KeyMap_AddRule_def RightShift_row_key)
  have r: "lookup_key ?km (GetKeyInformation right_shift_only) = lookup_key km (GetKeyInformation right_shift_only)"
    by (simp add: fixed_keys lookup_key_def)
  have s: "lookup_key ?km (MaybeGetKeyStub n) = lookup_key km (MaybeGetKeyStub n)" for n
    using fixed_keys(1) by (auto simp: MaybeGetKeyStub_def text_input_event lookup_key_def)
  have n: "?km k = km k" if "GetKeyInformation (NormalizeModifiers e) = Some k" for k
    using normalized_key_not_row [OF assms that] by simp
  show ?thesis
    unfolding a KeyMap_GetCommand_def Let_def r s
    by (cases "GetKeyInformation (NormalizeModifiers e)") (simp_all only: option.case n)
qed

theorem RightShift_row_dead_witness:
  "KeyMap_GetCommand (KeyMap_AddRule Map.empty (parsed_key ''RightShift'') Precomposition_TOGGLE_MANYOSHU_HIRAGANA)
     right_shift_only = None"
proof -
  have "modifiers right_shift_only = None" by (simp add: right_shift_only_def empty_KeyEvent_def)
  then have "KeyMap_GetCommand (KeyMap_AddRule Map.empty (parsed_key ''RightShift'') Precomposition_TOGGLE_MANYOSHU_HIRAGANA)
      right_shift_only = KeyMap_GetCommand Map.empty right_shift_only" by (rule RightShift_row_dead)
  then show ?thesis by (simp add: KeyMap_GetCommand_def lookup_key_def Let_def split: option.split)
qed

end
