(* ===== verification/Odoriji.thy ===== *)
theory Odoriji
  imports Key_Event
begin

text \<open>
  \<open>session/odoriji_palette.cc\<close>: the palette of iteration marks. The session keeps whether it is shown, the
  focused mark and the default mark, and hands the palette pointers to these; here they are a record that is
  returned updated. An index past the eight marks would be read out of bounds.
\<close>

section \<open>The marks\<close>

definition kOdorijiChars :: "bytes list" where
  "kOdorijiChars =
     [[CHR 0xE3, CHR 0x80, CHR 0x85], [CHR 0xE3, CHR 0x82, CHR 0x9D], [CHR 0xE3, CHR 0x82, CHR 0x9E],
      [CHR 0xE3, CHR 0x83, CHR 0xBD], [CHR 0xE3, CHR 0x83, CHR 0xBE], [CHR 0xE3, CHR 0x80, CHR 0xBB],
      [CHR 0xE3, CHR 0x80, CHR 0xB1], [CHR 0xE3, CHR 0x80, CHR 0xB2]]"

abbreviation kCount :: nat where "kCount \<equiv> 8"

definition odoriji_char :: "int \<Rightarrow> bytes res" where
  "odoriji_char i = (if 0 \<le> i \<and> i < int kCount then Inr (kOdorijiChars ! nat i) else Inl OutOfRange)"

definition GetCharacter :: "nat \<Rightarrow> bytes" where
  "GetCharacter index = kOdorijiChars ! (if kCount \<le> index then 0 else index)"

section \<open>The palette of a session\<close>

record Palette =
  palette_visible :: bool
  palette_focused :: int
  palette_default :: int

definition new_Palette :: Palette where
  "new_Palette = \<lparr>palette_visible = False, palette_focused = 0, palette_default = 0\<rparr>"

definition Palette_Show :: "Palette \<Rightarrow> Palette" where
  "Palette_Show p = p\<lparr>palette_visible := True, palette_focused := 0\<rparr>"

text \<open>The sum is computed in \<open>size_t\<close>.\<close>

definition palette_next :: "int \<Rightarrow> int" where
  "palette_next i = (i + 1) mod 2 ^ 64 mod int kCount"

definition palette_prev :: "int \<Rightarrow> int" where
  "palette_prev i = (i + int kCount - 1) mod 2 ^ 64 mod int kCount"

definition HasShiftModifier :: "KeyEvent \<Rightarrow> bool" where
  "HasShiftModifier e \<longleftrightarrow> list_ex (\<lambda>k. k = SHIFT \<or> k = LEFT_SHIFT \<or> k = RIGHT_SHIFT) (modifier_keys e)"

definition IsSpaceKey :: "KeyEvent \<Rightarrow> bool" where
  "IsSpaceKey e \<longleftrightarrow> special_key e = Some 4 \<or> key_code e = Some 0x20"

definition IsNumberKey :: "KeyEvent \<Rightarrow> bool" where
  "IsNumberKey e = (case key_code e of None \<Rightarrow> False | Some c \<Rightarrow> 0x31 \<le> c \<and> c \<le> 0x38)"

definition IsModifierOnlyKey :: "KeyEvent \<Rightarrow> bool" where
  "IsModifierOnlyKey e =
     (if modifier_keys e = [] then False
      else if (case key_code e of None \<Rightarrow> False | Some c \<Rightarrow> c \<noteq> 0) then False
      else if (case special_key e of None \<Rightarrow> False | Some k \<Rightarrow> k \<noteq> 0) then False
      else True)"

text \<open>The special keys the palette knows: escape, the two enter keys, the arrows with their virtual twins, space.\<close>

definition kPaletteKeys :: "nat list" where
  "kPaletteKeys = [10, 5, 74, 8, 75, 9, 76, 6, 72, 7, 73, 4]"

definition WouldConsumeKey :: "KeyEvent \<Rightarrow> bool" where
  "WouldConsumeKey e =
     (if (case special_key e of None \<Rightarrow> False | Some k \<Rightarrow> k \<in> set kPaletteKeys) then True
      else IsSpaceKey e \<or> IsNumberKey e \<or> IsModifierOnlyKey e)"

text \<open>
  A handled key: whether it is consumed, the palette, and the committed mark if there is one. The keys that
  are told by their code come behind the special keys, which may be set to no key.
\<close>

type_synonym palette_result = "(bool \<times> Palette \<times> bytes option) res"

definition move_focus :: "(int \<Rightarrow> int) \<Rightarrow> Palette \<Rightarrow> palette_result" where
  "move_focus f p = Inr (True, p\<lparr>palette_focused := f (palette_focused p)\<rparr>, None)"

definition commit_mark :: "int \<Rightarrow> Palette \<Rightarrow> palette_result" where
  "commit_mark i p =
     res_bind (odoriji_char i) (\<lambda>s. Inr (True, p\<lparr>palette_default := i, palette_visible := False\<rparr>, Some s))"

definition palette_space :: "KeyEvent \<Rightarrow> Palette \<Rightarrow> palette_result" where
  "palette_space e p = move_focus (if HasShiftModifier e then palette_prev else palette_next) p"

definition palette_code_key :: "KeyEvent \<Rightarrow> Palette \<Rightarrow> palette_result" where
  "palette_code_key e p =
     (if IsSpaceKey e then palette_space e p
      else if IsNumberKey e then commit_mark (uint (the (key_code e)) - 0x31) p
      else if IsModifierOnlyKey e then Inr (True, p, None)
      else Inr (False, p, None))"

definition HandleKey :: "KeyEvent \<Rightarrow> Palette \<Rightarrow> palette_result" where
  "HandleKey e p =
     (if \<not> palette_visible p then Inr (False, p, None)
      else case special_key e of
             None \<Rightarrow> palette_code_key e p
           | Some k \<Rightarrow>
               if k = 10 then Inr (True, p\<lparr>palette_visible := False\<rparr>, None)
               else if k = 5 \<or> k = 74 then commit_mark (palette_focused p) p
               else if k = 8 \<or> k = 75 then move_focus palette_prev p
               else if k = 9 \<or> k = 76 then move_focus palette_next p
               else if k = 6 \<or> k = 72 then move_focus palette_prev p
               else if k = 7 \<or> k = 73 then move_focus palette_next p
               else if k = 4 then palette_space e p
               else palette_code_key e p)"

text \<open>The identifier of the submitted candidate, if the command has one.\<close>

definition TryCommitCandidate :: "int option \<Rightarrow> Palette \<Rightarrow> palette_result" where
  "TryCommitCandidate command_id p =
     (case command_id of
        None \<Rightarrow> Inr (False, p, None)
      | Some i \<Rightarrow>
          if \<not> palette_visible p then Inr (False, p, None)
          else if i < 0 \<or> int kCount \<le> i then Inr (False, p, None)
          else commit_mark i p)"

section \<open>What is shown\<close>

text \<open>The window of the palette; its category is always that of a conversion.\<close>

record PaletteCandidate =
  cand_index :: nat
  cand_value :: bytes
  cand_id :: nat
  cand_shortcut :: bytes

record PaletteWindow =
  win_focused_index :: "32 word"
  win_size :: nat
  win_position :: nat
  win_page_size :: nat
  win_candidates :: "PaletteCandidate list"

record PaletteOutput =
  out_preedit :: "bytes option"
  out_window :: "PaletteWindow option"

definition FillCandidateWindow :: "int \<Rightarrow> PaletteWindow" where
  "FillCandidateWindow focused =
     \<lparr>win_focused_index = of_int focused, win_size = kCount, win_position = 0, win_page_size = kCount,
      win_candidates = map (\<lambda>i. \<lparr>cand_index = i, cand_value = kOdorijiChars ! i, cand_id = i,
        cand_shortcut = [char_of (48 + (i + 1))]\<rparr>) [0 ..< kCount]\<rparr>"

definition OverlayOutput :: "PaletteOutput \<Rightarrow> int \<Rightarrow> PaletteOutput" where
  "OverlayOutput out focused = out\<lparr>out_preedit := None, out_window := Some (FillCandidateWindow focused)\<rparr>"

section \<open>Properties\<close>

text \<open>What the session does with the palette: show it, pass it a key, submit a candidate of its window.\<close>

datatype palette_op = Op_Show | Op_Key KeyEvent | Op_Submit "int option"

fun palette_step :: "palette_op \<Rightarrow> Palette \<Rightarrow> palette_result" where
  "palette_step Op_Show p = Inr (True, Palette_Show p, None)"
| "palette_step (Op_Key e) p = HandleKey e p"
| "palette_step (Op_Submit i) p = TryCommitCandidate i p"

fun palette_run :: "palette_op list \<Rightarrow> Palette \<Rightarrow> Palette res" where
  "palette_run [] p = Inr p"
| "palette_run (x # xs) p = res_bind (palette_step x p) (\<lambda>(_, p', _). palette_run xs p')"

definition palette_ok :: "Palette \<Rightarrow> bool" where
  "palette_ok p \<longleftrightarrow> 0 \<le> palette_focused p \<and> palette_focused p < int kCount \<and>
     0 \<le> palette_default p \<and> palette_default p < int kCount"

lemma palette_moves: "0 \<le> palette_next i \<and> palette_next i < 8" "0 \<le> palette_prev i \<and> palette_prev i < 8"
  by (simp_all add: palette_next_def palette_prev_def)

lemma number_index:
  assumes "IsNumberKey e"
  shows "0 \<le> uint (the (key_code e)) - 0x31 \<and> uint (the (key_code e)) - 0x31 < int kCount"
  using assms by (auto simp: IsNumberKey_def word_le_def split: option.splits)

lemma odoriji_char_ok: "0 \<le> i \<Longrightarrow> i < 8 \<Longrightarrow> odoriji_char i = Inr (kOdorijiChars ! nat i)"
  by (simp add: odoriji_char_def)

text \<open>
  A good result: the palette is well-formed, and a committed mark is the new default and closes the palette.
\<close>

definition good_result :: "bool \<Rightarrow> Palette \<Rightarrow> palette_result \<Rightarrow> bool" where
  "good_result consumed p r =
     (case r of
        Inl _ \<Rightarrow> False
      | Inr (c, p', s) \<Rightarrow> c = consumed \<and> palette_ok p' \<and>
          (case s of
             None \<Rightarrow> palette_default p' = palette_default p
           | Some m \<Rightarrow> \<not> palette_visible p' \<and> m = GetCharacter (nat (palette_default p'))))"

lemma good_moves:
  assumes "palette_ok p"
  shows "good_result True p (move_focus palette_next p)" "good_result True p (move_focus palette_prev p)"
    "good_result True p (palette_space e p)"
  using assms palette_moves by (simp_all add: good_result_def move_focus_def palette_space_def palette_ok_def)

lemma good_commit:
  assumes "palette_ok p" and "0 \<le> i \<and> i < int kCount"
  shows "good_result True p (commit_mark i p)"
proof -
  have "\<not> kCount \<le> nat i" using assms(2) by linarith
  then show ?thesis
    using assms by (simp add: good_result_def commit_mark_def odoriji_char_ok palette_ok_def GetCharacter_def)
qed

lemma good_stay:
  assumes "palette_ok p"
  shows "good_result c p (Inr (c, p, None))" "good_result True p (Inr (True, p\<lparr>palette_visible := False\<rparr>, None))"
  using assms by (simp_all add: good_result_def palette_ok_def)

lemma good_code_key:
  assumes "palette_ok p"
  shows "good_result (IsSpaceKey e \<or> IsNumberKey e \<or> IsModifierOnlyKey e) p (palette_code_key e p)"
  using good_moves(3) [OF assms, of e] good_commit [OF assms number_index, of e] good_stay [OF assms]
  by (cases "IsSpaceKey e"; cases "IsNumberKey e"; cases "IsModifierOnlyKey e") (simp_all add: palette_code_key_def)

lemma good_HandleKey:
  assumes "palette_ok p"
  shows "good_result (palette_visible p \<and> WouldConsumeKey e) p (HandleKey e p)"
proof (cases "palette_visible p")
  case False
  then show ?thesis using assms by (simp add: HandleKey_def good_result_def)
next
  case True
  have focus: "0 \<le> palette_focused p \<and> palette_focused p < int kCount" using assms by (simp add: palette_ok_def)
  note good = good_moves [OF assms] good_commit [OF assms focus] good_code_key [OF assms, of e] good_stay [OF assms]
  show ?thesis
  proof (cases "special_key e")
    case None
    then show ?thesis using True good by (simp add: HandleKey_def WouldConsumeKey_def)
  next
    case (Some k)
    then show ?thesis
      using True good assms
      by (cases "k \<in> set kPaletteKeys")
        (auto simp: HandleKey_def WouldConsumeKey_def kPaletteKeys_def)
  qed
qed

lemma good_Submit:
  assumes "palette_ok p"
  shows "good_result (palette_visible p \<and> (\<exists>i. c = Some i \<and> 0 \<le> i \<and> i < int kCount)) p (TryCommitCandidate c p)"
  using good_commit [OF assms] good_stay [OF assms] by (auto simp: TryCommitCandidate_def split: option.split)

lemma good_step:
  assumes "palette_ok p"
  shows "\<exists>consumed. good_result consumed p (palette_step x p)"
proof (cases x)
  case Op_Show
  then show ?thesis using assms by (auto simp: good_result_def Palette_Show_def palette_ok_def)
next
  case (Op_Key e)
  then show ?thesis using good_HandleKey [OF assms] by auto
next
  case (Op_Submit c)
  then show ?thesis using good_Submit [OF assms] by auto
qed

lemma good_resultE:
  assumes "good_result c p r"
  obtains p' s where "r = Inr (c, p', s)" "palette_ok p'"
  using assms by (cases r) (auto simp: good_result_def)

lemma palette_run_ok: "palette_ok p \<Longrightarrow> \<exists>p'. palette_run xs p = Inr p' \<and> palette_ok p'"
proof (induction xs arbitrary: p)
  case (Cons x xs)
  from good_step [OF Cons.prems] obtain c p' s where "palette_step x p = Inr (c, p', s)" "palette_ok p'"
    by (metis good_resultE)
  then show ?case using Cons.IH by simp
qed simp

text \<open>C39: Whatever keys and commands reach the palette of a session, in whatever order, no mark is read out of
  bounds; then a key is consumed exactly when the palette is shown and the test phase announced that it would
  be, and a mark that a key or a command commits becomes the default and closes the palette.\<close>

theorem palette_safe:
  "\<exists>p. palette_run ops new_Palette = Inr p \<and> palette_ok p \<and>
     good_result (palette_visible p \<and> WouldConsumeKey e) p (HandleKey e p) \<and>
     good_result (palette_visible p \<and> (\<exists>i. c = Some i \<and> 0 \<le> i \<and> i < int kCount)) p (TryCommitCandidate c p)"
proof -
  have "palette_ok new_Palette" by (simp add: palette_ok_def new_Palette_def)
  from palette_run_ok [OF this, of ops] show ?thesis using good_HandleKey good_Submit by blast
qed

end
