(* ===== verification/Lru_Cache.thy ===== *)
theory Lru_Cache
  imports Prelude
begin

text \<open>
  \<open>storage/lru_cache.h\<close>: the bounded cache, with its pointers. An \<open>Element\<close> lives at an address of
  the store \<open>heap\<close>; the elements of the blocks have consecutive addresses, so the next block starts
  at \<open>block_capacity\<close>. Every element is on the doubly linked LRU list or on the singly linked free
  list. A failed \<open>CHECK\<close> is \<open>Inl CheckFailed\<close>.
\<close>

record ('k, 'v) Element =
  elem_next :: "nat option"
  elem_prev :: "nat option"
  elem_key :: 'k
  elem_value :: 'v

record ('k, 'v) LruCache =
  heap :: "nat \<Rightarrow> ('k, 'v) Element"
  table :: "'k \<rightharpoonup> nat"
  free_list :: "nat option"
  lru_head :: "nat option"
  lru_tail :: "nat option"
  block_count :: nat
  block_capacity :: nat
  next_block_size :: nat
  max_elements :: nat

definition max_blocks :: nat where "max_blocks = 10"

abbreviation set_next :: "nat \<Rightarrow> nat option \<Rightarrow> ('k, 'v) LruCache \<Rightarrow> ('k, 'v) LruCache" where
  "set_next a x c \<equiv> c\<lparr>heap := (heap c)(a := (heap c a)\<lparr>elem_next := x\<rparr>)\<rparr>"

abbreviation set_prev :: "nat \<Rightarrow> nat option \<Rightarrow> ('k, 'v) LruCache \<Rightarrow> ('k, 'v) LruCache" where
  "set_prev a x c \<equiv> c\<lparr>heap := (heap c)(a := (heap c a)\<lparr>elem_prev := x\<rparr>)\<rparr>"

section \<open>The free list\<close>

definition PushFreeList :: "nat \<Rightarrow> ('k, 'v) LruCache \<Rightarrow> ('k, 'v) LruCache" where
  "PushFreeList e c =
     (let c = set_prev e None c; c = set_next e (free_list c) c in c\<lparr>free_list := Some e\<rparr>)"

definition PopFreeList :: "('k, 'v) LruCache \<Rightarrow> (nat option \<times> ('k, 'v) LruCache) res" where
  "PopFreeList c =
     (case free_list c of
        None \<Rightarrow> Inr (None, c)
      | Some r \<Rightarrow>
          if elem_prev (heap c r) \<noteq> None then Inl CheckFailed
          else
            let c = c\<lparr>free_list := elem_next (heap c r)\<rparr>;
                c = (case free_list c of Some f \<Rightarrow> set_prev f None c | None \<Rightarrow> c)
            in Inr (Some r, set_next r None c))"

text \<open>The loop of \<open>AddBlock\<close> pushes the new elements in the order of their addresses.\<close>

fun push_new :: "nat \<Rightarrow> nat \<Rightarrow> ('k, 'v) LruCache \<Rightarrow> ('k, 'v) LruCache" where
  "push_new first 0 c = c"
| "push_new first (Suc n) c = push_new (Suc first) n (PushFreeList first c)"

text \<open>The size of the following block, once this one is counted.\<close>

definition set_next_block_size :: "('k, 'v) LruCache \<Rightarrow> ('k, 'v) LruCache" where
  "set_next_block_size c =
     (let blocks_remaining = max_blocks - block_count c
      in if 0 < blocks_remaining then
           let doubled = next_block_size c * 2;
               elements_remaining = max_elements c - block_capacity c;
               n = (if elements_remaining div blocks_remaining < doubled
                    then elements_remaining div blocks_remaining else doubled);
               n = (if max_elements c < block_capacity c + n
                    then max_elements c - block_capacity c else n)
           in c\<lparr>next_block_size := n\<rparr>
         else c)"

definition AddBlock :: "('k, 'v) LruCache \<Rightarrow> ('k, 'v) LruCache" where
  "AddBlock c =
     (if block_count c < max_blocks \<and> block_capacity c < max_elements c then
        let first = block_capacity c;
            c = c\<lparr>block_capacity := block_capacity c + next_block_size c\<rparr>;
            c = push_new first (next_block_size c) c;
            c = c\<lparr>block_count := Suc (block_count c)\<rparr>
        in set_next_block_size c
      else c)"

definition NextFreeElement :: "('k, 'v) LruCache \<Rightarrow> (nat option \<times> ('k, 'v) LruCache) res" where
  "NextFreeElement c =
     res_bind (PopFreeList c) (\<lambda>(r, c).
       case r of None \<Rightarrow> PopFreeList (AddBlock c) | Some e \<Rightarrow> Inr (Some e, c))"

section \<open>The LRU list\<close>

definition RemoveFromLRU :: "nat \<Rightarrow> ('k, 'v) LruCache \<Rightarrow> ('k, 'v) LruCache" where
  "RemoveFromLRU e c =
     (let c = (if lru_head c = Some e then c\<lparr>lru_head := elem_next (heap c e)\<rparr> else c);
          c = (if lru_tail c = Some e then c\<lparr>lru_tail := elem_prev (heap c e)\<rparr> else c);
          c = (case elem_prev (heap c e) of Some p \<Rightarrow> set_next p (elem_next (heap c e)) c | None \<Rightarrow> c);
          c = (case elem_next (heap c e) of Some n \<Rightarrow> set_prev n (elem_prev (heap c e)) c | None \<Rightarrow> c)
      in set_next e None (set_prev e None c))"

definition link_head :: "nat \<Rightarrow> ('k, 'v) LruCache \<Rightarrow> ('k, 'v) LruCache" where
  "link_head e c =
     (let c = set_next e (lru_head c) c;
          c = c\<lparr>lru_head := Some e\<rparr>;
          c = (case elem_next (heap c e) of Some n \<Rightarrow> set_prev n (Some e) c | None \<Rightarrow> c)
      in (if lru_tail c = None then c\<lparr>lru_tail := Some e\<rparr> else c))"

definition PushLRUHead :: "nat \<Rightarrow> ('k, 'v) LruCache \<Rightarrow> ('k, 'v) LruCache" where
  "PushLRUHead e c = (if lru_head c = Some e then c else link_head e (RemoveFromLRU e c))"

definition Evict :: "nat option \<Rightarrow> ('k, 'v) LruCache \<Rightarrow> (bool \<times> ('k, 'v) LruCache) res" where
  "Evict e c =
     (case e of
        None \<Rightarrow> Inr (False, c)
      | Some a \<Rightarrow>
          if table c (elem_key (heap c a)) = None then Inl CheckFailed
          else Inr (True, PushFreeList a
                 (RemoveFromLRU a (c\<lparr>table := (table c)(elem_key (heap c a) := None)\<rparr>))))"

section \<open>The interface\<close>

function initial_block_size :: "nat \<Rightarrow> nat \<Rightarrow> nat" where
  "initial_block_size n mx =
     (if 0 < n \<and> n * 2 ^ max_blocks < mx then initial_block_size (n * 2) mx else n)"
  by pat_completeness auto
termination
  by (relation "measure (\<lambda>(n, mx). mx - n)") (auto simp: max_blocks_def)

definition new_LruCache :: "(nat \<Rightarrow> ('k, 'v) Element) \<Rightarrow> nat \<Rightarrow> ('k, 'v) LruCache" where
  "new_LruCache memory mx =
     \<lparr>heap = memory, table = Map.empty, free_list = None, lru_head = None, lru_tail = None,
      block_count = 0, block_capacity = 0,
      next_block_size = (if mx \<le> 128 then mx else initial_block_size 64 mx),
      max_elements = mx\<rparr>"

definition LookupInternal :: "'k \<Rightarrow> ('k, 'v) LruCache \<Rightarrow> nat option" where
  "LookupInternal k c = table c k"

text \<open>\<open>Insert (key)\<close> returns the element; its value is whatever the slot held.\<close>

definition check_erased :: "(bool \<times> ('k, 'v) LruCache) res \<Rightarrow> ('k, 'v) LruCache res" where
  "check_erased r = res_bind r (\<lambda>(erased, c). if erased then Inr c else Inl CheckFailed)"

text \<open>The middle of \<open>Insert\<close>: a free element, or the one at the tail, which is evicted first.\<close>

definition TakeElement :: "('k, 'v) LruCache \<Rightarrow> (nat \<times> ('k, 'v) LruCache) res" where
  "TakeElement c =
     res_bind (NextFreeElement c) (\<lambda>(e, c).
       case e of
         Some a \<Rightarrow> Inr (a, c)
       | None \<Rightarrow>
           res_bind (check_erased (Evict (lru_tail c) c)) (\<lambda>c.
           res_bind (NextFreeElement c) (\<lambda>(e, c).
             case e of None \<Rightarrow> Inl CheckFailed | Some a \<Rightarrow> Inr (a, c))))"

definition InsertKey :: "'k \<Rightarrow> ('k, 'v) LruCache \<Rightarrow> (nat \<times> ('k, 'v) LruCache) res" where
  "InsertKey k c =
     res_bind (case LookupInternal k c of
                 None \<Rightarrow> Inr c
               | Some e \<Rightarrow> check_erased (Evict (Some e) c)) (\<lambda>c.
     res_bind (TakeElement c) (\<lambda>(a, c).
       let c = c\<lparr>heap := (heap c)(a := (heap c a)\<lparr>elem_key := k\<rparr>)\<rparr>;
           c = c\<lparr>table := (table c)(k \<mapsto> a)\<rparr>
       in Inr (a, PushLRUHead a c)))"

definition Insert :: "'k \<Rightarrow> 'v \<Rightarrow> ('k, 'v) LruCache \<Rightarrow> ('k, 'v) LruCache res" where
  "Insert k v c =
     res_bind (InsertKey k c) (\<lambda>(a, c). Inr (c\<lparr>heap := (heap c)(a := (heap c a)\<lparr>elem_value := v\<rparr>)\<rparr>))"

definition MutableLookup :: "'k \<Rightarrow> ('k, 'v) LruCache \<Rightarrow> 'v option \<times> ('k, 'v) LruCache" where
  "MutableLookup k c =
     (case LookupInternal k c of
        None \<Rightarrow> (None, c)
      | Some e \<Rightarrow> (Some (elem_value (heap c e)), PushLRUHead e c))"

definition LookupWithoutInsert :: "'k \<Rightarrow> ('k, 'v) LruCache \<Rightarrow> 'v option" where
  "LookupWithoutInsert k c = map_option (\<lambda>e. elem_value (heap c e)) (LookupInternal k c)"

definition HasKey :: "'k \<Rightarrow> ('k, 'v) LruCache \<Rightarrow> bool" where
  "HasKey k c \<longleftrightarrow> table c k \<noteq> None"

definition lru_Erase :: "'k \<Rightarrow> ('k, 'v) LruCache \<Rightarrow> (bool \<times> ('k, 'v) LruCache) res" where
  "lru_Erase k c = Evict (LookupInternal k c) c"

text \<open>The loop of \<open>Clear\<close> over the LRU list; the iterator has read \<open>next\<close> before the body pushes the
  element onto the free list. The fuel is the number of elements of the blocks.\<close>

fun clear_loop :: "nat \<Rightarrow> nat option \<Rightarrow> ('k, 'v) LruCache \<Rightarrow> ('k, 'v) LruCache" where
  "clear_loop fuel None c = c"
| "clear_loop 0 (Some e) c = c"
| "clear_loop (Suc fuel) (Some e) c = clear_loop fuel (elem_next (heap c e)) (PushFreeList e c)"

definition lru_Clear :: "('k, 'v) LruCache \<Rightarrow> ('k, 'v) LruCache" where
  "lru_Clear c =
     (let c = c\<lparr>table := Map.empty\<rparr>; c = clear_loop (block_capacity c) (lru_head c) c
      in c\<lparr>lru_head := None, lru_tail := None\<rparr>)"

section \<open>Linked lists in the store\<close>

fun first_of :: "nat list \<Rightarrow> nat option \<Rightarrow> nat option" where
  "first_of [] n = n"
| "first_of (x # xs) n = Some x"

fun last_of :: "nat option \<Rightarrow> nat list \<Rightarrow> nat option" where
  "last_of p [] = p"
| "last_of p (x # xs) = last_of (Some x) xs"

lemma first_of_append [simp]: "first_of (xs @ ys) n = first_of xs (first_of ys n)"
  by (cases xs) simp_all

lemma last_of_append [simp]: "last_of p (xs @ ys) = last_of (last_of p xs) ys"
  by (induction p xs rule: last_of.induct) simp_all

lemma last_of_in: "last_of p xs = Some a \<Longrightarrow> p = Some a \<or> a \<in> set xs"
  by (induction p xs rule: last_of.induct) auto

lemma first_of_in: "first_of xs n = Some a \<Longrightarrow> n = Some a \<or> a \<in> set xs"
  by (cases xs) auto

lemma last_of_Cons: "last_of p (x # xs) \<noteq> None"
  by (induction xs arbitrary: x) auto

text \<open>A doubly linked segment from \<open>p\<close> to \<open>n\<close>, and a free list.\<close>

fun dseg :: "(nat \<Rightarrow> ('k, 'v) Element) \<Rightarrow> nat option \<Rightarrow> nat list \<Rightarrow> nat option \<Rightarrow> bool" where
  "dseg h p [] n \<longleftrightarrow> True"
| "dseg h p (x # xs) n \<longleftrightarrow>
     elem_prev (h x) = p \<and> elem_next (h x) = first_of xs n \<and> dseg h (Some x) xs n"

fun fseg :: "(nat \<Rightarrow> ('k, 'v) Element) \<Rightarrow> nat list \<Rightarrow> bool" where
  "fseg h [] \<longleftrightarrow> True"
| "fseg h (x # xs) \<longleftrightarrow> elem_prev (h x) = None \<and> elem_next (h x) = first_of xs None \<and> fseg h xs"

lemma dseg_append:
  "dseg h p (xs @ ys) n \<longleftrightarrow> dseg h p xs (first_of ys n) \<and> dseg h (last_of p xs) ys n"
  by (induction p xs arbitrary: rule: last_of.induct) auto

definition same_links :: "(nat \<Rightarrow> ('k, 'v) Element) \<Rightarrow> (nat \<Rightarrow> ('k, 'v) Element) \<Rightarrow> nat \<Rightarrow> bool" where
  "same_links h h' x \<longleftrightarrow> elem_prev (h' x) = elem_prev (h x) \<and> elem_next (h' x) = elem_next (h x)"

lemma dseg_frame: "dseg h p xs n \<Longrightarrow> (\<And>x. x \<in> set xs \<Longrightarrow> same_links h h' x) \<Longrightarrow> dseg h' p xs n"
  by (induction p xs rule: last_of.induct) (auto simp: same_links_def)

lemma fseg_frame: "fseg h xs \<Longrightarrow> (\<And>x. x \<in> set xs \<Longrightarrow> same_links h h' x) \<Longrightarrow> fseg h' xs"
  by (induction xs) (auto simp: same_links_def)

text \<open>Changing the link that leaves a segment at either end.\<close>

lemma dseg_set_last:
  assumes "dseg h p (xs @ [x]) n" and "distinct (xs @ [x])"
  shows "dseg (h(x := (h x)\<lparr>elem_next := m\<rparr>)) p (xs @ [x]) m"
proof -
  from assms(1) have a: "dseg h p xs (Some x)" "elem_prev (h x) = last_of p xs"
    by (simp_all add: dseg_append)
  have "dseg (h(x := (h x)\<lparr>elem_next := m\<rparr>)) p xs (Some x)"
    using a(1) by (rule dseg_frame) (use assms(2) in \<open>auto simp: same_links_def\<close>)
  with a(2) show ?thesis by (simp add: dseg_append)
qed

lemma dseg_set_first:
  assumes "dseg h p (x # xs) n" and "x \<notin> set xs"
  shows "dseg (h(x := (h x)\<lparr>elem_prev := q\<rparr>)) q (x # xs) n"
proof -
  from assms(1) have a: "dseg h (Some x) xs n" "elem_next (h x) = first_of xs n" by simp_all
  have "dseg (h(x := (h x)\<lparr>elem_prev := q\<rparr>)) (Some x) xs n"
    using a(1) by (rule dseg_frame) (use assms(2) in \<open>auto simp: same_links_def\<close>)
  with a(2) show ?thesis by simp
qed

section \<open>The representation\<close>

text \<open>The cache \<open>c\<close> holds the LRU list \<open>xs\<close> and the free list \<open>fs\<close>.\<close>

definition rep :: "('k, 'v) LruCache \<Rightarrow> nat list \<Rightarrow> nat list \<Rightarrow> bool" where
  "rep c xs fs \<longleftrightarrow> dseg (heap c) None xs None \<and> lru_head c = first_of xs None \<and>
     lru_tail c = last_of None xs \<and> fseg (heap c) fs \<and> free_list c = first_of fs None \<and>
     distinct (xs @ fs)"

text \<open>Only links differ.\<close>

definition same_data :: "('k, 'v) LruCache \<Rightarrow> ('k, 'v) LruCache \<Rightarrow> bool" where
  "same_data c c' \<longleftrightarrow> (\<forall>a. elem_key (heap c' a) = elem_key (heap c a) \<and>
       elem_value (heap c' a) = elem_value (heap c a)) \<and> table c' = table c \<and>
     block_count c' = block_count c \<and> block_capacity c' = block_capacity c \<and>
     next_block_size c' = next_block_size c \<and> max_elements c' = max_elements c"

lemma same_data_refl [simp]: "same_data c c"
  by (simp add: same_data_def)

lemma same_data_trans: "same_data c c' \<Longrightarrow> same_data c' c'' \<Longrightarrow> same_data c c''"
  by (simp add: same_data_def)

lemma PushFreeList_same [simp]: "same_data c (PushFreeList e c)"
  by (simp add: same_data_def PushFreeList_def Let_def)

lemma RemoveFromLRU_same [simp]: "same_data c (RemoveFromLRU e c)"
  by (simp add: same_data_def RemoveFromLRU_def Let_def split: option.splits)

lemma link_head_same [simp]: "same_data c (link_head e c)"
  by (simp add: same_data_def link_head_def Let_def split: option.splits)

lemma PushLRUHead_same [simp]: "same_data c (PushLRUHead e c)"
  by (auto simp: PushLRUHead_def intro: same_data_trans [OF RemoveFromLRU_same link_head_same])

lemma rep_PushFreeList:
  assumes "rep c xs fs" and "e \<notin> set xs" and "e \<notin> set fs"
  shows "rep (PushFreeList e c) xs (e # fs)"
proof -
  have d: "dseg (heap (PushFreeList e c)) None xs None"
    by (rule dseg_frame [of "heap c"])
      (use assms in \<open>auto simp: rep_def PushFreeList_def Let_def same_links_def\<close>)
  have f: "fseg (heap (PushFreeList e c)) fs"
    by (rule fseg_frame [of "heap c"])
      (use assms in \<open>auto simp: rep_def PushFreeList_def Let_def same_links_def\<close>)
  from d f assms show ?thesis by (auto simp: rep_def PushFreeList_def Let_def)
qed

lemma PopFreeList_empty: "rep c xs [] \<Longrightarrow> PopFreeList c = Inr (None, c)"
  by (simp add: rep_def PopFreeList_def)

lemma PopFreeList_Cons:
  assumes "rep c xs (f # fs)"
  shows "\<exists>c'. PopFreeList c = Inr (Some f, c') \<and> rep c' xs fs \<and> same_data c c' \<and>
    elem_prev (heap c' f) = None \<and> elem_next (heap c' f) = None"
proof -
  have r: "free_list c = Some f" "elem_prev (heap c f) = None" "elem_next (heap c f) = first_of fs None"
    using assms by (simp_all add: rep_def)
  define c1 where "c1 = c\<lparr>free_list := first_of fs None\<rparr>"
  define c2 where "c2 = (case free_list c1 of Some g \<Rightarrow> set_prev g None c1 | None \<Rightarrow> c1)"
  have pop: "PopFreeList c = Inr (Some f, set_next f None c2)"
    using r unfolding c1_def c2_def by (simp add: PopFreeList_def Let_def)
  have links: "same_links (heap c) (heap (set_next f None c2)) x" if that: "x \<in> set xs \<union> set fs" for x
  proof -
    have xf: "x \<noteq> f" using assms that by (auto simp: rep_def)
    show ?thesis
    proof (cases fs)
      case (Cons g gs)
      have "elem_prev (heap c g) = None" using assms Cons by (simp add: rep_def)
      with xf Cons show ?thesis by (simp add: same_links_def c1_def c2_def)
    qed (use xf in \<open>simp add: same_links_def c1_def c2_def\<close>)
  qed
  have "dseg (heap (set_next f None c2)) None xs None"
  proof (rule dseg_frame [of "heap c"])
    show "dseg (heap c) None xs None" using assms by (simp add: rep_def)
  qed (rule links, simp)
  moreover have "fseg (heap (set_next f None c2)) fs"
  proof (rule fseg_frame [of "heap c"])
    show "fseg (heap c) fs" using assms by (simp add: rep_def)
  qed (rule links, simp)
  moreover have "elem_prev (heap (set_next f None c2) f) = None"
    using r by (cases "free_list c1") (auto simp: c1_def c2_def)
  moreover have "same_data c (set_next f None c2)"
    by (cases "free_list c1") (simp_all add: same_data_def c1_def c2_def)
  moreover have "rep (set_next f None c2) xs fs"
    using assms calculation(1,2) by (cases fs) (auto simp: rep_def c1_def c2_def)
  ultimately show ?thesis using pop by auto
qed

lemma last_of_last: "xs \<noteq> [] \<Longrightarrow> last_of p xs = Some (last xs)"
  by (cases xs rule: rev_cases) simp_all

text \<open>Unlinking an element: its neighbours are joined and it is left clean.\<close>

lemma rep_RemoveFromLRU:
  assumes "rep c (as @ e # bs) fs"
  shows "rep (RemoveFromLRU e c) (as @ bs) fs"
    and "elem_prev (heap (RemoveFromLRU e c) e) = None" "elem_next (heap (RemoveFromLRU e c) e) = None"
proof -
  have d: "dseg (heap c) None as (Some e)" "elem_prev (heap c e) = last_of None as"
    "elem_next (heap c e) = first_of bs None" "dseg (heap c) (Some e) bs None"
    and dist: "distinct (as @ e # bs @ fs)"
    and hd: "lru_head c = first_of as (Some e)" and tl: "lru_tail c = last_of (Some e) bs"
    and f: "fseg (heap c) fs" "free_list c = first_of fs None"
    using assms by (auto simp: rep_def dseg_append)
  define h1 where "h1 = (case last_of None as of
      Some p \<Rightarrow> (heap c)(p := (heap c p)\<lparr>elem_next := first_of bs None\<rparr>) | None \<Rightarrow> heap c)"
  define h2 where "h2 = (case first_of bs None of
      Some n \<Rightarrow> h1(n := (h1 n)\<lparr>elem_prev := last_of None as\<rparr>) | None \<Rightarrow> h1)"
  define h3 where "h3 = h2(e := (h2 e)\<lparr>elem_prev := None, elem_next := None\<rparr>)"
  have ne: "last_of None as \<noteq> Some e" "first_of bs None \<noteq> Some e"
    using dist last_of_in [of None as e] first_of_in [of bs None e] by auto
  have e1: "elem_prev (h1 e) = last_of None as" "elem_next (h1 e) = first_of bs None"
    using d ne by (auto simp: h1_def split: option.splits)
  have R: "RemoveFromLRU e c = c\<lparr>heap := h3,
      lru_head := (if first_of as (Some e) = Some e then first_of bs None else first_of as (Some e)),
      lru_tail := (if last_of (Some e) bs = Some e then last_of None as else last_of (Some e) bs)\<rparr>"
    using d hd tl ne e1
    by (auto simp: RemoveFromLRU_def Let_def h1_def h2_def h3_def split: option.splits)
  have A: "dseg h1 None as (first_of bs None)"
  proof (cases as rule: rev_cases)
    case (snoc as' a)
    then show ?thesis using dseg_set_last [of "heap c" None as' a "Some e"] d(1) dist
      by (simp add: h1_def)
  qed simp
  have A3: "dseg h3 None as (first_of bs None)"
    using A
  proof (rule dseg_frame)
    fix x assume "x \<in> set as"
    then have "x \<noteq> e" "first_of bs None \<noteq> Some x"
      using dist first_of_in [of bs None x] by auto
    then show "same_links h1 h3 x"
      by (auto simp: same_links_def h3_def h2_def split: option.splits)
  qed
  have B1: "dseg h1 (Some e) bs None"
    using d(4)
  proof (rule dseg_frame)
    fix x assume "x \<in> set bs"
    then have "last_of None as \<noteq> Some x"
      using dist last_of_in [of None as x] by auto
    then show "same_links (heap c) h1 x"
      by (auto simp: same_links_def h1_def split: option.splits)
  qed
  have B2: "dseg h2 (last_of None as) bs None"
  proof (cases bs)
    case (Cons b bs')
    then show ?thesis using dseg_set_first [of h1 "Some e" b bs' None] B1 dist
      by (simp add: h2_def)
  qed simp
  have B3: "dseg h3 (last_of None as) bs None"
    using B2 by (rule dseg_frame) (use dist in \<open>auto simp: same_links_def h3_def\<close>)
  have F: "fseg h3 fs"
    using f(1)
  proof (rule fseg_frame)
    fix x assume "x \<in> set fs"
    then have "x \<noteq> e" "last_of None as \<noteq> Some x" "first_of bs None \<noteq> Some x"
      using dist last_of_in [of None as x] first_of_in [of bs None x] by auto
    then show "same_links (heap c) h3 x"
      by (auto simp: same_links_def h3_def h2_def h1_def split: option.splits)
  qed
  have hd': "(if first_of as (Some e) = Some e then first_of bs None else first_of as (Some e))
      = first_of (as @ bs) None"
    using dist by (cases as) auto
  have tl': "(if last_of (Some e) bs = Some e then last_of None as else last_of (Some e) bs)
      = last_of None (as @ bs)"
  proof (cases "bs = []")
    case False
    then have "last bs \<noteq> e" using dist last_in_set [of bs] by auto
    with False show ?thesis by (simp add: last_of_last)
  qed simp
  show "rep (RemoveFromLRU e c) (as @ bs) fs"
    using A3 B3 F hd' tl' dist f(2) unfolding R by (simp add: rep_def dseg_append)
  show "elem_prev (heap (RemoveFromLRU e c) e) = None" "elem_next (heap (RemoveFromLRU e c) e) = None"
    unfolding R by (simp_all add: h3_def)
qed

lemma rep_link_head:
  assumes "rep c xs fs" and "e \<notin> set xs" and "e \<notin> set fs" and "elem_prev (heap c e) = None"
  shows "rep (link_head e c) (e # xs) fs"
proof -
  have r: "dseg (heap c) None xs None" "lru_head c = first_of xs None" "lru_tail c = last_of None xs"
    "fseg (heap c) fs" "free_list c = first_of fs None" "distinct (xs @ fs)"
    using assms(1) by (simp_all add: rep_def)
  define h1 where "h1 = (heap c)(e := (heap c e)\<lparr>elem_next := first_of xs None\<rparr>)"
  define h2 where "h2 = (case first_of xs None of
      Some n \<Rightarrow> h1(n := (h1 n)\<lparr>elem_prev := Some e\<rparr>) | None \<Rightarrow> h1)"
  have L: "link_head e c = c\<lparr>heap := h2, lru_head := Some e,
      lru_tail := (if last_of None xs = None then Some e else last_of None xs)\<rparr>"
    using r by (auto simp: link_head_def Let_def h1_def h2_def split: option.splits)
  have D1: "dseg h1 None xs None"
    using r(1) by (rule dseg_frame) (use assms(2) in \<open>auto simp: same_links_def h1_def\<close>)
  have D2: "dseg h2 (Some e) xs None"
  proof (cases xs)
    case (Cons x ys)
    then show ?thesis using dseg_set_first [of h1 None x ys None] D1 r(6) by (simp add: h2_def)
  qed simp
  have E: "elem_prev (h2 e) = None" "elem_next (h2 e) = first_of xs None"
    using assms(2,4) first_of_in [of xs None e] by (auto simp: h2_def h1_def split: option.splits)
  have F: "fseg h2 fs"
    using r(4)
  proof (rule fseg_frame)
    fix x assume "x \<in> set fs"
    then have "x \<noteq> e" "first_of xs None \<noteq> Some x"
      using r(6) assms(3) first_of_in [of xs None x] by auto
    then show "same_links (heap c) h2 x"
      by (auto simp: same_links_def h2_def h1_def split: option.splits)
  qed
  have T: "(if last_of None xs = None then Some e else last_of None xs) = last_of (Some e) xs"
    by (cases xs rule: rev_cases) simp_all
  from D2 E F T r assms(2,3) show ?thesis unfolding L by (simp add: rep_def)
qed

lemma rep_PushLRUHead_move:
  assumes "rep c (as @ e # bs) fs"
  shows "rep (PushLRUHead e c) (e # as @ bs) fs"
proof (cases as)
  case Nil
  with assms show ?thesis by (simp add: PushLRUHead_def rep_def)
next
  case (Cons a as')
  then have "lru_head c \<noteq> Some e" using assms by (auto simp: rep_def)
  moreover have "e \<notin> set (as @ bs)" "e \<notin> set fs" using assms by (auto simp: rep_def)
  ultimately show ?thesis
    using rep_link_head [OF rep_RemoveFromLRU(1) [OF assms]] rep_RemoveFromLRU(2) [OF assms]
    by (simp add: PushLRUHead_def)
qed

lemma RemoveFromLRU_clean:
  assumes "rep c xs fs" and "e \<notin> set xs" and "elem_prev (heap c e) = None" and "elem_next (heap c e) = None"
  shows "rep (RemoveFromLRU e c) xs fs" "elem_prev (heap (RemoveFromLRU e c) e) = None"
proof -
  have "lru_head c \<noteq> Some e" "lru_tail c \<noteq> Some e"
    using assms(1,2) first_of_in [of xs None e] last_of_in [of None xs e] by (auto simp: rep_def)
  then have R: "RemoveFromLRU e c = c\<lparr>heap := (heap c)(e := (heap c e)\<lparr>elem_prev := None, elem_next := None\<rparr>)\<rparr>"
    using assms by (simp add: RemoveFromLRU_def Let_def)
  have s: "same_links (heap c) ((heap c)(e := (heap c e)\<lparr>elem_prev := None, elem_next := None\<rparr>)) x" for x
    using assms by (simp add: same_links_def)
  have "dseg (heap (RemoveFromLRU e c)) None xs None"
    unfolding R using assms(1) s by (auto simp: rep_def intro: dseg_frame [of "heap c"])
  moreover have "fseg (heap (RemoveFromLRU e c)) fs"
    unfolding R using assms(1) s by (auto simp: rep_def intro: fseg_frame [of "heap c"])
  ultimately show "rep (RemoveFromLRU e c) xs fs" using assms(1) unfolding R by (simp add: rep_def)
  show "elem_prev (heap (RemoveFromLRU e c) e) = None" unfolding R by simp
qed

lemma rep_PushLRUHead_new:
  assumes "rep c xs fs" and "e \<notin> set xs" and "e \<notin> set fs" and "elem_prev (heap c e) = None"
    and "elem_next (heap c e) = None"
  shows "rep (PushLRUHead e c) (e # xs) fs"
proof -
  have "lru_head c \<noteq> Some e"
    using assms(1,2) first_of_in [of xs None e] by (auto simp: rep_def)
  with rep_link_head [OF RemoveFromLRU_clean(1) [OF assms(1,2,4,5)] assms(2,3)
      RemoveFromLRU_clean(2) [OF assms(1,2,4,5)]]
  show ?thesis by (simp add: PushLRUHead_def)
qed

section \<open>The invariant\<close>

text \<open>Every slot is on one of the lists, the hash table maps exactly the keys of the LRU list to their
  slots, and the blocks never exceed \<open>max_elements\<close>.\<close>

definition sizes_ok :: "('k, 'v) LruCache \<Rightarrow> bool" where
  "sizes_ok c \<longleftrightarrow> block_capacity c \<le> max_elements c \<and>
     (block_count c < max_blocks \<longrightarrow> block_capacity c + next_block_size c \<le> max_elements c) \<and>
     (0 < max_elements c \<longrightarrow> 0 < block_capacity c \<or> block_count c = 0 \<and> 0 < next_block_size c)"

definition lru_rep :: "('k, 'v) LruCache \<Rightarrow> nat list \<Rightarrow> nat list \<Rightarrow> bool" where
  "lru_rep c xs fs \<longleftrightarrow> rep c xs fs \<and> set xs \<union> set fs = {..<block_capacity c} \<and> sizes_ok c \<and>
     (\<forall>k a. table c k = Some a \<longleftrightarrow> a \<in> set xs \<and> elem_key (heap c a) = k)"

text \<open>What the cache holds, most recently used first.\<close>

definition contents :: "('k, 'v) LruCache \<Rightarrow> nat list \<Rightarrow> ('k \<times> 'v) list" where
  "contents c xs = map (\<lambda>a. (elem_key (heap c a), elem_value (heap c a))) xs"

lemma contents_same: "same_data c c' \<Longrightarrow> contents c' xs = contents c xs"
  by (simp add: contents_def same_data_def)

lemma sizes_same: "same_data c c' \<Longrightarrow> sizes_ok c' = sizes_ok c"
  by (simp add: same_data_def sizes_ok_def)

lemma lru_rep_transfer:
  assumes "lru_rep c xs fs" and "same_data c c'" and "rep c' xs' fs'" and "set xs' = set xs" and "set fs' = set fs"
  shows "lru_rep c' xs' fs'"
  using assms sizes_same [OF assms(2)] by (simp add: lru_rep_def) (simp add: same_data_def)

lemma lru_rep_distinct_keys:
  assumes "lru_rep c xs fs"
  shows "distinct (map fst (contents c xs))"
proof -
  have "inj_on (\<lambda>a. elem_key (heap c a)) (set xs)"
    using assms by (auto simp: lru_rep_def inj_on_def) (metis option.inject)
  moreover have "distinct xs" using assms by (simp add: lru_rep_def rep_def)
  ultimately show ?thesis by (simp add: contents_def distinct_map comp_def)
qed

section \<open>Taking a slot\<close>

lemma push_new_rep:
  assumes "rep c xs fs" and "set xs \<union> set fs = {..<first}"
  shows "\<exists>fs'. rep (push_new first n c) xs fs' \<and> set xs \<union> set fs' = {..<first + n} \<and>
    same_data c (push_new first n c) \<and> (fs' = [] \<longleftrightarrow> fs = [] \<and> n = 0)"
  using assms
proof (induction n arbitrary: first c fs)
  case 0
  then show ?case by (intro exI [of _ fs]) simp
next
  case (Suc n)
  have "first \<notin> set xs" "first \<notin> set fs" using Suc(3) by auto
  then have r: "rep (PushFreeList first c) xs (first # fs)" using Suc(2) rep_PushFreeList by blast
  have "set xs \<union> set (first # fs) = {..<Suc first}" using Suc(3) by (auto simp: lessThan_Suc)
  from Suc(1) [OF r this] obtain fs' where fs': "rep (push_new (Suc first) n (PushFreeList first c)) xs fs'"
    "set xs \<union> set fs' = {..<Suc first + n}"
    "same_data (PushFreeList first c) (push_new (Suc first) n (PushFreeList first c))" "fs' \<noteq> []"
    by blast
  have "same_data c (push_new first (Suc n) c)"
    using same_data_trans [OF PushFreeList_same fs'(3)] by simp
  with fs' show ?case by (intro exI [of _ fs'] conjI) simp_all
qed

definition same_entries :: "('k, 'v) LruCache \<Rightarrow> ('k, 'v) LruCache \<Rightarrow> bool" where
  "same_entries c c' \<longleftrightarrow> (\<forall>a. elem_key (heap c' a) = elem_key (heap c a) \<and>
       elem_value (heap c' a) = elem_value (heap c a)) \<and> table c' = table c \<and>
     max_elements c' = max_elements c"

lemma same_data_entries: "same_data c c' \<Longrightarrow> same_entries c c'"
  by (simp add: same_data_def same_entries_def)

lemma same_entries_trans: "same_entries c c' \<Longrightarrow> same_entries c' c'' \<Longrightarrow> same_entries c c''"
  by (simp add: same_entries_def)

lemma contents_entries: "same_entries c c' \<Longrightarrow> contents c' xs = contents c xs"
  by (simp add: contents_def same_entries_def)

lemma set_next_block_size_fields [simp]:
  "heap (set_next_block_size c) = heap c" "table (set_next_block_size c) = table c"
  "free_list (set_next_block_size c) = free_list c" "lru_head (set_next_block_size c) = lru_head c"
  "lru_tail (set_next_block_size c) = lru_tail c" "block_count (set_next_block_size c) = block_count c"
  "block_capacity (set_next_block_size c) = block_capacity c"
  "max_elements (set_next_block_size c) = max_elements c"
  by (simp_all add: set_next_block_size_def Let_def)

lemma set_next_block_size_fits:
  assumes "block_capacity c \<le> max_elements c" and "block_count c < max_blocks"
  shows "block_capacity c + next_block_size (set_next_block_size c) \<le> max_elements c"
  using assms by (simp add: set_next_block_size_def Let_def)

lemma AddBlock_rep:
  assumes "lru_rep c xs []"
  shows "\<exists>fs. lru_rep (AddBlock c) xs fs \<and> same_entries c (AddBlock c) \<and>
    (0 < max_elements c \<and> xs = [] \<longrightarrow> fs \<noteq> [])"
proof (cases "block_count c < max_blocks \<and> block_capacity c < max_elements c")
  case False
  have "max_elements c = 0 \<or> xs \<noteq> []"
    using assms False by (auto simp: lru_rep_def sizes_ok_def max_blocks_def)
  then show ?thesis using assms False
    by (intro exI [of _ "[]"]) (auto simp: AddBlock_def same_entries_def)
next
  case True
  define c1 where "c1 = c\<lparr>block_capacity := block_capacity c + next_block_size c\<rparr>"
  define c2 where "c2 = push_new (block_capacity c) (next_block_size c) c1"
  define c3 where "c3 = c2\<lparr>block_count := Suc (block_count c2)\<rparr>"
  have r: "rep c xs []" "set xs \<union> set [] = {..<block_capacity c}" and s: "sizes_ok c"
    and t: "\<forall>k a. table c k = Some a \<longleftrightarrow> a \<in> set xs \<and> elem_key (heap c a) = k"
    using assms by (auto simp: lru_rep_def)
  have "rep c1 xs []" using r(1) by (simp add: rep_def c1_def)
  from push_new_rep [OF this r(2), of "next_block_size c"] obtain fs where
    fs: "rep c2 xs fs" "set xs \<union> set fs = {..<block_capacity c + next_block_size c}" "same_data c1 c2"
      "fs = [] \<longleftrightarrow> next_block_size c = 0"
    unfolding c2_def by (metis (no_types))
  have A: "AddBlock c = set_next_block_size c3"
    using True unfolding c3_def c2_def c1_def by (simp add: AddBlock_def Let_def)
  have d: "block_capacity c3 = block_capacity c + next_block_size c" "block_count c3 = Suc (block_count c)"
    "max_elements c3 = max_elements c" "table c3 = table c" "heap c3 = heap c2"
    using fs(3) by (simp_all add: c3_def same_data_def c1_def)
  have k: "elem_key (heap c3 a) = elem_key (heap c a)" "elem_value (heap c3 a) = elem_value (heap c a)" for a
    using fs(3) by (simp_all add: d same_data_def c1_def)
  have e: "same_entries c (AddBlock c)"
    by (simp add: A same_entries_def d(3,4) k)
  have "rep (AddBlock c) xs fs" using fs(1) by (simp add: A rep_def c3_def)
  moreover have "sizes_ok (AddBlock c)"
    using s True set_next_block_size_fits [of c3] by (auto simp: sizes_ok_def A d)
  moreover have "set xs \<union> set fs = {..<block_capacity (AddBlock c)}" using fs(2) by (simp add: A d)
  moreover have "\<forall>k a. table (AddBlock c) k = Some a \<longleftrightarrow> a \<in> set xs \<and> elem_key (heap (AddBlock c) a) = k"
    using t unfolding A set_next_block_size_fields d(4) k .
  ultimately have "lru_rep (AddBlock c) xs fs" by (simp add: lru_rep_def)
  moreover have "xs = [] \<longrightarrow> block_capacity c = 0"
    using r(2) by (cases "block_capacity c") (auto simp: lessThan_Suc)
  then have "xs = [] \<longrightarrow> fs \<noteq> []" using s True fs(4) by (auto simp: sizes_ok_def)
  ultimately show ?thesis using e by (intro exI [of _ fs]) simp
qed

text \<open>The slot \<open>a\<close> has been taken off the free list and is not yet on the LRU list.\<close>

definition slot_taken :: "('k, 'v) LruCache \<Rightarrow> nat list \<Rightarrow> nat \<Rightarrow> nat list \<Rightarrow> bool" where
  "slot_taken c xs a fs \<longleftrightarrow> rep c xs fs \<and> a \<notin> set xs \<and> a \<notin> set fs \<and>
     insert a (set xs \<union> set fs) = {..<block_capacity c} \<and> sizes_ok c \<and>
     (\<forall>k b. table c k = Some b \<longleftrightarrow> b \<in> set xs \<and> elem_key (heap c b) = k) \<and>
     elem_prev (heap c a) = None \<and> elem_next (heap c a) = None"

lemma PopFreeList_taken:
  assumes "lru_rep c xs (f # fs)"
  shows "\<exists>c'. PopFreeList c = Inr (Some f, c') \<and> slot_taken c' xs f fs \<and> same_data c c'"
proof -
  have "rep c xs (f # fs)" and u: "set xs \<union> set (f # fs) = {..<block_capacity c}" and s: "sizes_ok c"
    and t: "\<forall>k b. table c k = Some b \<longleftrightarrow> b \<in> set xs \<and> elem_key (heap c b) = k"
    using assms by (simp_all add: lru_rep_def)
  from PopFreeList_Cons [OF this(1)] obtain c' where c': "PopFreeList c = Inr (Some f, c')"
    "rep c' xs fs" "same_data c c'" "elem_prev (heap c' f) = None" "elem_next (heap c' f) = None" by blast
  have "f \<notin> set xs" "f \<notin> set fs" using assms by (auto simp: lru_rep_def rep_def)
  moreover have "insert f (set xs \<union> set fs) = {..<block_capacity c'}"
    using u c'(3) by (simp add: same_data_def)
  moreover have "\<forall>k b. table c' k = Some b \<longleftrightarrow> b \<in> set xs \<and> elem_key (heap c' b) = k"
    using t c'(3) by (simp add: same_data_def)
  ultimately show ?thesis using c' s by (simp add: slot_taken_def sizes_same)
qed

text \<open>Whether another block with at least one element can be allocated.\<close>

definition can_grow :: "('k, 'v) LruCache \<Rightarrow> bool" where
  "can_grow c \<longleftrightarrow> block_count c < max_blocks \<and> block_capacity c < max_elements c \<and> 0 < next_block_size c"

definition is_full :: "('k, 'v) LruCache \<Rightarrow> bool" where
  "is_full c \<longleftrightarrow> free_list c = None \<and> \<not> can_grow c"

lemma AddBlock_free_list:
  assumes "lru_rep c xs []" and "lru_rep (AddBlock c) xs fs"
  shows "fs = [] \<longleftrightarrow> \<not> can_grow c"
proof -
  have "card {..<block_capacity (AddBlock c)} = card {..<block_capacity c} + card (set fs)"
    using assms by (subst card_Un_disjoint [symmetric, of "{..<block_capacity c}" "set fs", OF finite_lessThan])
      (auto simp: lru_rep_def rep_def)
  moreover have "same_data c' (push_new i n c')" for i n and c' :: "('a, 'b) LruCache"
    by (induction n arbitrary: i c') (auto intro: same_data_trans [OF PushFreeList_same])
  then have pc: "block_capacity (push_new i n c') = block_capacity c'" for i n and c' :: "('a, 'b) LruCache"
    by (simp add: same_data_def)
  have blk: "block_capacity (AddBlock c) = (if block_count c < max_blocks \<and> block_capacity c < max_elements c
      then block_capacity c + next_block_size c else block_capacity c)"
    by (auto simp: AddBlock_def Let_def pc)
  ultimately have "card (set fs) = (if block_count c < max_blocks \<and> block_capacity c < max_elements c
      then next_block_size c else 0)"
    using blk by (cases "block_count c < max_blocks \<and> block_capacity c < max_elements c") auto
  then show ?thesis by (auto simp: can_grow_def split: if_splits)
qed

lemma NextFreeElement_rep:
  assumes "lru_rep c xs fs"
  shows "if is_full c
    then \<exists>c'. NextFreeElement c = Inr (None, c') \<and> lru_rep c' xs [] \<and> same_entries c c' \<and>
      (0 < max_elements c \<longrightarrow> xs \<noteq> [])
    else \<exists>a c' fs'. NextFreeElement c = Inr (Some a, c') \<and> slot_taken c' xs a fs' \<and> same_entries c c' \<and>
      (\<forall>gs. fs = a # gs \<longrightarrow> same_data c c')"
proof (cases fs)
  case (Cons f gs)
  have "\<not> is_full c" using assms Cons by (simp add: is_full_def lru_rep_def rep_def)
  moreover from PopFreeList_taken [OF assms [unfolded Cons]] obtain c' where
    c': "PopFreeList c = Inr (Some f, c')" "slot_taken c' xs f gs" "same_data c c'" by blast
  then have "NextFreeElement c = Inr (Some f, c')" by (simp add: NextFreeElement_def)
  ultimately show ?thesis using c' same_data_entries [OF c'(3)] by auto
next
  case Nil
  have r: "lru_rep c xs []" using assms Nil by simp
  then have "rep c xs []" by (simp add: lru_rep_def)
  then have e: "NextFreeElement c = PopFreeList (AddBlock c)" and f: "is_full c \<longleftrightarrow> \<not> can_grow c"
    using PopFreeList_empty [of c xs] by (simp_all add: NextFreeElement_def is_full_def rep_def)
  from AddBlock_rep [OF r] obtain gs where gs: "lru_rep (AddBlock c) xs gs"
    "same_entries c (AddBlock c)" "0 < max_elements c \<and> xs = [] \<longrightarrow> gs \<noteq> []" by blast
  show ?thesis
  proof (cases gs)
    case Nil
    then have "is_full c" using f AddBlock_free_list [OF r gs(1)] by simp
    moreover have "rep (AddBlock c) xs []" using gs(1) Nil by (simp add: lru_rep_def)
    ultimately show ?thesis using gs e Nil by (auto simp: PopFreeList_empty)
  next
    case (Cons g hs)
    then have "\<not> is_full c" using f AddBlock_free_list [OF r gs(1)] by simp
    moreover from PopFreeList_taken [OF gs(1) [unfolded Cons]] obtain c' where
      "PopFreeList (AddBlock c) = Inr (Some g, c')" "slot_taken c' xs g hs" "same_data (AddBlock c) c'" by blast
    ultimately show ?thesis
      using e gs(2) same_entries_trans [OF gs(2) same_data_entries] \<open>fs = []\<close> by auto
  qed
qed

text \<open>Whatever is erased or emptied, the data of the slots that stay are untouched.\<close>

lemma Evict_rep:
  assumes "lru_rep c (as @ a # bs) fs"
  shows "\<exists>c'. Evict (Some a) c = Inr (True, c') \<and> lru_rep c' (as @ bs) (a # fs) \<and>
    contents c' (as @ bs) = contents c (as @ bs) \<and> max_elements c' = max_elements c \<and>
    block_capacity c' = block_capacity c"
proof -
  define k where "k = elem_key (heap c a)"
  define c1 where "c1 = c\<lparr>table := (table c)(k := None)\<rparr>"
  define c2 where "c2 = PushFreeList a (RemoveFromLRU a c1)"
  have r: "rep c (as @ a # bs) fs" and u: "set (as @ a # bs) \<union> set fs = {..<block_capacity c}"
    and s: "sizes_ok c"
    and t: "\<And>k b. table c k = Some b \<longleftrightarrow> b \<in> set (as @ a # bs) \<and> elem_key (heap c b) = k"
    using assms by (simp_all add: lru_rep_def)
  have a: "a \<notin> set (as @ bs)" "a \<notin> set fs" using r by (auto simp: rep_def)
  have "table c k \<noteq> None" using t [of k a] by (auto simp: k_def)
  then have E: "Evict (Some a) c = Inr (True, c2)" by (simp add: Evict_def k_def c1_def c2_def)
  have d: "same_data c1 c2"
    unfolding c2_def by (rule same_data_trans [OF RemoveFromLRU_same PushFreeList_same])
  have "rep c1 (as @ a # bs) fs" using r by (simp add: rep_def c1_def)
  from rep_PushFreeList [OF rep_RemoveFromLRU(1) [OF this] a] have r2: "rep c2 (as @ bs) (a # fs)"
    by (simp add: c2_def)
  have k2: "elem_key (heap c2 b) = elem_key (heap c b)" "elem_value (heap c2 b) = elem_value (heap c b)" for b
    using d by (simp_all add: same_data_def c1_def)
  have f2: "table c2 = (table c)(k := None)" "block_capacity c2 = block_capacity c"
    "max_elements c2 = max_elements c" "sizes_ok c2 = sizes_ok c"
    using d by (simp_all add: same_data_def sizes_ok_def c1_def)
  have t2: "table c2 k' = Some b \<longleftrightarrow> b \<in> set (as @ bs) \<and> elem_key (heap c2 b) = k'" for k' b
  proof (cases "k' = k")
    case True
    have "b = a" if "b \<in> set (as @ bs)" "elem_key (heap c b) = k"
      using t [of k a] t [of k b] that by (auto simp: k_def)
    with True a show ?thesis by (auto simp: f2 k2)
  next
    case False
    then show ?thesis using t [of k' b] by (auto simp: f2 k2 k_def)
  qed
  have "set (as @ bs) \<union> set (a # fs) = {..<block_capacity c2}" using u f2(2) by auto
  then have "lru_rep c2 (as @ bs) (a # fs)" using r2 t2 s f2(4) by (simp add: lru_rep_def)
  then show ?thesis using E f2 by (intro exI [of _ c2]) (simp add: contents_def k2)
qed

text \<open>Filling a taken slot: the key goes to the front.\<close>

definition place :: "nat \<Rightarrow> 'k \<Rightarrow> ('k, 'v) LruCache \<Rightarrow> ('k, 'v) LruCache" where
  "place a k c = PushLRUHead a
     (c\<lparr>heap := (heap c)(a := (heap c a)\<lparr>elem_key := k\<rparr>), table := (table c)(k \<mapsto> a)\<rparr>)"

lemma place_rep:
  assumes "slot_taken c xs a fs" and "k \<notin> fst ` set (contents c xs)"
  shows "lru_rep (place a k c) (a # xs) fs \<and>
    contents (place a k c) (a # xs) = (k, elem_value (heap c a)) # contents c xs \<and>
    max_elements (place a k c) = max_elements c"
proof -
  define c1 where "c1 = c\<lparr>heap := (heap c)(a := (heap c a)\<lparr>elem_key := k\<rparr>), table := (table c)(k \<mapsto> a)\<rparr>"
  have r: "rep c xs fs" "a \<notin> set xs" "a \<notin> set fs" "insert a (set xs \<union> set fs) = {..<block_capacity c}"
    "sizes_ok c" "elem_prev (heap c a) = None" "elem_next (heap c a) = None"
    and t: "\<And>k b. table c k = Some b \<longleftrightarrow> b \<in> set xs \<and> elem_key (heap c b) = k"
    using assms(1) by (simp_all add: slot_taken_def)
  have "dseg (heap c1) None xs None" "fseg (heap c1) fs"
    using r(1) by (auto simp: rep_def c1_def same_links_def intro: dseg_frame [of "heap c"] fseg_frame [of "heap c"])
  then have "rep c1 xs fs" using r(1) by (simp add: rep_def c1_def)
  then have p: "rep (place a k c) (a # xs) fs"
    unfolding place_def c1_def [symmetric]
    by (rule rep_PushLRUHead_new) (use r in \<open>simp_all add: c1_def\<close>)
  have d: "same_data c1 (place a k c)" unfolding place_def c1_def [symmetric] by simp
  have q: "elem_key (heap (place a k c) b) = (if b = a then k else elem_key (heap c b))"
    "elem_value (heap (place a k c) b) = elem_value (heap c b)" for b
    using d by (simp_all add: same_data_def c1_def)
  have f: "table (place a k c) = (table c)(k \<mapsto> a)" "block_capacity (place a k c) = block_capacity c"
    "max_elements (place a k c) = max_elements c" "sizes_ok (place a k c) = sizes_ok c"
    using d by (simp_all add: same_data_def sizes_ok_def c1_def)
  have n: "\<And>b. b \<in> set xs \<Longrightarrow> elem_key (heap c b) \<noteq> k" using assms(2) by (auto simp: contents_def image_image)
  have "table (place a k c) k' = Some b \<longleftrightarrow> b \<in> set (a # xs) \<and> elem_key (heap (place a k c) b) = k'" for k' b
    using t [of k' b] n r(2) by (auto simp: f q)
  moreover have "set (a # xs) \<union> set fs = {..<block_capacity (place a k c)}" using r(4) f(2) by simp
  ultimately have "lru_rep (place a k c) (a # xs) fs" using p r(5) f(4) by (simp add: lru_rep_def)
  moreover have "contents (place a k c) (a # xs) = (k, elem_value (heap c a)) # contents c xs"
    using r(2) by (auto simp: contents_def q)
  ultimately show ?thesis using f(3) by simp
qed

lemma TakeElement_rep:
  assumes "lru_rep c xs fs" and "0 < max_elements c"
  shows "\<exists>a c' ys gs. TakeElement c = Inr (a, c') \<and> slot_taken c' ys a gs \<and>
    contents c' ys = (if is_full c then butlast (contents c xs) else contents c xs) \<and>
    max_elements c' = max_elements c"
proof (cases "is_full c")
  case False
  with NextFreeElement_rep [OF assms(1)] obtain a c' gs where
    "NextFreeElement c = Inr (Some a, c')" "slot_taken c' xs a gs" "same_entries c c'" by auto
  moreover from this(3) have "max_elements c' = max_elements c" by (simp add: same_entries_def)
  ultimately show ?thesis using False contents_entries [of c c' xs] by (simp add: TakeElement_def) blast
next
  case True
  with NextFreeElement_rep [OF assms(1)] assms(2) obtain c1 where
    c1: "NextFreeElement c = Inr (None, c1)" "lru_rep c1 xs []" "same_entries c c1" "xs \<noteq> []" by auto
  then have xs: "xs = butlast xs @ last xs # []" by simp
  have tl: "lru_tail c1 = Some (last xs)" using c1(2,4) by (simp add: lru_rep_def rep_def last_of_last)
  from c1(2) xs have "lru_rep c1 (butlast xs @ last xs # []) []" by simp
  from Evict_rep [OF this] obtain c2 where
    c2: "Evict (Some (last xs)) c1 = Inr (True, c2)" "lru_rep c2 (butlast xs) [last xs]"
      "contents c2 (butlast xs) = contents c1 (butlast xs)" "max_elements c2 = max_elements c1" by auto
  have "\<not> is_full c2" using c2(2) by (simp add: lru_rep_def rep_def is_full_def)
  with NextFreeElement_rep [OF c2(2)] obtain a c3 gs where
    c3: "NextFreeElement c2 = Inr (Some a, c3)" "slot_taken c3 (butlast xs) a gs" "same_entries c2 c3" by auto
  have "TakeElement c = Inr (a, c3)"
    using c1(1) tl c2(1) c3(1) by (simp add: TakeElement_def check_erased_def)
  moreover have "contents c3 (butlast xs) = butlast (contents c xs)"
    using contents_entries [OF c3(3), of "butlast xs"] c2(3) contents_entries [OF c1(3), of "butlast xs"]
    by (simp add: contents_def map_butlast)
  moreover have "max_elements c3 = max_elements c"
    using c1(3) c2(4) c3(3) by (simp add: same_entries_def)
  ultimately show ?thesis using True c3(2) by (simp only: if_True) blast
qed

section \<open>The bounded map\<close>

text \<open>The cache as its entries, most recently used first.\<close>

definition is_cache :: "('k, 'v) LruCache \<Rightarrow> ('k \<times> 'v) list \<Rightarrow> bool" where
  "is_cache c es \<longleftrightarrow> (\<exists>xs fs. lru_rep c xs fs \<and> contents c xs = es)"

definition drop_key :: "'k \<Rightarrow> ('k \<times> 'v) list \<Rightarrow> ('k \<times> 'v) list" where
  "drop_key k es = filter (\<lambda>p. fst p \<noteq> k) es"

definition lru_put :: "bool \<Rightarrow> 'k \<Rightarrow> 'v \<Rightarrow> ('k \<times> 'v) list \<Rightarrow> ('k \<times> 'v) list" where
  "lru_put full k v es =
     (k, v) # (if k \<in> fst ` set es then drop_key k es else if full then butlast es else es)"

lemma slot_of_key:
  assumes "lru_rep c xs fs" and "table c k = Some a"
  obtains as bs where "xs = as @ a # bs" and "drop_key k (contents c xs) = contents c (as @ bs)"
    and "k \<in> fst ` set (contents c xs)"
proof -
  have a: "a \<in> set xs" "elem_key (heap c a) = k" using assms by (simp_all add: lru_rep_def)
  then obtain as bs where xs: "xs = as @ a # bs" by (meson split_list)
  have "a \<notin> set (as @ bs)" using assms(1) xs by (auto simp: lru_rep_def rep_def)
  moreover have "b = a" if "b \<in> set xs" "elem_key (heap c b) = k" for b
  proof -
    have "table c k = Some b" using assms(1) that by (simp add: lru_rep_def)
    with assms(2) show ?thesis by simp
  qed
  ultimately have n: "elem_key (heap c b) \<noteq> k" if "b \<in> set (as @ bs)" for b
    using that xs by (metis Un_iff insertCI list.simps(15) set_append)
  have f: "filter (\<lambda>p. fst p \<noteq> k) (map (\<lambda>a. (elem_key (heap c a), elem_value (heap c a))) ys)
      = map (\<lambda>a. (elem_key (heap c a), elem_value (heap c a))) ys" if "set ys \<subseteq> set (as @ bs)" for ys
    unfolding filter_id_conv using n that by auto
  have "drop_key k (contents c xs) = contents c (as @ bs)"
    unfolding drop_key_def contents_def xs using a(2) f [of as] f [of bs] by simp
  moreover have "k \<in> fst ` set (contents c xs)" using a by (auto simp: contents_def image_image)
  ultimately show ?thesis using that xs by blast
qed

lemma no_slot_of_key:
  assumes "lru_rep c xs fs" and "table c k = None"
  shows "k \<notin> fst ` set (contents c xs)"
  using assms by (auto simp: lru_rep_def contents_def image_image) (metis option.distinct(1))

lemma Insert_place:
  assumes "slot_taken c xs a fs" and "k \<notin> fst ` set (contents c xs)"
  shows "\<exists>c'. (let c = c\<lparr>heap := (heap c)(a := (heap c a)\<lparr>elem_key := k\<rparr>)\<rparr>;
           c = c\<lparr>table := (table c)(k \<mapsto> a)\<rparr>; c = PushLRUHead a c
         in c\<lparr>heap := (heap c)(a := (heap c a)\<lparr>elem_value := v\<rparr>)\<rparr>) = c' \<and>
    is_cache c' ((k, v) # contents c xs) \<and> max_elements c' = max_elements c"
proof -
  define c1 where "c1 = place a k c"
  define c2 where "c2 = c1\<lparr>heap := (heap c1)(a := (heap c1 a)\<lparr>elem_value := v\<rparr>)\<rparr>"
  have p: "lru_rep c1 (a # xs) fs" "contents c1 (a # xs) = (k, elem_value (heap c a)) # contents c xs"
    "max_elements c1 = max_elements c"
    using place_rep [OF assms] by (simp_all add: c1_def)
  have h: "elem_key (heap c2 b) = elem_key (heap c1 b)" "same_links (heap c1) (heap c2) b"
    "elem_value (heap c2 b) = (if b = a then v else elem_value (heap c1 b))" for b
    by (simp_all add: c2_def same_links_def)
  have r: "rep c1 (a # xs) fs" using p(1) by (simp add: lru_rep_def)
  have "dseg (heap c2) None (a # xs) None" "fseg (heap c2) fs"
    by (rule dseg_frame [of "heap c1"] fseg_frame [of "heap c1"]; use r h(2) in \<open>simp add: rep_def\<close>)+
  then have "rep c2 (a # xs) fs" using r by (simp add: rep_def c2_def)
  moreover have "table c2 = table c1" "block_capacity c2 = block_capacity c1"
    "sizes_ok c2 = sizes_ok c1" "max_elements c2 = max_elements c"
    using p(3) by (simp_all add: c2_def sizes_ok_def)
  ultimately have l: "lru_rep c2 (a # xs) fs" "max_elements c2 = max_elements c"
    using p(1) by (simp_all add: lru_rep_def h(1))
  have "a \<notin> set xs" using assms(1) by (simp add: slot_taken_def)
  then have "contents c2 (a # xs) = (k, v) # contents c xs"
    using p(2) by (simp add: contents_def h)
  then have "is_cache c2 ((k, v) # contents c xs)" using l(1) unfolding is_cache_def by blast
  then show ?thesis using l(2) unfolding c2_def c1_def place_def by (simp add: Let_def)
qed

lemma Insert_cache:
  assumes "is_cache c es" and "0 < max_elements c"
  shows "\<exists>c'. Insert k v c = Inr c' \<and> is_cache c' (lru_put (is_full c) k v es) \<and>
    max_elements c' = max_elements c"
proof -
  from assms(1) obtain xs fs where r: "lru_rep c xs fs" and es: "es = contents c xs"
    by (auto simp: is_cache_def)
  obtain a c1 ys gs where T: "res_bind (case LookupInternal k c of None \<Rightarrow> Inr c
        | Some e \<Rightarrow> check_erased (Evict (Some e) c)) TakeElement = Inr (a, c1)"
      "slot_taken c1 ys a gs" "k \<notin> fst ` set (contents c1 ys)" "max_elements c1 = max_elements c"
      "lru_put (is_full c) k v es = (k, v) # contents c1 ys"
  proof (cases "table c k")
    case None
    have k: "k \<notin> fst ` set es" using no_slot_of_key [OF r None] es by simp
    from TakeElement_rep [OF r assms(2)] obtain a c1 ys gs where t: "TakeElement c = Inr (a, c1)"
      "slot_taken c1 ys a gs" "contents c1 ys = (if is_full c then butlast es else es)"
      "max_elements c1 = max_elements c" using es by blast
    have "k \<notin> fst ` set (contents c1 ys)" using k t(3) in_set_butlastD [of _ es] by auto
    with that t k None show ?thesis by (simp add: LookupInternal_def lru_put_def)
  next
    case (Some e)
    from slot_of_key [OF r Some] obtain as bs where x: "xs = as @ e # bs"
      "drop_key k es = contents c (as @ bs)" "k \<in> fst ` set es" unfolding es by blast
    from Evict_rep [OF r [unfolded x(1)]] obtain c0 where e: "Evict (Some e) c = Inr (True, c0)"
      "lru_rep c0 (as @ bs) (e # fs)" "contents c0 (as @ bs) = contents c (as @ bs)"
      "max_elements c0 = max_elements c" by auto
    have "\<not> is_full c0" using e(2) by (simp add: is_full_def lru_rep_def rep_def)
    with TakeElement_rep [OF e(2)] e(4) assms(2) obtain a c1 ys gs where t: "TakeElement c0 = Inr (a, c1)"
      "slot_taken c1 ys a gs" "contents c1 ys = contents c0 (as @ bs)" "max_elements c1 = max_elements c"
      by auto
    have "k \<notin> fst ` set (drop_key k es)" by (auto simp: drop_key_def)
    then have "k \<notin> fst ` set (contents c1 ys)" using t(3) e(3) x(2) by simp
    with that [of a c1 ys gs] t e x Some show ?thesis
      by (simp add: LookupInternal_def lru_put_def check_erased_def)
  qed
  from Insert_place [OF T(2,3), of v] T(4) obtain c' where c': "(let c = c1\<lparr>heap := (heap c1)(a := (heap c1 a)\<lparr>elem_key := k\<rparr>)\<rparr>;
           c = c\<lparr>table := (table c)(k \<mapsto> a)\<rparr>; c = PushLRUHead a c
         in c\<lparr>heap := (heap c)(a := (heap c a)\<lparr>elem_value := v\<rparr>)\<rparr>) = c'"
    "is_cache c' ((k, v) # contents c1 ys)" "max_elements c' = max_elements c" by auto
  have "Insert k v c = Inr c'"
    using T(1) c'(1) by (auto simp: Insert_def InsertKey_def res_bind_Inr_iff Let_def)
  with c' T(5) show ?thesis by auto
qed

lemma cache_keys_distinct: "is_cache c es \<Longrightarrow> distinct (map fst es)"
  using lru_rep_distinct_keys by (auto simp: is_cache_def)

lemma cache_bounded: "is_cache c es \<Longrightarrow> length es \<le> max_elements c"
proof -
  assume "is_cache c es"
  then obtain xs fs where r: "lru_rep c xs fs" "contents c xs = es" by (auto simp: is_cache_def)
  have "card (set xs) \<le> card {..<block_capacity c}"
    by (rule card_mono) (use r(1) in \<open>auto simp: lru_rep_def\<close>)
  moreover have "card (set xs) = length es"
    using r by (auto simp: lru_rep_def rep_def contents_def distinct_card)
  ultimately show ?thesis using r(1) by (simp add: lru_rep_def sizes_ok_def)
qed

lemma LookupWithoutInsert_cache:
  assumes "is_cache c es"
  shows "LookupWithoutInsert k c = map_of es k"
proof -
  from assms obtain xs fs where r: "lru_rep c xs fs" "contents c xs = es" by (auto simp: is_cache_def)
  show ?thesis
  proof (cases "table c k")
    case None
    with no_slot_of_key [OF r(1)] r(2) have "map_of es k = None" by (simp add: map_of_eq_None_iff)
    with None show ?thesis by (simp add: LookupWithoutInsert_def LookupInternal_def)
  next
    case (Some a)
    then have "(k, elem_value (heap c a)) \<in> set es"
      using r by (auto simp: lru_rep_def contents_def)
    with cache_keys_distinct [OF assms] Some show ?thesis
      by (simp add: LookupWithoutInsert_def LookupInternal_def)
  qed
qed

definition move_front :: "'k \<Rightarrow> ('k \<times> 'v) list \<Rightarrow> ('k \<times> 'v) list" where
  "move_front k es = (case map_of es k of None \<Rightarrow> es | Some v \<Rightarrow> (k, v) # drop_key k es)"

lemma MutableLookup_cache:
  assumes "is_cache c es"
  shows "\<exists>c'. MutableLookup k c = (map_of es k, c') \<and> is_cache c' (move_front k es) \<and>
    max_elements c' = max_elements c"
proof -
  from assms obtain xs fs where r: "lru_rep c xs fs" and es: "contents c xs = es" by (auto simp: is_cache_def)
  have l: "map_of es k = map_option (\<lambda>e. elem_value (heap c e)) (table c k)"
    using LookupWithoutInsert_cache [OF assms, of k] by (simp add: LookupWithoutInsert_def LookupInternal_def)
  show ?thesis
  proof (cases "table c k")
    case None
    with l assms show ?thesis by (simp add: MutableLookup_def LookupInternal_def move_front_def)
  next
    case (Some a)
    from slot_of_key [OF r Some] obtain as bs where x: "xs = as @ a # bs"
      "drop_key k es = contents c (as @ bs)" unfolding es by blast
    have "rep c (as @ a # bs) fs" using r x(1) by (simp add: lru_rep_def)
    from rep_PushLRUHead_move [OF this] have p: "rep (PushLRUHead a c) (a # as @ bs) fs" .
    have "lru_rep (PushLRUHead a c) (a # as @ bs) fs"
      by (rule lru_rep_transfer [OF r _ p]) (simp_all add: x(1))
    moreover have "elem_key (heap c a) = k" using r Some by (simp add: lru_rep_def)
    then have "contents (PushLRUHead a c) (a # as @ bs) = move_front k es"
      using contents_same [of c "PushLRUHead a c" "a # as @ bs"] x(2) l Some
      by (simp add: move_front_def) (simp add: contents_def)
    moreover have "max_elements (PushLRUHead a c) = max_elements c"
      using PushLRUHead_same [of c a] by (simp add: same_data_def)
    ultimately show ?thesis using Some l
      by (auto simp: MutableLookup_def LookupInternal_def is_cache_def)
  qed
qed

lemma lru_Erase_cache:
  assumes "is_cache c es"
  shows "\<exists>c'. lru_Erase k c = Inr (k \<in> fst ` set es, c') \<and> is_cache c' (drop_key k es) \<and>
    max_elements c' = max_elements c"
proof -
  from assms obtain xs fs where r: "lru_rep c xs fs" and es: "contents c xs = es" by (auto simp: is_cache_def)
  show ?thesis
  proof (cases "table c k")
    case None
    with no_slot_of_key [OF r None] es have k: "k \<notin> fst ` set es" by simp
    then have "drop_key k es = es" by (auto simp: drop_key_def filter_id_conv)
    with None k assms show ?thesis by (simp add: lru_Erase_def LookupInternal_def Evict_def)
  next
    case (Some a)
    from slot_of_key [OF r Some] obtain as bs where x: "xs = as @ a # bs"
      "drop_key k es = contents c (as @ bs)" "k \<in> fst ` set es" unfolding es by blast
    from Evict_rep [OF r [unfolded x(1)]] obtain c' where "Evict (Some a) c = Inr (True, c')"
      "lru_rep c' (as @ bs) (a # fs)" "contents c' (as @ bs) = contents c (as @ bs)"
      "max_elements c' = max_elements c" by auto
    with Some x show ?thesis by (auto simp: lru_Erase_def LookupInternal_def is_cache_def)
  qed
qed

lemma clear_loop_rep:
  assumes "length xs \<le> n" and "dseg (heap c) p xs None" and "fseg (heap c) fs"
    and "free_list c = first_of fs None" and "distinct (xs @ fs)" and "e = first_of xs None"
  shows "fseg (heap (clear_loop n e c)) (rev xs @ fs) \<and>
    free_list (clear_loop n e c) = first_of (rev xs @ fs) None \<and> same_data c (clear_loop n e c)"
  using assms
proof (induction xs arbitrary: n e p c fs)
  case (Cons x xs)
  then obtain m where n: "n = Suc m" by (cases n) auto
  define c1 where "c1 = PushFreeList x c"
  have h: "same_links (heap c) (heap c1) y" if "y \<noteq> x" for y
    using that by (simp add: same_links_def c1_def PushFreeList_def Let_def)
  have x: "y \<noteq> x" if "y \<in> set xs \<union> set fs" for y using Cons.prems(5) that by auto
  have d: "dseg (heap c1) (Some x) xs None"
    by (rule dseg_frame [of "heap c"]) (use Cons.prems(2) h x in auto)
  have "fseg (heap c1) fs"
    by (rule fseg_frame [of "heap c"]) (use Cons.prems(3) h x in auto)
  then have f: "fseg (heap c1) (x # fs)"
    using Cons.prems(4) by (simp add: c1_def PushFreeList_def Let_def)
  have "free_list c1 = first_of (x # fs) None" by (simp add: c1_def PushFreeList_def Let_def)
  from Cons.IH [OF _ d f this, of m "first_of xs None"] Cons.prems n
  have "fseg (heap (clear_loop m (first_of xs None) c1)) (rev xs @ x # fs) \<and>
    free_list (clear_loop m (first_of xs None) c1) = first_of (rev xs @ x # fs) None \<and>
    same_data c1 (clear_loop m (first_of xs None) c1)" by auto
  moreover have "clear_loop n e c = clear_loop m (first_of xs None) c1"
    using Cons.prems(2,6) n by (simp add: c1_def)
  ultimately show ?case
    using same_data_trans [OF PushFreeList_same [of c x]] by (simp add: c1_def)
qed (cases n; simp)

lemma lru_Clear_cache:
  assumes "is_cache c es"
  shows "is_cache (lru_Clear c) [] \<and> max_elements (lru_Clear c) = max_elements c"
proof -
  from assms obtain xs fs where r: "lru_rep c xs fs" by (auto simp: is_cache_def)
  then have u: "set xs \<union> set fs = {..<block_capacity c}" and d: "distinct (xs @ fs)" and s: "sizes_ok c"
    and l: "dseg (heap c) None xs None" "fseg (heap c) fs" "free_list c = first_of fs None"
      "lru_head c = first_of xs None"
    by (simp_all add: lru_rep_def rep_def)
  define c0 where "c0 = c\<lparr>table := Map.empty\<rparr>"
  define c1 where "c1 = clear_loop (block_capacity c0) (lru_head c0) c0"
  have "card (set xs) \<le> card {..<block_capacity c}" using u by (intro card_mono) auto
  then have "length xs \<le> block_capacity c" using d by (simp add: distinct_card)
  then have c1: "fseg (heap c1) (rev xs @ fs)" "free_list c1 = first_of (rev xs @ fs) None" "same_data c0 c1"
    using clear_loop_rep [of xs "block_capacity c0" c0 None fs "lru_head c0"] l d
    unfolding c1_def by (simp_all add: c0_def)
  have "lru_Clear c = c1\<lparr>lru_head := None, lru_tail := None\<rparr>" (is "_ = ?c")
    by (simp add: lru_Clear_def Let_def c1_def c0_def)
  moreover have "rep ?c [] (rev xs @ fs)" using c1 d by (simp add: rep_def)
  moreover have "table ?c = Map.empty" "block_capacity ?c = block_capacity c" "sizes_ok ?c = sizes_ok c"
    "max_elements ?c = max_elements c"
    using c1(3) by (simp_all add: same_data_def sizes_ok_def c0_def)
  ultimately have "lru_rep (lru_Clear c) [] (rev xs @ fs)" "max_elements (lru_Clear c) = max_elements c"
    using u s by (simp_all add: lru_rep_def)
  then show ?thesis by (auto simp: is_cache_def contents_def)
qed

declare initial_block_size.simps [simp del]

lemma initial_block_size_bounds: "0 < n \<Longrightarrow> n \<le> mx \<Longrightarrow> 0 < initial_block_size n mx \<and> initial_block_size n mx \<le> mx"
proof (induction n mx rule: initial_block_size.induct)
  case (1 n mx)
  show ?case
  proof (cases "0 < n \<and> n * 2 ^ max_blocks < mx")
    case True
    then have "n * 2 \<le> mx" by (simp add: max_blocks_def)
    with 1 True show ?thesis by (subst (1 2) initial_block_size.simps) simp
  next
    case False
    then have "initial_block_size n mx = n" by (subst initial_block_size.simps) (simp only: if_False)
    with 1 show ?thesis by simp
  qed
qed

lemma new_LruCache_cache: "is_cache (new_LruCache memory mx) [] \<and> max_elements (new_LruCache memory mx) = mx"
proof -
  have "next_block_size (new_LruCache memory mx) \<le> mx \<and>
    (0 < mx \<longrightarrow> 0 < next_block_size (new_LruCache memory mx))"
    using initial_block_size_bounds [of 64 mx] by (auto simp: new_LruCache_def)
  then have "lru_rep (new_LruCache memory mx) [] []"
    by (simp add: lru_rep_def rep_def sizes_ok_def new_LruCache_def)
  then show ?thesis by (auto simp: is_cache_def contents_def new_LruCache_def)
qed

lemma full_length:
  assumes "is_cache c es" and "is_full c"
  shows "length es = block_capacity c"
proof -
  from assms(1) obtain xs fs where r: "lru_rep c xs fs" "contents c xs = es" by (auto simp: is_cache_def)
  then have "fs = []" using assms(2) by (cases fs) (auto simp: is_full_def lru_rep_def rep_def)
  then have "card {..<block_capacity c} = card (set xs)" using r by (simp add: lru_rep_def)
  then show ?thesis using r by (auto simp: lru_rep_def rep_def contents_def distinct_card)
qed

text \<open>A memory for the examples.\<close>

definition zero_memory :: "nat \<Rightarrow> (nat, string) Element" where
  "zero_memory = (\<lambda>_. \<lparr>elem_next = None, elem_prev = None, elem_key = 0, elem_value = []\<rparr>)"

text \<open>C11: The pointer-level cache implements the bounded recency list: with room for at least one
  element \<open>Insert\<close> never fails a \<open>CHECK\<close> and puts the key in front. An old entry of the key is
  dropped; a new key drops the entry used longest ago exactly when every allocated slot is taken and
  no further block can be allocated. The invariant (both linked lists intact, every slot on one of
  them, the hash table in step, at most \<open>max_elements\<close> entries) is kept.\<close>

theorem Insert_refines_put:
  assumes "is_cache c es" and "0 < max_elements c"
  shows "\<exists>c'. Insert k v c = Inr c' \<and> is_cache c' (lru_put (is_full c) k v es) \<and>
    length (lru_put (is_full c) k v es) \<le> max_elements c' \<and> max_elements c' = max_elements c \<and>
    (is_full c \<longrightarrow> length es = block_capacity c)"
  using Insert_cache [OF assms, of k v] cache_bounded full_length [OF assms(1)] by metis

theorem Insert_refines_put_witness:
  "\<exists>c'. Insert (7::nat) ''a'' (new_LruCache zero_memory 2) = Inr c' \<and> is_cache c' [(7, ''a'')]"
proof -
  have "is_cache (new_LruCache zero_memory 2) []" "0 < max_elements (new_LruCache zero_memory 2)"
    using new_LruCache_cache [of zero_memory 2] by simp_all
  moreover have "lru_put b 7 ''a'' [] = [(7::nat, ''a'')]" for b by (simp add: lru_put_def)
  ultimately show ?thesis using Insert_refines_put [of "new_LruCache zero_memory 2" "[]" 7 "''a''"] by auto
qed

section \<open>Sequences of operations\<close>

datatype ('k, 'v) cache_op = Op_Insert 'k 'v | Op_Lookup 'k | Op_Erase 'k | Op_Clear

text \<open>The unbounded map the operations describe.\<close>

fun ideal :: "('k, 'v) cache_op \<Rightarrow> ('k \<rightharpoonup> 'v) \<Rightarrow> ('k \<rightharpoonup> 'v)" where
  "ideal (Op_Insert k v) m = m(k \<mapsto> v)"
| "ideal (Op_Lookup k) m = m"
| "ideal (Op_Erase k) m = m(k := None)"
| "ideal Op_Clear m = Map.empty"

fun run_ops :: "(('k, 'v) cache_op \<Rightarrow> 's \<Rightarrow> 's res) \<Rightarrow> ('k, 'v) cache_op list \<Rightarrow> 's \<Rightarrow> 's res" where
  "run_ops step [] s = Inr s"
| "run_ops step (op # ops) s = res_bind (step op s) (run_ops step ops)"

lemma ideal_mono: "map_le m m' \<Longrightarrow> map_le (ideal op m) (ideal op m')"
  by (cases op) (auto simp: map_le_def)

text \<open>A cache may forget entries, except the one just inserted, but never invents or keeps an old one.\<close>

locale forgetful_map =
  fixes holds :: "'s \<Rightarrow> ('k \<times> 'v) list \<Rightarrow> bool"
    and step :: "('k, 'v) cache_op \<Rightarrow> 's \<Rightarrow> 's res"
  assumes step_holds: "holds s es \<Longrightarrow> \<exists>s' es'. step op s = Inr s' \<and> holds s' es' \<and>
      map_le (map_of es') (ideal op (map_of es)) \<and>
      (\<forall>k v. op = Op_Insert k v \<longrightarrow> map_of es' k = Some v)"
begin

lemma run_holds:
  assumes "holds s es" and "map_le (map_of es) m"
  shows "\<exists>s' es'. run_ops step ops s = Inr s' \<and> holds s' es' \<and> map_le (map_of es') (fold ideal ops m)"
  using assms
proof (induction ops arbitrary: s es m)
  case (Cons op ops)
  from step_holds [OF Cons.prems(1), of op] obtain s1 es1 where
    "step op s = Inr s1" "holds s1 es1" "map_le (map_of es1) (ideal op (map_of es))" by blast
  moreover from this(3) ideal_mono [OF Cons.prems(2)] have "map_le (map_of es1) (ideal op m)"
    by (rule map_le_trans)
  ultimately show ?case using Cons.IH [of s1 es1 "ideal op m"] by simp
qed auto

lemma run_append: "run_ops step (ops @ ops') s = res_bind (run_ops step ops s) (run_ops step ops')"
proof (induction ops arbitrary: s)
  case (Cons op ops)
  then show ?case by (cases "step op s") simp_all
qed simp

lemma run_insert_last:
  assumes "holds s es" and "map_le (map_of es) m"
  shows "\<exists>s' es'. run_ops step (ops @ [Op_Insert k v]) s = Inr s' \<and> holds s' es' \<and>
    map_of es' k = Some v"
proof -
  from run_holds [OF assms] obtain s1 es1 where "run_ops step ops s = Inr s1" "holds s1 es1" by blast
  moreover from step_holds [OF this(2), of "Op_Insert k v"] obtain s2 es2 where
    "step (Op_Insert k v) s1 = Inr s2" "holds s2 es2" "map_of es2 k = Some v" by auto
  ultimately show ?thesis by (auto simp: run_append)
qed

end

fun cache_step :: "('k, 'v) cache_op \<Rightarrow> ('k, 'v) LruCache \<Rightarrow> ('k, 'v) LruCache res" where
  "cache_step (Op_Insert k v) c = Insert k v c"
| "cache_step (Op_Lookup k) c = Inr (snd (MutableLookup k c))"
| "cache_step (Op_Erase k) c = map_sum id snd (lru_Erase k c)"
| "cache_step Op_Clear c = Inr (lru_Clear c)"

definition lru_holds :: "nat \<Rightarrow> ('k, 'v) LruCache \<Rightarrow> ('k \<times> 'v) list \<Rightarrow> bool" where
  "lru_holds mx c es \<longleftrightarrow> is_cache c es \<and> max_elements c = mx \<and> 0 < mx"

lemma map_of_drop_key: "map_of (drop_key k es) = (map_of es)(k := None)"
  by (induction es) (auto simp: drop_key_def)

lemma map_of_butlast_le: "distinct (map fst es) \<Longrightarrow> map_le (map_of (butlast es)) (map_of es)"
  by (cases es rule: rev_cases) (auto simp: map_le_def map_add_def map_of_eq_None_iff dom_map_of_conv_image_fst
      split: option.splits)

lemma map_of_lru_put:
  "distinct (map fst es) \<Longrightarrow> map_le (map_of (lru_put full k v es)) ((map_of es)(k \<mapsto> v))"
  using map_of_butlast_le [of es] by (auto simp: lru_put_def map_of_drop_key map_le_def)

lemma lru_put_key: "map_of (lru_put full k v es) k = Some v"
  by (simp add: lru_put_def)

lemma map_of_move_front: "map_of (move_front k es) = map_of es"
  by (auto simp: move_front_def map_of_drop_key split: option.splits)

interpretation lru: forgetful_map "lru_holds mx" cache_step for mx
proof
  fix s :: "('a, 'b) LruCache" and es op
  assume "lru_holds mx s es"
  then have h: "is_cache s es" "max_elements s = mx" "0 < mx" by (simp_all add: lru_holds_def)
  have d: "distinct (map fst es)" by (rule cache_keys_distinct [OF h(1)])
  show "\<exists>s' es'. cache_step op s = Inr s' \<and> lru_holds mx s' es' \<and>
      map_le (map_of es') (ideal op (map_of es)) \<and> (\<forall>k v. op = Op_Insert k v \<longrightarrow> map_of es' k = Some v)"
  proof (cases op)
    case (Op_Insert k v)
    with Insert_cache [OF h(1), of k v] h(2,3) map_of_lru_put [OF d, of "is_full s" k v]
      lru_put_key [of "is_full s" k v es] show ?thesis
      by (auto simp: lru_holds_def)
  next
    case (Op_Lookup k)
    with MutableLookup_cache [OF h(1), of k] h(2,3) map_of_move_front [of k es] show ?thesis
      by (auto simp: lru_holds_def)
  next
    case (Op_Erase k)
    with lru_Erase_cache [OF h(1), of k] h(2,3) map_of_drop_key [of k es] show ?thesis
      by (auto simp: lru_holds_def) (metis map_le_refl)
  next
    case Op_Clear
    with lru_Clear_cache [OF h(1)] h(2,3) show ?thesis by (auto simp: lru_holds_def map_le_def)
  qed
qed

text \<open>C12: Whatever sequence of insertions, lookups, erasures and clearings is run on a new cache with
  room for at least one element, no \<open>CHECK\<close> fails, the cache never holds more than \<open>max_elements\<close>
  entries, every value it returns is the last one inserted for that key and not erased since, and an
  entry inserted last is there.\<close>

theorem cache_sequences_safe:
  assumes "0 < mx"
  shows "\<exists>c es. run_ops cache_step ops (new_LruCache memory mx) = Inr c \<and> is_cache c es \<and> length es \<le> mx \<and>
    map_le (\<lambda>k. LookupWithoutInsert k c) (fold ideal ops Map.empty) \<and>
    (\<forall>ops' k v. ops = ops' @ [Op_Insert k v] \<longrightarrow> LookupWithoutInsert k c = Some v)"
proof -
  have h: "lru_holds mx (new_LruCache memory mx) []"
    using new_LruCache_cache [of memory mx] assms by (simp add: lru_holds_def)
  from lru.run_holds [OF h, of Map.empty ops] obtain c es where
    c: "run_ops cache_step ops (new_LruCache memory mx) = Inr c" "lru_holds mx c es"
      "map_le (map_of es) (fold ideal ops Map.empty)" by auto
  then have e: "is_cache c es" "max_elements c = mx" by (simp_all add: lru_holds_def)
  have l: "(\<lambda>k. LookupWithoutInsert k c) = map_of es"
    by (rule ext) (rule LookupWithoutInsert_cache [OF e(1)])
  have "map_of es k = Some v" if "ops = ops' @ [Op_Insert k v]" for ops' k v
  proof -
    from lru.run_insert_last [OF h, of Map.empty ops' k v] that c(1) obtain es' where
      "lru_holds mx c es'" "map_of es' k = Some v" by auto
    then show ?thesis using LookupWithoutInsert_cache [of c] e(1) by (metis lru_holds_def)
  qed
  then show ?thesis using c e cache_bounded [OF e(1)] l LookupWithoutInsert_cache [OF e(1)] by metis
qed

theorem cache_sequences_safe_witness:
  "\<exists>c es. run_ops cache_step [Op_Insert (1::nat) ''a'', Op_Insert 2 ''b'', Op_Erase 1] (new_LruCache zero_memory 1) = Inr c \<and>
     is_cache c es \<and> length es \<le> 1"
  using cache_sequences_safe [of 1 "[Op_Insert (1::nat) ''a'', Op_Insert 2 ''b'', Op_Erase 1]" zero_memory] by auto

end
