(* ===== verification/Candidate_List.thy ===== *)
theory Candidate_List
  imports Prelude
begin

text \<open>
  \<open>engine/candidate_list.cc\<close>: the list of candidates of a segment, with its pages, its focus and its
  nested lists (\<open>subcandidate_list_\<close>). A vector index past the end is \<open>Inl OutOfRange\<close>; \<open>size ()\<close>
  and \<open>last_index ()\<close> are 64-bit, so the last index of an empty list is \<open>2 ^ 64 - 1\<close>. Vectors are
  shorter than \<open>2 ^ 64 - page_size\<close>, so the other index arithmetic does not wrap.
\<close>

section \<open>Data\<close>

datatype Candidate = Candidate
    (cand_id: int) (cand_attributes: nat) (subcandidate_list: "CandidateList option")
and CandidateList = CandidateList
    (page_size: nat) (focused_index: nat) (list_name: bytes) (candidates: "Candidate list")
    (added_candidates: "nat \<Rightarrow> int option") (alternative_ids: "int \<Rightarrow> int option")
    (next_available: int) (rotates: bool) (is_focused: bool)

definition new_Candidate :: Candidate where
  "new_Candidate = Candidate 0 0 None"

definition new_CandidateList :: "bool \<Rightarrow> CandidateList" where
  "new_CandidateList r = CandidateList 9 0 [] [] Map.empty Map.empty 0 r False"

fun set_focused_index :: "nat \<Rightarrow> CandidateList \<Rightarrow> CandidateList" where
  "set_focused_index i (CandidateList p f n cs a al nx r fo) = CandidateList p i n cs a al nx r fo"

fun set_candidates :: "Candidate list \<Rightarrow> CandidateList \<Rightarrow> CandidateList" where
  "set_candidates cs (CandidateList p f n cs0 a al nx r fo) = CandidateList p f n cs a al nx r fo"

fun set_page_size :: "nat \<Rightarrow> CandidateList \<Rightarrow> CandidateList" where
  "set_page_size p (CandidateList p0 f n cs a al nx r fo) = CandidateList p f n cs a al nx r fo"

fun set_rotate :: "bool \<Rightarrow> CandidateList \<Rightarrow> CandidateList" where
  "set_rotate r (CandidateList p f n cs a al nx r0 fo) = CandidateList p f n cs a al nx r fo"

fun set_subcandidate_list :: "CandidateList \<Rightarrow> Candidate \<Rightarrow> Candidate" where
  "set_subcandidate_list s (Candidate i a sub) = Candidate i a (Some s)"

fun add_attributes :: "nat \<Rightarrow> Candidate \<Rightarrow> Candidate" where
  "add_attributes attr (Candidate i a sub) = Candidate i (a OR attr) sub"

definition has_attributes :: "nat \<Rightarrow> Candidate \<Rightarrow> bool" where
  "has_attributes attr c \<longleftrightarrow> cand_attributes c AND attr = attr"

text \<open>\<open>candidates_[i].mutable_subcandidate_list ()\<close> after an operation on it.\<close>

definition set_sub :: "nat \<Rightarrow> CandidateList \<Rightarrow> CandidateList \<Rightarrow> CandidateList" where
  "set_sub i s l = set_candidates ((candidates l)[i := set_subcandidate_list s (candidates l ! i)]) l"

abbreviation list_size :: "CandidateList \<Rightarrow> nat" where
  "list_size l \<equiv> length (candidates l)"

definition last_index :: "CandidateList \<Rightarrow> nat" where
  "last_index l = (if list_size l = 0 then 2 ^ 64 - 1 else list_size l - 1)"

definition IsLast :: "CandidateList \<Rightarrow> nat \<Rightarrow> bool" where
  "IsLast l index \<longleftrightarrow> index = last_index l"

section \<open>Building\<close>

fun list_Clear :: "CandidateList \<Rightarrow> CandidateList" where
  "list_Clear (CandidateList p f n cs a al nx r fo) = CandidateList p 0 n [] Map.empty Map.empty 0 r False"

definition AddCandidateWithAttributes ::
  "(bytes \<Rightarrow> nat) \<Rightarrow> int \<Rightarrow> bytes \<Rightarrow> nat \<Rightarrow> CandidateList \<Rightarrow> CandidateList" where
  "AddCandidateWithAttributes fingerprint i v attr l =
     (case l of CandidateList p f n cs a al nx r fo \<Rightarrow>
        let nx = (if 0 \<le> i then i + 1 else nx); fp = fingerprint v
        in (case a fp of
              Some alt_id \<Rightarrow>
                CandidateList p f n
                  (map (\<lambda>c. if cand_id c = alt_id then add_attributes attr c else c) cs)
                  a (al(i \<mapsto> alt_id)) nx r fo
            | None \<Rightarrow>
                CandidateList p f n (cs @ [Candidate i attr None]) (a(fp \<mapsto> i)) al nx r fo))"

definition AddCandidate :: "(bytes \<Rightarrow> nat) \<Rightarrow> int \<Rightarrow> bytes \<Rightarrow> CandidateList \<Rightarrow> CandidateList" where
  "AddCandidate fingerprint i v l = AddCandidateWithAttributes fingerprint i v 0 l"

text \<open>The new nested list is returned to the caller, who fills it; \<open>fill\<close> is what the caller does.\<close>

definition AddSubCandidateList :: "(CandidateList \<Rightarrow> CandidateList) \<Rightarrow> CandidateList \<Rightarrow> CandidateList" where
  "AddSubCandidateList fill l =
     set_candidates (candidates l @ [set_subcandidate_list (fill (new_CandidateList False)) new_Candidate]) l"

section \<open>Reading the focus\<close>

lemma sub_smaller:
  assumes "i < list_size l" and "subcandidate_list (candidates l ! i) = Some s"
  shows "size s < size l"
proof -
  have "candidates l ! i \<in> set (candidates l)" using assms(1) by simp
  then have "size (candidates l ! i) \<le> size_list size (candidates l)" by (rule size_list_estimation') simp
  moreover have "size s < size (candidates l ! i)"
    using assms(2) by (cases "candidates l ! i") simp
  moreover have "size_list size (candidates l) < size l" by (cases l) simp
  ultimately show ?thesis by linarith
qed

function GetDeepestFocusedCandidate :: "CandidateList \<Rightarrow> Candidate res" where
  "GetDeepestFocusedCandidate l =
     (if focused_index l < list_size l
      then (case subcandidate_list (candidates l ! focused_index l) of
              Some s \<Rightarrow> GetDeepestFocusedCandidate s
            | None \<Rightarrow> Inr (candidates l ! focused_index l))
      else Inl OutOfRange)"
  by pat_completeness auto
termination by (relation "measure size") (auto intro: sub_smaller)

function focused_id :: "CandidateList \<Rightarrow> int res" where
  "focused_id l =
     (if list_size l = 0 then Inr 0
      else if focused_index l < list_size l
      then (case subcandidate_list (candidates l ! focused_index l) of
              Some s \<Rightarrow> focused_id s
            | None \<Rightarrow> Inr (cand_id (candidates l ! focused_index l)))
      else Inl OutOfRange)"
  by pat_completeness auto
termination by (relation "measure size") (auto intro: sub_smaller)

lemma sub_smaller':
  "c \<in> set (candidates l) \<Longrightarrow> subcandidate_list c = Some s \<Longrightarrow> size s < size l"
  using sub_smaller by (metis in_set_conv_nth)

function next_available_id :: "CandidateList \<Rightarrow> int" where
  "next_available_id l =
     foldl (\<lambda>result sub. case sub of Some n \<Rightarrow> if result < n then n else result | None \<Rightarrow> result)
       (next_available l)
       (map (\<lambda>c. map_option next_available_id (subcandidate_list c)) (candidates l))"
  by pat_completeness auto
termination by (relation "measure size") (auto intro: sub_smaller')

definition GetPageRange :: "CandidateList \<Rightarrow> nat \<Rightarrow> (nat \<times> nat) res" where
  "GetPageRange l index =
     (if page_size l = 0 then Inl DivideByZero
      else let first = index - index mod page_size l
           in Inr (first, min (list_size l) (first + page_size l)))"

section \<open>Moving the focus\<close>

definition MoveFirst :: "CandidateList \<Rightarrow> CandidateList" where
  "MoveFirst l = set_focused_index 0 l"

definition MoveLast :: "CandidateList \<Rightarrow> CandidateList" where
  "MoveLast l = set_focused_index (last_index l) l"

text \<open>The end of every move: a nested list that now has the focus starts at its first or last
  candidate.\<close>

definition enter :: "(CandidateList \<Rightarrow> CandidateList) \<Rightarrow> CandidateList \<Rightarrow> (bool \<times> CandidateList) res" where
  "enter start l =
     (if focused_index l < list_size l
      then (case subcandidate_list (candidates l ! focused_index l) of
              Some s \<Rightarrow> Inr (True, set_sub (focused_index l) (start s) l)
            | None \<Rightarrow> Inr (True, l))
      else Inl OutOfRange)"

definition next_candidate :: "CandidateList \<Rightarrow> (bool \<times> CandidateList) res" where
  "next_candidate l =
     (if IsLast l (focused_index l) then
        (if \<not> rotates l then Inr (False, MoveFirst l) else enter MoveFirst (MoveFirst l))
      else enter MoveFirst (set_focused_index (focused_index l + 1) l))"

definition prev_candidate :: "CandidateList \<Rightarrow> (bool \<times> CandidateList) res" where
  "prev_candidate l =
     (if focused_index l = 0 then
        (if \<not> rotates l then Inr (False, MoveLast l) else enter MoveLast (MoveLast l))
      else enter MoveLast (set_focused_index (focused_index l - 1) l))"

definition page_start :: "CandidateList \<Rightarrow> CandidateList" where
  "page_start l = set_focused_index (focused_index l - focused_index l mod page_size l) l"

definition next_page :: "CandidateList \<Rightarrow> (bool \<times> CandidateList) res" where
  "next_page l =
     res_bind (GetPageRange l (focused_index l)) (\<lambda>(first, last).
       if last = list_size l then
         (if \<not> rotates l then Inr (False, l) else enter MoveFirst (page_start (MoveFirst l)))
       else enter MoveFirst (page_start (set_focused_index (focused_index l + page_size l) l)))"

definition prev_page :: "CandidateList \<Rightarrow> (bool \<times> CandidateList) res" where
  "prev_page l =
     (if focused_index l < page_size l then
        (if \<not> rotates l then Inr (False, l) else enter MoveFirst (page_start (MoveLast l)))
      else if page_size l = 0 then Inl DivideByZero
      else enter MoveFirst (page_start (set_focused_index (focused_index l - page_size l) l)))"

text \<open>Every move first tries the nested list that has the focus; when that one refuses, the move is
  made here.\<close>

function move_in :: "(CandidateList \<Rightarrow> (bool \<times> CandidateList) res) \<Rightarrow> CandidateList \<Rightarrow> (bool \<times> CandidateList) res" where
  "move_in here l =
     (if focused_index l < list_size l
      then (case subcandidate_list (candidates l ! focused_index l) of
              None \<Rightarrow> here l
            | Some s \<Rightarrow>
                (case move_in here s of
                   Inl e \<Rightarrow> Inl e
                 | Inr (moved, s') \<Rightarrow>
                     (if moved then Inr (True, set_sub (focused_index l) s' l)
                      else here (set_sub (focused_index l) s' l))))
      else Inl OutOfRange)"
  by pat_completeness auto
termination by (relation "measure (\<lambda>(here, l). size l)") (auto intro: sub_smaller)

definition MoveNext :: "CandidateList \<Rightarrow> (bool \<times> CandidateList) res" where
  "MoveNext l = move_in next_candidate l"

definition MovePrev :: "CandidateList \<Rightarrow> (bool \<times> CandidateList) res" where
  "MovePrev l = move_in prev_candidate l"

definition MoveNextPage :: "CandidateList \<Rightarrow> (bool \<times> CandidateList) res" where
  "MoveNextPage l = move_in next_page l"

definition MovePrevPage :: "CandidateList \<Rightarrow> (bool \<times> CandidateList) res" where
  "MovePrevPage l = move_in prev_page l"

definition MoveToPageIndex :: "nat \<Rightarrow> CandidateList \<Rightarrow> (bool \<times> CandidateList) res" where
  "MoveToPageIndex page_index l =
     res_bind (GetPageRange l (focused_index l)) (\<lambda>(first, last).
       if last \<le> first + page_index then Inr (False, l)
       else enter MoveFirst (set_focused_index (first + page_index) l))"

text \<open>The searching moves visit the candidates in some order; \<open>rs\<close> holds, for each candidate, what
  the search does in its nested list. Every index is visited at most once.\<close>

fun search_loop :: "(Candidate \<Rightarrow> bool) \<Rightarrow> (bool \<times> CandidateList) option list \<Rightarrow> nat list \<Rightarrow>
    CandidateList \<Rightarrow> bool \<times> CandidateList" where
  "search_loop hit rs [] l = (False, l)"
| "search_loop hit rs (i # is) l =
     (case rs ! i of
        Some (True, s) \<Rightarrow> (True, set_focused_index i (set_sub i s l))
      | Some (False, s) \<Rightarrow>
          if hit (candidates l ! i) then (True, set_focused_index i (set_sub i s l))
          else search_loop hit rs is (set_sub i s l)
      | None \<Rightarrow>
          if hit (candidates l ! i) then (True, set_focused_index i l)
          else search_loop hit rs is l)"

function MoveToAttributes :: "nat \<Rightarrow> CandidateList \<Rightarrow> bool \<times> CandidateList" where
  "MoveToAttributes attr l =
     search_loop (has_attributes attr)
       (map (\<lambda>c. map_option (MoveToAttributes attr) (subcandidate_list c)) (candidates l))
       (map (\<lambda>i. (focused_index l + i) mod list_size l) [0 ..< list_size l]) l"
  by pat_completeness auto
termination by (relation "measure (\<lambda>(attr, l). size l)") (auto intro: sub_smaller')

definition MoveNextAttributes :: "nat \<Rightarrow> CandidateList \<Rightarrow> (bool \<times> CandidateList) res" where
  "MoveNextAttributes attr l = res_bind (MoveNext l) (\<lambda>(_, l). Inr (MoveToAttributes attr l))"

definition resolve_id :: "CandidateList \<Rightarrow> int \<Rightarrow> int" where
  "resolve_id l base_id = (case alternative_ids l base_id of Some i \<Rightarrow> i | None \<Rightarrow> base_id)"

function MoveToId :: "int \<Rightarrow> CandidateList \<Rightarrow> bool \<times> CandidateList" where
  "MoveToId base_id l =
     search_loop (\<lambda>c. cand_id c = resolve_id l base_id)
       (map (\<lambda>c. map_option (MoveToId (resolve_id l base_id)) (subcandidate_list c)) (candidates l))
       [0 ..< list_size l] l"
  by pat_completeness auto
termination by (relation "measure (\<lambda>(i, l). size l)") (auto intro: sub_smaller')

declare GetDeepestFocusedCandidate.simps [simp del] focused_id.simps [simp del]
  next_available_id.simps [simp del] move_in.simps [simp del] MoveToAttributes.simps [simp del]
  MoveToId.simps [simp del]

section \<open>Well-formed lists\<close>

lemma setter_simps [simp]:
  "focused_index (set_focused_index i l) = i" "candidates (set_focused_index i l) = candidates l"
  "page_size (set_focused_index i l) = page_size l" "rotates (set_focused_index i l) = rotates l"
  "alternative_ids (set_focused_index i l) = alternative_ids l"
  "focused_index (set_candidates cs l) = focused_index l" "candidates (set_candidates cs l) = cs"
  "page_size (set_candidates cs l) = page_size l" "rotates (set_candidates cs l) = rotates l"
  "alternative_ids (set_candidates cs l) = alternative_ids l"
  "set_focused_index i (set_focused_index j l) = set_focused_index i l"
  "set_candidates cs (set_candidates ds l) = set_candidates cs l"
  "set_candidates cs (set_focused_index i l) = set_focused_index i (set_candidates cs l)"
  "set_candidates (candidates l) l = l" "set_focused_index (focused_index l) l = l"
  by (cases l; simp)+

lemma set_subcandidate_list_simps [simp]:
  "subcandidate_list (set_subcandidate_list s c) = Some s" "cand_id (set_subcandidate_list s c) = cand_id c"
  "cand_attributes (set_subcandidate_list s c) = cand_attributes c"
  "set_subcandidate_list s (set_subcandidate_list s' c) = set_subcandidate_list s c"
  "subcandidate_list c = Some s \<Longrightarrow> set_subcandidate_list s c = c"
  by (cases c; simp)+

lemma set_sub_simps [simp]:
  "focused_index (set_sub i s l) = focused_index l" "page_size (set_sub i s l) = page_size l"
  "rotates (set_sub i s l) = rotates l" "alternative_ids (set_sub i s l) = alternative_ids l"
  "candidates (set_sub i s l) = (candidates l)[i := set_subcandidate_list s (candidates l ! i)]"
  by (simp_all add: set_sub_def)

function wf_list :: "CandidateList \<Rightarrow> bool" where
  "wf_list l \<longleftrightarrow> focused_index l < list_size l \<and> 0 < page_size l \<and>
     list_all (\<lambda>c. case subcandidate_list c of Some s \<Rightarrow> wf_list s | None \<Rightarrow> True) (candidates l)"
  by pat_completeness auto
termination by (relation "measure size") (auto intro: sub_smaller')

lemma ex_bool [simp]: "\<exists>b. b" "\<exists>b. \<not> b"
  by blast+

text \<open>The list with every focus at the start: what the moves leave as it is.\<close>

function unfocus :: "CandidateList \<Rightarrow> CandidateList" where
  "unfocus l = set_focused_index 0 (set_candidates
     (map (\<lambda>c. case subcandidate_list c of Some s \<Rightarrow> set_subcandidate_list (unfocus s) c | None \<Rightarrow> c)
        (candidates l)) l)"
  by pat_completeness auto
termination by (relation "measure size") (auto intro: sub_smaller')

declare wf_list.simps [simp del] unfocus.simps [simp del]

lemma wf_listD:
  "wf_list l \<Longrightarrow> focused_index l < list_size l" "wf_list l \<Longrightarrow> 0 < page_size l"
  "wf_list l \<Longrightarrow> i < list_size l \<Longrightarrow> subcandidate_list (candidates l ! i) = Some s \<Longrightarrow> wf_list s"
  by (auto simp: wf_list.simps [of l] list_all_length split: option.splits)

lemma wf_nonempty [simp]: "wf_list l \<Longrightarrow> candidates l \<noteq> []"
  using wf_listD(1) [of l] by auto

lemma wf_set_focused_index [simp]: "wf_list l \<Longrightarrow> i < list_size l \<Longrightarrow> wf_list (set_focused_index i l)"
  by (simp add: wf_list.simps [of l] wf_list.simps [of "set_focused_index i l"])

lemma wf_set_sub [simp]: "wf_list l \<Longrightarrow> wf_list s \<Longrightarrow> wf_list (set_sub i s l)"
  by (cases "i < list_size l")
    (auto simp: wf_list.simps [of l] wf_list.simps [of "set_sub i s l"] list_all_length nth_list_update)

lemma unfocus_set_focused_index [simp]: "unfocus (set_focused_index i l) = unfocus l"
  by (simp add: unfocus.simps [of l] unfocus.simps [of "set_focused_index i l"])

lemma unfocus_set_sub:
  assumes "i < list_size l" and "subcandidate_list (candidates l ! i) = Some s" and "unfocus s' = unfocus s"
  shows "unfocus (set_sub i s' l) = unfocus l"
proof -
  let ?f = "\<lambda>c. case subcandidate_list c of Some s \<Rightarrow> set_subcandidate_list (unfocus s) c | None \<Rightarrow> c"
  have "map ?f (candidates (set_sub i s' l)) = (map ?f (candidates l))[i := ?f (candidates l ! i)]"
    using assms by (simp add: map_update)
  also have "\<dots> = map ?f (candidates l)" using assms(1) by (simp add: list_update_same_conv)
  finally show ?thesis
    by (simp add: unfocus.simps [of l] unfocus.simps [of "set_sub i s' l"]) (simp add: set_sub_def)
qed

text \<open>A move is kept when it succeeds, keeps the invariant and changes only the focus.\<close>

definition keeps :: "(CandidateList \<Rightarrow> (bool \<times> CandidateList) res) \<Rightarrow> bool" where
  "keeps m \<longleftrightarrow> (\<forall>l. wf_list l \<longrightarrow> (\<exists>b l'. m l = Inr (b, l') \<and> wf_list l' \<and> unfocus l' = unfocus l))"

lemma keepsI:
  assumes "\<And>l. wf_list l \<Longrightarrow> \<exists>b l'. m l = Inr (b, l') \<and> wf_list l' \<and> unfocus l' = unfocus l"
  shows "keeps m"
  using assms by (simp add: keeps_def)

lemma keepsE:
  assumes "keeps m" and "wf_list l"
  obtains b l' where "m l = Inr (b, l')" "wf_list l'" "unfocus l' = unfocus l"
  using assms by (auto simp: keeps_def)

lemma last_index_wf: "wf_list l \<Longrightarrow> last_index l = list_size l - 1 \<and> list_size l - 1 < list_size l"
  using wf_listD(1) [of l] by (simp add: last_index_def)

lemma MoveFirst_wf [simp]: "wf_list l \<Longrightarrow> wf_list (MoveFirst l) \<and> unfocus (MoveFirst l) = unfocus l"
  using wf_listD(1) [of l] by (simp add: MoveFirst_def)

lemma MoveLast_wf [simp]: "wf_list l \<Longrightarrow> wf_list (MoveLast l) \<and> unfocus (MoveLast l) = unfocus l"
  using last_index_wf [of l] by (simp add: MoveLast_def)

lemma page_start_wf [simp]: "wf_list l \<Longrightarrow> wf_list (page_start l) \<and> unfocus (page_start l) = unfocus l"
  using wf_listD(1) [of l] by (simp add: page_start_def)

lemma enter_wf:
  assumes "wf_list l" and "\<And>s. wf_list s \<Longrightarrow> wf_list (start s) \<and> unfocus (start s) = unfocus s"
  shows "\<exists>l'. enter start l = Inr (True, l') \<and> wf_list l' \<and> unfocus l' = unfocus l"
proof (cases "subcandidate_list (candidates l ! focused_index l)")
  case (Some s)
  have "wf_list s" using wf_listD(3) [OF assms(1) wf_listD(1) [OF assms(1)] Some] .
  then show ?thesis
    using assms wf_listD(1) [OF assms(1)] Some unfocus_set_sub [OF wf_listD(1) [OF assms(1)] Some, of "start s"]
    by (simp add: enter_def)
qed (use assms wf_listD(1) [OF assms(1)] in \<open>simp add: enter_def\<close>)

lemma keeps_next_candidate: "keeps next_candidate"
proof (rule keepsI)
  fix l assume l: "wf_list l"
  have "wf_list (set_focused_index (focused_index l + 1) l)" if "\<not> IsLast l (focused_index l)"
    using that last_index_wf [OF l] wf_listD(1) [OF l] l by (auto simp: IsLast_def)
  then show "\<exists>b l'. next_candidate l = Inr (b, l') \<and> wf_list l' \<and> unfocus l' = unfocus l"
    using enter_wf [of "MoveFirst l" MoveFirst] enter_wf [of "set_focused_index (focused_index l + 1) l" MoveFirst] l
    by (auto simp: next_candidate_def)
qed

lemma keeps_prev_candidate: "keeps prev_candidate"
proof (rule keepsI)
  fix l assume l: "wf_list l"
  have "wf_list (set_focused_index (focused_index l - 1) l)"
    using wf_listD(1) [OF l] l by simp
  then show "\<exists>b l'. prev_candidate l = Inr (b, l') \<and> wf_list l' \<and> unfocus l' = unfocus l"
    using enter_wf [of "MoveLast l" MoveLast] enter_wf [of "set_focused_index (focused_index l - 1) l" MoveLast] l
    by (auto simp: prev_candidate_def)
qed

lemma keeps_next_page: "keeps next_page"
proof (rule keepsI)
  fix l assume l: "wf_list l"
  let ?first = "focused_index l - focused_index l mod page_size l"
  have p: "0 < page_size l" "focused_index l < list_size l" using wf_listD [OF l] by simp_all
  have "wf_list (page_start (set_focused_index (focused_index l + page_size l) l))"
    if "min (list_size l) (?first + page_size l) \<noteq> list_size l"
  proof -
    have "(focused_index l + page_size l) - (focused_index l + page_size l) mod page_size l = ?first + page_size l"
      using p by simp
    then show ?thesis using that l by (simp add: page_start_def)
  qed
  then show "\<exists>b l'. next_page l = Inr (b, l') \<and> wf_list l' \<and> unfocus l' = unfocus l"
    using enter_wf [of "page_start (MoveFirst l)" MoveFirst] l p
      enter_wf [of "page_start (set_focused_index (focused_index l + page_size l) l)" MoveFirst]
    by (auto simp: next_page_def GetPageRange_def Let_def) (simp_all add: page_start_def)
qed

lemma keeps_prev_page: "keeps prev_page"
proof (rule keepsI)
  fix l assume l: "wf_list l"
  have p: "0 < page_size l" "focused_index l < list_size l" using wf_listD [OF l] by simp_all
  have "wf_list (set_focused_index (focused_index l - page_size l) l)" using l p by simp
  then show "\<exists>b l'. prev_page l = Inr (b, l') \<and> wf_list l' \<and> unfocus l' = unfocus l"
    using enter_wf [of "page_start (MoveLast l)" MoveFirst] l p
      enter_wf [of "page_start (set_focused_index (focused_index l - page_size l) l)" MoveFirst]
    by (auto simp: prev_page_def)
qed

lemma keeps_MoveToPageIndex: "keeps (MoveToPageIndex n)"
proof (rule keepsI)
  fix l assume l: "wf_list l"
  let ?first = "focused_index l - focused_index l mod page_size l"
  have p: "0 < page_size l" using wf_listD [OF l] by simp
  have "wf_list (set_focused_index (?first + n) l)"
    if "\<not> min (list_size l) (?first + page_size l) \<le> ?first + n" using that l by simp
  then show "\<exists>b l'. MoveToPageIndex n l = Inr (b, l') \<and> wf_list l' \<and> unfocus l' = unfocus l"
    using enter_wf [of "set_focused_index (?first + n) l" MoveFirst] l p
    by (auto simp: MoveToPageIndex_def GetPageRange_def Let_def not_le)
qed

lemma keeps_move_in:
  assumes "keeps here"
  shows "keeps (move_in here)"
proof (rule keepsI)
  fix l :: CandidateList assume "wf_list l"
  then show "\<exists>b l'. move_in here l = Inr (b, l') \<and> wf_list l' \<and> unfocus l' = unfocus l"
  proof (induction l rule: measure_induct_rule [of size])
    case (less l)
    have i: "focused_index l < list_size l" by (rule wf_listD(1) [OF less.prems])
    show ?case
    proof (cases "subcandidate_list (candidates l ! focused_index l)")
      case None
      with assms less.prems i show ?thesis
        by (subst move_in.simps) (auto elim: keepsE)
    next
      case (Some s)
      have "wf_list s" by (rule wf_listD(3) [OF less.prems i Some])
      with less.IH [OF sub_smaller [OF i Some]] obtain b s' where
        s: "move_in here s = Inr (b, s')" "wf_list s'" "unfocus s' = unfocus s" by blast
      let ?l = "set_sub (focused_index l) s' l"
      have l: "wf_list ?l" "unfocus ?l = unfocus l"
        using less.prems s(2) unfocus_set_sub [OF i Some s(3)] by simp_all
      from keepsE [OF assms l(1)] obtain b' l' where
        "here ?l = Inr (b', l')" "wf_list l'" "unfocus l' = unfocus l" using l(2) by metis
      with i Some s(1) l show ?thesis by (subst move_in.simps) simp
    qed
  qed
qed

definition search_result_ok :: "(bool \<times> CandidateList) option \<Rightarrow> Candidate \<Rightarrow> bool" where
  "search_result_ok r c \<longleftrightarrow>
     (case r of
        None \<Rightarrow> subcandidate_list c = None
      | Some (b, s) \<Rightarrow> \<exists>s0. subcandidate_list c = Some s0 \<and> wf_list s \<and> unfocus s = unfocus s0)"

lemma search_loop_wf:
  assumes "wf_list l" and "\<forall>i < list_size l. search_result_ok (rs ! i) (candidates l ! i)"
    and "set is \<subseteq> {..<list_size l}"
  shows "wf_list (snd (search_loop hit rs is l)) \<and> unfocus (snd (search_loop hit rs is l)) = unfocus l"
  using assms
proof (induction "is" arbitrary: l)
  case (Cons i js)
  have i: "i < list_size l" using Cons.prems(3) by simp
  show ?case
  proof (cases "rs ! i")
    case None
    with Cons i show ?thesis by simp
  next
    case (Some p)
    obtain b s where p: "p = (b, s)" by fastforce
    have "search_result_ok (rs ! i) (candidates l ! i)" using Cons.prems(2) i by blast
    with Some p obtain s0 where s: "subcandidate_list (candidates l ! i) = Some s0"
      "wf_list s" "unfocus s = unfocus s0" by (auto simp: search_result_ok_def)
    have l: "wf_list (set_sub i s l)" "unfocus (set_sub i s l) = unfocus l"
      using Cons.prems(1) s(2) unfocus_set_sub [OF i s(1,3)] by simp_all
    have "\<forall>j < list_size (set_sub i s l). search_result_ok (rs ! j) (candidates (set_sub i s l) ! j)"
      using Cons.prems(2) Some p s i by (auto simp: search_result_ok_def nth_list_update)
    with Cons.IH [OF l(1)] Cons.prems(3) have
      "wf_list (snd (search_loop hit rs js (set_sub i s l))) \<and>
       unfocus (snd (search_loop hit rs js (set_sub i s l))) = unfocus l" using l(2) by simp
    with Some p l i show ?thesis by (cases b) simp_all
  qed
qed simp

lemma MoveToAttributes_keeps:
  "wf_list l \<Longrightarrow> wf_list (snd (MoveToAttributes attr l)) \<and> unfocus (snd (MoveToAttributes attr l)) = unfocus l"
proof (induction l rule: measure_induct_rule [of size])
  case (less l)
  have ok: "\<forall>i < list_size l. search_result_ok
      (map (\<lambda>c. map_option (MoveToAttributes attr) (subcandidate_list c)) (candidates l) ! i) (candidates l ! i)"
    using less.IH sub_smaller [of _ l] wf_listD(3) [OF less.prems]
    by (auto simp: search_result_ok_def split: option.split prod.split) (metis snd_conv)+
  have order: "set (map (\<lambda>i. (focused_index l + i) mod list_size l) [0 ..< list_size l]) \<subseteq> {..<list_size l}"
    by (auto intro!: mod_less_divisor)
  show ?case
    unfolding MoveToAttributes.simps [of attr l] by (rule search_loop_wf [OF less.prems ok order])
qed

lemma MoveToId_keeps:
  "wf_list l \<Longrightarrow> wf_list (snd (MoveToId i l)) \<and> unfocus (snd (MoveToId i l)) = unfocus l"
proof (induction l arbitrary: i rule: measure_induct_rule [of size])
  case (less l)
  have ok: "\<forall>j < list_size l. search_result_ok
      (map (\<lambda>c. map_option (MoveToId (resolve_id l i)) (subcandidate_list c)) (candidates l) ! j) (candidates l ! j)"
    using less.IH sub_smaller [of _ l] wf_listD(3) [OF less.prems]
    by (auto simp: search_result_ok_def split: option.split prod.split) (metis snd_conv)+
  have order: "set [0 ..< list_size l] \<subseteq> {..<list_size l}" by auto
  show ?case
    unfolding MoveToId.simps [of i l] by (rule search_loop_wf [OF less.prems ok order])
qed

lemma keeps_MoveNextAttributes: "keeps (MoveNextAttributes attr)"
proof (rule keepsI)
  fix l assume "wf_list l"
  from keepsE [OF keeps_move_in [OF keeps_next_candidate] this] obtain b l1 where
    "MoveNext l = Inr (b, l1)" "wf_list l1" "unfocus l1 = unfocus l" by (auto simp: MoveNext_def)
  then show "\<exists>b l'. MoveNextAttributes attr l = Inr (b, l') \<and> wf_list l' \<and> unfocus l' = unfocus l"
    using MoveToAttributes_keeps [of l1 attr]
    by (cases "MoveToAttributes attr l1") (simp add: MoveNextAttributes_def)
qed

text \<open>C13: On a well-formed list (nowhere empty, every focus inside its list, no page of size 0) none of
  the moves reads outside a vector or divides by zero, however deep the nesting: each returns, leaves
  a well-formed list, and changes nothing but the focus.\<close>

theorem moves_keep_wf:
  assumes "wf_list l"
  shows "list_all (\<lambda>move. \<exists>b l'. move l = Inr (b, l') \<and> wf_list l' \<and> unfocus l' = unfocus l)
    [MoveNext, MovePrev, MoveNextPage, MovePrevPage, MoveToPageIndex n, MoveNextAttributes attr,
     \<lambda>l. Inr (MoveToAttributes attr l), \<lambda>l. Inr (MoveToId i l)]"
proof -
  have "keeps MoveNext" "keeps MovePrev" "keeps MoveNextPage" "keeps MovePrevPage"
    "keeps (MoveToPageIndex n)" "keeps (MoveNextAttributes attr)"
    unfolding MoveNext_def MovePrev_def MoveNextPage_def MovePrevPage_def
    by (intro keeps_move_in keeps_next_candidate keeps_prev_candidate keeps_next_page keeps_prev_page
        keeps_MoveToPageIndex keeps_MoveNextAttributes)+
  then show ?thesis
    using assms MoveToAttributes_keeps [OF assms, of attr] MoveToId_keeps [OF assms, of i]
    by (cases "MoveToAttributes attr l"; cases "MoveToId i l") (auto simp: keeps_def)
qed

theorem moves_keep_wf_witness:
  "\<exists>b l'. MoveNext (AddSubCandidateList (AddCandidate (\<lambda>v. 0) (-1) ''a'')
      (AddCandidate length 0 ''b'' (new_CandidateList True))) = Inr (b, l') \<and> wf_list l'"
proof -
  have "wf_list (AddSubCandidateList (AddCandidate (\<lambda>v. 0) (-1) ''a'')
      (AddCandidate length 0 ''b'' (new_CandidateList True)))"
    by (simp add: wf_list.simps AddSubCandidateList_def AddCandidate_def AddCandidateWithAttributes_def
        new_CandidateList_def new_Candidate_def)
  from moves_keep_wf [OF this, of 0 0 0] show ?thesis by auto
qed

section \<open>The order of the candidates\<close>

text \<open>The lists the engine builds: a rotating list whose nested lists are flat and do not rotate.\<close>

definition flat_list :: "CandidateList \<Rightarrow> bool" where
  "flat_list s \<longleftrightarrow> wf_list s \<and> \<not> rotates s \<and> (\<forall>c \<in> set (candidates s). subcandidate_list c = None)"

definition two_level :: "CandidateList \<Rightarrow> bool" where
  "two_level l \<longleftrightarrow> wf_list l \<and> (\<forall>c \<in> set (candidates l). \<forall>s. subcandidate_list c = Some s \<longrightarrow> flat_list s)"

definition shown_ids :: "Candidate \<Rightarrow> int list" where
  "shown_ids c = (case subcandidate_list c of None \<Rightarrow> [cand_id c] | Some s \<Rightarrow> map cand_id (candidates s))"

text \<open>The candidates in the order they are shown, and where the focus is in that order.\<close>

definition leaf_ids :: "CandidateList \<Rightarrow> int list" where
  "leaf_ids l = concat (map shown_ids (candidates l))"

definition inner_focus :: "Candidate \<Rightarrow> nat" where
  "inner_focus c = (case subcandidate_list c of None \<Rightarrow> 0 | Some s \<Rightarrow> focused_index s)"

definition leaves_before :: "nat \<Rightarrow> CandidateList \<Rightarrow> nat" where
  "leaves_before i l = length (concat (map shown_ids (take i (candidates l))))"

definition leaf_pos :: "CandidateList \<Rightarrow> nat" where
  "leaf_pos l = leaves_before (focused_index l) l + inner_focus (candidates l ! focused_index l)"

lemma leaves_before_0 [simp]: "leaves_before 0 l = 0"
  by (simp add: leaves_before_def)

lemma leaves_before_Suc:
  "i < list_size l \<Longrightarrow> leaves_before (Suc i) l = leaves_before i l + length (shown_ids (candidates l ! i))"
  by (simp add: leaves_before_def take_Suc_conv_app_nth)

lemma leaves_before_all [simp]: "leaves_before (list_size l) l = length (leaf_ids l)"
  by (simp add: leaves_before_def leaf_ids_def)

lemma leaves_before_mono:
  assumes "i < j" and "j \<le> list_size l"
  shows "leaves_before i l + length (shown_ids (candidates l ! i)) \<le> leaves_before j l"
  using assms
proof (induction j)
  case (Suc j)
  then show ?case
    using leaves_before_Suc [of j l] leaves_before_Suc [of i l] by (cases "i = j") auto
qed simp

lemma flat_listD:
  assumes "flat_list s"
  shows "wf_list s" "\<not> rotates s" "i < list_size s \<Longrightarrow> subcandidate_list (candidates s ! i) = None"
    "focused_index s < list_size s"
  using assms wf_listD(1) by (auto simp: flat_list_def)

lemma flat_nonempty [simp]: "flat_list s \<Longrightarrow> candidates s \<noteq> []"
  by (simp add: flat_list_def)

lemma flat_list_focus [simp]: "flat_list s \<Longrightarrow> i < list_size s \<Longrightarrow> flat_list (set_focused_index i s)"
  by (simp add: flat_list_def)

lemma two_levelD:
  assumes "two_level l"
  shows "wf_list l" "focused_index l < list_size l"
    "i < list_size l \<Longrightarrow> subcandidate_list (candidates l ! i) = Some s \<Longrightarrow> flat_list s"
  using assms wf_listD(1) by (auto simp: two_level_def)

lemma two_level_focus [simp]: "two_level l \<Longrightarrow> i < list_size l \<Longrightarrow> two_level (set_focused_index i l)"
  by (simp add: two_level_def)

lemma two_level_nonempty [simp]: "two_level l \<Longrightarrow> candidates l \<noteq> []"
  by (simp add: two_level_def)

lemma leaf_simps [simp]:
  "leaf_ids (set_focused_index i l) = leaf_ids l" "leaves_before j (set_focused_index i l) = leaves_before j l"
  by (simp_all add: leaf_ids_def leaves_before_def)

lemma two_level_set_sub:
  assumes "two_level l" and "i < list_size l" and "subcandidate_list (candidates l ! i) = Some s"
    and "flat_list s'" and "candidates s' = candidates s"
  shows "two_level (set_sub i s' l)" "leaf_ids (set_sub i s' l) = leaf_ids l"
    "leaves_before j (set_sub i s' l) = leaves_before j l"
proof -
  have "map shown_ids (candidates (set_sub i s' l)) = map shown_ids (candidates l)"
    using assms(2,3,5) by (auto simp: map_update list_update_same_conv shown_ids_def)
  then show "leaf_ids (set_sub i s' l) = leaf_ids l" "leaves_before j (set_sub i s' l) = leaves_before j l"
    by (simp_all add: leaf_ids_def leaves_before_def take_map [symmetric])
  show "two_level (set_sub i s' l)"
    using assms(1,4) wf_set_sub [of l s' i] flat_listD(1) [OF assms(4)]
    by (auto simp: two_level_def dest!: set_update_subset_insert [THEN subsetD])
qed

lemma inner_focus_bound:
  assumes "two_level l" and "i < list_size l"
  shows "inner_focus (candidates l ! i) < length (shown_ids (candidates l ! i))"
  using two_levelD(3) [OF assms] flat_listD(4)
  by (auto simp: inner_focus_def shown_ids_def split: option.splits)

lemma leaf_pos_bound:
  assumes "two_level l"
  shows "leaf_pos l < length (leaf_ids l)"
proof -
  have i: "focused_index l < list_size l" by (rule two_levelD(2) [OF assms])
  show ?thesis
    using leaves_before_mono [OF i le_refl] inner_focus_bound [OF assms i] by (simp add: leaf_pos_def)
qed

text \<open>The focused id is the id shown at the focused position.\<close>

lemma concat_nth_inner:
  assumes "i < length xss" and "j < length (xss ! i)"
  shows "concat xss ! (length (concat (take i xss)) + j) = xss ! i ! j"
proof -
  have "concat xss = concat (take i xss) @ xss ! i @ concat (drop (Suc i) xss)"
    using id_take_nth_drop [OF assms(1)] by (metis concat.simps(2) concat_append)
  then show ?thesis using assms(2) by (simp add: nth_append)
qed

lemma focused_id_leaf:
  assumes "two_level l"
  shows "focused_id l = Inr (leaf_ids l ! leaf_pos l)"
proof -
  have i: "focused_index l < list_size l" by (rule two_levelD(2) [OF assms])
  let ?c = "candidates l ! focused_index l"
  have "leaf_ids l ! leaf_pos l = shown_ids ?c ! inner_focus ?c"
    using concat_nth_inner [of "focused_index l" "map shown_ids (candidates l)" "inner_focus ?c"] i
      inner_focus_bound [OF assms i]
    by (simp add: leaf_ids_def leaf_pos_def leaves_before_def take_map)
  moreover have "focused_id l = Inr (shown_ids ?c ! inner_focus ?c)"
  proof (cases "subcandidate_list ?c")
    case None
    with i show ?thesis by (subst focused_id.simps) (auto simp: shown_ids_def inner_focus_def)
  next
    case (Some s)
    have s: "flat_list s" by (rule two_levelD(3) [OF assms i Some])
    have "focused_id s = Inr (cand_id (candidates s ! focused_index s))"
      using flat_listD(3,4) [OF s] by (subst focused_id.simps) auto
    with i Some flat_listD(4) [OF s] show ?thesis
      by (subst focused_id.simps) (auto simp: shown_ids_def inner_focus_def)
  qed
  ultimately show ?thesis by simp
qed

text \<open>Entering an element from the front or from the back.\<close>

lemma enter_pos:
  assumes "two_level l" and "start = MoveFirst \<or> start = MoveLast"
  shows "\<exists>l'. enter start l = Inr (True, l') \<and> two_level l' \<and> leaf_ids l' = leaf_ids l \<and> rotates l' = rotates l \<and>
    (start = MoveFirst \<longrightarrow> leaf_pos l' = leaves_before (focused_index l) l) \<and>
    (start = MoveLast \<longrightarrow> leaf_pos l' = leaves_before (Suc (focused_index l)) l - 1)"
proof -
  have i: "focused_index l < list_size l" by (rule two_levelD(2) [OF assms(1)])
  show ?thesis
  proof (cases "subcandidate_list (candidates l ! focused_index l)")
    case None
    with i assms(1) show ?thesis
      by (auto simp: enter_def leaf_pos_def inner_focus_def leaves_before_Suc shown_ids_def)
  next
    case (Some s)
    have s: "flat_list s" by (rule two_levelD(3) [OF assms(1) i Some])
    have st: "flat_list (start s)" "candidates (start s) = candidates s"
      using assms(2) s flat_listD(4) [OF s] last_index_wf [OF flat_listD(1) [OF s]]
      by (auto simp: MoveFirst_def MoveLast_def)
    note t = two_level_set_sub [OF assms(1) i Some st]
    obtain m where n: "list_size s = Suc m" using flat_nonempty [OF s] by (cases "list_size s") auto
    have "focused_index (start s) = (if start = MoveFirst then 0 else list_size s - 1)"
      using assms(2) last_index_wf [OF flat_listD(1) [OF s]] by (auto simp: MoveFirst_def MoveLast_def)
    then have p: "leaf_pos (set_sub (focused_index l) (start s) l) =
        leaves_before (focused_index l) l + (if start = MoveFirst then 0 else list_size s - 1)"
      using i t(3) by (simp add: leaf_pos_def inner_focus_def)
    have "length (shown_ids (candidates l ! focused_index l)) = list_size s"
      using Some by (simp add: shown_ids_def)
    then have "leaves_before (Suc (focused_index l)) l = leaves_before (focused_index l) l + list_size s"
      using leaves_before_Suc [OF i] by simp
    moreover have "start = MoveLast \<Longrightarrow> start = MoveFirst \<Longrightarrow> list_size s - 1 = 0"
      using \<open>focused_index (start s) = _\<close> last_index_wf [OF flat_listD(1) [OF s]]
      by (metis MoveLast_def setter_simps(1))
    ultimately show ?thesis using i Some t p by (auto simp: enter_def n)
  qed
qed

lemma next_candidate_pos:
  assumes "two_level l" and "rotates l"
  shows "\<exists>l'. next_candidate l = Inr (True, l') \<and> two_level l' \<and> leaf_ids l' = leaf_ids l \<and> rotates l' \<and>
    leaf_pos l' = leaves_before (Suc (focused_index l)) l mod length (leaf_ids l)"
proof -
  have i: "focused_index l < list_size l" by (rule two_levelD(2) [OF assms(1)])
  have n: "last_index l = list_size l - 1" using last_index_wf [OF two_levelD(1) [OF assms(1)]] by simp
  show ?thesis
  proof (cases "focused_index l = list_size l - 1")
    case True
    then have "Suc (focused_index l) = list_size l" using i by simp
    moreover have "two_level (MoveFirst l)" using assms(1) i by (auto simp: MoveFirst_def)
    ultimately show ?thesis
      using enter_pos [of "MoveFirst l" MoveFirst] assms(2) True n
      by (auto simp: next_candidate_def IsLast_def) (auto simp: MoveFirst_def)
  next
    case False
    then have s: "Suc (focused_index l) < list_size l" using i by simp
    then have "two_level (set_focused_index (Suc (focused_index l)) l)" using assms(1) by simp
    moreover have "leaves_before (Suc (focused_index l)) l < length (leaf_ids l)"
      using leaf_pos_bound [OF \<open>two_level (set_focused_index (Suc (focused_index l)) l)\<close>]
      by (simp add: leaf_pos_def)
    ultimately show ?thesis
      using enter_pos [of "set_focused_index (Suc (focused_index l)) l" MoveFirst] assms(2) False n
      by (auto simp: next_candidate_def IsLast_def)
  qed
qed

lemma prev_candidate_pos:
  assumes "two_level l" and "rotates l"
  shows "\<exists>l'. prev_candidate l = Inr (True, l') \<and> two_level l' \<and> leaf_ids l' = leaf_ids l \<and> rotates l' \<and>
    leaf_pos l' = (leaves_before (focused_index l) l + length (leaf_ids l) - 1) mod length (leaf_ids l)"
proof -
  have i: "focused_index l < list_size l" by (rule two_levelD(2) [OF assms(1)])
  have n: "last_index l = list_size l - 1" using last_index_wf [OF two_levelD(1) [OF assms(1)]] by simp
  have p: "0 < length (leaf_ids l)" using leaf_pos_bound [OF assms(1)] by linarith
  show ?thesis
  proof (cases "focused_index l")
    case 0
    have "two_level (MoveLast l)" using assms(1) i n by (simp add: MoveLast_def)
    moreover have "Suc (list_size l - 1) = list_size l" using i by simp
    ultimately show ?thesis
      using enter_pos [of "MoveLast l" MoveLast] assms(2) 0 n p
      by (auto simp: prev_candidate_def) (auto simp: MoveLast_def)
  next
    case (Suc j)
    then have t: "two_level (set_focused_index j l)" using assms(1) i by simp
    have b: "0 < leaves_before (Suc j) l" "leaves_before (Suc j) l < length (leaf_ids l)"
      using leaves_before_mono [of 0 "Suc j" l] leaf_pos_bound [OF assms(1)] Suc i
        inner_focus_bound [OF assms(1), of 0] two_level_nonempty [OF assms(1)]
      by (auto simp: leaf_pos_def)
    then have "(leaves_before (Suc j) l + length (leaf_ids l) - 1) mod length (leaf_ids l) = leaves_before (Suc j) l - 1"
      by (metis Nat.add_diff_assoc2 One_nat_def Suc_leI less_imp_diff_less mod_add_self2 mod_less)
    then show ?thesis
      using enter_pos [OF t, of MoveLast] assms(2) Suc by (auto simp: prev_candidate_def)
  qed
qed

lemma flat_move_in:
  assumes "flat_list s"
  shows "move_in here s = here s"
  using flat_listD(3,4) [OF assms] by (subst move_in.simps) simp

lemma flat_next_candidate:
  assumes "flat_list s"
  shows "next_candidate s =
    (if focused_index s = list_size s - 1 then Inr (False, set_focused_index 0 s)
     else Inr (True, set_focused_index (Suc (focused_index s)) s))"
  using flat_listD [OF assms] last_index_wf [OF flat_listD(1) [OF assms]]
  by (auto simp: next_candidate_def IsLast_def MoveFirst_def enter_def)

lemma flat_prev_candidate:
  assumes "flat_list s"
  shows "prev_candidate s =
    (if focused_index s = 0 then Inr (False, set_focused_index (list_size s - 1) s)
     else Inr (True, set_focused_index (focused_index s - 1) s))"
  using flat_listD [OF assms] last_index_wf [OF flat_listD(1) [OF assms]]
  by (auto simp: prev_candidate_def MoveLast_def enter_def)

text \<open>C14: On the lists the engine builds (a rotating list whose nested lists are flat), \<open>MoveNext\<close> and
  \<open>MovePrev\<close> walk through the candidates in the order they are shown, nested ones included, one
  step forward or back, going round at the ends; the focused id is the id shown there.\<close>

theorem moves_cycle:
  assumes "two_level l" and "rotates l"
  shows "\<exists>l1 l2. MoveNext l = Inr (True, l1) \<and> MovePrev l = Inr (True, l2) \<and>
    two_level l1 \<and> two_level l2 \<and> rotates l1 \<and> rotates l2 \<and>
    focused_id l1 = Inr (leaf_ids l ! ((leaf_pos l + 1) mod length (leaf_ids l))) \<and>
    focused_id l2 = Inr (leaf_ids l ! ((leaf_pos l + length (leaf_ids l) - 1) mod length (leaf_ids l))) \<and>
    leaf_ids l1 = leaf_ids l \<and> leaf_pos l1 = (leaf_pos l + 1) mod length (leaf_ids l) \<and>
    leaf_ids l2 = leaf_ids l \<and>
    leaf_pos l2 = (leaf_pos l + length (leaf_ids l) - 1) mod length (leaf_ids l)"
proof -
  have i: "focused_index l < list_size l" by (rule two_levelD(2) [OF assms(1)])
  let ?c = "candidates l ! focused_index l"
  obtain l1 where l1: "MoveNext l = Inr (True, l1)" "two_level l1" "rotates l1" "leaf_ids l1 = leaf_ids l"
    "leaf_pos l1 = (leaf_pos l + 1) mod length (leaf_ids l)"
  proof (cases "subcandidate_list ?c")
    case None
    then show ?thesis using that next_candidate_pos [OF assms] i leaves_before_Suc [OF i]
      by (auto simp: MoveNext_def move_in.simps [of _ l] leaf_pos_def inner_focus_def shown_ids_def)
  next
    case (Some s)
    have s: "flat_list s" by (rule two_levelD(3) [OF assms(1) i Some])
    have m: "move_in next_candidate l = (case next_candidate s of Inl e \<Rightarrow> Inl e
        | Inr (moved, s') \<Rightarrow> if moved then Inr (True, set_sub (focused_index l) s' l)
            else next_candidate (set_sub (focused_index l) s' l))"
      using i Some flat_move_in [OF s] by (simp add: move_in.simps [of _ l])
    show ?thesis
    proof (cases "focused_index s = list_size s - 1")
      case True
      let ?l = "set_sub (focused_index l) (set_focused_index 0 s) l"
      note t = two_level_set_sub [OF assms(1) i Some, of "set_focused_index 0 s"]
      have "leaf_pos l + 1 = leaves_before (Suc (focused_index l)) l"
        using leaves_before_Suc [OF i] True Some flat_listD(4) [OF s]
        by (simp add: leaf_pos_def inner_focus_def shown_ids_def)
      then show ?thesis
        using that next_candidate_pos [of ?l] t s assms(2) m True flat_next_candidate [OF s]
        by (auto simp: MoveNext_def)
    next
      case False
      then have f: "Suc (focused_index s) < list_size s" using flat_listD(4) [OF s] by simp
      let ?l = "set_sub (focused_index l) (set_focused_index (Suc (focused_index s)) s) l"
      note t = two_level_set_sub [OF assms(1) i Some, of "set_focused_index (Suc (focused_index s)) s"]
      have p: "leaf_pos ?l = leaf_pos l + 1"
        using t(3) s f i Some by (simp add: leaf_pos_def inner_focus_def)
      moreover have "leaf_pos ?l < length (leaf_ids l)" using leaf_pos_bound [of ?l] t s f by simp
      ultimately show ?thesis using that [of ?l] t s f assms(2) m False flat_next_candidate [OF s]
        by (simp add: MoveNext_def)
    qed
  qed
  obtain l2 where l2: "MovePrev l = Inr (True, l2)" "two_level l2" "rotates l2" "leaf_ids l2 = leaf_ids l"
    "leaf_pos l2 = (leaf_pos l + length (leaf_ids l) - 1) mod length (leaf_ids l)"
  proof (cases "subcandidate_list ?c")
    case None
    then show ?thesis using that prev_candidate_pos [OF assms] i
      by (auto simp: MovePrev_def move_in.simps [of _ l] leaf_pos_def inner_focus_def)
  next
    case (Some s)
    have s: "flat_list s" by (rule two_levelD(3) [OF assms(1) i Some])
    have m: "move_in prev_candidate l = (case prev_candidate s of Inl e \<Rightarrow> Inl e
        | Inr (moved, s') \<Rightarrow> if moved then Inr (True, set_sub (focused_index l) s' l)
            else prev_candidate (set_sub (focused_index l) s' l))"
      using i Some flat_move_in [OF s] by (simp add: move_in.simps [of _ l])
    show ?thesis
    proof (cases "focused_index s = 0")
      case True
      let ?l = "set_sub (focused_index l) (set_focused_index (list_size s - 1) s) l"
      note t = two_level_set_sub [OF assms(1) i Some, of "set_focused_index (list_size s - 1) s"]
      have "leaf_pos l = leaves_before (focused_index l) l"
        using True Some by (simp add: leaf_pos_def inner_focus_def)
      then show ?thesis
        using that prev_candidate_pos [of ?l] t s assms(2) m True flat_prev_candidate [OF s] flat_listD(4) [OF s]
        by (auto simp: MovePrev_def)
    next
      case False
      let ?l = "set_sub (focused_index l) (set_focused_index (focused_index s - 1) s) l"
      have f: "focused_index s - 1 < list_size s" using flat_listD(4) [OF s] by simp
      note t = two_level_set_sub [OF assms(1) i Some, of "set_focused_index (focused_index s - 1) s"]
      have p: "leaf_pos ?l = leaf_pos l - 1" "0 < leaf_pos l"
        using t(3) s f i Some False by (simp_all add: leaf_pos_def inner_focus_def)
      moreover have "(leaf_pos l + length (leaf_ids l) - 1) mod length (leaf_ids l) = leaf_pos l - 1"
        using p(2) leaf_pos_bound [OF assms(1)]
        by (metis Nat.add_diff_assoc2 One_nat_def Suc_leI less_imp_diff_less mod_add_self2 mod_less)
      ultimately show ?thesis using that [of ?l] t s f assms(2) m False flat_prev_candidate [OF s]
        by (simp add: MovePrev_def)
    qed
  qed
  show ?thesis
    using l1 l2 focused_id_leaf [OF l1(2)] focused_id_leaf [OF l2(2)] by auto
qed

definition sample_hash :: "bytes \<Rightarrow> nat" where
  "sample_hash v = (if v = ''a'' then 10 else if v = ''b'' then 20 else 30)"

definition sample_list :: CandidateList where
  "sample_list = AddSubCandidateList (AddCandidate sample_hash (-1) ''a'' \<circ> AddCandidate sample_hash (-2) ''b'')
     (AddCandidate sample_hash 0 ''c'' (new_CandidateList True))"

lemma sample_list_simps:
  "candidates sample_list = [Candidate 0 0 None, Candidate 0 0
     (Some (CandidateList 9 0 [] [Candidate (-2) 0 None, Candidate (-1) 0 None] [20 \<mapsto> -2, 10 \<mapsto> -1] Map.empty 0 False False))]"
  "focused_index sample_list = 0" "page_size sample_list = 9" "rotates sample_list"
  "alternative_ids sample_list = Map.empty"
  by (simp_all add: sample_list_def AddSubCandidateList_def AddCandidate_def AddCandidateWithAttributes_def
      new_CandidateList_def new_Candidate_def sample_hash_def)

lemma sample_list_two_level: "two_level sample_list"
  by (simp add: two_level_def flat_list_def wf_list.simps sample_list_simps)

theorem moves_cycle_witness:
  "\<exists>l1. MoveNext sample_list = Inr (True, l1) \<and> focused_id l1 = Inr (-2)"
  using moves_cycle [OF sample_list_two_level]
  by (auto simp: sample_list_simps leaf_ids_def leaf_pos_def leaves_before_def shown_ids_def inner_focus_def)

section \<open>Finding a candidate by its id\<close>

lemma search_flat:
  assumes "\<forall>i \<in> set is. rs ! i = None"
  shows "search_loop hit rs is l = (case find (\<lambda>i. hit (candidates l ! i)) is of
      None \<Rightarrow> (False, l) | Some i \<Rightarrow> (True, set_focused_index i l))"
  using assms by (induction "is") auto

lemma find_upt_iff: "find P [0 ..< n] = None \<longleftrightarrow> (\<forall>i < n. \<not> P i)"
  by (auto simp: find_None_iff)

lemma flat_MoveToId:
  assumes "flat_list s" and "alternative_ids s r = None"
  shows "fst (MoveToId r s) \<longleftrightarrow> r \<in> set (map cand_id (candidates s))"
    and "fst (MoveToId r s) \<Longrightarrow> \<exists>j < list_size s. MoveToId r s = (True, set_focused_index j s) \<and>
      cand_id (candidates s ! j) = r"
    and "\<not> fst (MoveToId r s) \<Longrightarrow> MoveToId r s = (False, s)"
proof -
  let ?P = "\<lambda>i. cand_id (candidates s ! i) = r"
  have m: "MoveToId r s = (case find ?P [0 ..< list_size s] of
      None \<Rightarrow> (False, s) | Some i \<Rightarrow> (True, set_focused_index i s))"
    using flat_listD(3) [OF assms(1)] assms(2)
    by (subst MoveToId.simps, subst search_flat) (auto simp: resolve_id_def)
  show "fst (MoveToId r s) \<longleftrightarrow> r \<in> set (map cand_id (candidates s))"
    unfolding m by (auto simp: find_None_iff in_set_conv_nth image_iff split: option.splits
        dest!: find_Some_iff [THEN iffD1]) (metis nth_mem)
  show "fst (MoveToId r s) \<Longrightarrow> \<exists>j < list_size s. MoveToId r s = (True, set_focused_index j s) \<and>
      cand_id (candidates s ! j) = r"
    unfolding m by (auto split: option.splits dest!: find_Some_iff [THEN iffD1])
  show "\<not> fst (MoveToId r s) \<Longrightarrow> MoveToId r s = (False, s)"
    unfolding m by (auto split: option.splits)
qed

definition id_searchable :: "int \<Rightarrow> CandidateList \<Rightarrow> bool" where
  "id_searchable r l \<longleftrightarrow> (\<forall>c \<in> set (candidates l). \<forall>s. subcandidate_list c = Some s \<longrightarrow>
     alternative_ids s r = None \<and> cand_id c \<noteq> r)"

lemma search_two_level:
  assumes "two_level l" and "id_searchable r l" and "set is \<subseteq> {..<list_size l}"
    and rs: "rs = map (\<lambda>c. map_option (MoveToId r) (subcandidate_list c)) (candidates l)"
  shows "case search_loop (\<lambda>c. cand_id c = r) rs is l of (found, l') \<Rightarrow>
    (found \<longleftrightarrow> (\<exists>i \<in> set is. r \<in> set (shown_ids (candidates l ! i)))) \<and>
    (if found then focused_id l' = Inr r else l' = l)"
  using assms(3)
proof (induction "is")
  case (Cons i js)
  then have i: "i < list_size l" by simp
  show ?case
  proof (cases "subcandidate_list (candidates l ! i)")
    case None
    then have "rs ! i = None" "shown_ids (candidates l ! i) = [cand_id (candidates l ! i)]"
      using i by (simp_all add: rs shown_ids_def)
    moreover have "focused_id (set_focused_index i l) = Inr (cand_id (candidates l ! i))"
      using i None by (subst focused_id.simps) auto
    ultimately show ?thesis using Cons by (auto split: prod.splits)
  next
    case (Some s)
    have s: "flat_list s" by (rule two_levelD(3) [OF assms(1) i Some])
    have a: "alternative_ids s r = None" "cand_id (candidates l ! i) \<noteq> r"
      using assms(2) i Some by (auto simp: id_searchable_def)
    have h: "set (shown_ids (candidates l ! i)) = set (map cand_id (candidates s))"
      using Some by (simp add: shown_ids_def)
    have q: "rs ! i = Some (MoveToId r s)" using i Some by (simp add: rs)
    show ?thesis
    proof (cases "fst (MoveToId r s)")
      case True
      from flat_MoveToId(2) [OF s a(1) True] obtain j where
        j: "j < list_size s" "MoveToId r s = (True, set_focused_index j s)" "cand_id (candidates s ! j) = r"
        by blast
      have "focused_id (set_focused_index j s) = Inr r"
        using j flat_listD(3) [OF s j(1)] by (subst focused_id.simps) auto
      then have "focused_id (set_focused_index i (set_sub i (set_focused_index j s) l)) = Inr r"
        using i by (subst focused_id.simps) auto
      moreover have "r \<in> set (shown_ids (candidates l ! i))"
        using flat_MoveToId(1) [OF s a(1)] True h by simp
      ultimately show ?thesis using q j(2) by simp
    next
      case False
      then have "MoveToId r s = (False, s)" by (rule flat_MoveToId(3) [OF s a(1)])
      moreover have "r \<notin> set (shown_ids (candidates l ! i))"
        using flat_MoveToId(1) [OF s a(1)] False h by simp
      moreover have "set_sub i s l = l" using Some by (simp add: set_sub_def list_update_same_conv)
      ultimately show ?thesis using q a(2) Cons by (simp split: prod.splits)
    qed
  qed
qed simp

lemma MoveToId_two_level:
  assumes "two_level l" and "id_searchable (resolve_id l i) l"
  shows "case MoveToId i l of (found, l') \<Rightarrow>
    (found \<longleftrightarrow> resolve_id l i \<in> set (leaf_ids l)) \<and>
    (if found then focused_id l' = Inr (resolve_id l i) else l' = l)"
proof -
  have "(\<exists>j \<in> set [0 ..< list_size l]. r \<in> set (shown_ids (candidates l ! j))) \<longleftrightarrow> r \<in> set (leaf_ids l)" for r
    by (auto simp: leaf_ids_def in_set_conv_nth [of _ "candidates l"] Bex_def)
  moreover have "set [0 ..< list_size l] \<subseteq> {..<list_size l}" by auto
  ultimately show ?thesis
    using search_two_level [OF assms _ refl, of "[0 ..< list_size l]"]
    unfolding MoveToId.simps [of i l] by simp
qed

section \<open>Adding candidates\<close>

definition add_all :: "(bytes \<Rightarrow> nat) \<Rightarrow> (int \<times> bytes) list \<Rightarrow> CandidateList \<Rightarrow> CandidateList" where
  "add_all fingerprint ivs l = foldl (\<lambda>l (i, v). AddCandidate fingerprint i v l) l ivs"

text \<open>The first entry with the fingerprint of \<open>v\<close> stands for all of them.\<close>

definition first_id :: "(bytes \<Rightarrow> nat) \<Rightarrow> (int \<times> bytes) list \<Rightarrow> bytes \<Rightarrow> int option" where
  "first_id fingerprint ivs v = map_option fst (find (\<lambda>(i, w). fingerprint w = fingerprint v) ivs)"

lemma find_append: "find P (xs @ ys) = (case find P xs of None \<Rightarrow> find P ys | Some x \<Rightarrow> Some x)"
  by (induction xs) auto

lemma add_attributes_simps [simp]:
  "cand_id (add_attributes a c) = cand_id c" "subcandidate_list (add_attributes a c) = subcandidate_list c"
  by (cases c; simp)+

lemma AddCandidate_old:
  assumes "added_candidates l (fp v) = Some a"
  shows "added_candidates (AddCandidate fp i v l) = added_candidates l"
    "alternative_ids (AddCandidate fp i v l) = (alternative_ids l)(i \<mapsto> a)"
    "map cand_id (candidates (AddCandidate fp i v l)) = map cand_id (candidates l)"
    "map subcandidate_list (candidates (AddCandidate fp i v l)) = map subcandidate_list (candidates l)"
  using assms
  by (cases l; simp add: AddCandidate_def AddCandidateWithAttributes_def Let_def comp_def if_distrib [of cand_id]
      if_distrib [of subcandidate_list] cong: if_cong)+

lemma AddCandidate_new:
  assumes "added_candidates l (fp v) = None"
  shows "added_candidates (AddCandidate fp i v l) = (added_candidates l)(fp v \<mapsto> i)"
    "alternative_ids (AddCandidate fp i v l) = alternative_ids l"
    "map cand_id (candidates (AddCandidate fp i v l)) = map cand_id (candidates l) @ [i]"
    "map subcandidate_list (candidates (AddCandidate fp i v l)) = map subcandidate_list (candidates l) @ [None]"
  using assms
  by (cases l; simp add: AddCandidate_def AddCandidateWithAttributes_def Let_def)+

lemma AddCandidate_other [simp]:
  "page_size (AddCandidate fp i v l) = page_size l" "focused_index (AddCandidate fp i v l) = focused_index l"
  by (cases l; simp add: AddCandidate_def AddCandidateWithAttributes_def Let_def split: option.split)+

lemma first_id_snoc:
  "first_id fp (ivs @ [(i, v)]) w =
     (case first_id fp ivs w of Some j \<Rightarrow> Some j | None \<Rightarrow> if fp v = fp w then Some i else None)"
  by (simp add: first_id_def find_append split: option.split)

lemma first_id_cong: "fp v = fp w \<Longrightarrow> first_id fp ivs v = first_id fp ivs w"
  by (simp add: first_id_def)

lemma first_id_in: "(i, v) \<in> set ivs \<Longrightarrow> \<exists>j. first_id fp ivs v = Some j"
  by (cases "find (\<lambda>(i, w). fp w = fp v) ivs") (auto simp: first_id_def find_None_iff)

definition built_ok :: "(bytes \<Rightarrow> nat) \<Rightarrow> (int \<times> bytes) list \<Rightarrow> CandidateList \<Rightarrow> bool" where
  "built_ok fp ivs l \<longleftrightarrow> (\<forall>c \<in> set (candidates l). subcandidate_list c = None) \<and>
     page_size l = 9 \<and> focused_index l = 0 \<and>
     (\<forall>w. added_candidates l (fp w) = first_id fp ivs w) \<and>
     (\<forall>i. i \<notin> fst ` set ivs \<longrightarrow> alternative_ids l i = None) \<and>
     (\<forall>(i, v) \<in> set ivs. \<exists>j. first_id fp ivs v = Some j \<and> resolve_id l i = j \<and>
        j \<in> set (map cand_id (candidates l)))"

lemma built_okD:
  assumes "built_ok fp ivs l"
  shows "\<forall>c \<in> set (candidates l). subcandidate_list c = None" "page_size l = 9" "focused_index l = 0"
    "added_candidates l (fp w) = first_id fp ivs w" "j \<notin> fst ` set ivs \<Longrightarrow> alternative_ids l j = None"
  using assms unfolding built_ok_def by simp_all

lemma built_ok_resolve:
  assumes "built_ok fp ivs l" and "(j, w) \<in> set ivs"
  shows "first_id fp ivs w = Some (resolve_id l j)" "resolve_id l j \<in> set (map cand_id (candidates l))"
proof -
  have "\<forall>(i, v) \<in> set ivs. \<exists>j. first_id fp ivs v = Some j \<and> resolve_id l i = j \<and>
        j \<in> set (map cand_id (candidates l))"
    using assms(1) unfolding built_ok_def by (elim conjE)
  from bspec [OF this assms(2)]
  have "first_id fp ivs w = Some (resolve_id l j) \<and> resolve_id l j \<in> set (map cand_id (candidates l))"
    unfolding prod.case by metis
  then show "first_id fp ivs w = Some (resolve_id l j)" "resolve_id l j \<in> set (map cand_id (candidates l))"
    by (rule conjunct1, rule conjunct2)
qed

lemma all_None_map: "(\<forall>c \<in> set cs. f c = None) \<longleftrightarrow> map f cs = replicate (length cs) None"
  by (induction cs) auto

lemma built_ok_AddCandidate:
  assumes "built_ok fp ivs l" and "i \<notin> fst ` set ivs"
  shows "built_ok fp (ivs @ [(i, v)]) (AddCandidate fp i v l)" (is "built_ok fp ?ivs ?l")
proof -
  note o = built_okD [OF assms(1)] and r = built_ok_resolve [OF assms(1)]
  have a: "added_candidates ?l (fp w) = first_id fp ?ivs w" for w
    using o(4) [of v] o(4) [of w] first_id_cong [of fp v w ivs]
    by (cases "first_id fp ivs v"; cases "fp v = fp w")
      (auto simp: AddCandidate_old AddCandidate_new first_id_snoc split: option.split)
  show ?thesis
  proof (cases "first_id fp ivs v")
    case None
    then have "added_candidates l (fp v) = None" using o(4) by simp
    note new = AddCandidate_new [of l fp v, OF this]
    have "map subcandidate_list (candidates ?l) = replicate (Suc (list_size l)) None"
      using new(4) o(1) by (simp add: all_None_map replicate_append_same)
    then have "\<forall>c \<in> set (candidates ?l). subcandidate_list c = None"
      by (metis all_None_map length_map length_replicate)
    moreover have "\<exists>k. first_id fp ?ivs w = Some k \<and> resolve_id ?l j = k \<and> k \<in> set (map cand_id (candidates ?l))"
      if "(j, w) \<in> set ?ivs" for j w
    proof (cases "(j, w) \<in> set ivs")
      case True
      have "resolve_id ?l j = resolve_id l j" by (simp add: resolve_id_def new(2))
      with r [OF True] show ?thesis by (simp add: first_id_snoc new(3))
    next
      case False
      then have "j = i" "w = v" using that by auto
      moreover have "resolve_id ?l i = i"
        using o(5) [OF assms(2)] by (simp add: resolve_id_def new(2))
      ultimately show ?thesis using None by (simp add: first_id_snoc new(3))
    qed
    ultimately show ?thesis using a o by (auto simp: built_ok_def new(2))
  next
    case (Some a')
    then have "added_candidates l (fp v) = Some a'" using o(4) by simp
    note old = AddCandidate_old [of l fp v, OF this]
    have "map subcandidate_list (candidates ?l) = replicate (list_size l) None"
      using old(4) o(1) by (simp add: all_None_map)
    then have "\<forall>c \<in> set (candidates ?l). subcandidate_list c = None"
      by (metis all_None_map length_map length_replicate)
    moreover have "\<exists>k. first_id fp ?ivs w = Some k \<and> resolve_id ?l j = k \<and> k \<in> set (map cand_id (candidates ?l))"
      if "(j, w) \<in> set ?ivs" for j w
    proof (cases "(j, w) \<in> set ivs")
      case True
      then have "j \<noteq> i" using assms(2) by force
      then have "resolve_id ?l j = resolve_id l j" by (simp add: resolve_id_def old(2))
      with r [OF True] show ?thesis by (simp add: first_id_snoc old(3))
    next
      case False
      then have "j = i" "w = v" using that by auto
      moreover have "resolve_id ?l i = a'" by (simp add: resolve_id_def old(2))
      moreover obtain j' w' where "(j', w') \<in> set ivs" "fp w' = fp v"
        using Some by (auto simp: first_id_def find_Some_iff) (metis case_prodE nth_mem)
      then have "a' \<in> set (map cand_id (candidates l))"
        using r [of j' w'] Some by (auto simp: first_id_def)
      ultimately show ?thesis using Some by (simp add: first_id_snoc old(3))
    qed
    ultimately show ?thesis using a o by (auto simp: built_ok_def old(2))
  qed
qed

lemma flat_shown_ids:
  "(\<forall>c \<in> set cs. subcandidate_list c = None) \<Longrightarrow> concat (map shown_ids cs) = map cand_id cs"
  by (induction cs) (simp_all add: shown_ids_def)

lemma add_all_ok: "distinct (map fst ivs) \<Longrightarrow> built_ok fp ivs (add_all fp ivs (new_CandidateList r))"
proof (induction ivs rule: rev_induct)
  case Nil
  show ?case by (simp add: built_ok_def add_all_def new_CandidateList_def first_id_def)
next
  case (snoc p ivs)
  obtain i v where "p = (i, v)" by fastforce
  then show ?case using snoc built_ok_AddCandidate [of fp ivs _ i v] by (auto simp: add_all_def)
qed

text \<open>Adding candidates with distinct ids keeps one candidate per value: \<open>MoveToId\<close> of any added id
  succeeds and focuses the first candidate added with the same fingerprint, so that a duplicate is
  reached through its alternative id.\<close>

lemma MoveToId_after_adding:
  assumes "distinct (map fst ivs)" and "(i, v) \<in> set ivs"
  shows "\<exists>j l'. first_id fp ivs v = Some j \<and>
    MoveToId i (add_all fp ivs (new_CandidateList r)) = (True, l') \<and> focused_id l' = Inr j"
proof -
  define l where "l = add_all fp ivs (new_CandidateList r)"
  have b: "built_ok fp ivs l" using add_all_ok [OF assms(1)] by (simp add: l_def)
  define j where "j = resolve_id l i"
  have j: "first_id fp ivs v = Some j" "resolve_id l i = j" "j \<in> set (map cand_id (candidates l))"
    using built_ok_resolve [OF b assms(2)] unfolding j_def by simp_all
  note f = built_okD(1-3) [OF b]
  have "candidates l \<noteq> []" using j(3) by auto
  then have "wf_list l" unfolding wf_list.simps [of l] using f by (simp add: list_all_iff)
  then have t: "two_level l" using f(1) by (simp add: two_level_def)
  have "leaf_ids l = map cand_id (candidates l)"
    unfolding leaf_ids_def by (rule flat_shown_ids) (rule f(1))
  moreover have "id_searchable j l" using f(1) by (simp add: id_searchable_def)
  ultimately have "case MoveToId i l of (found, l') \<Rightarrow> found \<and> focused_id l' = Inr j"
    using MoveToId_two_level [OF t, of i] j(2,3) by (simp split: prod.splits)
  then show ?thesis using j(1) unfolding l_def [symmetric] by (cases "MoveToId i l") simp
qed

section \<open>Pages\<close>

definition page_of :: "CandidateList \<Rightarrow> nat" where
  "page_of l = focused_index l div page_size l"

definition page_count :: "CandidateList \<Rightarrow> nat" where
  "page_count l = Suc ((list_size l - 1) div page_size l)"

definition flat_rotating :: "CandidateList \<Rightarrow> bool" where
  "flat_rotating l \<longleftrightarrow> wf_list l \<and> rotates l \<and> (\<forall>c \<in> set (candidates l). subcandidate_list c = None)"

lemma flat_enter:
  assumes "\<forall>c \<in> set (candidates l). subcandidate_list c = None" and "focused_index l < list_size l"
  shows "enter start l = Inr (True, l)"
proof -
  have "subcandidate_list (candidates l ! focused_index l) = None" using assms by simp
  with assms(2) show ?thesis by (simp add: enter_def)
qed

lemma last_page_iff:
  fixes i n p :: nat
  assumes "i < n" and "0 < p"
  shows "min n (i - i mod p + p) = n \<longleftrightarrow> i div p = (n - 1) div p"
proof -
  have le: "i div p \<le> (n - 1) div p" using assms(1) by (intro div_le_mono) simp
  have e: "i - i mod p + p = Suc (i div p) * p" by (simp add: minus_mod_eq_div_mult)
  have "n \<le> Suc (i div p) * p \<longleftrightarrow> n - 1 < Suc (i div p) * p" using assms(1) by auto
  also have "\<dots> \<longleftrightarrow> (n - 1) div p < Suc (i div p)" by (rule div_less_iff_less_mult [OF assms(2), symmetric])
  finally show ?thesis using le e by auto
qed

lemma page_start_index: "focused_index (page_start l) = page_of l * page_size l"
  by (simp add: page_start_def page_of_def minus_mod_eq_div_mult)

lemma next_page_eq:
  "0 < page_size l \<Longrightarrow> next_page l =
     (if min (list_size l) (focused_index l - focused_index l mod page_size l + page_size l) = list_size l
      then (if \<not> rotates l then Inr (False, l) else enter MoveFirst (page_start (MoveFirst l)))
      else enter MoveFirst (page_start (set_focused_index (focused_index l + page_size l) l)))"
  by (simp add: next_page_def GetPageRange_def Let_def)

text \<open>On a rotating list without nested lists the page moves go to the first candidate of the next
  or the previous page, round at the ends, and never past the end, also when the last page is
  shorter; \<open>MoveToPageIndex\<close> takes exactly the positions that exist on the page.\<close>

lemma page_moves:
  assumes "flat_rotating l"
  shows "(\<exists>l1. MoveNextPage l = Inr (True, l1) \<and>
      focused_index l1 = (Suc (page_of l) mod page_count l) * page_size l) \<and>
    (\<exists>l2. MovePrevPage l = Inr (True, l2) \<and>
      focused_index l2 = ((page_of l + page_count l - 1) mod page_count l) * page_size l) \<and>
    (\<exists>l3. MoveToPageIndex n l =
        Inr (n < page_size l \<and> page_of l * page_size l + n < list_size l, l3) \<and>
      focused_index l3 = (if n < page_size l \<and> page_of l * page_size l + n < list_size l
        then page_of l * page_size l + n else focused_index l))"
proof -
  have w: "wf_list l" and r: "rotates l" and f: "\<forall>c \<in> set (candidates l). subcandidate_list c = None"
    using assms by (simp_all add: flat_rotating_def)
  have i: "focused_index l < list_size l" and p: "0 < page_size l" using wf_listD [OF w] by simp_all
  have here: "move_in m l = m l" for m
    using i f by (subst move_in.simps) simp
  have first: "focused_index l - focused_index l mod page_size l = page_of l * page_size l"
    by (simp add: page_of_def minus_mod_eq_div_mult)
  have le: "page_of l \<le> (list_size l - 1) div page_size l"
    unfolding page_of_def using i by (intro div_le_mono) simp
  have start: "q * page_size l < list_size l" if "q \<le> (list_size l - 1) div page_size l" for q
  proof -
    have "q * page_size l \<le> (list_size l - 1) div page_size l * page_size l" using that by (rule mult_le_mono1)
    also have "\<dots> \<le> list_size l - 1" by (rule div_times_less_eq_dividend)
    finally show ?thesis using i by linarith
  qed
  have go: "enter MoveFirst (page_start (set_focused_index j l)) =
      Inr (True, set_focused_index (j div page_size l * page_size l) l)"
    if "j div page_size l \<le> (list_size l - 1) div page_size l" for j
    using flat_enter [of "page_start (set_focused_index j l)" MoveFirst] f start [OF that]
    by (simp add: page_start_def minus_mod_eq_div_mult)
  have n: "MoveNextPage l = Inr (True, set_focused_index (Suc (page_of l) mod page_count l * page_size l) l)"
  proof (cases "page_of l = (list_size l - 1) div page_size l")
    case True
    then have "Suc (page_of l) mod page_count l = 0" by (simp add: page_count_def)
    then show ?thesis
      using True go [of 0] r p last_page_iff [OF i p]
      by (simp add: MoveNextPage_def here next_page_def GetPageRange_def Let_def MoveFirst_def page_of_def)
  next
    case False
    then have b: "Suc (page_of l) \<le> (list_size l - 1) div page_size l" using le by simp
    then have m: "Suc (page_of l) mod page_count l = Suc (page_of l)" by (simp add: page_count_def)
    have j: "(focused_index l + page_size l) div page_size l = Suc (page_of l)"
      using div_add_self2 [of "page_size l" "focused_index l"] p by (simp add: page_of_def)
    have "min (list_size l) (focused_index l - focused_index l mod page_size l + page_size l) \<noteq> list_size l"
      using False last_page_iff [OF i p] by (simp add: page_of_def)
    then have "next_page l = enter MoveFirst (page_start (set_focused_index (focused_index l + page_size l) l))"
      unfolding next_page_eq [OF p] by (rule if_not_P)
    then show ?thesis
      using go [of "focused_index l + page_size l"] b unfolding j m by (simp add: MoveNextPage_def here)
  qed
  have pr: "MovePrevPage l =
      Inr (True, set_focused_index ((page_of l + page_count l - 1) mod page_count l * page_size l) l)"
  proof (cases "focused_index l < page_size l")
    case True
    then have "page_of l = 0" by (simp add: page_of_def)
    moreover have "last_index l = list_size l - 1" using last_index_wf [OF w] by simp
    ultimately show ?thesis using True go [of "list_size l - 1"] r
      by (simp add: MovePrevPage_def here prev_page_def MoveLast_def page_count_def)
  next
    case False
    then have q: "0 < page_of l" by (simp add: page_of_def div_greater_zero_iff p)
    have j: "(focused_index l - page_size l) div page_size l = page_of l - 1"
      using False p by (simp add: page_of_def le_div_geq)
    have "(page_of l + page_count l - 1) mod page_count l = page_of l - 1"
      using q le by (simp add: page_count_def mod_if)
    moreover have "page_of l - 1 \<le> (list_size l - 1) div page_size l" using le by simp
    ultimately show ?thesis
      using False go [of "focused_index l - page_size l"] p unfolding j
      by (simp add: MovePrevPage_def here prev_page_def)
  qed
  have t: "MoveToPageIndex n l = Inr (n < page_size l \<and> page_of l * page_size l + n < list_size l,
      if n < page_size l \<and> page_of l * page_size l + n < list_size l
      then set_focused_index (page_of l * page_size l + n) l else l)"
    using p f flat_enter [of "set_focused_index (page_of l * page_size l + n) l" MoveFirst]
    by (auto simp: MoveToPageIndex_def GetPageRange_def Let_def first)
  show ?thesis unfolding n pr t by (intro conjI exI) auto
qed

definition three_candidates :: CandidateList where
  "three_candidates = set_page_size 2 (add_all sample_hash [(0, ''a''), (1, ''b''), (2, ''c'')] (new_CandidateList True))"

end
