(* ===== verification/Sync_Json.thy ===== *)
theory Sync_Json
  imports Prelude
begin

text \<open>
  The JSON files of the synchronisation (\<open>sync/sync_config.cc\<close>, \<open>sync/sync_status.cc\<close>,
  \<open>sync/sync_activity.cc\<close>, \<open>sync/sync_key.cc\<close>): strings are escaped when a file is written and cut out
  of it again by searching for the quoted field name. The number conversions of abseil are a
  parameter, the files of the profile directory a record of their contents.
\<close>

section \<open>Escaping and searching\<close>

abbreviation quote :: char where "quote \<equiv> CHR 0x22"
abbreviation backslash :: char where "backslash \<equiv> CHR 0x5C"
abbreviation newline :: char where "newline \<equiv> CHR 0x0A"
abbreviation return :: char where "return \<equiv> CHR 0x0D"

definition escape_char :: "char \<Rightarrow> bytes" where
  "escape_char c =
     (if c = backslash then [backslash, backslash]
      else if c = quote then [backslash, quote]
      else if c = newline then [backslash, CHR ''n'']
      else if c = return then [backslash, CHR ''r'']
      else [c])"

definition JsonEscape :: "bytes \<Rightarrow> bytes" where
  "JsonEscape s = concat (map escape_char s)"

text \<open>\<open>string_view::find (pattern)\<close>; \<open>None\<close> is \<open>npos\<close>.\<close>

fun find_str :: "bytes \<Rightarrow> bytes \<Rightarrow> nat option" where
  "find_str p [] = (if p = [] then Some 0 else None)"
| "find_str p (c # s) = (if starts_with (c # s) p then Some 0 else map_option Suc (find_str p s))"

definition ascii_isspace :: "char \<Rightarrow> bool" where
  "ascii_isspace c \<longleftrightarrow> c = CHR '' '' \<or> 0x09 \<le> byte c \<and> byte c \<le> 0x0D"

definition json_pattern :: "bytes \<Rightarrow> bytes" where
  "json_pattern key = [quote] @ key @ [quote, CHR '':'']"

text \<open>The text behind \<open>"key":\<close> and the white space after it, shared by the \<open>Extract\<close> functions.\<close>

definition json_tail :: "bytes \<Rightarrow> bytes \<Rightarrow> bytes option" where
  "json_tail json key =
     map_option (\<lambda>pos. dropWhile ascii_isspace (drop (pos + length (json_pattern key)) json))
       (find_str (json_pattern key) json)"

fun json_string :: "bytes \<Rightarrow> bytes" where
  "json_string [] = []"
| "json_string [c] = (if c = quote then [] else [c])"
| "json_string (c # esc # tail) =
     (if c = backslash
      then (if esc = CHR ''n'' then newline else if esc = CHR ''r'' then return else esc) # json_string tail
      else if c = quote then [] else c # json_string (esc # tail))"

definition ExtractJsonString :: "bytes \<Rightarrow> bytes \<Rightarrow> bytes" where
  "ExtractJsonString json key =
     (case json_tail json key of
        None \<Rightarrow> []
      | Some tail \<Rightarrow> if tail = [] \<or> hd tail \<noteq> quote then [] else json_string (tl tail))"

definition ExtractJsonBool :: "bytes \<Rightarrow> bytes \<Rightarrow> bool \<Rightarrow> bool" where
  "ExtractJsonBool json key default_value =
     (case json_tail json key of
        None \<Rightarrow> default_value
      | Some tail \<Rightarrow>
          if starts_with tail ''true'' then True
          else if starts_with tail ''false'' then False else default_value)"

text \<open>
  Abseil's conversions: \<open>StrCat\<close> of a number, and the value of the second argument of \<open>SimpleAtoi\<close>
  after the call, given its value before. Abseil promises the number when the whole text is one, and
  nothing about the argument otherwise; the callers below do not look at the returned flag.
\<close>

record Conv =
  StrCat_int :: "int \<Rightarrow> bytes"
  SimpleAtoi :: "bytes \<Rightarrow> int \<Rightarrow> int"

definition ExtractJsonInt :: "Conv \<Rightarrow> bytes \<Rightarrow> bytes \<Rightarrow> int \<Rightarrow> int" where
  "ExtractJsonInt conv json key default_value =
     (case json_tail json key of None \<Rightarrow> default_value | Some tail \<Rightarrow> SimpleAtoi conv tail default_value)"

section \<open>Files\<close>

record Profile =
  sync_conf :: "bytes option"
  sync_status_json :: "bytes option"
  sync_activity_json :: "bytes option"
  sync_key_file :: "bytes option"
  tombstones_file :: "bytes option"
  sync_bundle :: "bytes option"

datatype status =
    OkStatus | NotFoundError | PermissionDeniedError | InvalidArgumentError | InternalError | DataLossError | UnknownError

text \<open>
  How a write ends: every file is written to a temporary file, which may not open, and renamed by
  \<open>FileUtil::AtomicRename\<close>. The writes to the stream are not checked, so on a full disk a part of the
  content can be renamed as if it were the whole.
\<close>

datatype FsOutcome = Fs_OpenFails | Fs_Rename "nat option" status

definition write_file :: "FsOutcome \<Rightarrow> (bytes \<Rightarrow> Profile \<Rightarrow> Profile) \<Rightarrow> bytes \<Rightarrow> Profile \<Rightarrow> status \<times> Profile" where
  "write_file fs put content p =
     (case fs of
        Fs_OpenFails \<Rightarrow> (PermissionDeniedError, p)
      | Fs_Rename kept st \<Rightarrow>
          (st, if st = OkStatus then put (case kept of None \<Rightarrow> content | Some n \<Rightarrow> take n content) p else p))"

definition writes_all :: "FsOutcome \<Rightarrow> bool" where
  "writes_all fs \<longleftrightarrow> (case fs of Fs_Rename (Some _) _ \<Rightarrow> False | _ \<Rightarrow> True)"

definition json_line :: "bytes \<Rightarrow> bytes \<Rightarrow> bytes \<Rightarrow> bytes" where
  "json_line name v e = ''  '' @ json_pattern name @ '' '' @ v @ e"

fun json_lines :: "(bytes \<times> bytes) list \<Rightarrow> bytes" where
  "json_lines [] = []"
| "json_lines [(name, v)] = json_line name v [newline]"
| "json_lines ((name, v) # item # items) = json_line name v [CHR '','', newline] @ json_lines (item # items)"

definition json_file :: "(bytes \<times> bytes) list \<Rightarrow> bytes" where
  "json_file items = ''{'' @ [newline] @ json_lines items @ ''}'' @ [newline]"

definition json_quoted :: "bytes \<Rightarrow> bytes" where
  "json_quoted s = [quote] @ JsonEscape s @ [quote]"

definition json_bool :: "bool \<Rightarrow> bytes" where
  "json_bool b = (if b then ''true'' else ''false'')"

section \<open>The configuration\<close>

record UserSyncConfig =
  enabled :: bool
  sync_file_path :: bytes
  sync_dictionary :: bool
  sync_history :: bool
  direction :: int
  auto_sync_mode :: int
  auto_sync_interval_minutes :: int
  last_sync_time :: bytes
  last_sync_status :: bytes
  last_sync_message :: bytes
  device_id :: bytes
  has_sync_key :: bool
  sync_cooldown_seconds :: int

definition default_UserSyncConfig :: UserSyncConfig where
  "default_UserSyncConfig =
     \<lparr>enabled = False, sync_file_path = [], sync_dictionary = True, sync_history = True, direction = 0,
      auto_sync_mode = 0, auto_sync_interval_minutes = 30, last_sync_time = [], last_sync_status = [],
      last_sync_message = [], device_id = [], has_sync_key = False, sync_cooldown_seconds = 60\<rparr>"

abbreviation BIDIRECTIONAL :: int where "BIDIRECTIONAL \<equiv> 0"
abbreviation UPLOAD :: int where "UPLOAD \<equiv> 1"
abbreviation DOWNLOAD :: int where "DOWNLOAD \<equiv> 2"
abbreviation EVERY_N_MINUTES :: int where "EVERY_N_MINUTES \<equiv> 2"
abbreviation ON_SHUTDOWN :: int where "ON_SHUTDOWN \<equiv> 3"

record SyncFingerprintSnapshot =
  remote_bundle_sha256 :: bytes
  local_data_sha256 :: bytes

definition empty_snapshot :: SyncFingerprintSnapshot where
  "empty_snapshot = \<lparr>remote_bundle_sha256 = [], local_data_sha256 = []\<rparr>"

text \<open>\<open>rnd\<close> is the sixteen hexadecimal digits of a random number.\<close>

definition EnsureDeviceId :: "bytes \<Rightarrow> UserSyncConfig \<Rightarrow> UserSyncConfig" where
  "EnsureDeviceId rnd config = (if device_id config \<noteq> [] then config else config\<lparr>device_id := rnd\<rparr>)"

definition NormalizeSyncKey :: "bytes \<Rightarrow> bytes" where
  "NormalizeSyncKey raw = rev (dropWhile ascii_isspace (rev (dropWhile ascii_isspace raw)))"

definition LoadSyncKey :: "Profile \<Rightarrow> status + bytes" where
  "LoadSyncKey p = (case sync_key_file p of None \<Rightarrow> Inl NotFoundError | Some s \<Rightarrow> Inr (NormalizeSyncKey s))"

definition StoreSyncKey :: "FsOutcome \<Rightarrow> bytes \<Rightarrow> Profile \<Rightarrow> status \<times> Profile" where
  "StoreSyncKey fs passphrase p =
     (let normalized = NormalizeSyncKey passphrase
      in if normalized = [] then (InvalidArgumentError, p)
         else write_file fs (\<lambda>s p. p\<lparr>sync_key_file := Some s\<rparr>) normalized p)"

definition HasStoredSyncKey :: "Profile \<Rightarrow> bool" where
  "HasStoredSyncKey p \<longleftrightarrow> (case LoadSyncKey p of Inl _ \<Rightarrow> False | Inr _ \<Rightarrow> True)"

definition parse_config :: "Conv \<Rightarrow> bytes \<Rightarrow> UserSyncConfig" where
  "parse_config conv json =
     \<lparr>enabled = ExtractJsonBool json ''enabled'' False,
      sync_file_path = ExtractJsonString json ''sync_file_path'',
      sync_dictionary = ExtractJsonBool json ''sync_dictionary'' True,
      sync_history = ExtractJsonBool json ''sync_history'' True,
      direction = ExtractJsonInt conv json ''direction'' BIDIRECTIONAL,
      auto_sync_mode = ExtractJsonInt conv json ''auto_sync_mode'' 0,
      auto_sync_interval_minutes = ExtractJsonInt conv json ''auto_sync_interval_minutes'' 30,
      last_sync_time = ExtractJsonString json ''last_sync_time'',
      last_sync_status = ExtractJsonString json ''last_sync_status'',
      last_sync_message = ExtractJsonString json ''last_sync_message'',
      device_id = ExtractJsonString json ''device_id'',
      has_sync_key = False,
      sync_cooldown_seconds = ExtractJsonInt conv json ''sync_cooldown_seconds'' 60\<rparr>"

definition LoadSyncConfig :: "Conv \<Rightarrow> bytes \<Rightarrow> Profile \<Rightarrow> UserSyncConfig" where
  "LoadSyncConfig conv rnd p =
     (let config = (case sync_conf p of None \<Rightarrow> default_UserSyncConfig | Some json \<Rightarrow> parse_config conv json)
      in (EnsureDeviceId rnd config)\<lparr>has_sync_key := HasStoredSyncKey p\<rparr>)"

definition LoadSyncBaselines :: "Profile \<Rightarrow> SyncFingerprintSnapshot" where
  "LoadSyncBaselines p =
     (case sync_conf p of
        None \<Rightarrow> empty_snapshot
      | Some json \<Rightarrow>
          \<lparr>remote_bundle_sha256 = ExtractJsonString json ''last_remote_bundle_sha256'',
           local_data_sha256 = ExtractJsonString json ''last_local_data_sha256''\<rparr>)"

definition config_json :: "Conv \<Rightarrow> UserSyncConfig \<Rightarrow> SyncFingerprintSnapshot \<Rightarrow> bytes" where
  "config_json conv c b = json_file
     [(''enabled'', json_bool (enabled c)),
      (''sync_file_path'', json_quoted (sync_file_path c)),
      (''sync_dictionary'', json_bool (sync_dictionary c)),
      (''sync_history'', json_bool (sync_history c)),
      (''direction'', StrCat_int conv (direction c)),
      (''auto_sync_mode'', StrCat_int conv (auto_sync_mode c)),
      (''auto_sync_interval_minutes'', StrCat_int conv (auto_sync_interval_minutes c)),
      (''last_sync_time'', json_quoted (last_sync_time c)),
      (''last_sync_status'', json_quoted (last_sync_status c)),
      (''last_sync_message'', json_quoted (last_sync_message c)),
      (''device_id'', json_quoted (device_id c)),
      (''sync_cooldown_seconds'', StrCat_int conv (sync_cooldown_seconds c)),
      (''last_remote_bundle_sha256'', json_quoted (remote_bundle_sha256 b)),
      (''last_local_data_sha256'', json_quoted (local_data_sha256 b))]"

definition write_config :: "FsOutcome \<Rightarrow> bytes \<Rightarrow> Profile \<Rightarrow> status \<times> Profile" where
  "write_config fs = write_file fs (\<lambda>s p. p\<lparr>sync_conf := Some s\<rparr>)"

definition SaveSyncConfig :: "Conv \<Rightarrow> bytes \<Rightarrow> FsOutcome \<Rightarrow> UserSyncConfig \<Rightarrow> Profile \<Rightarrow> status \<times> Profile" where
  "SaveSyncConfig conv rnd fs config p =
     write_config fs (config_json conv (EnsureDeviceId rnd config) (LoadSyncBaselines p)) p"

definition SaveSyncBaselines ::
  "Conv \<Rightarrow> bytes \<Rightarrow> FsOutcome \<Rightarrow> SyncFingerprintSnapshot \<Rightarrow> Profile \<Rightarrow> status \<times> Profile" where
  "SaveSyncBaselines conv rnd fs baselines p =
     write_config fs (config_json conv (EnsureDeviceId rnd (LoadSyncConfig conv rnd p)) baselines) p"

section \<open>Searching a written file\<close>

lemma JsonEscape_simps [simp]: "JsonEscape [] = []" "JsonEscape (c # s) = escape_char c @ JsonEscape s"
  by (simp_all add: JsonEscape_def)

lemma json_string_escape: "json_string (JsonEscape s @ quote # rest) = s"
proof (induction s)
  case Nil
  then show ?case by (cases rest) simp_all
next
  case (Cons c s)
  then show ?case by (cases "JsonEscape s @ quote # rest") (auto simp: escape_char_def)
qed

definition ident_char :: "char \<Rightarrow> bool" where
  "ident_char c \<longleftrightarrow> c = CHR ''_'' \<or> 0x61 \<le> byte c \<and> byte c \<le> 0x7A \<or> 0x30 \<le> byte c \<and> byte c \<le> 0x39"

abbreviation ident :: "bytes \<Rightarrow> bool" where "ident k \<equiv> k \<noteq> [] \<and> list_all ident_char k"

lemma not_ident_char [simp]:
  "\<not> ident_char quote" "\<not> ident_char backslash" "\<not> ident_char (CHR '':'')" "\<not> ident_char (CHR '','')"
  "\<not> ident_char (CHR '' '')" "\<not> ident_char newline"
  by (simp_all add: ident_char_def byte_def)

lemma starts_with_Cons [simp]:
  "starts_with s []" "\<not> starts_with [] (x # p)" "starts_with (c # s) (x # p) \<longleftrightarrow> c = x \<and> starts_with s p"
  by (auto simp: starts_with_def)

lemma starts_with_append [simp]: "starts_with (p @ s) p"
  by (simp add: starts_with_def)

text \<open>Inside an escaped string no field name ends: a quote in it is escaped, and the closing one is not
  followed by a colon.\<close>

lemma escape_no_name:
  assumes "y \<noteq> CHR '':''" and "list_all ident_char k"
  shows "\<not> starts_with (JsonEscape s @ quote # y # rest) (k @ [quote, CHR '':''])"
  using assms(2)
proof (induction s arbitrary: k)
  case Nil
  then show ?case using assms(1) by (cases k) auto
next
  case (Cons c s)
  then show ?case
  proof (cases k)
    case Nil
    then show ?thesis by (auto simp: escape_char_def)
  next
    case (Cons x k')
    then show ?thesis using Cons.IH [of k'] Cons.prems by (auto simp: escape_char_def)
  qed
qed

lemma other_name:
  assumes "list_all ident_char k" and "list_all ident_char n" and "n \<noteq> k"
  shows "\<not> starts_with (n @ quote # rest) (k @ [quote, CHR '':''])"
  using assms
proof (induction n arbitrary: k)
  case Nil
  then show ?case by (cases k) auto
next
  case (Cons c n)
  then show ?case by (cases k) auto
qed

text \<open>Skipping a stretch of text in which the pattern does not start.\<close>

fun no_start :: "bytes \<Rightarrow> bytes \<Rightarrow> bytes \<Rightarrow> bool" where
  "no_start p [] rest = True"
| "no_start p (c # u) rest \<longleftrightarrow> \<not> starts_with (c # u @ rest) p \<and> no_start p u rest"

lemma find_no_start: "no_start p u rest \<Longrightarrow> find_str p (u @ rest) = map_option ((+) (length u)) (find_str p rest)"
  by (induction u) (cases "find_str p rest"; auto)+

lemma no_start_append [simp]: "no_start p (u @ v) rest \<longleftrightarrow> no_start p u (v @ rest) \<and> no_start p v rest"
  by (induction u) auto

lemma no_start_no_quote: "quote \<notin> set u \<Longrightarrow> no_start (json_pattern k) u rest"
  by (induction u) (auto simp: json_pattern_def)

lemma no_start_escape:
  assumes "y \<noteq> CHR '':''" and "list_all ident_char k"
  shows "no_start (json_pattern k) (JsonEscape s) (quote # y # rest)"
proof (induction s)
  case (Cons c s)
  then show ?case using escape_no_name [OF assms, of s rest]
    by (auto simp: escape_char_def json_pattern_def)
qed simp

definition json_value_text :: "bytes \<Rightarrow> bool" where
  "json_value_text v \<longleftrightarrow> (\<exists>s. v = json_quoted s) \<or> quote \<notin> set v"

lemma no_start_value:
  assumes "json_value_text v" and "ident k" and y: "y \<noteq> CHR '':''" "\<not> ident_char y"
  shows "no_start (json_pattern k) v (y # rest)"
proof (cases "quote \<in> set v")
  case True
  then obtain s where v: "v = json_quoted s" using assms(1) by (auto simp: json_value_text_def)
  from assms(2) obtain x k' where k: "k = x # k'" "ident_char x" by (cases k) auto
  then have "y \<noteq> x" using y by auto
  then show ?thesis
    using no_start_escape [of y k s rest] escape_no_name [of y k s rest] assms(2) y k
    by (auto simp: v json_quoted_def json_pattern_def)
qed (rule no_start_no_quote)

lemma pattern_head [simp]: "c \<noteq> quote \<Longrightarrow> \<not> starts_with (c # r) (json_pattern k)"
  by (simp add: json_pattern_def)

text \<open>One line of the file: the search passes it, unless it is the field searched for.\<close>

lemma no_start_line:
  assumes "ident k" and "ident name" and "name \<noteq> k" and "json_value_text v"
    and "e \<in> {[CHR '','', newline], [newline]}"
  shows "no_start (json_pattern k) (json_line name v e) rest"
proof -
  obtain y e' where e: "e = y # e'" "y \<noteq> CHR '':''" "\<not> ident_char y" "quote \<notin> set e"
  proof (cases "e = [newline]")
    case True
    then show thesis using that [of newline "[]"] by simp
  next
    case False
    then show thesis using that [of "CHR '',''" "[newline]"] assms(5) by simp
  qed
  have "no_start (json_pattern k) v (e @ rest)" unfolding e(1) append_Cons
    by (rule no_start_value [OF assms(4,1) e(2,3)])
  moreover have "no_start (json_pattern k) e rest" by (rule no_start_no_quote [OF e(4)])
  moreover have "no_start (json_pattern k) (json_pattern name) ('' '' @ v @ e @ rest)"
  proof -
    define R where "R = '' '' @ v @ e @ rest"
    obtain x k' where k: "k = x # k'" "x \<noteq> CHR '':''"
    proof (cases k)
      case (Cons x k')
      with assms(1) have "ident_char x" by simp
      then have "x \<noteq> CHR '':''" using not_ident_char(3) by metis
      with Cons show thesis by (rule that)
    qed (use assms(1) in simp)
    have "quote \<notin> set name" using assms(2) by (auto simp: list_all_iff)
    then have "no_start (json_pattern k) name (quote # CHR '':'' # R)"
      by (rule no_start_no_quote)
    moreover have "\<not> starts_with (name @ quote # CHR '':'' # R) (k @ [quote, CHR '':''])"
      by (rule other_name) (use assms in auto)
    ultimately have "no_start (json_pattern k) (json_pattern name) R"
      unfolding json_pattern_def using k by simp
    then show ?thesis by (simp only: R_def)
  qed
  ultimately show ?thesis by (simp add: json_line_def no_start_no_quote)
qed

text \<open>The text behind the first occurrence of a pattern.\<close>

definition str_after :: "bytes \<Rightarrow> bytes \<Rightarrow> bytes option" where
  "str_after p s = map_option (\<lambda>pos. drop (pos + length p) s) (find_str p s)"

lemma str_after_no_start: "no_start p u rest \<Longrightarrow> str_after p (u @ rest) = str_after p rest"
  by (cases "find_str p rest") (simp_all add: str_after_def find_no_start)

lemma str_after_here: "str_after p (p @ rest) = Some rest"
proof (cases p)
  case (Cons x p')
  then have "find_str p (p @ rest) = Some 0" by (simp add: starts_with_def)
  then show ?thesis by (simp add: str_after_def)
qed (cases rest; simp add: str_after_def)

lemma json_tail_after: "json_tail json key = map_option (dropWhile ascii_isspace) (str_after (json_pattern key) json)"
  by (simp add: json_tail_def str_after_def option.map_comp comp_def)

definition json_items :: "(bytes \<times> bytes) list \<Rightarrow> bool" where
  "json_items items \<longleftrightarrow> distinct (map fst items) \<and> list_all (\<lambda>(n, v). ident n \<and> json_value_text v) items"

lemma json_lines_field:
  assumes "json_items items" and "(k, v) \<in> set items"
  shows "\<exists>rest. str_after (json_pattern k) (json_lines items @ end) = Some ('' '' @ v @ rest) \<and>
    rest \<noteq> [] \<and> hd rest \<in> {CHR '','', newline}"
  using assms
proof (induction items rule: json_lines.induct)
  case (2 name u)
  have "no_start (json_pattern k) ''  '' (json_pattern k @ '' '' @ v @ [newline] @ end)"
    by (rule no_start_no_quote) simp
  from str_after_no_start [OF this] show ?case using 2 by (simp add: json_line_def str_after_here)
next
  case (3 name u item items)
  have items: "json_items (item # items)" using 3(2) by (simp add: json_items_def)
  show ?case
  proof (cases "k = name")
    case True
    have "v = u" using 3(2,3) True by (auto simp: json_items_def image_iff)
    have "no_start (json_pattern k) ''  '' (json_pattern k @ '' '' @ v @ [CHR '','', newline] @ json_lines (item # items) @ end)"
      by (rule no_start_no_quote) simp
    from str_after_no_start [OF this] show ?thesis using True \<open>v = u\<close> by (simp add: json_line_def str_after_here)
  next
    case False
    then have kv: "(k, v) \<in> set (item # items)" using 3(3) by simp
    then have "ident k" using items by (auto simp: json_items_def list_all_iff)
    moreover have "ident name \<and> json_value_text u" using 3(2) by (simp add: json_items_def)
    ultimately have "no_start (json_pattern k) (json_line name u [CHR '','', newline]) (json_lines (item # items) @ end)"
      using False by (intro no_start_line) auto
    from str_after_no_start [OF this] 3(1) [OF items kv] show ?thesis by simp
  qed
qed simp

lemma json_file_field:
  assumes "json_items items" and "(k, v) \<in> set items" and "v \<noteq> []" and "\<not> ascii_isspace (hd v)"
  shows "\<exists>rest. json_tail (json_file items) k = Some (v @ rest) \<and> rest \<noteq> [] \<and> hd rest \<in> {CHR '','', newline}"
proof -
  have "no_start (json_pattern k) (''{'' @ [newline]) (json_lines items @ ''}'' @ [newline])"
    by (rule no_start_no_quote) simp
  from str_after_no_start [OF this] json_lines_field [OF assms(1,2), of "''}'' @ [newline]"]
  obtain rest where r: "str_after (json_pattern k) (json_file items) = Some ('' '' @ v @ rest)"
    "rest \<noteq> []" "hd rest \<in> {CHR '','', newline}"
    by (auto simp: json_file_def)
  have "ascii_isspace (CHR '' '')" by (simp add: ascii_isspace_def)
  then have "dropWhile ascii_isspace ('' '' @ v @ rest) = v @ rest"
    using assms(3,4) by (cases v) simp_all
  with r show ?thesis by (auto simp: json_tail_after)
qed

lemma ExtractJsonString_file:
  assumes "json_items items" and "(k, json_quoted s) \<in> set items"
  shows "ExtractJsonString (json_file items) k = s"
proof -
  have "\<not> ascii_isspace quote" by (simp add: ascii_isspace_def byte_def)
  with json_file_field [OF assms] obtain rest where "json_tail (json_file items) k = Some (json_quoted s @ rest)"
    by (auto simp: json_quoted_def)
  then show ?thesis by (simp add: ExtractJsonString_def json_quoted_def json_string_escape)
qed

lemma ExtractJsonBool_file:
  assumes "json_items items" and "(k, json_bool b) \<in> set items"
  shows "ExtractJsonBool (json_file items) k d = b"
proof -
  have "json_bool b \<noteq> []" "\<not> ascii_isspace (hd (json_bool b))"
    by (cases b; simp add: json_bool_def ascii_isspace_def byte_def)+
  from json_file_field [OF assms this] obtain rest where "json_tail (json_file items) k = Some (json_bool b @ rest)"
    by blast
  then show ?thesis by (simp add: ExtractJsonBool_def json_bool_def)
qed

lemma ExtractJsonInt_file:
  assumes "json_items items" and "(k, v) \<in> set items" and "v \<noteq> []" and "\<not> ascii_isspace (hd v)"
  shows "\<exists>rest. ExtractJsonInt conv (json_file items) k d = SimpleAtoi conv (v @ rest) d \<and>
    rest \<noteq> [] \<and> hd rest \<in> {CHR '','', newline}"
  using json_file_field [OF assms] by (auto simp: ExtractJsonInt_def)

section \<open>Saving and loading the configuration\<close>

text \<open>What abseil promises of a printed number that matters here: it is not empty, and made of digits and a
  sign.\<close>

definition prints_numbers :: "Conv \<Rightarrow> bool" where
  "prints_numbers conv \<longleftrightarrow> (\<forall>n. StrCat_int conv n \<noteq> [] \<and>
     list_all (\<lambda>c. c = CHR ''-'' \<or> 0x30 \<le> byte c \<and> byte c \<le> 0x39) (StrCat_int conv n))"

lemma prints_numbersD:
  assumes "prints_numbers conv"
  shows "json_value_text (StrCat_int conv n)" "StrCat_int conv n \<noteq> []" "\<not> ascii_isspace (hd (StrCat_int conv n))"
proof -
  have d: "StrCat_int conv n \<noteq> []" "\<And>c. c \<in> set (StrCat_int conv n) \<Longrightarrow> c = CHR ''-'' \<or> 0x30 \<le> byte c \<and> byte c \<le> 0x39"
    using assms by (auto simp: prints_numbers_def list_all_iff)
  have "quote \<notin> set (StrCat_int conv n)" using d(2) [of quote] by (auto simp: byte_def)
  then show "json_value_text (StrCat_int conv n)" by (simp add: json_value_text_def)
  show "StrCat_int conv n \<noteq> []" by (rule d)
  have "hd (StrCat_int conv n) = CHR ''-'' \<or> 0x30 \<le> byte (hd (StrCat_int conv n))"
    using d(2) [of "hd (StrCat_int conv n)"] d(1) by auto
  then show "\<not> ascii_isspace (hd (StrCat_int conv n))" by (auto simp: ascii_isspace_def byte_def)
qed

lemma json_value_texts [simp]: "json_value_text (json_quoted s)" "json_value_text (json_bool b)"
  by (auto simp: json_value_text_def json_bool_def)

definition config_items :: "Conv \<Rightarrow> UserSyncConfig \<Rightarrow> SyncFingerprintSnapshot \<Rightarrow> (bytes \<times> bytes) list" where
  "config_items conv c b =
     [(''enabled'', json_bool (enabled c)),
      (''sync_file_path'', json_quoted (sync_file_path c)),
      (''sync_dictionary'', json_bool (sync_dictionary c)),
      (''sync_history'', json_bool (sync_history c)),
      (''direction'', StrCat_int conv (direction c)),
      (''auto_sync_mode'', StrCat_int conv (auto_sync_mode c)),
      (''auto_sync_interval_minutes'', StrCat_int conv (auto_sync_interval_minutes c)),
      (''last_sync_time'', json_quoted (last_sync_time c)),
      (''last_sync_status'', json_quoted (last_sync_status c)),
      (''last_sync_message'', json_quoted (last_sync_message c)),
      (''device_id'', json_quoted (device_id c)),
      (''sync_cooldown_seconds'', StrCat_int conv (sync_cooldown_seconds c)),
      (''last_remote_bundle_sha256'', json_quoted (remote_bundle_sha256 b)),
      (''last_local_data_sha256'', json_quoted (local_data_sha256 b))]"

lemma config_json_items: "config_json conv c b = json_file (config_items conv c b)"
  by (simp add: config_json_def config_items_def)

lemma config_items_ok: "prints_numbers conv \<Longrightarrow> json_items (config_items conv c b)"
  by (simp add: json_items_def config_items_def prints_numbersD ident_char_def byte_def)

lemma config_items_mem:
  "(''enabled'', json_bool (enabled c)) \<in> set (config_items conv c b)"
  "(''sync_file_path'', json_quoted (sync_file_path c)) \<in> set (config_items conv c b)"
  "(''sync_dictionary'', json_bool (sync_dictionary c)) \<in> set (config_items conv c b)"
  "(''sync_history'', json_bool (sync_history c)) \<in> set (config_items conv c b)"
  "(''direction'', StrCat_int conv (direction c)) \<in> set (config_items conv c b)"
  "(''auto_sync_mode'', StrCat_int conv (auto_sync_mode c)) \<in> set (config_items conv c b)"
  "(''auto_sync_interval_minutes'', StrCat_int conv (auto_sync_interval_minutes c)) \<in> set (config_items conv c b)"
  "(''sync_cooldown_seconds'', StrCat_int conv (sync_cooldown_seconds c)) \<in> set (config_items conv c b)"
  "(''last_sync_time'', json_quoted (last_sync_time c)) \<in> set (config_items conv c b)"
  "(''last_sync_status'', json_quoted (last_sync_status c)) \<in> set (config_items conv c b)"
  "(''last_sync_message'', json_quoted (last_sync_message c)) \<in> set (config_items conv c b)"
  "(''device_id'', json_quoted (device_id c)) \<in> set (config_items conv c b)"
  "(''last_remote_bundle_sha256'', json_quoted (remote_bundle_sha256 b)) \<in> set (config_items conv c b)"
  "(''last_local_data_sha256'', json_quoted (local_data_sha256 b)) \<in> set (config_items conv c b)"
  by (simp_all add: config_items_def)

text \<open>What the code reads for a number \<open>n\<close> it has written: the value \<open>SimpleAtoi\<close> leaves when the number is
  followed by more text. Whether that is \<open>n\<close> is up to the conversion, which fails on such a text.\<close>

definition number_read :: "Conv \<Rightarrow> int \<Rightarrow> int \<Rightarrow> int \<Rightarrow> bool" where
  "number_read conv n d v \<longleftrightarrow> (\<exists>rest. v = SimpleAtoi conv (StrCat_int conv n @ rest) d \<and>
     rest \<noteq> [] \<and> hd rest \<in> {CHR '','', newline})"

definition leaves_number :: "Conv \<Rightarrow> int \<Rightarrow> bool" where
  "leaves_number conv n \<longleftrightarrow> (\<forall>rest d. rest \<noteq> [] \<and> hd rest \<in> {CHR '','', newline} \<longrightarrow>
     SimpleAtoi conv (StrCat_int conv n @ rest) d = n)"

lemma number_read_left: "number_read conv n d v \<Longrightarrow> leaves_number conv n \<Longrightarrow> v = n"
  by (auto simp: number_read_def leaves_number_def)

lemma ExtractJsonInt_number:
  assumes "prints_numbers conv" and "(k, StrCat_int conv n) \<in> set (config_items conv c b)"
  shows "number_read conv n d (ExtractJsonInt conv (config_json conv c b) k d)"
  using ExtractJsonInt_file [OF config_items_ok [OF assms(1)] assms(2) prints_numbersD(2,3) [OF assms(1)], of conv d]
  by (simp add: number_read_def config_json_items)

lemma parse_config_numbers:
  assumes conv: "prints_numbers conv" and json: "json = config_json conv c b"
  shows "number_read conv (direction c) BIDIRECTIONAL (direction (parse_config conv json))"
    "number_read conv (auto_sync_mode c) 0 (auto_sync_mode (parse_config conv json))"
    "number_read conv (auto_sync_interval_minutes c) 30 (auto_sync_interval_minutes (parse_config conv json))"
    "number_read conv (sync_cooldown_seconds c) 60 (sync_cooldown_seconds (parse_config conv json))"
  by (simp_all add: parse_config_def json ExtractJsonInt_number [OF conv] config_items_mem)

lemma parse_config_json:
  assumes conv: "prints_numbers conv" and json: "json = config_json conv c b"
  shows "enabled (parse_config conv json) = enabled c"
    "sync_file_path (parse_config conv json) = sync_file_path c"
    "sync_dictionary (parse_config conv json) = sync_dictionary c"
    "sync_history (parse_config conv json) = sync_history c"
    "last_sync_time (parse_config conv json) = last_sync_time c"
    "last_sync_status (parse_config conv json) = last_sync_status c"
    "last_sync_message (parse_config conv json) = last_sync_message c"
    "device_id (parse_config conv json) = device_id c"
    "ExtractJsonString json ''last_remote_bundle_sha256'' = remote_bundle_sha256 b"
    "ExtractJsonString json ''last_local_data_sha256'' = local_data_sha256 b"
  by (simp_all add: json config_json_items parse_config_def config_items_mem
      ExtractJsonString_file [OF config_items_ok [OF conv]] ExtractJsonBool_file [OF config_items_ok [OF conv]])

text \<open>The four numbers of a configuration \<open>l\<close> read from the file of a configuration \<open>c\<close>.\<close>

definition numbers_read :: "Conv \<Rightarrow> UserSyncConfig \<Rightarrow> UserSyncConfig \<Rightarrow> bool" where
  "numbers_read conv c l \<longleftrightarrow>
     number_read conv (direction c) BIDIRECTIONAL (direction l) \<and>
     number_read conv (auto_sync_mode c) 0 (auto_sync_mode l) \<and>
     number_read conv (auto_sync_interval_minutes c) 30 (auto_sync_interval_minutes l) \<and>
     number_read conv (sync_cooldown_seconds c) 60 (sync_cooldown_seconds l)"

definition numbers_kept :: "Conv \<Rightarrow> UserSyncConfig \<Rightarrow> UserSyncConfig \<Rightarrow> bool" where
  "numbers_kept conv c l \<longleftrightarrow>
     (leaves_number conv (direction c) \<longrightarrow> direction l = direction c) \<and>
     (leaves_number conv (auto_sync_mode c) \<longrightarrow> auto_sync_mode l = auto_sync_mode c) \<and>
     (leaves_number conv (auto_sync_interval_minutes c) \<longrightarrow>
        auto_sync_interval_minutes l = auto_sync_interval_minutes c) \<and>
     (leaves_number conv (sync_cooldown_seconds c) \<longrightarrow> sync_cooldown_seconds l = sync_cooldown_seconds c)"

lemma numbers_kept_once: "numbers_read conv c l \<Longrightarrow> numbers_kept conv c l"
  unfolding numbers_read_def numbers_kept_def using number_read_left by blast

lemma numbers_kept_twice: "numbers_read conv c l \<Longrightarrow> numbers_read conv l m \<Longrightarrow> numbers_kept conv c m"
  unfolding numbers_read_def numbers_kept_def using number_read_left by metis

text \<open>C24: After a save and a load, when the file was written as a whole, the strings of the configuration come
  back whatever characters they have (quotes, backslashes, line ends and text that looks like a field
  name included), and so do the switches and the fingerprints of the last synchronisation, which saving
  a configuration keeps and saving fingerprints replaces; the device keeps its number, or is given one.
  The direction, the mode, the interval and the cooldown are read back from a text that goes on behind
  the number, on which \<open>SimpleAtoi\<close> fails: they survive both saves when it leaves the number at the start
  of the text all the same, which Abseil does not promise.\<close>

theorem SaveSyncConfig_LoadSyncConfig:
  assumes "prints_numbers conv" and "rnd \<noteq> []"
    and "SaveSyncConfig conv rnd fs c p = (OkStatus, p1)" and "SaveSyncBaselines conv rnd fs b p1 = (OkStatus, p2)"
    and "writes_all fs"
  shows "LoadSyncBaselines p1 = LoadSyncBaselines p \<and> LoadSyncBaselines p2 = b \<and>
    (\<forall>q l. (q = p1 \<or> q = p2) \<and> l = LoadSyncConfig conv rnd q \<longrightarrow>
      enabled l = enabled c \<and> sync_dictionary l = sync_dictionary c \<and> sync_history l = sync_history c \<and>
      sync_file_path l = sync_file_path c \<and> last_sync_time l = last_sync_time c \<and>
      last_sync_status l = last_sync_status c \<and> last_sync_message l = last_sync_message c \<and>
      device_id l = device_id (EnsureDeviceId rnd c) \<and> device_id l \<noteq> [] \<and> has_sync_key l = HasStoredSyncKey p \<and>
      numbers_kept conv c l) \<and>
    numbers_read conv c (LoadSyncConfig conv rnd p1)"
proof -
  define c1 where "c1 = EnsureDeviceId rnd c"
  define j1 where "j1 = config_json conv c1 (LoadSyncBaselines p)"
  have p1: "p1 = p\<lparr>sync_conf := Some j1\<rparr>"
    using assms(3,5) by (auto simp: SaveSyncConfig_def write_config_def write_file_def writes_all_def j1_def c1_def
        split: FsOutcome.splits if_splits option.splits)
  define l1 where "l1 = LoadSyncConfig conv rnd p1"
  define j2 where "j2 = config_json conv (EnsureDeviceId rnd l1) b"
  have p2: "p2 = p1\<lparr>sync_conf := Some j2\<rparr>"
    using assms(4,5) by (auto simp: SaveSyncBaselines_def write_config_def write_file_def writes_all_def j2_def l1_def
        split: FsOutcome.splits if_splits option.splits)
  have dev: "device_id (EnsureDeviceId rnd x) \<noteq> []" for x using assms(2) by (simp add: EnsureDeviceId_def)
  have keep: "EnsureDeviceId rnd x = x" if "device_id x \<noteq> []" for x using that by (simp add: EnsureDeviceId_def)
  note P1 = parse_config_json [OF assms(1) j1_def] and P2 = parse_config_json [OF assms(1) j2_def]
  have L1: "l1 = (parse_config conv j1)\<lparr>has_sync_key := HasStoredSyncKey p\<rparr>"
    using dev [of c] P1(8) by (simp add: l1_def LoadSyncConfig_def p1 keep c1_def HasStoredSyncKey_def LoadSyncKey_def)
  then have "device_id l1 \<noteq> []" using dev [of c] P1(8) by (simp add: c1_def)
  then have L2: "LoadSyncConfig conv rnd p2 = (parse_config conv j2)\<lparr>has_sync_key := HasStoredSyncKey p\<rparr>"
    using P2(8) by (simp add: LoadSyncConfig_def p2 p1 keep HasStoredSyncKey_def LoadSyncKey_def)
  have e: "enabled c1 = enabled c" "sync_dictionary c1 = sync_dictionary c" "sync_history c1 = sync_history c"
    "sync_file_path c1 = sync_file_path c" "last_sync_time c1 = last_sync_time c" "last_sync_status c1 = last_sync_status c"
    "last_sync_message c1 = last_sync_message c"
    by (simp_all add: c1_def EnsureDeviceId_def)
  have l1: "enabled l1 = enabled c" "sync_dictionary l1 = sync_dictionary c" "sync_history l1 = sync_history c"
    "sync_file_path l1 = sync_file_path c" "last_sync_time l1 = last_sync_time c" "last_sync_status l1 = last_sync_status c"
    "last_sync_message l1 = last_sync_message c" "device_id l1 = device_id c1" "has_sync_key l1 = HasStoredSyncKey p"
    by (simp_all add: L1 P1(1-8) e)
  have l2: "enabled (LoadSyncConfig conv rnd p2) = enabled c" "sync_dictionary (LoadSyncConfig conv rnd p2) = sync_dictionary c"
    "sync_history (LoadSyncConfig conv rnd p2) = sync_history c" "sync_file_path (LoadSyncConfig conv rnd p2) = sync_file_path c"
    "last_sync_time (LoadSyncConfig conv rnd p2) = last_sync_time c"
    "last_sync_status (LoadSyncConfig conv rnd p2) = last_sync_status c"
    "last_sync_message (LoadSyncConfig conv rnd p2) = last_sync_message c" "device_id (LoadSyncConfig conv rnd p2) = device_id c1"
    "has_sync_key (LoadSyncConfig conv rnd p2) = HasStoredSyncKey p"
    by (simp_all add: L2 P2(1-8) keep [OF \<open>device_id l1 \<noteq> []\<close>] l1)
  have "direction c1 = direction c" "auto_sync_mode c1 = auto_sync_mode c"
    "auto_sync_interval_minutes c1 = auto_sync_interval_minutes c" "sync_cooldown_seconds c1 = sync_cooldown_seconds c"
    by (simp_all add: c1_def EnsureDeviceId_def)
  then have n1: "numbers_read conv c l1"
    using parse_config_numbers [OF assms(1) j1_def] by (simp add: numbers_read_def L1)
  have "numbers_read conv l1 (LoadSyncConfig conv rnd p2)"
    using parse_config_numbers [OF assms(1) j2_def]
    by (simp add: numbers_read_def L2 keep [OF \<open>device_id l1 \<noteq> []\<close>])
  then have kept: "numbers_kept conv c l1" "numbers_kept conv c (LoadSyncConfig conv rnd p2)"
    using numbers_kept_once [OF n1] numbers_kept_twice [OF n1] by simp_all
  have both: "enabled l = enabled c \<and> sync_dictionary l = sync_dictionary c \<and> sync_history l = sync_history c \<and>
      sync_file_path l = sync_file_path c \<and> last_sync_time l = last_sync_time c \<and>
      last_sync_status l = last_sync_status c \<and> last_sync_message l = last_sync_message c \<and>
      device_id l = device_id (EnsureDeviceId rnd c) \<and> device_id l \<noteq> [] \<and> has_sync_key l = HasStoredSyncKey p \<and> numbers_kept conv c l"
    if "l = l1 \<or> l = LoadSyncConfig conv rnd p2" for l
    using that
  proof
    assume "l = l1"
    then show ?thesis using l1 kept(1) dev [of c] unfolding c1_def by simp
  next
    assume "l = LoadSyncConfig conv rnd p2"
    then show ?thesis using l2 kept(2) dev [of c] unfolding c1_def by simp
  qed
  have "LoadSyncBaselines p1 = LoadSyncBaselines p" unfolding p1 by (subst LoadSyncBaselines_def) (simp add: P1(9,10))
  moreover have "LoadSyncBaselines p2 = b" by (simp add: LoadSyncBaselines_def p2 P2(9,10))
  moreover note n1
  ultimately show ?thesis using both unfolding l1_def by blast
qed

text \<open>A conversion that prints decimal digits and reads the digits at the start of a text.\<close>

function decimal :: "nat \<Rightarrow> bytes" where
  "decimal n = (if n < 10 then [] else decimal (n div 10)) @ [char_of (0x30 + n mod 10)]"
  by pat_completeness auto
termination by (relation "measure id") auto

declare decimal.simps [simp del]

definition decimal_conv :: Conv where
  "decimal_conv =
     \<lparr>StrCat_int = \<lambda>n. (if n < 0 then ''-'' else []) @ decimal (nat \<bar>n\<bar>),
      SimpleAtoi = \<lambda>s d. foldl (\<lambda>v c. v * 10 + int (byte c - 0x30)) 0
        (takeWhile (\<lambda>c. 0x30 \<le> byte c \<and> byte c \<le> 0x39) s)\<rparr>"

lemma decimal_digits: "decimal n \<noteq> [] \<and> list_all (\<lambda>c. 0x30 \<le> byte c \<and> byte c \<le> 0x39) (decimal n)"
proof (induction n rule: decimal.induct)
  case (1 n)
  have "48 + n mod 10 \<le> 57" by linarith
  then show ?case using 1 by (subst (1 2) decimal.simps) simp
qed

lemma decimal_conv_prints: "prints_numbers decimal_conv"
proof -
  have "list_all (\<lambda>c. c = CHR ''-'' \<or> 0x30 \<le> byte c \<and> byte c \<le> 0x39) (decimal n)" for n
    using decimal_digits [of n] by (auto simp: list_all_iff)
  then show ?thesis using decimal_digits by (auto simp: prints_numbers_def decimal_conv_def)
qed

lemma decimal_conv_leaves: "leaves_number decimal_conv 30"
proof -
  have "decimal 30 = ''30''"
    by (simp add: decimal.simps [of 30] decimal.simps [of 3] char_of_def bit_iff_odd)
  moreover have "takeWhile (\<lambda>c. 0x30 \<le> byte c \<and> byte c \<le> 0x39) rest = []"
    if "rest \<noteq> []" "hd rest \<in> {CHR '','', newline}" for rest
    using that by (cases rest) (auto simp: byte_def)
  ultimately show ?thesis by (auto simp: leaves_number_def decimal_conv_def byte_def)
qed

definition empty_Profile :: Profile where
  "empty_Profile = \<lparr>sync_conf = None, sync_status_json = None, sync_activity_json = None, sync_key_file = None,
     tombstones_file = None, sync_bundle = None\<rparr>"

theorem SaveSyncConfig_LoadSyncConfig_witness:
  "let c = default_UserSyncConfig\<lparr>sync_file_path := ''a'' @ [quote, backslash, newline] @ ''b''\<rparr>;
       b = \<lparr>remote_bundle_sha256 = ''12'', local_data_sha256 = ''34''\<rparr>;
       p1 = snd (SaveSyncConfig decimal_conv ''id'' (Fs_Rename None OkStatus) c empty_Profile);
       p2 = snd (SaveSyncBaselines decimal_conv ''id'' (Fs_Rename None OkStatus) b p1)
   in sync_file_path (LoadSyncConfig decimal_conv ''id'' p2) = sync_file_path c \<and> LoadSyncBaselines p2 = b \<and>
      auto_sync_interval_minutes (LoadSyncConfig decimal_conv ''id'' p2) = 30"
proof -
  define c where "c = default_UserSyncConfig\<lparr>sync_file_path := ''a'' @ [quote, backslash, newline] @ ''b''\<rparr>"
  define b where "b = \<lparr>remote_bundle_sha256 = ''12'', local_data_sha256 = ''34''\<rparr>"
  obtain p1 where p1: "SaveSyncConfig decimal_conv ''id'' (Fs_Rename None OkStatus) c empty_Profile = (OkStatus, p1)"
    by (simp add: SaveSyncConfig_def write_config_def write_file_def)
  obtain p2 where p2: "SaveSyncBaselines decimal_conv ''id'' (Fs_Rename None OkStatus) b p1 = (OkStatus, p2)"
    by (simp add: SaveSyncBaselines_def write_config_def write_file_def)
  from SaveSyncConfig_LoadSyncConfig [OF decimal_conv_prints _ p1 p2]
  have "sync_file_path (LoadSyncConfig decimal_conv ''id'' p2) = sync_file_path c \<and> LoadSyncBaselines p2 = b \<and>
      numbers_kept decimal_conv c (LoadSyncConfig decimal_conv ''id'' p2)"
    by (simp add: writes_all_def)
  moreover have "auto_sync_interval_minutes c = 30" by (simp add: c_def default_UserSyncConfig_def)
  ultimately have "sync_file_path (LoadSyncConfig decimal_conv ''id'' p2) = sync_file_path c \<and> LoadSyncBaselines p2 = b \<and>
      auto_sync_interval_minutes (LoadSyncConfig decimal_conv ''id'' p2) = 30"
    using decimal_conv_leaves by (simp add: numbers_kept_def)
  then show ?thesis unfolding c_def [symmetric] b_def [symmetric] using p1 p2 by (simp add: Let_def)
qed

end
