(* ===== verification/User_Dict.thy ===== *)
theory User_Dict
  imports Util_Text Sync_Json
begin

text \<open>
  The user dictionary: importing words from text files of several input methods
  (\<open>dictionary/user_dictionary_importer.cc\<close>, with \<open>Util::SplitCSV\<close>), validation
  (\<open>dictionary/user_dictionary_util.cc\<close>) and the storage with its dictionaries
  (\<open>dictionary/user_dictionary_storage.cc\<close>). The tables of parts of speech, which the build generates,
  and the conversions of \<open>base/strings/japanese.cc\<close> are parameters, as is the hash of an entry.
\<close>

section \<open>Data\<close>

datatype IMEType = IME_AUTO_DETECT | MOZC | MSIME | ATOK | KOTOERI | GBOARD_V1 | NUM_IMES

datatype EncodingType = ENCODING_AUTO_DETECT | Encoding_UTF8 | Encoding_UTF16 | SHIFT_JIS | NUM_ENCODINGS

datatype ExtendedErrorCode =
    Ext_OK | UNKNOWN_ERROR | FILE_NOT_FOUND | INVALID_FILE_FORMAT | FILE_SIZE_LIMIT_EXCEEDED
  | DICTIONARY_SIZE_LIMIT_EXCEEDED | ENTRY_SIZE_LIMIT_EXCEEDED | UNKNOWN_DICTIONARY_ID
  | ENTRY_INDEX_OUT_OF_RANGE | DICTIONARY_NAME_EMPTY | DICTIONARY_NAME_TOO_LONG
  | DICTIONARY_NAME_CONTAINS_INVALID_CHARACTER | DICTIONARY_NAME_DUPLICATED | READING_EMPTY
  | READING_TOO_LONG | READING_CONTAINS_INVALID_CHARACTER | WORD_EMPTY | WORD_TOO_LONG
  | WORD_CONTAINS_INVALID_CHARACTER | INVALID_POS_TYPE | COMMENT_TOO_LONG
  | COMMENT_CONTAINS_INVALID_CHARACTER | IMPORT_TOO_MANY_WORDS | IMPORT_NOT_SUPPORTED
  | IMPORT_INVALID_ENTRIES | IMPORT_FATAL | IMPORT_UNKNOWN_ERROR

record RawEntry =
  raw_key :: bytes
  raw_value :: bytes
  raw_pos :: bytes
  raw_comment :: bytes

text \<open>An entry of the protocol buffer; \<open>None\<close> is a part of speech that is not set, which reads as NOUN.\<close>

record UdEntry =
  ud_key :: bytes
  ud_value :: bytes
  ud_comment :: bytes
  ud_pos :: "int option"
  ud_locale :: bytes

definition get_pos :: "UdEntry \<Rightarrow> int" where
  "get_pos e = (case ud_pos e of None \<Rightarrow> 1 | Some p \<Rightarrow> p)"

definition PosType_IsValid :: "int \<Rightarrow> bool" where
  "PosType_IsValid p \<longleftrightarrow> 0 \<le> p \<and> p \<le> 44"

record UserDictionary =
  dict_id :: "64 word"
  dict_name :: bytes
  entries :: "UdEntry list"

text \<open>Generated tables and conversions: names and costs of the parts of speech, the map from the names
  other input methods use, the rules of \<open>base/strings/japanese.cc\<close>, abseil's number reader and hash.\<close>

record DictEnv =
  kPosTypeStringTable :: "(bytes \<times> nat) list"
  kPosMap :: "bytes \<Rightarrow> int option"
  jp_full_to_half :: "bytes \<Rightarrow> bytes"
  jp_half_kana_to_full :: "bytes \<Rightarrow> bytes"
  jp_kata_to_hira :: "bytes \<Rightarrow> bytes"
  atoi :: "bytes \<Rightarrow> int option"
  hash3 :: "bytes \<times> bytes \<times> int \<Rightarrow> nat"
  hash4 :: "bytes \<times> bytes \<times> int \<times> bytes \<Rightarrow> nat"

section \<open>Lines\<close>

text \<open>The state of \<open>StringTextLineIterator\<close> is the rest of the text; it is available when that is not empty.\<close>

fun next_line :: "bytes \<Rightarrow> bytes \<times> bytes" where
  "next_line [] = ([], [])"
| "next_line (c # cs) =
     (if c = newline then ([], cs)
      else if c = return then ([], if starts_with cs [newline] then tl cs else cs)
      else (case next_line cs of (line, rest) \<Rightarrow> (c # line, rest)))"

lemma next_line_length: "s \<noteq> [] \<Longrightarrow> length (snd (next_line s)) < length s"
proof (induction s)
  case (Cons c cs)
  then show ?case by (cases "cs = []") (auto split: prod.splits simp: less_Suc_eq)
qed simp

definition ChopReturns :: "bytes \<Rightarrow> bytes" where
  "ChopReturns line = rev (dropWhile (\<lambda>c. c = return \<or> c = newline) (rev line))"

definition NumberUtil_SimpleAtoi :: "DictEnv \<Rightarrow> bytes \<Rightarrow> int" where
  "NumberUtil_SimpleAtoi env s = (case atoi env s of None \<Rightarrow> 0 | Some n \<Rightarrow> n)"

definition GuessIMEType :: "DictEnv \<Rightarrow> bytes \<Rightarrow> IMEType" where
  "GuessIMEType env line =
     (if line = [] then NUM_IMES
      else let lower = LowerString line
        in if starts_with lower ''!microsoft ime'' then MSIME
           else if starts_with lower ''!!dicut'' \<and> length lower > 7
           then (if NumberUtil_SimpleAtoi env (drop 7 lower) \<ge> 11 then ATOK else NUM_IMES)
           else if starts_with lower ''!!atok_tango_text_header'' then ATOK
           else if hd line = quote \<and> last line = quote \<and> CHR 0x09 \<notin> set line then KOTOERI
           else if starts_with lower ''# gboard dictionary version:1'' then GBOARD_V1
           else if hd line = CHR ''#'' \<or> CHR 0x09 \<in> set line then MOZC
           else NUM_IMES)"

definition DetermineFinalIMEType :: "IMEType \<Rightarrow> IMEType \<Rightarrow> IMEType" where
  "DetermineFinalIMEType user_ime_type guessed_ime_type =
     (if user_ime_type = IME_AUTO_DETECT then guessed_ime_type
      else if user_ime_type = MOZC then (if guessed_ime_type \<noteq> KOTOERI then user_ime_type else NUM_IMES)
      else if guessed_ime_type = user_ime_type then user_ime_type else NUM_IMES)"

section \<open>Comma separated values\<close>

text \<open>
  \<open>Util::SplitCSV\<close> walks over a copy of the input that ends in a zero byte and compacts a quoted field in
  place. Writing never overtakes reading, so what is read is the input; \<open>at\<close> reads it, positions are
  indices into it, and a quoted field is the bytes written and the position behind the closing quote.
\<close>

definition at :: "bytes \<Rightarrow> nat \<Rightarrow> char" where
  "at s i = (if i < length s then s ! i else CHR 0x00)"

function skip_blanks :: "bytes \<Rightarrow> nat \<Rightarrow> nat" where
  "skip_blanks s i = (if at s i = CHR '' '' \<or> at s i = CHR 0x09 then skip_blanks s (Suc i) else i)"
  by pat_completeness auto
termination
  by (relation "measure (\<lambda>(s, i). length s - i)") (auto simp: at_def split: if_splits)

function find_comma :: "bytes \<Rightarrow> nat \<Rightarrow> nat" where
  "find_comma s i = (if i \<ge> length s \<or> s ! i = CHR '','' then i else find_comma s (Suc i))"
  by pat_completeness auto
termination by (relation "measure (\<lambda>(s, i). length s - i)") auto

function quoted_field :: "bytes \<Rightarrow> nat \<Rightarrow> bytes \<times> nat" where
  "quoted_field s i =
     (if i \<ge> length s then ([], i)
      else if s ! i = quote \<and> at s (Suc i) \<noteq> quote then ([], Suc i)
      else let i = (if s ! i = quote then Suc i else i);
               (field, j) = quoted_field s (Suc i)
           in (at s i # field, j))"
  by pat_completeness auto
termination by (relation "measure (\<lambda>(s, i). length s - i)") auto

declare skip_blanks.simps [simp del] find_comma.simps [simp del] quoted_field.simps [simp del]

lemma find_comma_ge: "i \<le> find_comma s i"
  by (induction s i rule: find_comma.induct) (subst find_comma.simps, auto)

lemma skip_blanks_ge: "i \<le> skip_blanks s i"
  by (induction s i rule: skip_blanks.induct) (subst skip_blanks.simps, auto)

lemma quoted_field_ge: "i \<le> snd (quoted_field s i)"
proof (induction s i rule: quoted_field.induct)
  case (1 s i)
  then show ?case by (subst quoted_field.simps) (auto simp: Let_def split: prod.splits)
qed

text \<open>One round of the main loop: the bytes of the field, the positions of its end and of the comma.\<close>

definition csv_field :: "bytes \<Rightarrow> nat \<Rightarrow> bytes \<times> nat \<times> nat" where
  "csv_field s i =
     (let i = skip_blanks s i
      in if at s i = quote
         then (case quoted_field s (Suc i) of
                 (field, j) \<Rightarrow> (field, Suc i + length field, find_comma s j))
         else let j = find_comma s i in (take (j - i) (drop i s), j, j))"

lemma csv_field_ge: "i \<le> snd (snd (csv_field s i))"
  using find_comma_ge [of "skip_blanks s i" s] skip_blanks_ge [of i s] quoted_field_ge [of "Suc (skip_blanks s i)" s]
    find_comma_ge [of "snd (quoted_field s (Suc (skip_blanks s i)))" s]
  by (auto simp: csv_field_def Let_def split: prod.splits)

function split_csv_from :: "bytes \<Rightarrow> nat \<Rightarrow> bytes list" where
  "split_csv_from s i =
     (if i \<ge> length s then []
      else (case csv_field s i of
              (field, end', j) \<Rightarrow>
                field # (if at s end' = CHR '','' \<and> Suc end' = length s then [[]] else []) @ split_csv_from s (Suc j)))"
  by pat_completeness auto
termination
proof (relation "measure (\<lambda>(s, i). length s - i)", goal_cases)
  case (2 s i x y z w)
  then have "i \<le> w" using csv_field_ge [of i s] by (metis snd_conv)
  with 2 show ?case by auto
qed simp

declare split_csv_from.simps [simp del]

definition SplitCSV :: "bytes \<Rightarrow> bytes list" where
  "SplitCSV s = split_csv_from s 0"

section \<open>Reading entries\<close>

definition is_comment_line :: "IMEType \<Rightarrow> bytes \<Rightarrow> bool" where
  "is_comment_line ty line \<longleftrightarrow>
     (ty = MSIME \<or> ty = ATOK) \<and> hd line = CHR ''!'' \<or>
     (ty = MOZC \<or> ty = GBOARD_V1) \<and> hd line = CHR ''#'' \<or>
     ty = KOTOERI \<and> starts_with line ''//''"

text \<open>The bytes of \<open>NO_POS\<close>'s name and a colon, for entries of Gboard.\<close>

definition no_pos_prefix :: bytes where
  "no_pos_prefix = map char_of [0xE5, 0x93, 0x81, 0xE8, 0xA9, 0x9E, 0xE3, 0x81, 0xAA, 0xE3, 0x81, 0x97, 0x3A :: nat]"

definition parse_entry_line :: "IMEType \<Rightarrow> bytes \<Rightarrow> RawEntry option" where
  "parse_entry_line ty line =
     (let values = (if ty = KOTOERI then SplitCSV line else StrSplit (CHR 0x09) line)
      in if length values < 3 then None
         else Some \<lparr>raw_key = values ! 0, raw_value = values ! 1,
                    raw_pos = (if ty = GBOARD_V1 then no_pos_prefix @ values ! 2 else values ! 2),
                    raw_comment = (if ty \<noteq> KOTOERI \<and> length values \<ge> 4 then values ! 3 else [])\<rparr>)"

definition TextInputIterator_type :: "DictEnv \<Rightarrow> IMEType \<Rightarrow> bytes \<Rightarrow> IMEType" where
  "TextInputIterator_type env ty data =
     (if data = [] then NUM_IMES else DetermineFinalIMEType ty (GuessIMEType env (fst (next_line data))))"

function TextInputIterator_Next :: "IMEType \<Rightarrow> bytes \<Rightarrow> (RawEntry \<times> bytes) option" where
  "TextInputIterator_Next ty rest =
     (if rest = [] \<or> ty = IME_AUTO_DETECT \<or> ty = NUM_IMES then None
      else let line = ChopReturns (fst (next_line rest)); rest' = snd (next_line rest)
        in if line = [] \<or> is_comment_line ty line then TextInputIterator_Next ty rest'
           else (case parse_entry_line ty line of
                   None \<Rightarrow> TextInputIterator_Next ty rest'
                 | Some e \<Rightarrow> Some (e, rest')))"
  by pat_completeness auto
termination by (relation "measure (\<lambda>(ty, s). length s)") (auto simp: next_line_length)

declare TextInputIterator_Next.simps [simp del]

lemma TextInputIterator_Next_length: "TextInputIterator_Next ty rest = Some (e, rest') \<Longrightarrow> length rest' < length rest"
proof (induction ty rest rule: TextInputIterator_Next.induct)
  case (1 ty rest)
  from "1.prems" show ?case
    by (subst (asm) TextInputIterator_Next.simps)
      (use "1.IH" next_line_length [of rest] in
        \<open>auto simp: Let_def split: if_splits option.splits; blast intro: less_trans\<close>)
qed

text \<open>What a loop over \<open>Next\<close> sees.\<close>

function raw_entries :: "IMEType \<Rightarrow> bytes \<Rightarrow> RawEntry list" where
  "raw_entries ty rest =
     (case TextInputIterator_Next ty rest of None \<Rightarrow> [] | Some (e, rest') \<Rightarrow> e # raw_entries ty rest')"
  by pat_completeness auto
termination by (relation "measure (\<lambda>(ty, s). length s)") (auto dest: TextInputIterator_Next_length)

declare raw_entries.simps [simp del]

section \<open>Validation\<close>

text \<open>\<open>Utf8AsUnicodeChar\<close>: each character with its decoding; \<open>strings::IsValidUtf8\<close> walks the same way.\<close>

function AsUnicodeChar :: "bytes \<Rightarrow> (decode_result \<times> bytes) list" where
  "AsUnicodeChar s =
     (if s = [] then []
      else (Decode s, take (bytes_seen (Decode s)) s) # AsUnicodeChar (drop (bytes_seen (Decode s)) s))"
  by pat_completeness auto
termination by (relation "measure length") auto

function strings_IsValidUtf8 :: "bytes \<Rightarrow> bool" where
  "strings_IsValidUtf8 s =
     (if s = [] then True else ok (Decode s) \<and> strings_IsValidUtf8 (drop (bytes_seen (Decode s)) s))"
  by pat_completeness auto
termination by (relation "measure length") auto

declare AsUnicodeChar.simps [simp del] strings_IsValidUtf8.simps [simp del]

definition kMaxStringSize :: nat where "kMaxStringSize = 300"

definition IsTooLongString :: "bytes \<Rightarrow> bool" where
  "IsTooLongString str \<longleftrightarrow> length str > kMaxStringSize"

definition ContainsInvalidChars :: "bytes \<Rightarrow> bool" where
  "ContainsInvalidChars str \<longleftrightarrow>
     (\<exists>c \<in> set str. c = newline \<or> c = return \<or> c = CHR 0x09) \<or> \<not> strings_IsValidUtf8 str"

definition NormalizeReading :: "DictEnv \<Rightarrow> bytes \<Rightarrow> bytes" where
  "NormalizeReading env input = jp_kata_to_hira env (jp_half_kana_to_full env (jp_full_to_half env input))"

definition InternalValidateNormalizedReading :: "bytes \<Rightarrow> bool" where
  "InternalValidateNormalizedReading reading =
     list_all (\<lambda>c. in_range c 0x0021 0x007E \<or> in_range c 0x3041 0x3096 \<or> in_range c 0x309B 0x309C \<or>
                   in_range c 0x30FB 0x30FC \<or> in_range c 0x3001 0x3002 \<or> in_range c 0x300C 0x300F \<or>
                   in_range c 0x301C 0x301C) (AsChars32 reading)"

definition IsValidReading :: "DictEnv \<Rightarrow> bytes \<Rightarrow> bool" where
  "IsValidReading env reading = InternalValidateNormalizedReading (NormalizeReading env reading)"

definition ValidateEntry :: "UdEntry \<Rightarrow> ExtendedErrorCode" where
  "ValidateEntry entry =
     (if ud_key entry = [] then READING_EMPTY
      else if IsTooLongString (ud_key entry) then READING_TOO_LONG
      else if ContainsInvalidChars (ud_key entry) then READING_CONTAINS_INVALID_CHARACTER
      else if ud_value entry = [] then WORD_EMPTY
      else if IsTooLongString (ud_value entry) then WORD_TOO_LONG
      else if ContainsInvalidChars (ud_value entry) then WORD_CONTAINS_INVALID_CHARACTER
      else if IsTooLongString (ud_comment entry) then COMMENT_TOO_LONG
      else if ContainsInvalidChars (ud_comment entry) then COMMENT_CONTAINS_INVALID_CHARACTER
      else if ud_pos entry = None \<or> \<not> PosType_IsValid (get_pos entry) then INVALID_POS_TYPE
      else Ext_OK)"

definition ValidateDictionaryName :: "bytes \<Rightarrow> ExtendedErrorCode" where
  "ValidateDictionaryName name =
     (if name = [] then DICTIONARY_NAME_EMPTY
      else if IsTooLongString name then DICTIONARY_NAME_TOO_LONG
      else if ContainsInvalidChars name then DICTIONARY_NAME_CONTAINS_INVALID_CHARACTER
      else Ext_OK)"

text \<open>\<open>TextNormalizer::SanitizeText\<close>: \<open>None\<close> when nothing has to be removed.\<close>

definition acceptable :: "decode_result \<Rightarrow> bool" where
  "acceptable c \<longleftrightarrow> ok c \<and> \<not> code_point c < 32 \<and> code_point c \<noteq> 127"

definition SanitizeText :: "bytes \<Rightarrow> nat \<Rightarrow> bytes option" where
  "SanitizeText input max_bytes =
     (if length input \<le> max_bytes \<and> list_all (\<lambda>(c, _). acceptable c) (AsUnicodeChar input) then None
      else Some (concat (map snd (filter (\<lambda>(c, _). acceptable c) (AsUnicodeChar (take max_bytes input))))))"

definition sanitize_field :: "bytes \<Rightarrow> bool \<times> bytes" where
  "sanitize_field f = (case SanitizeText f kMaxStringSize of None \<Rightarrow> (False, f) | Some s \<Rightarrow> (True, s))"

definition SanitizeEntry :: "UdEntry \<Rightarrow> bool \<times> UdEntry" where
  "SanitizeEntry entry =
     (let (m1, k) = sanitize_field (ud_key entry);
          (m2, v) = sanitize_field (ud_value entry);
          (m3, c) = sanitize_field (ud_comment entry);
          entry = entry\<lparr>ud_key := k, ud_value := v, ud_comment := c\<rparr>
      in if PosType_IsValid (get_pos entry) then (m1 \<or> m2 \<or> m3, entry)
         else (True, entry\<lparr>ud_pos := Some 1\<rparr>))"

section \<open>Importing\<close>

definition GetStringPosType :: "DictEnv \<Rightarrow> int \<Rightarrow> bytes" where
  "GetStringPosType env p = (if PosType_IsValid p then fst (kPosTypeStringTable env ! nat p) else [])"

definition ToPosType :: "DictEnv \<Rightarrow> bytes \<Rightarrow> int" where
  "ToPosType env name =
     (case map_of (rev (zip (map fst (kPosTypeStringTable env)) [0..<length (kPosTypeStringTable env)])) name of
        None \<Rightarrow> -1 | Some i \<Rightarrow> int i)"

text \<open>The sum is an \<open>int\<close>, returned in sixteen bits.\<close>

definition GetCostFromPosType :: "DictEnv \<Rightarrow> int \<Rightarrow> int \<Rightarrow> 16 word" where
  "GetCostFromPosType env p cost_penalty =
     (let cost = (if PosType_IsValid p then snd (kPosTypeStringTable env ! nat p) else 0)
      in if cost = 0 then 5000 else word_of_int (int cost + cost_penalty))"

definition NormalizePos :: "DictEnv \<Rightarrow> bytes \<Rightarrow> bytes" where
  "NormalizePos env input = jp_half_kana_to_full env (jp_full_to_half env input)"

definition SplitPosAndLocale :: "bytes \<Rightarrow> bytes \<times> bytes" where
  "SplitPosAndLocale p =
     (takeWhile (\<lambda>c. c \<noteq> CHR '':'') p, tl (dropWhile (\<lambda>c. c \<noteq> CHR '':'') p))"

definition ConsumeSuffix :: "char \<Rightarrow> bytes \<Rightarrow> bytes" where
  "ConsumeSuffix c s = (if s \<noteq> [] \<and> last s = c then butlast s else s)"

definition ConvertEntry :: "DictEnv \<Rightarrow> RawEntry \<Rightarrow> UdEntry option" where
  "ConvertEntry env from =
     (if raw_pos from = [] then None
      else let (p, locale) = SplitPosAndLocale (NormalizePos env (raw_pos from));
               p = ConsumeSuffix (CHR ''*'') (ConsumeSuffix (CHR ''$'') p)
        in (case kPosMap env p of
              None \<Rightarrow> None
            | Some pos_type \<Rightarrow>
                if \<not> PosType_IsValid pos_type then None
                else let to = \<lparr>ud_key = NormalizeReading env (raw_key from), ud_value = raw_value from,
                               ud_comment = raw_comment from, ud_pos = Some pos_type, ud_locale = locale\<rparr>
                  in if ValidateEntry to = Ext_OK then Some to else None))"

definition max_entry_size :: nat where "max_entry_size = 1000000"
definition max_dictionary_size :: nat where "max_dictionary_size = 100"

definition IsDictionaryFull :: "UserDictionary \<Rightarrow> bool" where
  "IsDictionaryFull dic \<longleftrightarrow> length (entries dic) \<ge> max_entry_size"

definition HashOf :: "DictEnv \<Rightarrow> UdEntry \<Rightarrow> nat" where
  "HashOf env e = hash3 env (ud_key e, ud_value e, get_pos e)"

text \<open>The loop of \<open>ImportFromIterator\<close> over the entries the iterator yields.\<close>

fun import_loop ::
  "DictEnv \<Rightarrow> RawEntry list \<Rightarrow> nat set \<Rightarrow> UserDictionary \<Rightarrow> ExtendedErrorCode \<Rightarrow> ExtendedErrorCode \<times> UserDictionary" where
  "import_loop env [] existent dic ret = (ret, dic)"
| "import_loop env (raw # raws) existent dic ret =
     (if IsDictionaryFull dic then (IMPORT_TOO_MANY_WORDS, dic)
      else if raw_key raw = [] \<and> raw_value raw = [] \<and> raw_comment raw = [] then import_loop env raws existent dic ret
      else (case ConvertEntry env raw of
              None \<Rightarrow> import_loop env raws existent dic IMPORT_INVALID_ENTRIES
            | Some entry \<Rightarrow>
                if HashOf env entry \<in> existent then import_loop env raws existent dic ret
                else import_loop env raws (insert (HashOf env entry) existent)
                       (dic\<lparr>entries := entries dic @ [entry]\<rparr>) ret))"

definition ImportFromTextLineIterator ::
  "DictEnv \<Rightarrow> IMEType \<Rightarrow> bytes \<Rightarrow> UserDictionary \<Rightarrow> ExtendedErrorCode \<times> UserDictionary" where
  "ImportFromTextLineIterator env ime_type data dic =
     (let ty = TextInputIterator_type env ime_type data
      in if ty = NUM_IMES then (IMPORT_NOT_SUPPORTED, dic)
         else import_loop env (raw_entries ty data) (HashOf env ` set (entries dic)) dic Ext_OK)"

text \<open>The counts of the guess; the comparisons with 0.9 and 0.5 in exact arithmetic. The empty text divides
  by zero, and both comparisons with NaN fail.\<close>

fun guess_counts :: "(decode_result \<times> bytes) list \<Rightarrow> nat \<Rightarrow> nat \<Rightarrow> nat \<times> nat" where
  "guess_counts [] u s = (u, s)"
| "guess_counts ((d, ch) # chs) u s =
     (if \<not> ok d then (u, s)
      else let c = code_point d
        in guess_counts chs (u + length ch)
             (if c = 0x0A \<or> c = 0x0D \<or> c = 0x20 \<or> c = 0x09 \<or> script_of_char c \<noteq> UNKNOWN_SCRIPT
              then s + length ch else s))"

definition GuessEncodingType :: "bytes \<Rightarrow> EncodingType" where
  "GuessEncodingType str =
     (if length str \<ge> 2 \<and> (byte (str ! 0) = 0xFF \<and> byte (str ! 1) = 0xFE \<or> byte (str ! 0) = 0xFE \<and> byte (str ! 1) = 0xFF)
      then Encoding_UTF16
      else if length str \<ge> 3 \<and> byte (str ! 0) = 0xEF \<and> byte (str ! 1) = 0xBB \<and> byte (str ! 2) = 0xBF
      then Encoding_UTF8
      else let (valid_utf8, valid_script) = guess_counts (AsUnicodeChar str) 0 0
        in if str \<noteq> [] \<and> 10 * valid_utf8 \<ge> 9 * length str \<and> 2 * valid_script \<ge> length str
           then Encoding_UTF8 else SHIFT_JIS)"

definition GuessFileEncodingType :: "bytes option \<Rightarrow> EncodingType" where
  "GuessFileEncodingType file =
     (case file of None \<Rightarrow> NUM_ENCODINGS | Some content \<Rightarrow> GuessEncodingType (take 1024 content))"

section \<open>The storage\<close>

text \<open>\<open>UserDictionaryStorage\<close>: the dictionaries in memory, whether the process mutex is held, and the file.
  Of a broken file the dictionaries are read that come before the damage.\<close>

datatype DbFile = Db_Missing | Db_CannotOpen | Db_Broken "UserDictionary list" | Db_Stored "UserDictionary list"

record UdStorage =
  dictionaries :: "UserDictionary list"
  locked :: bool
  db_file :: DbFile

definition GetUserDictionaryIndex :: "UdStorage \<Rightarrow> 64 word \<Rightarrow> int" where
  "GetUserDictionaryIndex s dictionary_id =
     (case List.find (\<lambda>i. dict_id (dictionaries s ! i) = dictionary_id) [0..<length (dictionaries s)] of
        None \<Rightarrow> -1 | Some i \<Rightarrow> int i)"

definition GetUserDictionaryId :: "UdStorage \<Rightarrow> bytes \<Rightarrow> status + 64 word" where
  "GetUserDictionaryId s name =
     (case List.find (\<lambda>d. dict_name d = name) (dictionaries s) of
        None \<Rightarrow> Inl NotFoundError | Some d \<Rightarrow> Inr (dict_id d))"

definition IsValidDictionaryName :: "UdStorage \<Rightarrow> bytes \<Rightarrow> ExtendedErrorCode" where
  "IsValidDictionaryName s name =
     (if ValidateDictionaryName name \<noteq> Ext_OK then ValidateDictionaryName name
      else if list_ex (\<lambda>d. dict_name d = name) (dictionaries s) then DICTIONARY_NAME_DUPLICATED
      else Ext_OK)"

definition IsStorageFull :: "UdStorage \<Rightarrow> bool" where
  "IsStorageFull s \<longleftrightarrow> length (dictionaries s) \<ge> max_dictionary_size"

text \<open>The loop of \<open>CreateNewDictionaryId\<close> over the numbers the random generator will yield; \<open>None\<close> is a loop
  that has used them all.\<close>

fun CreateNewDictionaryId :: "UserDictionary list \<Rightarrow> 64 word list \<Rightarrow> (64 word \<times> 64 word list) option" where
  "CreateNewDictionaryId ds [] = None"
| "CreateNewDictionaryId ds (draw # gen) =
     (if draw = 0 \<or> list_ex (\<lambda>d. dict_id d = draw) ds then CreateNewDictionaryId ds gen else Some (draw, gen))"

definition CreateDictionary ::
  "64 word list \<Rightarrow> bytes \<Rightarrow> UdStorage \<Rightarrow> ((ExtendedErrorCode + 64 word) \<times> UdStorage) option" where
  "CreateDictionary gen name s =
     (if IsValidDictionaryName s name \<noteq> Ext_OK then Some (Inl (IsValidDictionaryName s name), s)
      else if IsStorageFull s then Some (Inl DICTIONARY_SIZE_LIMIT_EXCEEDED, s)
      else map_option (\<lambda>(new_id, _).
             (Inr new_id, s\<lparr>dictionaries := dictionaries s @ [\<lparr>dict_id = new_id, dict_name = name, entries = []\<rparr>]\<rparr>))
           (CreateNewDictionaryId (dictionaries s @ [\<lparr>dict_id = 0, dict_name = [], entries = []\<rparr>]) gen))"

definition RenameDictionary :: "64 word \<Rightarrow> bytes \<Rightarrow> UdStorage \<Rightarrow> ExtendedErrorCode \<times> UdStorage" where
  "RenameDictionary dictionary_id name s =
     (let i = GetUserDictionaryIndex s dictionary_id
      in if i < 0 then (UNKNOWN_DICTIONARY_ID, s)
         else let d = dictionaries s ! nat i
           in if dict_name d = name then (Ext_OK, s)
              else if IsValidDictionaryName s name \<noteq> Ext_OK then (IsValidDictionaryName s name, s)
              else (Ext_OK, s\<lparr>dictionaries := (dictionaries s)[nat i := d\<lparr>dict_name := name\<rparr>]\<rparr>))"

definition DeleteDictionary :: "64 word \<Rightarrow> UdStorage \<Rightarrow> ExtendedErrorCode \<times> UdStorage" where
  "DeleteDictionary dictionary_id s =
     (let i = GetUserDictionaryIndex s dictionary_id
      in if i < 0 then (UNKNOWN_DICTIONARY_ID, s)
         else (Ext_OK, s\<lparr>dictionaries := take (nat i) (dictionaries s) @ drop (Suc (nat i)) (dictionaries s)\<rparr>))"

text \<open>\<open>Load\<close> keeps what is in memory when the file cannot be opened, and gives every dictionary without a number one.\<close>

fun assign_ids :: "nat \<Rightarrow> UserDictionary list \<Rightarrow> 64 word list \<Rightarrow> UserDictionary list option" where
  "assign_ids 0 ds gen = Some ds"
| "assign_ids (Suc n) ds gen =
     (let i = length ds - Suc n
      in if dict_id (ds ! i) = 0
         then (case CreateNewDictionaryId ds gen of
                 None \<Rightarrow> None | Some (new_id, gen) \<Rightarrow> assign_ids n (ds[i := (ds ! i)\<lparr>dict_id := new_id\<rparr>]) gen)
         else assign_ids n ds gen)"

definition UdStorage_Load :: "64 word list \<Rightarrow> UdStorage \<Rightarrow> (status \<times> UdStorage) option" where
  "UdStorage_Load gen s =
     (let (st, ds) = (case db_file s of
            Db_Missing \<Rightarrow> (NotFoundError, dictionaries s)
          | Db_CannotOpen \<Rightarrow> (UnknownError, dictionaries s)
          | Db_Broken ds \<Rightarrow> (DataLossError, ds)
          | Db_Stored ds \<Rightarrow> (OkStatus, ds))
      in map_option (\<lambda>ds. (st, s\<lparr>dictionaries := ds\<rparr>)) (assign_ids (length ds) ds gen))"

text \<open>How the writes of \<open>Save\<close> end: opening and serialising, the size of the file, the rename.\<close>

record SaveOutcome =
  write_succeeds :: bool
  too_big_file_bytes :: bool
  rename_succeeds :: bool

datatype save_status = Save_Ok | Save_FailedPrecondition | Save_PermissionDenied | Save_ResourceExhausted

definition UdStorage_Save :: "SaveOutcome \<Rightarrow> UdStorage \<Rightarrow> save_status \<times> UdStorage" where
  "UdStorage_Save fs s =
     (if \<not> locked s then (Save_FailedPrecondition, s)
      else if \<not> write_succeeds fs then (Save_PermissionDenied, s)
      else if \<not> rename_succeeds fs then (Save_PermissionDenied, s)
      else (if too_big_file_bytes fs then Save_ResourceExhausted else Save_Ok,
            s\<lparr>db_file := Db_Stored (dictionaries s)\<rparr>))"

definition export_entry :: "DictEnv \<Rightarrow> UdEntry \<Rightarrow> bytes" where
  "export_entry env e =
     ud_key e @ [CHR 0x09] @ ud_value e @ [CHR 0x09] @ GetStringPosType env (get_pos e) @ [CHR 0x09] @ ud_comment e"

definition ExportDictionary :: "DictEnv \<Rightarrow> 64 word \<Rightarrow> UdStorage \<Rightarrow> ExtendedErrorCode + bytes" where
  "ExportDictionary env dictionary_id s =
     (let i = GetUserDictionaryIndex s dictionary_id
      in if i < 0 then Inl UNKNOWN_DICTIONARY_ID
         else Inr (concat (map (\<lambda>e. export_entry env e @ [newline]) (entries (dictionaries s ! nat i)))))"

end
