(* ===== verification/User_Dict_Import.thy ===== *)
theory User_Dict_Import
  imports User_Dict
begin

text \<open>
  Properties of the user dictionary: reading back comma separated values and exported dictionaries, what
  an import adds, and the invariant of the storage.
\<close>

section \<open>Comma separated values\<close>

definition csv_escape :: "bytes \<Rightarrow> bytes" where
  "csv_escape f = concat (map (\<lambda>c. if c = quote then [quote, quote] else [c]) f)"

definition csv_quote :: "bytes \<Rightarrow> bytes" where
  "csv_quote f = quote # csv_escape f @ [quote]"

fun csv_line :: "bytes list \<Rightarrow> bytes" where
  "csv_line [] = []"
| "csv_line [f] = csv_quote f"
| "csv_line (f # g # fs) = csv_quote f @ CHR '','' # csv_line (g # fs)"

lemma drop_ConsD:
  assumes "drop i s = c # t"
  shows "i < length s" "s ! i = c" "drop (Suc i) s = t" "at s i = c"
proof -
  show "i < length s" using assms by (metis drop_all list.discI not_le)
  then show "s ! i = c" "drop (Suc i) s = t" "at s i = c"
    using assms by (auto simp: at_def Cons_nth_drop_Suc [symmetric])
qed

lemma at_drop: "at s i = (case drop i s of [] \<Rightarrow> CHR 0x00 | c # _ \<Rightarrow> c)"
  by (cases "drop i s") (auto dest: drop_ConsD simp: at_def)

lemma csv_escape_simps [simp]:
  "csv_escape [] = []" "csv_escape (c # f) = (if c = quote then [quote, quote] else [c]) @ csv_escape f"
  by (simp_all add: csv_escape_def)

lemma quoted_field_escape:
  assumes "drop i s = csv_escape f @ quote # rest" and "rest = [] \<or> hd rest \<noteq> quote"
  shows "quoted_field s i = (f, i + length (csv_escape f) + 1)"
  using assms(1)
proof (induction f arbitrary: i)
  case Nil
  from drop_ConsD [OF Nil [simplified]] assms(2) show ?case
    by (subst quoted_field.simps) (auto simp: at_drop split: list.splits)
next
  case (Cons c f)
  show ?case
  proof (cases "c = quote")
    case True
    with Cons.prems have d: "drop i s = quote # quote # csv_escape f @ quote # rest" by simp
    note d1 = drop_ConsD [OF d] and d2 = drop_ConsD [OF drop_ConsD(3) [OF d]]
    from d1 d2 Cons.IH [OF d2(3)] True show ?thesis
      by (subst quoted_field.simps) simp
  next
    case False
    with Cons.prems have d: "drop i s = c # csv_escape f @ quote # rest" by simp
    note d1 = drop_ConsD [OF d]
    from d1 Cons.IH [OF d1(3)] False show ?thesis
      by (subst quoted_field.simps) simp
  qed
qed

lemma csv_field_quote:
  assumes "drop i s = csv_quote f @ rest" and "rest = [] \<or> hd rest = CHR '',''"
  shows "csv_field s i = (f, Suc i + length f, i + length (csv_quote f))"
proof -
  from assms(1) have d: "drop i s = quote # csv_escape f @ quote # rest" by (simp add: csv_quote_def)
  note d1 = drop_ConsD [OF d]
  have b: "skip_blanks s i = i" using d1 by (subst skip_blanks.simps) simp
  have q: "quoted_field s (Suc i) = (f, Suc i + length (csv_escape f) + 1)"
    by (rule quoted_field_escape [OF d1(3)]) (use assms(2) in auto)
  have "drop (Suc i + length (csv_escape f) + 1) s = rest"
    using arg_cong [OF d, of "drop (length (csv_quote f))"] by (simp add: csv_quote_def add.commute)
  then have "find_comma s (Suc i + length (csv_escape f) + 1) = Suc i + length (csv_escape f) + 1"
    using assms(2) by (subst find_comma.simps, cases rest) (auto dest: drop_ConsD)
  then show ?thesis using b q d1(4) by (simp add: csv_field_def csv_quote_def)
qed

lemma no_trailing_comma: "last s = quote \<Longrightarrow> \<not> (at s e = CHR '','' \<and> Suc e = length s)"
  by (cases s rule: rev_cases) (auto simp: at_def nth_append)

lemma split_csv_line:
  assumes "drop i s = csv_line fs" and "fs \<noteq> []" and "last s = quote"
  shows "split_csv_from s i = fs"
  using assms(1,2)
proof (induction fs arbitrary: i rule: csv_line.induct)
  case (2 f)
  note l = no_trailing_comma [OF assms(3)]
  from 2 have d: "drop i s = csv_quote f @ []" by simp
  have i: "i < length s" using d by (auto simp: csv_quote_def dest: drop_ConsD)
  have "length s = i + length (csv_quote f)" using arg_cong [OF d, of length] i by simp
  then have "split_csv_from s (Suc (i + length (csv_quote f))) = []" by (simp add: split_csv_from.simps)
  with csv_field_quote [OF d] i l show ?case by (subst split_csv_from.simps) simp
next
  case (3 f g fs)
  note l = no_trailing_comma [OF assms(3)]
  from 3 have d: "drop i s = csv_quote f @ CHR '','' # csv_line (g # fs)" by simp
  have i: "i < length s" using d by (auto simp: csv_quote_def dest: drop_ConsD)
  have "drop (Suc (i + length (csv_quote f))) s = csv_line (g # fs)"
    using arg_cong [OF d, of "drop (Suc (length (csv_quote f)))"] by (simp add: add.commute)
  from "3.IH" [OF this] have "split_csv_from s (Suc (i + length (csv_quote f))) = g # fs" by simp
  with csv_field_quote [OF d] i l show ?case by (subst split_csv_from.simps) simp
qed simp

lemma last_csv_line: "fs \<noteq> [] \<Longrightarrow> last (csv_line fs) = quote \<and> csv_line fs \<noteq> []"
  by (induction fs rule: csv_line.induct) (simp_all add: csv_quote_def)

text \<open>Fields written in double quotes, with the quotes inside doubled, are read back by \<open>SplitCSV\<close>,
  whatever bytes they hold.\<close>

lemma SplitCSV_csv_line:
  assumes "fs \<noteq> []"
  shows "SplitCSV (csv_line fs) = fs"
  unfolding SplitCSV_def by (rule split_csv_line) (use assms last_csv_line in auto)

section \<open>Reading back an exported dictionary\<close>

definition no_break :: "bytes \<Rightarrow> bool" where
  "no_break s \<longleftrightarrow> newline \<notin> set s \<and> return \<notin> set s"

lemma next_line_append: "no_break l \<Longrightarrow> next_line (l @ newline # rest) = (l, rest)"
  by (induction l) (auto simp: no_break_def)

lemma ChopReturns_no_break: "no_break l \<Longrightarrow> ChopReturns l = l"
  by (cases l rule: rev_cases) (auto simp: ChopReturns_def no_break_def)

text \<open>Entries whose part of speech has a name that the import maps back, with a reading in normal form.\<close>

definition exportable :: "DictEnv \<Rightarrow> UdEntry \<Rightarrow> bool" where
  "exportable env e \<longleftrightarrow>
     (let p = GetStringPosType env (get_pos e)
      in ValidateEntry e = Ext_OK \<and> ud_locale e = [] \<and> NormalizeReading env (ud_key e) = ud_key e \<and>
         p \<noteq> [] \<and> no_break p \<and> CHR 0x09 \<notin> set p \<and> CHR '':'' \<notin> set p \<and> last p \<noteq> CHR ''$'' \<and> last p \<noteq> CHR ''*'' \<and>
         NormalizePos env p = p \<and> kPosMap env p = Some (get_pos e))"

lemma ValidateEntry_OK_iff: "ValidateEntry e = Ext_OK \<longleftrightarrow>
    ud_key e \<noteq> [] \<and> \<not> IsTooLongString (ud_key e) \<and> \<not> ContainsInvalidChars (ud_key e) \<and> ud_value e \<noteq> [] \<and>
    \<not> IsTooLongString (ud_value e) \<and> \<not> ContainsInvalidChars (ud_value e) \<and> \<not> IsTooLongString (ud_comment e) \<and>
    \<not> ContainsInvalidChars (ud_comment e) \<and> ud_pos e \<noteq> None \<and> PosType_IsValid (get_pos e)"
  by (simp add: ValidateEntry_def)

lemma no_invalid_chars: "\<not> ContainsInvalidChars s \<Longrightarrow> no_break s \<and> CHR 0x09 \<notin> set s"
  by (auto simp: ContainsInvalidChars_def no_break_def)

definition raw_of :: "DictEnv \<Rightarrow> UdEntry \<Rightarrow> RawEntry" where
  "raw_of env e = \<lparr>raw_key = ud_key e, raw_value = ud_value e, raw_pos = GetStringPosType env (get_pos e),
     raw_comment = ud_comment e\<rparr>"

lemma exportable_line:
  assumes "exportable env e"
  shows "no_break (export_entry env e)" "export_entry env e \<noteq> []" "hd (export_entry env e) = hd (ud_key e)"
    "CHR 0x09 \<in> set (export_entry env e)" "parse_entry_line MOZC (export_entry env e) = Some (raw_of env e)"
proof -
  from assms have v: "ValidateEntry e = Ext_OK" and p: "no_break (GetStringPosType env (get_pos e))"
      "CHR 0x09 \<notin> set (GetStringPosType env (get_pos e))"
    by (auto simp: exportable_def Let_def)
  then have c: "ud_key e \<noteq> []" "\<not> ContainsInvalidChars (ud_key e)" "\<not> ContainsInvalidChars (ud_value e)"
      "\<not> ContainsInvalidChars (ud_comment e)" by (simp_all add: ValidateEntry_OK_iff)
  note n = no_invalid_chars [OF c(2)] no_invalid_chars [OF c(3)] no_invalid_chars [OF c(4)]
  show "no_break (export_entry env e)" using n p by (auto simp: export_entry_def no_break_def)
  show "export_entry env e \<noteq> []" "CHR 0x09 \<in> set (export_entry env e)" by (simp_all add: export_entry_def)
  show "hd (export_entry env e) = hd (ud_key e)" using c(1) by (simp add: export_entry_def)
  have "StrSplit (CHR 0x09) (export_entry env e) =
      [ud_key e, ud_value e, GetStringPosType env (get_pos e), ud_comment e]"
    using n p by (simp add: export_entry_def StrSplit_append StrSplit_no_sep)
  then show "parse_entry_line MOZC (export_entry env e) = Some (raw_of env e)"
    by (simp add: parse_entry_line_def raw_of_def)
qed

lemma exportable_convert:
  assumes "exportable env e"
  shows "ConvertEntry env (raw_of env e) = Some e"
proof -
  define p where "p = GetStringPosType env (get_pos e)"
  have p: "p \<noteq> []" "CHR '':'' \<notin> set p" "last p \<noteq> CHR ''$''" "last p \<noteq> CHR ''*''" "NormalizePos env p = p"
      "kPosMap env p = Some (get_pos e)" and v: "ValidateEntry e = Ext_OK" "ud_locale e = []"
      "NormalizeReading env (ud_key e) = ud_key e"
    using assms by (simp_all add: exportable_def Let_def p_def)
  have pos: "ud_pos e = Some (get_pos e)" "PosType_IsValid (get_pos e)"
    using v(1) by (auto simp: ValidateEntry_OK_iff get_pos_def)
  have s: "SplitPosAndLocale p = (p, [])"
  proof -
    have "dropWhile (\<lambda>c. c \<noteq> CHR '':'') p = []" "takeWhile (\<lambda>c. c \<noteq> CHR '':'') p = p"
      using p(2) by (auto simp: dropWhile_eq_Nil_conv takeWhile_eq_all_conv)
    then show ?thesis by (simp only: SplitPosAndLocale_def list.sel)
  qed
  have c: "ConsumeSuffix (CHR ''*'') (ConsumeSuffix (CHR ''$'') p) = p" using p(3,4) by (simp add: ConsumeSuffix_def)
  have e: "\<lparr>ud_key = ud_key e, ud_value = ud_value e, ud_comment = ud_comment e, ud_pos = Some (get_pos e), ud_locale = []\<rparr> = e"
    using pos v(2) by (cases e) simp
  show ?thesis using p(1,5,6) s c e pos(2) v by (simp add: ConvertEntry_def raw_of_def p_def [symmetric])
qed

abbreviation export_text :: "DictEnv \<Rightarrow> UdEntry list \<Rightarrow> bytes" where
  "export_text env es \<equiv> concat (map (\<lambda>e. export_entry env e @ [newline]) es)"

lemma Next_export:
  assumes "exportable env e"
  shows "TextInputIterator_Next MOZC (export_entry env e @ newline # rest) =
    (if hd (ud_key e) = CHR ''#'' then TextInputIterator_Next MOZC rest else Some (raw_of env e, rest))"
  using exportable_line [OF assms]
  by (subst TextInputIterator_Next.simps)
    (simp add: next_line_append ChopReturns_no_break is_comment_line_def)

lemma raw_entries_export:
  assumes "list_all (exportable env) es"
  shows "raw_entries MOZC (export_text env es) = map (raw_of env) (filter (\<lambda>e. hd (ud_key e) \<noteq> CHR ''#'') es)"
  using assms
proof (induction es)
  case Nil
  show ?case by (simp add: raw_entries.simps TextInputIterator_Next.simps)
next
  case (Cons e es)
  then have e: "exportable env e" "raw_entries MOZC (export_text env es) =
      map (raw_of env) (filter (\<lambda>e. hd (ud_key e) \<noteq> CHR ''#'') es)" by simp_all
  show ?case
    by (subst raw_entries.simps) (use e(2) [symmetric] in \<open>simp add: Next_export [OF e(1)] raw_entries.simps [of MOZC "export_text env es"]\<close>)
qed

lemma import_loop_all_new:
  assumes "list_all (\<lambda>e. exportable env e) es" and "distinct (map (HashOf env) es)"
    and "existent \<inter> HashOf env ` set es = {}" and "length (entries dic) + length es \<le> max_entry_size"
  shows "import_loop env (map (raw_of env) es) existent dic ret = (ret, dic\<lparr>entries := entries dic @ es\<rparr>)"
  using assms
proof (induction es arbitrary: existent dic)
  case (Cons e es)
  then have e: "exportable env e" by simp
  then have "ud_key e \<noteq> []" by (auto simp: exportable_def Let_def ValidateEntry_OK_iff)
  moreover have "\<not> IsDictionaryFull dic" using Cons.prems(4) by (simp add: IsDictionaryFull_def)
  moreover have "insert (HashOf env e) existent \<inter> HashOf env ` set es = {}"
    using Cons.prems(2,3) by auto
  moreover have "HashOf env e \<notin> existent" using Cons.prems(3) by auto
  ultimately show ?case
    using Cons.IH [of "insert (HashOf env e) existent" "dic\<lparr>entries := entries dic @ [e]\<rparr>"] Cons.prems
      exportable_convert [OF e] by (simp add: raw_of_def)
qed simp

text \<open>C25: An exported dictionary of words that the text format can carry is imported into an empty one with
  the same words, in their order and with their parts of speech and comments --- except those whose
  reading starts with the character that marks a comment line: they are exported like the others and
  silently lost. The format can carry a word (\<open>exportable\<close>) that is valid, has no locale (the export drops
  it), whose reading is the one the import would normalise it to (no katakana), and whose part of speech
  has a name that the import maps back to it; moreover no two words of the dictionary have the same
  hash, by which the import drops duplicates, and they are not more than a dictionary can hold.\<close>

theorem import_export:
  assumes "list_all (exportable env) (entries d)" and "entries d \<noteq> []"
    and "distinct (map (HashOf env) (entries d))" and "length (entries d) \<le> max_entry_size"
    and "GetUserDictionaryIndex s i = int n" and "dictionaries s ! n = d" and "ExportDictionary env i s = Inr tsv"
    and "entries d' = []"
  shows "ImportFromTextLineIterator env MOZC tsv d' =
    (Ext_OK, d'\<lparr>entries := filter (\<lambda>e. hd (ud_key e) \<noteq> CHR ''#'') (entries d)\<rparr>)"
proof -
  let ?keep = "filter (\<lambda>e. hd (ud_key e) \<noteq> CHR ''#'') (entries d)"
  have t: "tsv = export_text env (entries d)" using assms(5-7) by (simp add: ExportDictionary_def)
  obtain e es where e: "entries d = e # es" using assms(2) by (cases "entries d") auto
  with assms(1) have x: "exportable env e" by simp
  have l: "next_line tsv = (export_entry env e, export_text env es)" "tsv \<noteq> []"
    using next_line_append exportable_line(1) [OF x] by (simp_all add: t e)
  have "GuessIMEType env (export_entry env e) \<noteq> KOTOERI"
    using exportable_line(4) [OF x] by (simp add: GuessIMEType_def Let_def)
  then have ty: "TextInputIterator_type env MOZC tsv = MOZC"
    using l by (simp add: TextInputIterator_type_def DetermineFinalIMEType_def)
  have "list_all (exportable env) ?keep" using assms(1) by (auto simp: list_all_iff)
  moreover have "distinct (map (HashOf env) ?keep)" using assms(3) by (rule distinct_map_filter)
  moreover have "length (entries d') + length ?keep \<le> max_entry_size"
    using order_trans [OF length_filter_le assms(4)] assms(8) by simp
  ultimately show ?thesis
    using import_loop_all_new [of env ?keep "{}" d' Ext_OK] assms(8)
    by (simp add: ImportFromTextLineIterator_def Let_def ty [unfolded t] t raw_entries_export [OF assms(1)])
qed

text \<open>A table with one part of speech, no conversions, and a hash without collisions on short words.\<close>

definition noun_env :: DictEnv where
  "noun_env =
     \<lparr>kPosTypeStringTable = [(''none'', 0), (''noun'', 100)], kPosMap = (\<lambda>p. if p = ''noun'' then Some 1 else None),
      jp_full_to_half = id, jp_half_kana_to_full = id, jp_kata_to_hira = id, atoi = (\<lambda>_. None),
      hash3 = (\<lambda>(k, v, p). length k + 1000 * length v), hash4 = (\<lambda>(k, v, p, l). length k + 1000 * length v)\<rparr>"

definition word_entry :: "bytes \<Rightarrow> bytes \<Rightarrow> UdEntry" where
  "word_entry k v = \<lparr>ud_key = k, ud_value = v, ud_comment = [], ud_pos = Some 1, ud_locale = []\<rparr>"

lemma ascii_valid: "list_all (\<lambda>c. byte c < 0x80) s \<Longrightarrow> strings_IsValidUtf8 s"
proof (induction s)
  case (Cons c s)
  then show ?case by (subst strings_IsValidUtf8.simps) (simp add: Decode_def decode_continue_def)
qed (simp add: strings_IsValidUtf8.simps)

definition ident_text :: "bytes \<Rightarrow> bool" where
  "ident_text s \<longleftrightarrow> list_all (\<lambda>c. 0x21 \<le> byte c \<and> byte c < 0x7F) s \<and> s \<noteq> [] \<and> length s \<le> 300"

lemma word_entry_exportable:
  assumes "ident_text k" and "ident_text v"
  shows "exportable noun_env (word_entry k v)"
proof -
  have "\<not> ContainsInvalidChars s" if "list_all (\<lambda>c. 0x21 \<le> byte c \<and> byte c < 0x7F) s" for s
  proof -
    have "list_all (\<lambda>c. byte c < 0x80) s" using that by (auto simp: list_all_iff)
    from ascii_valid [OF this] that show ?thesis
      by (auto simp: ContainsInvalidChars_def list_all_iff byte_def)
  qed
  then have "\<not> ContainsInvalidChars k" "\<not> ContainsInvalidChars v" "\<not> ContainsInvalidChars []"
    using assms by (auto simp: ident_text_def)
  then show ?thesis using assms
    by (simp add: exportable_def word_entry_def get_pos_def GetStringPosType_def PosType_IsValid_def noun_env_def
        ValidateEntry_OK_iff IsTooLongString_def kMaxStringSize_def ident_text_def no_break_def
        NormalizeReading_def NormalizePos_def)
qed

theorem import_export_witness:
  "let es = [word_entry ''a'' ''1'', word_entry ''#b'' ''2'', word_entry ''ccc'' ''3''];
       s = \<lparr>dictionaries = [\<lparr>dict_id = 7, dict_name = ''d'', entries = es\<rparr>], locked = False, db_file = Db_Missing\<rparr>;
       empty = \<lparr>dict_id = 8, dict_name = ''e'', entries = []\<rparr>
   in (case ExportDictionary noun_env 7 s of
         Inl _ \<Rightarrow> False
       | Inr tsv \<Rightarrow> entries (snd (ImportFromTextLineIterator noun_env MOZC tsv empty)) =
           [word_entry ''a'' ''1'', word_entry ''ccc'' ''3''])"
proof -
  define es where "es = [word_entry ''a'' ''1'', word_entry ''#b'' ''2'', word_entry ''ccc'' ''3'']"
  define d where "d = \<lparr>dict_id = 7, dict_name = ''d'', entries = es\<rparr>"
  define s where "s = \<lparr>dictionaries = [d], locked = False, db_file = Db_Missing\<rparr>"
  define empty where "empty = \<lparr>dict_id = 8, dict_name = ''e'', entries = []\<rparr>"
  have i: "GetUserDictionaryIndex s 7 = int 0" "dictionaries s ! 0 = d"
    by (simp_all add: GetUserDictionaryIndex_def s_def d_def)
  have x: "list_all (exportable noun_env) (entries d)"
    by (simp add: d_def es_def word_entry_exportable ident_text_def byte_def)
  have h: "distinct (map (HashOf noun_env) (entries d))"
    by (simp add: d_def es_def word_entry_def HashOf_def noun_env_def)
  have "ExportDictionary noun_env 7 s = Inr (export_text noun_env es)"
    using i by (simp add: ExportDictionary_def d_def)
  moreover from this have "ImportFromTextLineIterator noun_env MOZC (export_text noun_env es) empty =
      (Ext_OK, empty\<lparr>entries := filter (\<lambda>e. hd (ud_key e) \<noteq> CHR ''#'') (entries d)\<rparr>)"
    by (intro import_export [OF x _ h _ i]) (simp_all add: d_def es_def empty_def max_entry_size_def)
  ultimately show ?thesis
    unfolding es_def [symmetric] d_def [symmetric] Let_def s_def [symmetric] empty_def [symmetric]
    by (simp add: d_def es_def word_entry_def empty_def)
qed

section \<open>What an import adds\<close>

lemma ConvertEntry_valid: "ConvertEntry env raw = Some e \<Longrightarrow> ValidateEntry e = Ext_OK \<and> raw_value raw \<noteq> []"
  by (auto simp: ConvertEntry_def Let_def ValidateEntry_OK_iff split: if_splits option.splits prod.splits)

text \<open>A line that is not blank and gives no word.\<close>

definition unusable :: "DictEnv \<Rightarrow> RawEntry \<Rightarrow> bool" where
  "unusable env raw \<longleftrightarrow>
     \<not> (raw_key raw = [] \<and> raw_value raw = [] \<and> raw_comment raw = []) \<and> ConvertEntry env raw = None"

definition converted :: "DictEnv \<Rightarrow> RawEntry list \<Rightarrow> UdEntry set" where
  "converted env raws = {e. Some e \<in> ConvertEntry env ` set raws}"

definition import_result ::
  "DictEnv \<Rightarrow> RawEntry list \<Rightarrow> RawEntry list \<Rightarrow> nat set \<Rightarrow> UserDictionary \<Rightarrow> UserDictionary \<Rightarrow> UdEntry list \<Rightarrow> bool" where
  "import_result env used rest existent dic dic' new \<longleftrightarrow>
     dic' = dic\<lparr>entries := entries dic @ new\<rparr> \<and> set new \<subseteq> converted env used \<and>
     distinct (map (HashOf env) new) \<and> existent \<inter> HashOf env ` set new = {} \<and>
     HashOf env ` converted env used \<subseteq> existent \<union> HashOf env ` set new \<and>
     (new \<noteq> [] \<longrightarrow> length (entries dic') \<le> max_entry_size) \<and> (rest \<noteq> [] \<longrightarrow> IsDictionaryFull dic')"

lemma converted_simps [simp]:
  "converted env [] = {}"
  "converted env (raw # raws) =
     (case ConvertEntry env raw of None \<Rightarrow> converted env raws | Some e \<Rightarrow> insert e (converted env raws))"
  by (auto simp: converted_def image_iff split: option.splits)

definition imports_as ::
  "DictEnv \<Rightarrow> RawEntry list \<Rightarrow> nat set \<Rightarrow> UserDictionary \<Rightarrow> ExtendedErrorCode \<Rightarrow> ExtendedErrorCode \<Rightarrow> UserDictionary \<Rightarrow> bool" where
  "imports_as env raws existent dic ret st dic' \<longleftrightarrow>
     (\<exists>used rest new. raws = used @ rest \<and> import_result env used rest existent dic dic' new \<and>
       st = (if rest \<noteq> [] then IMPORT_TOO_MANY_WORDS
         else if list_ex (unusable env) used then IMPORT_INVALID_ENTRIES else ret))"

lemma imports_asE:
  assumes "imports_as env raws existent dic ret st dic'"
  obtains used rest new where "raws = used @ rest" "import_result env used rest existent dic dic' new"
    "st = (if rest \<noteq> [] then IMPORT_TOO_MANY_WORDS
       else if list_ex (unusable env) used then IMPORT_INVALID_ENTRIES else ret)"
  using assms unfolding imports_as_def by blast

lemma imports_asI:
  assumes "raws = used @ rest" "import_result env used rest existent dic dic' new"
    "st = (if rest \<noteq> [] then IMPORT_TOO_MANY_WORDS
       else if list_ex (unusable env) used then IMPORT_INVALID_ENTRIES else ret)"
  shows "imports_as env raws existent dic ret st dic'"
  using assms unfolding imports_as_def by blast

lemma import_loop_spec:
  "import_loop env raws existent dic ret = (st, dic') \<Longrightarrow> imports_as env raws existent dic ret st dic'"
proof (induction env raws existent dic ret arbitrary: st dic' rule: import_loop.induct)
  case (1 env existent dic ret)
  then show ?case by (intro imports_asI [of _ "[]" "[]" _ _ _ _ "[]"]) (simp_all add: import_result_def)
next
  case (2 env raw raws existent dic ret)
  let ?blank = "raw_key raw = [] \<and> raw_value raw = [] \<and> raw_comment raw = []"
  consider (full) "IsDictionaryFull dic" | (skip) "\<not> IsDictionaryFull dic" "?blank \<or> ConvertEntry env raw = None"
    | (entry) e where "\<not> IsDictionaryFull dic" "\<not> ?blank" "ConvertEntry env raw = Some e" by fast
  then show ?case
  proof cases
    case full
    then show ?thesis using "2.prems"
      by (intro imports_asI [of _ "[]" "raw # raws" _ _ _ _ "[]"]) (simp_all add: import_result_def)
  next
    case skip
    then have n: "ConvertEntry env raw = None" using ConvertEntry_valid by (cases "ConvertEntry env raw") auto
    define ret' where "ret' = (if ?blank then ret else IMPORT_INVALID_ENTRIES)"
    have "imports_as env raws existent dic ret' st dic'"
      using skip n "2.prems" "2.IH"(1,2) by (cases ?blank) (auto simp: ret'_def)
    then obtain used rest new where i: "raws = used @ rest" "import_result env used rest existent dic dic' new"
      "st = (if rest \<noteq> [] then IMPORT_TOO_MANY_WORDS
          else if list_ex (unusable env) used then IMPORT_INVALID_ENTRIES else ret')" by (rule imports_asE)
    have "import_result env (raw # used) rest existent dic dic' new" using i(2) n by (auto simp: import_result_def)
    moreover have "unusable env raw \<longleftrightarrow> \<not> ?blank" using n by (auto simp: unusable_def)
    ultimately show ?thesis using i(1,3) by (intro imports_asI [of _ "raw # used" rest _ _ _ _ new]) (auto simp: ret'_def)
  next
    case (entry e)
    have u: "\<not> unusable env raw" using entry by (simp add: unusable_def)
    show ?thesis
    proof (cases "HashOf env e \<in> existent")
      case True
      then have "import_loop env raws existent dic ret = (st, dic')"
        using "2.prems" entry(3) unfolding import_loop.simps if_not_P [OF entry(1)] if_not_P [OF entry(2)] by simp
      from "2.IH"(3) [OF entry(1,2,3) True this] obtain used rest new where
        i: "raws = used @ rest" "import_result env used rest existent dic dic' new"
          "st = (if rest \<noteq> [] then IMPORT_TOO_MANY_WORDS
            else if list_ex (unusable env) used then IMPORT_INVALID_ENTRIES else ret)" by (rule imports_asE)
      then have "import_result env (raw # used) rest existent dic dic' new"
        using True entry(3) by (auto simp: import_result_def)
      then show ?thesis using i(1,3) u by (intro imports_asI [of _ "raw # used" rest _ _ _ _ new]) auto
    next
      case False
      let ?dic = "dic\<lparr>entries := entries dic @ [e]\<rparr>"
      have "import_loop env raws (insert (HashOf env e) existent) ?dic ret = (st, dic')"
        using "2.prems" entry(3) False unfolding import_loop.simps if_not_P [OF entry(1)] if_not_P [OF entry(2)] by simp
      from "2.IH"(4) [OF entry(1,2,3) False this] obtain used rest new where
        i: "raws = used @ rest" "import_result env used rest (insert (HashOf env e) existent) ?dic dic' new"
          "st = (if rest \<noteq> [] then IMPORT_TOO_MANY_WORDS
            else if list_ex (unusable env) used then IMPORT_INVALID_ENTRIES else ret)" by (rule imports_asE)
      then have "import_result env (raw # used) rest existent dic dic' (e # new)"
        using entry False by (auto simp: import_result_def IsDictionaryFull_def)
      then show ?thesis using i(1,3) u by (intro imports_asI [of _ "raw # used" rest _ _ _ _ "e # new"]) auto
    qed
  qed
qed

text \<open>C26: Whatever an import reads, it keeps the words of the dictionary and adds behind them valid words made
  of the lines, no two with one hash and none with the hash of a word that was there, up to the limit. It reads
  all lines unless the dictionary is full, and of every line it read that can be converted the dictionary has
  the word, or one with its hash, afterwards. The status is that of an unknown format, which changes nothing; of
  too many words exactly when lines were left over; of invalid entries exactly when all lines were read and one
  that is not blank could not be converted; and else that all went well.\<close>

theorem import_adds_valid_words:
  assumes "ImportFromTextLineIterator env ty tsv dic = (st, dic')"
  shows "if TextInputIterator_type env ty tsv = NUM_IMES then st = IMPORT_NOT_SUPPORTED \<and> dic' = dic
    else \<exists>used rest new. raw_entries (TextInputIterator_type env ty tsv) tsv = used @ rest \<and>
      dic' = dic\<lparr>entries := entries dic @ new\<rparr> \<and>
      list_all (\<lambda>e. ValidateEntry e = Ext_OK) new \<and> set new \<subseteq> converted env used \<and>
      distinct (map (HashOf env) new) \<and> HashOf env ` set (entries dic) \<inter> HashOf env ` set new = {} \<and>
      HashOf env ` converted env used \<subseteq> HashOf env ` set (entries dic') \<and>
      (new = [] \<or> length (entries dic') \<le> max_entry_size) \<and>
      (rest = [] \<or> length (entries dic') \<ge> max_entry_size) \<and>
      st = (if rest \<noteq> [] then IMPORT_TOO_MANY_WORDS
        else if list_ex (unusable env) used then IMPORT_INVALID_ENTRIES else Ext_OK)"
proof (cases "TextInputIterator_type env ty tsv = NUM_IMES")
  case True
  then show ?thesis using assms by (auto simp: ImportFromTextLineIterator_def)
next
  case False
  with assms have "import_loop env (raw_entries (TextInputIterator_type env ty tsv) tsv) (HashOf env ` set (entries dic)) dic Ext_OK
      = (st, dic')" by (simp add: ImportFromTextLineIterator_def Let_def)
  from import_loop_spec [OF this] obtain used rest new where
    n: "raw_entries (TextInputIterator_type env ty tsv) tsv = used @ rest"
      "import_result env used rest (HashOf env ` set (entries dic)) dic dic' new"
      "st = (if rest \<noteq> [] then IMPORT_TOO_MANY_WORDS
        else if list_ex (unusable env) used then IMPORT_INVALID_ENTRIES else Ext_OK)" by (rule imports_asE)
  from n(2) have r: "dic' = dic\<lparr>entries := entries dic @ new\<rparr>" "set new \<subseteq> converted env used"
    "distinct (map (HashOf env) new)" "HashOf env ` set (entries dic) \<inter> HashOf env ` set new = {}"
    "HashOf env ` converted env used \<subseteq> HashOf env ` set (entries dic) \<union> HashOf env ` set new"
    "new = [] \<or> length (entries dic') \<le> max_entry_size" "rest = [] \<or> length (entries dic') \<ge> max_entry_size"
    unfolding import_result_def IsDictionaryFull_def by blast+
  have v: "list_all (\<lambda>e. ValidateEntry e = Ext_OK) new"
    using r(2) ConvertEntry_valid by (fastforce simp: list_all_iff converted_def)
  have e: "HashOf env ` set (entries dic') = HashOf env ` set (entries dic) \<union> HashOf env ` set new"
    by (simp add: r(1) image_Un)
  show ?thesis unfolding if_not_P [OF False]
    by (intro exI [of _ used] exI [of _ rest] exI [of _ new] conjI n(1,3) v r(1-4,6,7) r(5) [folded e])
qed

theorem import_adds_valid_words_witness:
  "fst (ImportFromTextLineIterator noun_env MOZC ''#'' \<lparr>dict_id = 1, dict_name = [], entries = [word_entry ''a'' ''b'']\<rparr>) \<in>
     {IMPORT_NOT_SUPPORTED, IMPORT_TOO_MANY_WORDS, IMPORT_INVALID_ENTRIES, Ext_OK}"
proof -
  let ?dic = "\<lparr>dict_id = 1, dict_name = [], entries = [word_entry ''a'' ''b'']\<rparr>"
  obtain st dic' where r: "ImportFromTextLineIterator noun_env MOZC ''#'' ?dic = (st, dic')" by fastforce
  have "st \<in> {IMPORT_NOT_SUPPORTED, IMPORT_TOO_MANY_WORDS, IMPORT_INVALID_ENTRIES, Ext_OK}"
    using import_adds_valid_words [OF r] by (auto split: if_splits)
  then show ?thesis unfolding r fst_conv .
qed

section \<open>The storage\<close>

definition storage_ok :: "UdStorage \<Rightarrow> bool" where
  "storage_ok s \<longleftrightarrow> distinct (map dict_id (dictionaries s)) \<and> 0 \<notin> dict_id ` set (dictionaries s) \<and>
     distinct (map dict_name (dictionaries s)) \<and> list_all (\<lambda>d. ValidateDictionaryName (dict_name d) = Ext_OK) (dictionaries s) \<and>
     length (dictionaries s) \<le> max_dictionary_size"

lemma index_cases:
  obtains (none) "GetUserDictionaryIndex s i = -1" "i \<notin> dict_id ` set (dictionaries s)"
  | (some) n where "GetUserDictionaryIndex s i = int n" "n < length (dictionaries s)" "dict_id (dictionaries s ! n) = i"
proof (cases "List.find (\<lambda>k. dict_id (dictionaries s ! k) = i) [0..<length (dictionaries s)]")
  case None
  then have "i \<notin> dict_id ` set (dictionaries s)" by (auto simp: find_None_iff in_set_conv_nth)
  with None none show ?thesis by (simp add: GetUserDictionaryIndex_def)
next
  case (Some n)
  then have "n < length (dictionaries s)" "dict_id (dictionaries s ! n) = i"
    by (auto simp: find_Some_iff)
  with Some some show ?thesis by (simp add: GetUserDictionaryIndex_def)
qed

lemma index_none_iff: "GetUserDictionaryIndex s i = -1 \<longleftrightarrow> i \<notin> dict_id ` set (dictionaries s)"
  by (cases rule: index_cases [of s i]) (auto simp: image_iff)

lemma CreateNewDictionaryId_fresh: "CreateNewDictionaryId ds gen = Some (i, gen') \<Longrightarrow> i \<noteq> 0 \<and> i \<notin> dict_id ` set ds"
  by (induction ds gen rule: CreateNewDictionaryId.induct) (auto split: if_splits simp: list_ex_iff)

lemma id_of_name:
  assumes "distinct (map dict_name (dictionaries s))" and "d \<in> set (dictionaries s)"
  shows "GetUserDictionaryId s (dict_name d) = Inr (dict_id d)"
proof (cases "List.find (\<lambda>x. dict_name x = dict_name d) (dictionaries s)")
  case None
  then show ?thesis using assms(2) by (auto simp: find_None_iff)
next
  case (Some x)
  then have "x \<in> set (dictionaries s)" "dict_name x = dict_name d" by (auto simp: find_Some_iff)
  then have "x = d" using assms by (metis distinct_map inj_onD)
  with Some show ?thesis by (simp add: GetUserDictionaryId_def)
qed

lemma CreateDictionary_storage:
  assumes "storage_ok s" and "CreateDictionary gen name s = Some (r, s')"
  shows "storage_ok s' \<and> (case r of Inl _ \<Rightarrow> s' = s
      | Inr i \<Rightarrow> GetUserDictionaryIndex s i = -1 \<and> GetUserDictionaryId s' name = Inr i)"
proof (cases "IsValidDictionaryName s name \<noteq> Ext_OK \<or> IsStorageFull s")
  case True
  then show ?thesis using assms by (auto simp: CreateDictionary_def split: if_splits)
next
  case False
  then obtain i gen' where i: "CreateNewDictionaryId (dictionaries s @ [\<lparr>dict_id = 0, dict_name = [], entries = []\<rparr>]) gen = Some (i, gen')"
    and r: "r = Inr i" "s' = s\<lparr>dictionaries := dictionaries s @ [\<lparr>dict_id = i, dict_name = name, entries = []\<rparr>]\<rparr>"
    using assms(2) by (auto simp: CreateDictionary_def)
  from CreateNewDictionaryId_fresh [OF i] have fresh: "i \<noteq> 0" "i \<notin> dict_id ` set (dictionaries s)" by auto
  have name: "ValidateDictionaryName name = Ext_OK" "name \<notin> dict_name ` set (dictionaries s)"
    using False by (auto simp: IsValidDictionaryName_def list_ex_iff split: if_splits)
  have st: "storage_ok s'"
    using assms(1) fresh name False by (auto simp: storage_ok_def r IsStorageFull_def)
  then have "GetUserDictionaryId s' name = Inr i"
    using id_of_name [of s' "\<lparr>dict_id = i, dict_name = name, entries = []\<rparr>"] by (simp add: storage_ok_def r)
  with st fresh show ?thesis by (simp add: r index_none_iff)
qed

lemma RenameDictionary_storage:
  assumes "storage_ok s" and "RenameDictionary i name s = (st, s')"
  shows "storage_ok s' \<and> (if st = Ext_OK then GetUserDictionaryId s' name = Inr i else s' = s)"
proof (cases rule: index_cases [of s i])
  case none
  then show ?thesis using assms by (auto simp: RenameDictionary_def)
next
  case (some n)
  let ?d = "dictionaries s ! n"
  have d: "?d \<in> set (dictionaries s)" using some by simp
  have dn: "distinct (map dict_name (dictionaries s))" using assms(1) by (simp add: storage_ok_def)
  consider (same) "dict_name ?d = name" | (bad) "dict_name ?d \<noteq> name" "IsValidDictionaryName s name \<noteq> Ext_OK"
    | (new) "dict_name ?d \<noteq> name" "IsValidDictionaryName s name = Ext_OK" by blast
  then show ?thesis
  proof cases
    case same
    then show ?thesis using assms some id_of_name [OF dn d] by (auto simp: RenameDictionary_def)
  next
    case bad
    then show ?thesis using assms some by (auto simp: RenameDictionary_def)
  next
    case new
    then have s': "st = Ext_OK" "s' = s\<lparr>dictionaries := (dictionaries s)[n := ?d\<lparr>dict_name := name\<rparr>]\<rparr>"
      using assms(2) some by (auto simp: RenameDictionary_def)
    have name: "ValidateDictionaryName name = Ext_OK" "name \<notin> set (map dict_name (dictionaries s))"
      using new by (auto simp: IsValidDictionaryName_def list_ex_iff split: if_splits)
    have ids: "map dict_id (dictionaries s') = map dict_id (dictionaries s)"
      using some by (simp add: s' map_update list_update_same_conv)
    have names: "distinct (map dict_name (dictionaries s'))"
      using name(2) dn by (simp add: s' map_update distinct_list_update)
    have valid: "list_all (\<lambda>d. ValidateDictionaryName (dict_name d) = Ext_OK) (dictionaries s')"
      using assms(1) name(1) some(2) set_update_subset_insert [of "dictionaries s" n]
      by (fastforce simp: storage_ok_def list_all_iff s')
    have "storage_ok s'"
      using assms(1) ids names valid unfolding storage_ok_def
      by (metis (no_types, lifting) length_map set_map)
    moreover have "?d\<lparr>dict_name := name\<rparr> \<in> set (dictionaries s')" using some(2) by (simp add: s' set_update_memI)
    ultimately show ?thesis using id_of_name [of s' "?d\<lparr>dict_name := name\<rparr>"] some(3) s'(1) names by simp
  qed
qed

lemma DeleteDictionary_storage:
  assumes "storage_ok s" and "DeleteDictionary i s = (st, s')"
  shows "storage_ok s' \<and> GetUserDictionaryIndex s' i = -1 \<and>
    dictionaries s' = filter (\<lambda>d. dict_id d \<noteq> i) (dictionaries s)"
proof (cases rule: index_cases [of s i])
  case none
  then have "s' = s" using assms(2) by (simp add: DeleteDictionary_def)
  moreover have "filter (\<lambda>d. dict_id d \<noteq> i) (dictionaries s) = dictionaries s"
    by (rule filter_True) (use none(2) in auto)
  ultimately show ?thesis using none(1) assms(1) by simp
next
  case (some n)
  let ?ds = "dictionaries s"
  have ds: "?ds = take n ?ds @ ?ds ! n # drop (Suc n) ?ds" by (rule id_take_nth_drop [OF some(2)])
  have "distinct (map dict_id (take n ?ds @ ?ds ! n # drop (Suc n) ?ds))"
    unfolding ds [symmetric] using assms(1) by (simp add: storage_ok_def)
  then have "i \<notin> dict_id ` set (take n ?ds)" "i \<notin> dict_id ` set (drop (Suc n) ?ds)" using some(3) by simp_all
  then have other: "\<forall>d \<in> set (take n ?ds) \<union> set (drop (Suc n) ?ds). dict_id d \<noteq> i" by blast
  have s': "dictionaries s' = take n ?ds @ drop (Suc n) ?ds" using assms(2) some by (auto simp: DeleteDictionary_def)
  have f: "dictionaries s' = filter (\<lambda>d. dict_id d \<noteq> i) ?ds"
    by (subst ds) (use other some(3) s' in \<open>simp add: filter_id_conv\<close>)
  have "storage_ok s'"
    using assms(1) order_trans [OF length_filter_le [of "\<lambda>d. dict_id d \<noteq> i" ?ds], of max_dictionary_size]
    by (auto simp: storage_ok_def f distinct_map_filter list_all_iff)
  with f show ?thesis by (auto simp: index_none_iff)
qed

text \<open>
  What a storage goes through: besides creating, renaming and deleting it is loaded from its file and saved to
  it, locked and unlocked, and words are imported into a dictionary. The file is one a storage of this kind
  wrote, or there is none that can be read.
\<close>

datatype storage_op =
    St_Create "64 word list" bytes | St_Rename "64 word" bytes | St_Delete "64 word"
  | St_Import DictEnv IMEType bytes "64 word" | St_Load "64 word list" | St_Save SaveOutcome | St_Lock bool

fun storage_step :: "storage_op \<Rightarrow> UdStorage \<Rightarrow> UdStorage option" where
  "storage_step (St_Create gen name) s = map_option snd (CreateDictionary gen name s)"
| "storage_step (St_Rename i name) s = Some (snd (RenameDictionary i name s))"
| "storage_step (St_Delete i) s = Some (snd (DeleteDictionary i s))"
| "storage_step (St_Import env ty tsv i) s =
     (let n = GetUserDictionaryIndex s i
      in Some (if n < 0 then s
               else s\<lparr>dictionaries := (dictionaries s)
                      [nat n := snd (ImportFromTextLineIterator env ty tsv (dictionaries s ! nat n))]\<rparr>))"
| "storage_step (St_Load gen) s = map_option snd (UdStorage_Load gen s)"
| "storage_step (St_Save fs) s = Some (snd (UdStorage_Save fs s))"
| "storage_step (St_Lock b) s = Some (s\<lparr>locked := b\<rparr>)"

fun run_storage :: "storage_op list \<Rightarrow> UdStorage \<Rightarrow> UdStorage option" where
  "run_storage [] s = Some s"
| "run_storage (op # ops) s = Option.bind (storage_step op s) (run_storage ops)"

definition dictionaries_ok :: "UserDictionary list \<Rightarrow> bool" where
  "dictionaries_ok ds \<longleftrightarrow> distinct (map dict_id ds) \<and> 0 \<notin> dict_id ` set ds \<and> distinct (map dict_name ds) \<and>
     list_all (\<lambda>d. ValidateDictionaryName (dict_name d) = Ext_OK) ds \<and> length ds \<le> max_dictionary_size"

lemma storage_ok_dictionaries: "storage_ok s \<longleftrightarrow> dictionaries_ok (dictionaries s)"
  by (simp add: storage_ok_def dictionaries_ok_def)

fun file_ok :: "DbFile \<Rightarrow> bool" where
  "file_ok Db_Missing = True"
| "file_ok Db_CannotOpen = True"
| "file_ok (Db_Broken ds) = False"
| "file_ok (Db_Stored ds) = dictionaries_ok ds"

lemma assign_ids_none: "n \<le> length ds \<Longrightarrow> 0 \<notin> dict_id ` set ds \<Longrightarrow> assign_ids n ds gen = Some ds"
proof (induction n)
  case (Suc n)
  then have "ds ! (length ds - Suc n) \<in> set ds" by simp
  then have "dict_id (ds ! (length ds - Suc n)) \<noteq> 0" using Suc.prems(2) by (metis imageI)
  then show ?case using Suc by (simp add: Let_def)
qed simp

lemma storage_ok_cong:
  assumes "map dict_id (dictionaries s') = map dict_id (dictionaries s)"
    and "map dict_name (dictionaries s') = map dict_name (dictionaries s)"
  shows "storage_ok s' \<longleftrightarrow> storage_ok s"
proof -
  have v: "list_all (\<lambda>d. ValidateDictionaryName (dict_name d) = Ext_OK) ds \<longleftrightarrow>
      list_all (\<lambda>n. ValidateDictionaryName n = Ext_OK) (map dict_name ds)" for ds
    by (simp add: list_all_iff)
  have i: "0 \<notin> dict_id ` set ds \<longleftrightarrow> 0 \<notin> set (map dict_id ds)" for ds by simp
  have "length (dictionaries s') = length (dictionaries s)" using assms(1) by (rule map_eq_imp_length_eq)
  then show ?thesis unfolding storage_ok_def v i assms by simp
qed

lemma import_keeps_header:
  "dict_id (snd (ImportFromTextLineIterator env ty tsv d)) = dict_id d \<and>
   dict_name (snd (ImportFromTextLineIterator env ty tsv d)) = dict_name d"
proof (cases "TextInputIterator_type env ty tsv = NUM_IMES")
  case False
  obtain st d' where r: "import_loop env (raw_entries (TextInputIterator_type env ty tsv) tsv)
      (HashOf env ` set (entries d)) d Ext_OK = (st, d')" by fastforce
  from import_loop_spec [OF r] have "\<exists>new. d' = d\<lparr>entries := entries d @ new\<rparr>"
    unfolding imports_as_def import_result_def by blast
  then show ?thesis using r False by (auto simp: ImportFromTextLineIterator_def Let_def)
qed (simp add: ImportFromTextLineIterator_def)

lemma storage_step_ok:
  assumes "storage_step op s = Some s'" and ok: "storage_ok s" "file_ok (db_file s)"
  shows "storage_ok s' \<and> file_ok (db_file s')"
proof (cases op)
  case (St_Create gen name)
  then obtain r where r: "CreateDictionary gen name s = Some (r, s')" using assms(1) by auto
  then have "db_file s' = db_file s" by (auto simp: CreateDictionary_def split: if_splits)
  then show ?thesis using CreateDictionary_storage [OF ok(1) r] ok(2) by simp
next
  case (St_Rename i name)
  then obtain st where r: "RenameDictionary i name s = (st, s')"
    using assms(1) by (cases "RenameDictionary i name s") auto
  then have "db_file s' = db_file s" by (auto simp: RenameDictionary_def Let_def split: if_splits)
  then show ?thesis using RenameDictionary_storage [OF ok(1) r] ok(2) by simp
next
  case (St_Delete i)
  then obtain st where r: "DeleteDictionary i s = (st, s')"
    using assms(1) by (cases "DeleteDictionary i s") auto
  then have "db_file s' = db_file s" by (auto simp: DeleteDictionary_def Let_def split: if_splits)
  then show ?thesis using DeleteDictionary_storage [OF ok(1) r] ok(2) by simp
next
  case (St_Import env ty tsv i)
  show ?thesis
  proof (cases rule: index_cases [of s i])
    case none
    then show ?thesis using assms(1) ok St_Import by simp
  next
    case (some n)
    then have s': "s' = s\<lparr>dictionaries := (dictionaries s)
        [n := snd (ImportFromTextLineIterator env ty tsv (dictionaries s ! n))]\<rparr>"
      using assms(1) St_Import by (simp add: Let_def)
    have "map dict_id (dictionaries s') = map dict_id (dictionaries s)"
      "map dict_name (dictionaries s') = map dict_name (dictionaries s)"
      using some(2) import_keeps_header by (simp_all add: s' map_update list_update_same_conv)
    then show ?thesis using storage_ok_cong [of s' s] ok by (simp add: s')
  qed
next
  case (St_Load gen)
  define ds where "ds = (case db_file s of Db_Broken ds \<Rightarrow> ds | Db_Stored ds \<Rightarrow> ds | _ \<Rightarrow> dictionaries s)"
  have d: "dictionaries_ok ds" using ok by (cases "db_file s") (simp_all add: ds_def storage_ok_dictionaries)
  have "assign_ids (length ds) ds gen = Some ds" using d by (intro assign_ids_none) (simp_all add: dictionaries_ok_def)
  then have "s' = s\<lparr>dictionaries := ds\<rparr>"
    using assms(1) St_Load by (cases "db_file s") (auto simp: UdStorage_Load_def ds_def)
  then show ?thesis using d ok(2) by (simp add: storage_ok_dictionaries)
next
  case (St_Save fs)
  then show ?thesis using assms(1) ok by (auto simp: UdStorage_Save_def storage_ok_dictionaries)
next
  case (St_Lock b)
  then show ?thesis using assms(1) ok by (auto simp: storage_ok_dictionaries)
qed

lemma run_storage_ok:
  "run_storage ops s = Some s' \<Longrightarrow> storage_ok s \<Longrightarrow> file_ok (db_file s) \<Longrightarrow> storage_ok s' \<and> file_ok (db_file s')"
proof (induction ops arbitrary: s)
  case (Cons op ops)
  from Cons.prems(1) obtain s1 where s1: "storage_step op s = Some s1" "run_storage ops s1 = Some s'"
    by (auto simp: bind_eq_Some_conv)
  show ?case using Cons.IH [OF s1(2)] storage_step_ok [OF s1(1) Cons.prems(2,3)] by blast
qed simp

text \<open>C27: Whatever is done to a storage --- creating, renaming and deleting dictionaries, importing words,
  loading, saving, locking, in any order, from a file that such a storage wrote or none that can be read ---
  it never holds two dictionaries with one number or one name, a number zero, an invalid name or more than a
  hundred dictionaries, and neither does the file; in every such state creating and renaming are found under
  the new name, deleting removes exactly the dictionary of the number, and an operation that fails changes
  nothing.\<close>

theorem storage_invariant:
  assumes "file_ok db" and "run_storage ops \<lparr>dictionaries = [], locked = False, db_file = db\<rparr> = Some s"
  shows "storage_ok s \<and> file_ok (db_file s) \<and>
    (CreateDictionary gen name s = Some (r, s1) \<longrightarrow>
      (case r of Inl _ \<Rightarrow> s1 = s | Inr i \<Rightarrow> GetUserDictionaryIndex s i = -1 \<and> GetUserDictionaryId s1 name = Inr i)) \<and>
    (RenameDictionary i name s = (st, s2) \<longrightarrow>
      (if st = Ext_OK then GetUserDictionaryId s2 name = Inr i else s2 = s)) \<and>
    (DeleteDictionary i s = (st', s3) \<longrightarrow> GetUserDictionaryIndex s3 i = -1 \<and>
      dictionaries s3 = filter (\<lambda>d. dict_id d \<noteq> i) (dictionaries s))"
proof -
  have "storage_ok \<lparr>dictionaries = [], locked = False, db_file = db\<rparr>" by (simp add: storage_ok_def)
  from run_storage_ok [OF assms(2) this] assms(1) have s: "storage_ok s" "file_ok (db_file s)" by simp_all
  show ?thesis
    using s CreateDictionary_storage [OF s(1)] RenameDictionary_storage [OF s(1)] DeleteDictionary_storage [OF s(1)]
    by blast
qed

theorem storage_invariant_witness:
  "\<exists>s. run_storage [St_Load [], St_Lock True, St_Create [7] ''d'', St_Save \<lparr>write_succeeds = True,
     too_big_file_bytes = False, rename_succeeds = True\<rparr>] \<lparr>dictionaries = [], locked = False, db_file = Db_Missing\<rparr> = Some s \<and>
     length (dictionaries s) = 1 \<and> storage_ok s \<and> file_ok (db_file s)"
proof -
  let ?ops = "[St_Load [], St_Lock True, St_Create [7] ''d'', St_Save \<lparr>write_succeeds = True,
     too_big_file_bytes = False, rename_succeeds = True\<rparr>]"
  have "strings_IsValidUtf8 ''d''" by (rule ascii_valid) (simp add: byte_def)
  then have v: "ValidateDictionaryName ''d'' = Ext_OK"
    by (simp add: ValidateDictionaryName_def IsTooLongString_def kMaxStringSize_def ContainsInvalidChars_def)
  obtain s where r: "run_storage ?ops \<lparr>dictionaries = [], locked = False, db_file = Db_Missing\<rparr> = Some s"
    and l: "length (dictionaries s) = 1"
    by (simp add: UdStorage_Load_def CreateDictionary_def IsValidDictionaryName_def v IsStorageFull_def
        max_dictionary_size_def UdStorage_Save_def)
  have "file_ok Db_Missing" by simp
  from storage_invariant [OF this r] r l show ?thesis by blast
qed

end
