(* ===== verification/User_Dict_Type.thy ===== *)
theory User_Dict_Type
  imports User_Dict
begin

text \<open>
  The type of a stored word: what \<open>SanitizeEntry\<close> makes of an arbitrary entry has fields that fit and are
  well-formed text, and passes the validation of \<open>user_dictionary_util.cc\<close> as far as it can.
\<close>

section \<open>Decoding a character depends on its bytes only\<close>

definition high :: "char \<Rightarrow> bool" where "high c \<longleftrightarrow> 0x80 \<le> byte c"

lemma high_bytes: "IsUtf8TrailingByte c \<Longrightarrow> high c" "IsValidSecondByte l c \<Longrightarrow> high c"
  by (auto simp: high_def IsUtf8TrailingByte_iff IsValidSecondByte_def second_byte_boundary_def split: if_splits)

lemma decode_sequence_loop_ok:
  "ok (decode_sequence_loop cs i base) \<longleftrightarrow> list_all IsUtf8TrailingByte cs"
  "list_all IsUtf8TrailingByte cs \<Longrightarrow> bytes_seen (decode_sequence_loop cs i base) = i + length cs"
  by (induction cs arbitrary: i base) (auto simp: decode_defs)

lemma DecodeSequence_ok:
  assumes "ok (DecodeSequence n s m)" and "2 \<le> n" and "n \<le> length s"
  shows "bytes_seen (DecodeSequence n s m) = n" and "DecodeSequence n (take n s @ t) m = DecodeSequence n s m"
    and "list_all high (tl (take n s))"
proof -
  obtain l c r where s: "s = l # c # r" using assms(2,3) by (cases s; cases "tl s") auto
  obtain k where n: "n = Suc (Suc k)" using assms(2) by (cases n; cases "n - 1") auto
  let ?second = "if n = 2 then IsUtf8TrailingByte c else IsValidSecondByte l c"
  have second: ?second using assms(1) by (auto simp: DecodeSequence_def s decode_defs split: if_splits)
  then have loop: "list_all IsUtf8TrailingByte (take k r)"
    using assms(1) by (auto simp: DecodeSequence_def s n decode_sequence_loop_ok split: if_splits)
  show "bytes_seen (DecodeSequence n s m) = n"
    using second loop assms(3) by (simp add: DecodeSequence_def s n decode_sequence_loop_ok split: if_splits)
  show "DecodeSequence n (take n s @ t) m = DecodeSequence n s m"
    using assms(3) by (simp add: DecodeSequence_def s n)
  have "list_all high (take k r)" using loop by (auto simp: list_all_iff high_bytes)
  then show "list_all high (tl (take n s))" using second high_bytes by (auto simp: s n split: if_splits)
qed

lemma Decode_ok:
  assumes "ok (Decode s)"
  defines "n \<equiv> bytes_seen (Decode s)"
  shows "s \<noteq> []" and "Decode (take n s @ t) = Decode s" and "length (take n s) = n" and "0 < n"
    and "list_all high (take n s) \<or> (\<exists>c. take n s = [c] \<and> code_point (Decode s) = byte c)"
proof -
  show s: "s \<noteq> []" using assms(1) by (auto simp: Decode_def decode_defs)
  show "length (take n s) = n" "0 < n" using Decode_bytes_seen [OF s] by (simp_all add: n_def)
  obtain c cs where c: "s = c # cs" using s by (cases s) auto
  have not_short: "\<not> ok (HandleBufferTooShort s)"
    by (simp add: HandleBufferTooShort_def decode_defs split: list.split)
  have "Decode (take n s @ t) = Decode s \<and>
    (list_all high (take n s) \<or> (\<exists>c. take n s = [c] \<and> code_point (Decode s) = byte c))"
  proof (cases "byte c < 0x80")
    case True
    then show ?thesis by (simp add: n_def c Decode_def decode_continue_def)
  next
    case False
    let ?k = "OneCharLen c"
    let ?m = "if ?k = 3 then 0x0f else if ?k = 2 then 0x1f else 0x07 :: nat"
    have long: "?k \<le> length s" using assms(1) False not_short by (auto simp: c Decode_def Let_def split: if_splits)
    have k: "?k = 3 \<or> ?k = 2 \<or> ?k = 4"
      using assms(1) False long by (auto simp: c Decode_def Let_def decode_error_def split: if_splits)
    then have d: "Decode (c # x) = DecodeSequence ?k (c # x) ?m" if "?k \<le> length (c # x)" for x
      using False that by (auto simp: Decode_def Let_def)
    then have seq: "Decode s = DecodeSequence ?k s ?m" using long c by blast
    note q = DecodeSequence_ok [of ?k s ?m, OF assms(1) [unfolded seq] _ long]
    have n: "n = ?k" using q(1) k by (auto simp: n_def seq)
    obtain k' where k': "?k = Suc k'" using k by (cases ?k) auto
    have "Decode (take n s @ t) = DecodeSequence ?k (take ?k s @ t) ?m"
      using d [of "take k' cs @ t"] long by (simp add: n k' c)
    then have "Decode (take n s @ t) = Decode s" using q(2) k by (auto simp: seq)
    moreover have "list_all high (take n s)"
      using q(3) k False by (auto simp: n k' c high_def)
    ultimately show ?thesis by blast
  qed
  then show "Decode (take n s @ t) = Decode s"
    "list_all high (take n s) \<or> (\<exists>c. take n s = [c] \<and> code_point (Decode s) = byte c)" by blast+
qed

section \<open>Sanitised text\<close>

text \<open>A decoded character with its bytes, as \<open>Utf8AsUnicodeChar\<close> yields it for acceptable characters.\<close>

definition whole_char :: "decode_result \<times> bytes \<Rightarrow> bool" where
  "whole_char p \<longleftrightarrow> (case p of (d, b) \<Rightarrow>
     acceptable d \<and> b \<noteq> [] \<and> bytes_seen d = length b \<and> (\<forall>t. Decode (b @ t) = d) \<and>
     (list_all high b \<or> (\<exists>c. b = [c] \<and> code_point d = byte c)))"

lemma AsUnicodeChar_whole: "p \<in> set (AsUnicodeChar s) \<Longrightarrow> acceptable (fst p) \<Longrightarrow> whole_char p"
proof (induction s rule: AsUnicodeChar.induct)
  case (1 s)
  show ?case
  proof (cases "s = []")
    case False
    let ?b = "take (bytes_seen (Decode s)) s"
    from 1(2) False consider "p = (Decode s, ?b)" | "p \<in> set (AsUnicodeChar (drop (bytes_seen (Decode s)) s))"
      by (subst (asm) AsUnicodeChar.simps) auto
    then show ?thesis
    proof cases
      case 1
      then have "ok (Decode s)" using \<open>acceptable (fst p)\<close> by (simp add: acceptable_def)
      from Decode_ok [OF this] 1 \<open>acceptable (fst p)\<close> show ?thesis by (auto simp: whole_char_def)
    qed (use 1 False in blast)
  qed (use 1 in \<open>simp add: AsUnicodeChar.simps\<close>)
qed

lemma AsUnicodeChar_concat: "list_all whole_char ps \<Longrightarrow> AsUnicodeChar (concat (map snd ps)) = ps"
proof (induction ps)
  case (Cons p ps)
  obtain d b where p: "p = (d, b)" by fastforce
  from Cons show ?case by (subst AsUnicodeChar.simps) (simp add: p whole_char_def)
qed (simp add: AsUnicodeChar.simps)

lemma IsValidUtf8_chars: "strings_IsValidUtf8 s \<longleftrightarrow> list_all (\<lambda>(d, _). ok d) (AsUnicodeChar s)"
  by (induction s rule: strings_IsValidUtf8.induct) (subst strings_IsValidUtf8.simps, subst AsUnicodeChar.simps, simp)

lemma concat_AsUnicodeChar: "concat (map snd (AsUnicodeChar s)) = s"
  by (induction s rule: AsUnicodeChar.induct) (subst AsUnicodeChar.simps, simp)

definition clean_text :: "bytes \<Rightarrow> bool" where
  "clean_text s \<longleftrightarrow> length s \<le> kMaxStringSize \<and> list_all (\<lambda>(d, _). acceptable d) (AsUnicodeChar s)"

lemma SanitizeText_None: "SanitizeText s kMaxStringSize = None \<longleftrightarrow> clean_text s"
  by (simp add: SanitizeText_def clean_text_def)

lemma length_concat_filter: "length (concat (map snd (filter P ps))) \<le> length (concat (map snd ps))"
  by (induction ps) (auto intro: le_trans)

lemma SanitizeText_clean: "SanitizeText s kMaxStringSize = Some out \<Longrightarrow> clean_text out"
proof -
  assume a: "SanitizeText s kMaxStringSize = Some out"
  let ?ps = "filter (\<lambda>(c, _). acceptable c) (AsUnicodeChar (take kMaxStringSize s))"
  have out: "out = concat (map snd ?ps)" using a by (simp add: SanitizeText_def split: if_splits)
  have w: "list_all whole_char ?ps" using AsUnicodeChar_whole by (fastforce simp: list_all_iff)
  have "length out \<le> kMaxStringSize"
    using length_concat_filter [of "\<lambda>(c, _). acceptable c" "AsUnicodeChar (take kMaxStringSize s)"]
    by (simp add: out concat_AsUnicodeChar)
  then show ?thesis by (auto simp: clean_text_def out AsUnicodeChar_concat [OF w] list_all_iff)
qed

lemma clean_text_valid: "clean_text s \<Longrightarrow> \<not> ContainsInvalidChars s \<and> \<not> IsTooLongString s"
proof -
  assume a: "clean_text s"
  have ps: "list_all whole_char (AsUnicodeChar s)"
    using a AsUnicodeChar_whole [of _ s] by (fastforce simp: list_all_iff clean_text_def)
  have "31 < byte c" if c: "c \<in> set s" for c
  proof -
    from c obtain p where p: "p \<in> set (AsUnicodeChar s)" "c \<in> set (snd p)"
      by (subst (asm) concat_AsUnicodeChar [symmetric]) auto
    then have "whole_char p" using ps by (simp add: list_all_iff)
    then show ?thesis using p(2) by (auto simp: whole_char_def acceptable_def list_all_iff high_def split: prod.splits dest!: bspec)
  qed
  moreover have "byte newline = 10" "byte return = 13" "byte (CHR 0x09) = 9" by (simp_all add: byte_def)
  ultimately have "\<not> (\<exists>c \<in> set s. c = newline \<or> c = return \<or> c = CHR 0x09)" by fastforce
  moreover have "strings_IsValidUtf8 s"
    using a by (auto simp: IsValidUtf8_chars clean_text_def list_all_iff acceptable_def)
  ultimately show ?thesis using a by (auto simp: ContainsInvalidChars_def IsTooLongString_def clean_text_def)
qed

lemma sanitize_field_clean: "clean_text (snd (sanitize_field f))" "sanitize_field f = (False, f) \<longleftrightarrow> clean_text f"
  "fst (sanitize_field f) \<longleftrightarrow> snd (sanitize_field f) \<noteq> f"
  using SanitizeText_None [of f] SanitizeText_clean [of f]
  by (cases "SanitizeText f kMaxStringSize"; force simp: sanitize_field_def)+

text \<open>C33: \<open>SanitizeEntry\<close> makes every entry well-typed: whatever bytes the fields of an entry hold, afterwards
  they have at most 300 bytes of valid UTF-8 without control characters, the part of speech is one of
  the known ones, and the only complaints \<open>ValidateEntry\<close> may still have are an empty reading, an empty
  word or a part of speech that was never set. It reports a change exactly when it made one, and
  doing it again changes nothing.\<close>

theorem SanitizeEntry_well_typed:
  "\<exists>e'. SanitizeEntry e = (e' \<noteq> e, e') \<and> SanitizeEntry e' = (False, e') \<and>
    PosType_IsValid (get_pos e') \<and> list_all clean_text [ud_key e', ud_value e', ud_comment e'] \<and>
    ValidateEntry e' = (if ud_key e' = [] then READING_EMPTY else if ud_value e' = [] then WORD_EMPTY
      else if ud_pos e' = None then INVALID_POS_TYPE else Ext_OK)"
proof -
  obtain m1 k where k: "sanitize_field (ud_key e) = (m1, k)" by fastforce
  obtain m2 v where v: "sanitize_field (ud_value e) = (m2, v)" by fastforce
  obtain m3 c where c: "sanitize_field (ud_comment e) = (m3, c)" by fastforce
  note f = sanitize_field_clean [of "ud_key e"] sanitize_field_clean [of "ud_value e"] sanitize_field_clean [of "ud_comment e"]
  have clean: "clean_text k" "clean_text v" "clean_text c" using f k v c by simp_all
  have m: "m1 \<longleftrightarrow> k \<noteq> ud_key e" "m2 \<longleftrightarrow> v \<noteq> ud_value e" "m3 \<longleftrightarrow> c \<noteq> ud_comment e" using f k v c by simp_all
  define e1 where "e1 = e\<lparr>ud_key := k, ud_value := v, ud_comment := c\<rparr>"
  define e' where "e' = (if PosType_IsValid (get_pos e1) then e1 else e1\<lparr>ud_pos := Some 1\<rparr>)"
  have e': "ud_key e' = k" "ud_value e' = v" "ud_comment e' = c" "PosType_IsValid (get_pos e')"
    by (simp_all add: e'_def e1_def get_pos_def PosType_IsValid_def)
  have pos: "\<not> PosType_IsValid (get_pos e1) \<Longrightarrow> ud_pos e1 \<noteq> Some 1" by (auto simp: get_pos_def PosType_IsValid_def)
  have "SanitizeEntry e = (if PosType_IsValid (get_pos e1) then (m1 \<or> m2 \<or> m3, e1) else (True, e1\<lparr>ud_pos := Some 1\<rparr>))"
    by (simp add: SanitizeEntry_def k v c Let_def e1_def)
  moreover have "m1 \<or> m2 \<or> m3 \<longleftrightarrow> e1 \<noteq> e" using m by (cases e) (auto simp: e1_def)
  moreover have "e1\<lparr>ud_pos := Some 1\<rparr> \<noteq> e" if "\<not> PosType_IsValid (get_pos e1)"
    using pos [OF that] by (cases e) (auto simp: e1_def)
  ultimately have "SanitizeEntry e = (e' \<noteq> e, e')" by (auto simp: e'_def)
  moreover have "SanitizeEntry e' = (False, e')"
  proof -
    have same: "sanitize_field k = (False, k)" "sanitize_field v = (False, v)" "sanitize_field c = (False, c)"
      using clean sanitize_field_clean(2) by blast+
    define e2 where "e2 = e'\<lparr>ud_key := k, ud_value := v, ud_comment := c\<rparr>"
    have "SanitizeEntry e' = (if PosType_IsValid (get_pos e2) then (False, e2) else (True, e2\<lparr>ud_pos := Some 1\<rparr>))"
      by (simp add: SanitizeEntry_def Let_def same e'(1-3) e2_def)
    moreover have "e2 = e'" using e'(1-3) by (cases e') (simp add: e2_def)
    ultimately show ?thesis using e'(4) by simp
  qed
  moreover have "list_all clean_text [ud_key e', ud_value e', ud_comment e']" by (simp add: e' clean)
  moreover have "ValidateEntry e' = (if ud_key e' = [] then READING_EMPTY else if ud_value e' = [] then WORD_EMPTY
      else if ud_pos e' = None then INVALID_POS_TYPE else Ext_OK)"
    using clean_text_valid clean e' by (simp add: ValidateEntry_def)
  ultimately show ?thesis using e'(4) by blast
qed

end
