(* ===== verification/Sync_Merge.thy ===== *)
theory Sync_Merge
  imports Sync_Json "HOL-Library.Char_ord" "HOL-Library.List_Lexorder" "HOL-Library.Multiset"
begin

text \<open>
  Merging the two sides of a synchronisation (\<open>sync/sync_merge.cc\<close>,
  \<open>sync/sync_dictionary_tombstones.cc\<close>): dictionary lines, deletion records (tombstones) and history
  lines. A \<open>flat_hash_map\<close> is an association list in which a key occurs once; the order in which it is
  iterated is a parameter \<open>iter\<close> of which only that it is a permutation is known.
\<close>

section \<open>Lines\<close>

definition StripAsciiWhitespace :: "bytes \<Rightarrow> bytes" where
  "StripAsciiWhitespace s = rev (dropWhile ascii_isspace (rev (dropWhile ascii_isspace s)))"

text \<open>The lines the loops over a file look at: stripped, without empty lines and comments.\<close>

definition content_lines :: "bytes \<Rightarrow> bytes list" where
  "content_lines tsv =
     filter (\<lambda>line. line \<noteq> [] \<and> \<not> starts_with line ''#'') (map StripAsciiWhitespace (StrSplit newline tsv))"

abbreviation tab :: char where "tab \<equiv> CHR 0x09"

definition unlines :: "bytes list \<Rightarrow> bytes" where
  "unlines ls = concat (map (\<lambda>l. l @ [newline]) ls)"

section \<open>Dictionary lines\<close>

definition DictionaryEntryKey :: "bytes \<Rightarrow> bytes" where
  "DictionaryEntryKey line =
     (let fields = filter (\<lambda>f. f \<noteq> []) (StrSplit tab line)
      in if length fields < 3 then line else fields ! 0 @ [tab] @ fields ! 1 @ [tab] @ fields ! 2)"

definition DictionaryEntrySyncKey :: "bytes \<Rightarrow> bytes \<Rightarrow> bytes \<Rightarrow> bytes \<Rightarrow> bytes" where
  "DictionaryEntrySyncKey reading surface pos locale = reading @ [tab] @ surface @ [tab] @ pos @ [tab] @ locale"

definition DictionaryLineSyncKey :: "bytes \<Rightarrow> bytes" where
  "DictionaryLineSyncKey line =
     (let fields = StrSplit tab line
      in if length fields < 3 then line
         else DictionaryEntrySyncKey (fields ! 0) (fields ! 1) (fields ! 2)
                (if length fields \<ge> 5 then fields ! 4 else []))"

text \<open>The entries of a file by key, the last line of a key winning, and the keys in the order they appear.\<close>

definition ingest_line :: "(bytes \<Rightarrow> bytes) \<Rightarrow> (bytes \<times> bytes) list \<times> bytes list \<Rightarrow> bytes \<Rightarrow> (bytes \<times> bytes) list \<times> bytes list" where
  "ingest_line key_of eo line =
     (let key = key_of line
      in (AList.update key line (fst eo), if key \<in> fst ` set (fst eo) then snd eo else snd eo @ [key]))"

definition ingest :: "(bytes \<Rightarrow> bytes) \<Rightarrow> bytes \<Rightarrow> (bytes \<times> bytes) list \<times> bytes list \<Rightarrow> (bytes \<times> bytes) list \<times> bytes list" where
  "ingest key_of tsv eo = foldl (ingest_line key_of) eo (content_lines tsv)"

type_synonym iter = "(bytes \<times> bytes) list \<Rightarrow> (bytes \<times> bytes) list"

text \<open>The merged file: the lines in the order of their keys, then those whose key has no place in it.\<close>

definition dictionary_header :: bytes where
  "dictionary_header = ''# marinaMoji sync dictionary'' @ [newline]"

definition write_lines :: "iter \<Rightarrow> (bytes \<times> bytes) list \<Rightarrow> bytes list \<Rightarrow> bytes" where
  "write_lines iter entries order =
     dictionary_header @
     unlines (concat (map (\<lambda>key. case map_of entries key of None \<Rightarrow> [] | Some line \<Rightarrow> [line]) order)) @
     unlines (map snd (filter (\<lambda>(key, line). key \<notin> set order) (iter entries)))"

record DictionaryMergeStats =
  added :: nat
  skipped :: nat

definition MergeDictionaryTsv :: "iter \<Rightarrow> bytes \<Rightarrow> bytes \<Rightarrow> bytes \<times> DictionaryMergeStats" where
  "MergeDictionaryTsv iter remote_tsv local_tsv =
     (let (entries, order) = ingest DictionaryEntryKey local_tsv ([], []);
          before = length entries;
          (entries, order) = ingest DictionaryEntryKey remote_tsv (entries, order)
      in (write_lines iter entries order, \<lparr>added = length entries - before, skipped = 0\<rparr>))"

section \<open>Tombstones\<close>

record DictionaryTombstone =
  reading :: bytes
  surface :: bytes
  pos :: bytes
  locale_ts :: bytes
  deleted_at_unix :: "64 word"
  tombstone_device :: bytes

definition SyncKey :: "DictionaryTombstone \<Rightarrow> bytes" where
  "SyncKey t = DictionaryEntrySyncKey (reading t) (surface t) (pos t) (locale_ts t)"

text \<open>Printing and reading of unsigned numbers by abseil: \<open>None\<close> is a text that is not a number of the
  width.\<close>

record UConv =
  StrCat_u32 :: "32 word \<Rightarrow> bytes"
  SimpleAtoi_u32 :: "bytes \<Rightarrow> 32 word option"
  StrCat_u64 :: "64 word \<Rightarrow> bytes"
  SimpleAtoi_u64 :: "bytes \<Rightarrow> 64 word option"

definition ToTsvLine :: "UConv \<Rightarrow> DictionaryTombstone \<Rightarrow> bytes" where
  "ToTsvLine uc t =
     reading t @ [tab] @ surface t @ [tab] @ pos t @ [tab] @ locale_ts t @ [tab] @
     StrCat_u64 uc (deleted_at_unix t) @ [tab] @ tombstone_device t"

definition parse_tombstone :: "UConv \<Rightarrow> bytes \<Rightarrow> DictionaryTombstone option" where
  "parse_tombstone uc line =
     (let fields = StrSplit tab line
      in if length fields < 6 then None
         else (case SimpleAtoi_u64 uc (fields ! 4) of
                 None \<Rightarrow> None
               | Some n \<Rightarrow>
                   Some \<lparr>reading = fields ! 0, surface = fields ! 1, pos = fields ! 2, locale_ts = fields ! 3,
                         deleted_at_unix = n, tombstone_device = fields ! 5\<rparr>))"

definition ParseDictionaryTombstonesTsv :: "UConv \<Rightarrow> bytes \<Rightarrow> DictionaryTombstone list" where
  "ParseDictionaryTombstonesTsv uc tsv = List.map_filter (parse_tombstone uc) (content_lines tsv)"

definition kDictionaryTombstonesHeader :: bytes where
  "kDictionaryTombstonesHeader = ''# marinaMoji sync dictionary tombstones'' @ [newline]"

definition SerializeDictionaryTombstonesTsv :: "UConv \<Rightarrow> DictionaryTombstone list \<Rightarrow> bytes" where
  "SerializeDictionaryTombstonesTsv uc ts = kDictionaryTombstonesHeader @ unlines (map (ToTsvLine uc) ts)"

definition TombstoneWinsOver :: "DictionaryTombstone \<Rightarrow> DictionaryTombstone \<Rightarrow> bool" where
  "TombstoneWinsOver a b \<longleftrightarrow>
     (if deleted_at_unix a \<noteq> deleted_at_unix b then deleted_at_unix a > deleted_at_unix b
      else tombstone_device a > tombstone_device b)"

type_synonym tombstone_iter = "(bytes \<times> DictionaryTombstone) list \<Rightarrow> (bytes \<times> DictionaryTombstone) list"

definition add_tombstone ::
  "(bytes \<times> DictionaryTombstone) list \<Rightarrow> DictionaryTombstone \<Rightarrow> (bytes \<times> DictionaryTombstone) list" where
  "add_tombstone merged t =
     (case map_of merged (SyncKey t) of
        None \<Rightarrow> merged @ [(SyncKey t, t)]
      | Some u \<Rightarrow> if TombstoneWinsOver t u then AList.update (SyncKey t) t merged else merged)"

definition MergeDictionaryTombstones ::
  "tombstone_iter \<Rightarrow> DictionaryTombstone list \<Rightarrow> DictionaryTombstone list \<Rightarrow> DictionaryTombstone list" where
  "MergeDictionaryTombstones titer local remote =
     sort_key SyncKey (map snd (titer (foldl add_tombstone (foldl add_tombstone [] local) remote)))"

definition CollectDictionarySyncKeysFromTsv :: "bytes \<Rightarrow> bytes set" where
  "CollectDictionarySyncKeysFromTsv tsv = set (map DictionaryLineSyncKey (content_lines tsv))"

text \<open>\<open>now\<close> in seconds; a cutoff before 1970 is a large number, as \<open>ToUnixSeconds\<close> is converted to
  \<open>uint64_t\<close>.\<close>

definition kDictionaryTombstoneRetentionDays :: int where "kDictionaryTombstoneRetentionDays = 90"

definition CompactDictionaryTombstones ::
  "DictionaryTombstone list \<Rightarrow> bytes set \<Rightarrow> int \<Rightarrow> int \<Rightarrow> DictionaryTombstone list" where
  "CompactDictionaryTombstones ts live_keys now retention_days =
     (let cutoff_unix = (word_of_int (now - 3600 * 24 * max 1 retention_days) :: 64 word)
      in filter (\<lambda>t. \<not> (SyncKey t \<in> live_keys \<or> deleted_at_unix t < cutoff_unix)) ts)"

record DictionaryTombstoneMergeStats =
  tombs_merged :: nat
  tombs_compacted :: nat
  removed_from_dictionary :: nat

definition deletes :: "bytes set \<Rightarrow> bytes set \<Rightarrow> bytes \<Rightarrow> bytes \<Rightarrow> DictionaryTombstone \<Rightarrow> bool" where
  "deletes local_keys remote_keys local_device_id key t \<longleftrightarrow>
     (let in_local = key \<in> local_keys; in_remote = key \<in> remote_keys;
          local_deleted = \<not> in_local \<and> in_remote;
          remote_deleted = in_local \<and> \<not> in_remote \<and> tombstone_device t \<noteq> local_device_id
      in local_deleted \<or> remote_deleted)"

text \<open>The loop over \<open>tombstone_by_key\<close>: the entries that stay, and how many were removed.\<close>

fun apply_tombstones ::
  "bytes set \<Rightarrow> bytes set \<Rightarrow> bytes \<Rightarrow> (bytes \<times> DictionaryTombstone) list \<Rightarrow> (bytes \<times> bytes) list \<times> nat \<Rightarrow>
     (bytes \<times> bytes) list \<times> nat" where
  "apply_tombstones lk rk dev [] (entries, removed) = (entries, removed)"
| "apply_tombstones lk rk dev ((key, t) # ts) (entries, removed) =
     apply_tombstones lk rk dev ts
       (if map_of entries key = None then (entries, removed)
        else if deletes lk rk dev key t then (AList.delete key entries, removed + 1)
        else (entries, removed))"

definition merge_remote_lines ::
  "(bytes \<times> bytes) list \<Rightarrow> bytes list \<Rightarrow> (bytes \<times> bytes) list \<times> bytes list \<Rightarrow> (bytes \<times> bytes) list \<times> bytes list" where
  "merge_remote_lines remote_entries remote_order eo =
     foldl (\<lambda>(entries, order) key.
        (AList.update key (the (map_of remote_entries key)) entries,
         if map_of entries key = None then order @ [key] else order)) eo remote_order"

definition MergeDictionaryWithTombstones ::
  "iter \<Rightarrow> tombstone_iter \<Rightarrow> int \<Rightarrow> bytes \<Rightarrow> bytes \<Rightarrow> DictionaryTombstone list \<Rightarrow> DictionaryTombstone list \<Rightarrow> bytes \<Rightarrow>
     bytes \<times> DictionaryTombstone list \<times> DictionaryMergeStats \<times> DictionaryTombstoneMergeStats" where
  "MergeDictionaryWithTombstones iter titer now remote_tsv local_tsv remote_tombstones local_tombstones local_device_id =
     (let local_keys = CollectDictionarySyncKeysFromTsv local_tsv;
          remote_keys = CollectDictionarySyncKeysFromTsv remote_tsv;
          (entries, order) = ingest DictionaryLineSyncKey local_tsv ([], []);
          before = length entries;
          (remote_entries, remote_order) = ingest DictionaryLineSyncKey remote_tsv ([], []);
          (entries, order) = merge_remote_lines remote_entries remote_order (entries, order);
          dict_stats = \<lparr>added = length entries - before, skipped = 0\<rparr>;
          tombstones = MergeDictionaryTombstones titer local_tombstones remote_tombstones;
          tombstone_by_key = foldl add_tombstone [] tombstones;
          (entries, removed) = apply_tombstones local_keys remote_keys local_device_id (titer tombstone_by_key) (entries, 0);
          merged_tsv = write_lines iter entries order;
          live_keys = CollectDictionarySyncKeysFromTsv merged_tsv;
          kept = CompactDictionaryTombstones tombstones live_keys now kDictionaryTombstoneRetentionDays
      in (merged_tsv, kept, dict_stats,
          \<lparr>tombs_merged = length tombstones, tombs_compacted = length tombstones - length kept,
           removed_from_dictionary = removed\<rparr>))"

definition ExportDictionaryTombstonesTsv :: "UConv \<Rightarrow> DictionaryTombstone list \<Rightarrow> bytes \<Rightarrow> bytes" where
  "ExportDictionaryTombstonesTsv uc local_tombstones live_dictionary_tsv =
     (let live_keys = CollectDictionarySyncKeysFromTsv live_dictionary_tsv
      in SerializeDictionaryTombstonesTsv uc (filter (\<lambda>t. SyncKey t \<notin> live_keys) local_tombstones))"

section \<open>History\<close>

record HistEntry =
  hist_key :: bytes
  hist_value :: bytes
  suggestion_freq :: "32 word"
  shown_freq :: "32 word"
  last_access_time :: "64 word"

definition HistoryEntryKey :: "bytes \<Rightarrow> bytes" where
  "HistoryEntryKey line =
     (let fields = StrSplit tab line
      in if length fields < 2 then line else fields ! 0 @ [tab] @ fields ! 1)"

definition field_or :: "(bytes \<Rightarrow> 'a option) \<Rightarrow> 'a \<Rightarrow> bytes list \<Rightarrow> nat \<Rightarrow> 'a" where
  "field_or atoi d fs i =
     (if length fs > i then (case atoi (fs ! i) of None \<Rightarrow> d | Some v \<Rightarrow> v) else d)"

text \<open>The loop of \<open>parse\<close>, which \<open>ImportHistoryTsv\<close> of \<open>sync_service.cc\<close> repeats; \<open>None\<close> is a skipped line.\<close>

definition parse_history_line :: "UConv \<Rightarrow> bytes \<Rightarrow> HistEntry option" where
  "parse_history_line uc line =
     (let fields = StrSplit tab line
      in if length fields < 2 then None
         else Some \<lparr>hist_key = fields ! 0, hist_value = fields ! 1,
                    suggestion_freq = field_or (SimpleAtoi_u32 uc) 0 fields 2,
                    shown_freq = field_or (SimpleAtoi_u32 uc) 0 fields 3,
                    last_access_time = field_or (SimpleAtoi_u64 uc) 0 fields 4\<rparr>)"

definition merge_history_line ::
  "UConv \<Rightarrow> (bytes \<times> HistEntry) list \<Rightarrow> bytes \<Rightarrow> (bytes \<times> HistEntry) list" where
  "merge_history_line uc entries line =
     (case parse_history_line uc line of
        None \<Rightarrow> entries
      | Some e \<Rightarrow>
          let id = HistoryEntryKey line
          in (case map_of entries id of
                None \<Rightarrow> AList.update id e entries
              | Some old \<Rightarrow>
                  AList.update id
                    (old\<lparr>suggestion_freq := suggestion_freq old + suggestion_freq e,
                         shown_freq := shown_freq old + shown_freq e,
                         last_access_time := max (last_access_time old) (last_access_time e)\<rparr>) entries))"

definition history_line :: "UConv \<Rightarrow> HistEntry \<Rightarrow> bytes" where
  "history_line uc e =
     hist_key e @ [tab] @ hist_value e @ [tab] @ StrCat_u32 uc (suggestion_freq e) @ [tab] @
     StrCat_u32 uc (shown_freq e) @ [tab] @ StrCat_u64 uc (last_access_time e)"

definition history_header :: bytes where
  "history_header = ''# marinaMoji sync history'' @ [newline]"

type_synonym history_iter = "(bytes \<times> HistEntry) list \<Rightarrow> (bytes \<times> HistEntry) list"

definition history_entries :: "UConv \<Rightarrow> bytes \<Rightarrow> bytes \<Rightarrow> (bytes \<times> HistEntry) list" where
  "history_entries uc remote_tsv local_tsv =
     foldl (merge_history_line uc) (foldl (merge_history_line uc) [] (content_lines local_tsv)) (content_lines remote_tsv)"

definition MergeHistoryTsv :: "UConv \<Rightarrow> history_iter \<Rightarrow> bytes \<Rightarrow> bytes \<Rightarrow> bytes \<times> nat" where
  "MergeHistoryTsv uc hiter remote_tsv local_tsv =
     (let entries = history_entries uc remote_tsv local_tsv
      in (history_header @ unlines (map (\<lambda>(id, e). history_line uc e) (hiter entries)), length entries))"

section \<open>Reading back written lines\<close>

definition clean_line :: "bytes \<Rightarrow> bool" where
  "clean_line l \<longleftrightarrow> l \<noteq> [] \<and> \<not> ascii_isspace (hd l) \<and> \<not> ascii_isspace (last l) \<and> hd l \<noteq> CHR ''#'' \<and> newline \<notin> set l"

lemma isspace_newline: "ascii_isspace newline"
  by (simp add: ascii_isspace_def byte_def)

lemma dropWhile_hd: "dropWhile P s \<noteq> [] \<Longrightarrow> \<not> P (hd (dropWhile P s))"
  by (rule hd_dropWhile)

lemma Strip_clean:
  assumes "clean_line l"
  shows "StripAsciiWhitespace l = l"
proof -
  have "dropWhile ascii_isspace l = l" "dropWhile ascii_isspace (rev l) = rev l"
    unfolding dropWhile_eq_self_iff using assms by (simp_all add: clean_line_def hd_rev)
  then show ?thesis by (simp add: StripAsciiWhitespace_def)
qed

lemma set_Strip: "set (StripAsciiWhitespace s) \<subseteq> set s"
  unfolding StripAsciiWhitespace_def by (auto dest!: set_dropWhileD)

lemma Strip_ends:
  assumes "StripAsciiWhitespace s \<noteq> []"
  shows "\<not> ascii_isspace (hd (StripAsciiWhitespace s))" "\<not> ascii_isspace (last (StripAsciiWhitespace s))"
proof -
  define u where "u = dropWhile ascii_isspace s"
  define v where "v = dropWhile ascii_isspace (rev u)"
  have v: "v \<noteq> []" "StripAsciiWhitespace s = rev v" using assms by (auto simp: StripAsciiWhitespace_def u_def v_def)
  then show "\<not> ascii_isspace (last (StripAsciiWhitespace s))"
    using dropWhile_hd [of ascii_isspace "rev u"] by (simp add: last_rev v_def)
  have "u \<noteq> []" using v by (auto simp: v_def)
  then have "\<not> ascii_isspace (hd u)" using dropWhile_hd [of ascii_isspace s] by (simp add: u_def)
  moreover have "last v = last (rev u)"
    using v(1) unfolding v_def by (metis last_appendR takeWhile_dropWhile_id)
  then have "hd (rev v) = hd u" using v(1) \<open>u \<noteq> []\<close> by (simp add: hd_rev last_rev)
  ultimately show "\<not> ascii_isspace (hd (StripAsciiWhitespace s))" using v by simp
qed

lemma content_lines_clean: "l \<in> set (content_lines tsv) \<Longrightarrow> clean_line l"
proof -
  assume "l \<in> set (content_lines tsv)"
  then obtain r where r: "r \<in> set (StrSplit newline tsv)" "l = StripAsciiWhitespace r" "l \<noteq> []" "\<not> starts_with l ''#''"
    by (auto simp: content_lines_def)
  have "newline \<notin> set l" using StrSplit_fields [OF r(1)] set_Strip r(2) by blast
  moreover have "hd l \<noteq> CHR ''#''" using r(3,4) by (cases l) auto
  ultimately show "clean_line l" using Strip_ends [of r] r by (simp add: clean_line_def)
qed

lemma StrSplit_unlines:
  "list_all (\<lambda>l. newline \<notin> set l) ls \<Longrightarrow> StrSplit newline (unlines ls @ rest) = ls @ StrSplit newline rest"
  by (induction ls) (simp_all add: unlines_def StrSplit_append)

lemma content_lines_unlines:
  assumes "list_all clean_line ls" and "hd header = CHR ''#''" and "header \<noteq> []" and "newline \<notin> set header"
    and "\<not> ascii_isspace (CHR ''#'')"
  shows "content_lines (header @ newline # unlines ls) = ls"
proof -
  have n: "list_all (\<lambda>l. newline \<notin> set l) ls" using assms(1) by (auto simp: list_all_iff clean_line_def)
  have "StrSplit newline (header @ newline # unlines ls) = header # ls @ [[]]"
    using StrSplit_unlines [OF n, of "[]"] by (simp add: StrSplit_append [OF assms(4)])
  moreover have "starts_with (StripAsciiWhitespace header) ''#''"
  proof -
    obtain h where h: "header = CHR ''#'' # h" using assms(2,3) by (cases header) auto
    have "hd (StripAsciiWhitespace header) = CHR ''#'' \<and> StripAsciiWhitespace header \<noteq> []"
    proof -
      have "dropWhile ascii_isspace header = header" using h assms(5) by simp
      moreover have "dropWhile ascii_isspace (rev header) \<noteq> []" using h assms(5) by auto
      moreover have "last (dropWhile ascii_isspace (rev header)) = last (rev header)"
        using calculation(2) by (metis last_appendR takeWhile_dropWhile_id)
      ultimately show ?thesis using h by (simp add: StripAsciiWhitespace_def hd_rev last_rev)
    qed
    then show ?thesis by (cases "StripAsciiWhitespace header") auto
  qed
  moreover have "map StripAsciiWhitespace ls = ls"
    using assms(1) by (auto simp: list_all_iff Strip_clean intro: map_idI)
  moreover have "filter (\<lambda>l. l \<noteq> [] \<and> \<not> starts_with l ''#'') ls = ls"
    using assms(1) by (auto simp: list_all_iff clean_line_def filter_id_conv neq_Nil_conv)
  ultimately show ?thesis by (simp add: content_lines_def StripAsciiWhitespace_def)
qed

lemma content_lines_dictionary: "list_all clean_line ls \<Longrightarrow> content_lines (dictionary_header @ unlines ls) = ls"
  and content_lines_history: "list_all clean_line ls \<Longrightarrow> content_lines (history_header @ unlines ls) = ls"
  and content_lines_tombstones:
    "list_all clean_line ls \<Longrightarrow> content_lines (kDictionaryTombstonesHeader @ unlines ls) = ls"
  using content_lines_unlines [of ls "''# marinaMoji sync dictionary''"]
    content_lines_unlines [of ls "''# marinaMoji sync history''"]
    content_lines_unlines [of ls "''# marinaMoji sync dictionary tombstones''"]
  by (simp_all add: dictionary_header_def history_header_def kDictionaryTombstonesHeader_def ascii_isspace_def byte_def)

section \<open>Entries by key\<close>

text \<open>The last line of a key, the meaning of a file.\<close>

definition last_line :: "(bytes \<Rightarrow> bytes) \<Rightarrow> bytes list \<Rightarrow> bytes \<Rightarrow> bytes option" where
  "last_line key_of ls k = (let ms = filter (\<lambda>l. key_of l = k) ls in if ms = [] then None else Some (last ms))"

lemma last_line_Nil [simp]: "last_line key_of [] = Map.empty"
  by (simp add: last_line_def fun_eq_iff)

lemma last_line_snoc: "last_line key_of (ls @ [l]) = (last_line key_of ls)(key_of l \<mapsto> l)"
  by (auto simp: last_line_def Let_def fun_eq_iff)

lemma last_line_SomeD: "last_line key_of ls k = Some l \<Longrightarrow> l \<in> set ls \<and> key_of l = k"
  using last_in_set [of "filter (\<lambda>l. key_of l = k) ls"] by (auto simp: last_line_def Let_def split: if_splits)

lemma last_line_None: "last_line key_of ls k = None \<longleftrightarrow> k \<notin> key_of ` set ls"
  by (auto simp: last_line_def Let_def filter_empty_conv)

definition table_ok :: "(bytes \<times> 'v) list \<times> bytes list \<Rightarrow> bool" where
  "table_ok eo \<longleftrightarrow> distinct (map fst (fst eo)) \<and> distinct (snd eo) \<and> set (snd eo) = fst ` set (fst eo)"

lemma map_of_None_fst: "map_of m k = None \<longleftrightarrow> k \<notin> fst ` set m"
  by (simp add: map_of_eq_None_iff)

lemma fst_update: "fst ` set (AList.update k v m) = insert k (fst ` set m)"
  by (induction m) auto

lemma ingest_line_ok:
  assumes "table_ok eo"
  shows "table_ok (ingest_line key_of eo l)"
    and "map_of (fst (ingest_line key_of eo l)) = (map_of (fst eo))(key_of l \<mapsto> l)"
proof -
  show "table_ok (ingest_line key_of eo l)"
  proof (cases "key_of l \<in> fst ` set (fst eo)")
    case True
    with assms show ?thesis by (simp add: table_ok_def ingest_line_def Let_def distinct_update fst_update insert_absorb)
  next
    case False
    with assms show ?thesis by (simp add: table_ok_def ingest_line_def Let_def distinct_update fst_update)
  qed
  show "map_of (fst (ingest_line key_of eo l)) = (map_of (fst eo))(key_of l \<mapsto> l)"
    by (simp add: ingest_line_def Let_def update_conv')
qed

lemma ingest_lines:
  assumes "table_ok eo"
  shows "table_ok (foldl (ingest_line key_of) eo ls)"
    and "map_of (fst (foldl (ingest_line key_of) eo ls)) = map_of (fst eo) ++ last_line key_of ls"
proof (induction ls rule: rev_induct)
  case Nil
  case 1 then show ?case using assms by simp
  case 2 then show ?case by simp
next
  case (snoc l ls)
  case 1 then show ?case using snoc ingest_line_ok(1) by simp
  case 2 show ?case
    unfolding foldl_append foldl.simps last_line_snoc ingest_line_ok(2) [OF snoc(1)] snoc(2) map_add_upd ..
qed

lemma table_ok_empty [simp]: "table_ok ([], [])"
  by (simp add: table_ok_def)

lemma ingest_file:
  assumes "ingest key_of tsv ([], []) = (entries, order)"
  shows "table_ok (entries, order)" and "map_of entries = last_line key_of (content_lines tsv)"
  using ingest_lines [OF table_ok_empty, of key_of "content_lines tsv"] assms
  by (simp_all add: ingest_def)

lemma merge_remote_lines_spec:
  assumes "table_ok (entries, order)" and "set ro \<subseteq> fst ` set re"
    and "merge_remote_lines re ro (entries, order) = (entries', order')"
  shows "table_ok (entries', order') \<and>
    map_of entries' = (\<lambda>k. if k \<in> set ro then map_of re k else map_of entries k)"
  using assms
proof (induction ro arbitrary: entries order)
  case Nil
  then show ?case by (simp add: merge_remote_lines_def)
next
  case (Cons k ro)
  define e1 where "e1 = AList.update k (the (map_of re k)) entries"
  define o1 where "o1 = (if map_of entries k = None then order @ [k] else order)"
  obtain v where v: "map_of re k = Some v"
    using Cons.prems(2) map_of_None_fst [of re k] by (cases "map_of re k") auto
  have t: "table_ok (e1, o1)" using Cons.prems(1)
    by (auto simp: table_ok_def e1_def o1_def distinct_update fst_update map_of_None_fst)
  have "merge_remote_lines re ro (e1, o1) = (entries', order')"
    using Cons.prems(3) by (simp add: merge_remote_lines_def e1_def o1_def)
  from Cons.IH [OF t _ this] Cons.prems(2) v show ?case
    by (auto simp: e1_def update_conv' fun_eq_iff)
qed

lemma apply_tombstones_spec:
  assumes "distinct (map fst entries)" and "apply_tombstones lk rk dev ts (entries, n) = (entries', n')"
  shows "distinct (map fst entries') \<and>
    map_of entries' = (\<lambda>k. if \<exists>t. (k, t) \<in> set ts \<and> deletes lk rk dev k t then None else map_of entries k) \<and>
    n' + length entries' = n + length entries"
  using assms
proof (induction ts arbitrary: entries n)
  case Nil
  then show ?case by auto
next
  case (Cons kt ts)
  obtain k t where kt: "kt = (k, t)" by fastforce
  show ?case
  proof (cases "map_of entries k \<noteq> None \<and> deletes lk rk dev k t")
    case False
    with Cons.IH [OF Cons.prems(1), of n] Cons.prems(2) show ?thesis by (auto simp: kt fun_eq_iff split: if_splits)
  next
    case True
    then obtain v where v: "map_of entries k = Some v" by auto
    have len: "length entries = Suc (length (AList.delete k entries))"
    proof -
      have "card (fst ` set entries) = length entries" using Cons.prems(1) distinct_card by fastforce
      moreover have "distinct (map fst (AList.delete k entries))" by (rule distinct_delete) (rule Cons.prems(1))
      then have "card (fst ` set (AList.delete k entries)) = length (AList.delete k entries)"
        using distinct_card by fastforce
      moreover have "fst ` set (AList.delete k entries) = fst ` set entries - {k}"
        by (simp only: set_map [symmetric] delete_keys set_removeAll)
      moreover have "k \<in> fst ` set entries" using v by (force dest: map_of_SomeD)
      ultimately show ?thesis by (metis card_Suc_Diff1 finite_imageI finite_set)
    qed
    have "apply_tombstones lk rk dev ts (AList.delete k entries, Suc n) = (entries', n')"
      using True Cons.prems(2) by (auto simp: kt)
    from Cons.IH [OF distinct_delete [OF Cons.prems(1)] this] len show ?thesis
      using True by (auto simp: kt delete_conv' fun_eq_iff)
  qed
qed

section \<open>Merging tombstones\<close>

lemma Wins_irrefl: "\<not> TombstoneWinsOver t t"
  by (simp add: TombstoneWinsOver_def)

lemma Wins_trans: "TombstoneWinsOver a b \<Longrightarrow> TombstoneWinsOver b c \<Longrightarrow> TombstoneWinsOver a c"
  by (auto simp: TombstoneWinsOver_def split: if_splits)

lemma Wins_total:
  "\<not> TombstoneWinsOver a b \<Longrightarrow> \<not> TombstoneWinsOver b a \<Longrightarrow>
     deleted_at_unix a = deleted_at_unix b \<and> tombstone_device a = tombstone_device b"
  by (auto simp: TombstoneWinsOver_def split: if_splits)

text \<open>The records of a set that no other record of the same key beats.\<close>

definition undefeated :: "DictionaryTombstone set \<Rightarrow> DictionaryTombstone \<Rightarrow> bool" where
  "undefeated S t \<longleftrightarrow> t \<in> S \<and> (\<forall>u \<in> S. SyncKey u = SyncKey t \<longrightarrow> \<not> TombstoneWinsOver u t)"

definition tombs_ok :: "DictionaryTombstone set \<Rightarrow> (bytes \<times> DictionaryTombstone) list \<Rightarrow> bool" where
  "tombs_ok S m \<longleftrightarrow> distinct (map fst m) \<and>
     (\<forall>k. case map_of m k of
        None \<Rightarrow> k \<notin> SyncKey ` S
      | Some t \<Rightarrow> SyncKey t = k \<and> undefeated S t)"

lemma tombs_okD:
  assumes "tombs_ok S m"
  shows "distinct (map fst m)" "map_of m k = Some t \<Longrightarrow> SyncKey t = k \<and> undefeated S t"
    "map_of m k = None \<Longrightarrow> k \<notin> SyncKey ` S"
proof -
  note k = assms [unfolded tombs_ok_def, THEN conjunct2, rule_format, of k]
  show "distinct (map fst m)" using assms by (simp add: tombs_ok_def)
  show "map_of m k = Some t \<Longrightarrow> SyncKey t = k \<and> undefeated S t" "map_of m k = None \<Longrightarrow> k \<notin> SyncKey ` S"
    using k by simp_all
qed

lemma tombs_okI:
  assumes "distinct (map fst m)" and "\<And>k t. map_of m k = Some t \<Longrightarrow> SyncKey t = k \<and> undefeated S t"
    and "\<And>k. map_of m k = None \<Longrightarrow> k \<notin> SyncKey ` S"
  shows "tombs_ok S m"
  unfolding tombs_ok_def using assms by (auto split: option.splits)

lemma add_tombstone_ok:
  assumes m: "tombs_ok S m"
  shows "tombs_ok (insert t S) (add_tombstone m t)"
proof (cases "map_of m (SyncKey t)")
  case None
  note new = tombs_okD(3) [OF m None]
  have k: "SyncKey t \<notin> fst ` set m" using None by (simp add: map_of_None_fst)
  have "undefeated (insert t S) t" using new by (auto simp: undefeated_def Wins_irrefl image_iff)
  moreover have "undefeated (insert t S) u" if "undefeated S u" for u
    using that new by (auto simp: undefeated_def)
  moreover have "map_of (add_tombstone m t) = (map_of m)(SyncKey t \<mapsto> t)"
    using None by (auto simp: add_tombstone_def map_add_def fun_eq_iff split: option.splits)
  moreover have "distinct (map fst (add_tombstone m t))"
    using None k tombs_okD(1) [OF m] by (simp add: add_tombstone_def)
  ultimately show ?thesis
    by (intro tombs_okI) (auto split: if_splits dest: tombs_okD(2) [OF m] tombs_okD(3) [OF m])
next
  case (Some u)
  note u = tombs_okD(2) [OF m Some]
  show ?thesis
  proof (cases "TombstoneWinsOver t u")
    case True
    have "undefeated (insert t S) t"
      using u True Wins_trans [OF _ True] by (auto simp: undefeated_def Wins_irrefl)
    moreover have "undefeated (insert t S) v" if "undefeated S v" "SyncKey v \<noteq> SyncKey t" for v
      using that by (auto simp: undefeated_def)
    ultimately show ?thesis using Some True tombs_okD [OF m]
      by (auto simp: tombs_ok_def add_tombstone_def distinct_update update_conv' split: option.splits)
  next
    case False
    have "undefeated (insert t S) v" if "undefeated S v" "map_of m (SyncKey v) = Some v" for v
      using that False Some by (auto simp: undefeated_def)
    then show ?thesis using Some False tombs_okD [OF m] u
      by (auto simp: tombs_ok_def add_tombstone_def split: option.splits)
  qed
qed

lemma tombs_ok_empty: "tombs_ok {} []"
  by (simp add: tombs_ok_def)

lemma foldl_add_tombstone: "tombs_ok S m \<Longrightarrow> tombs_ok (S \<union> set ts) (foldl add_tombstone m ts)"
proof (induction ts arbitrary: S m)
  case (Cons t ts)
  from Cons.IH [OF add_tombstone_ok [OF Cons.prems]] show ?case by simp
qed simp

text \<open>The fields of a record that was read from a file have no tab in them, so the key determines them.\<close>

definition tab_free :: "DictionaryTombstone \<Rightarrow> bool" where
  "tab_free t \<longleftrightarrow> tab \<notin> set (reading t) \<and> tab \<notin> set (surface t) \<and> tab \<notin> set (pos t) \<and> tab \<notin> set (locale_ts t)"

lemma StrSplit_SyncKey: "tab_free t \<Longrightarrow> StrSplit tab (SyncKey t) = [reading t, surface t, pos t, locale_ts t]"
  by (simp add: tab_free_def SyncKey_def DictionaryEntrySyncKey_def StrSplit_append StrSplit_no_sep)

lemma SyncKey_inject:
  assumes "tab_free t" and "tab_free u" and "SyncKey t = SyncKey u" and "deleted_at_unix t = deleted_at_unix u"
    and "tombstone_device t = tombstone_device u"
  shows "t = u"
proof -
  have "reading t = reading u" "surface t = surface u" "pos t = pos u" "locale_ts t = locale_ts u"
    using StrSplit_SyncKey [OF assms(1)] StrSplit_SyncKey [OF assms(2)] assms(3) by simp_all
  then show ?thesis using assms(4,5) by (cases t; cases u) simp
qed

lemma undefeated_unique:
  assumes "undefeated S t" and "undefeated S u" and "SyncKey t = SyncKey u" and "\<forall>x \<in> S. tab_free x"
  shows "t = u"
proof -
  have "\<not> TombstoneWinsOver t u" "\<not> TombstoneWinsOver u t" "t \<in> S" "u \<in> S"
    using assms by (auto simp: undefeated_def)
  with Wins_total SyncKey_inject assms(3,4) show ?thesis by metis
qed

definition permutes :: "('a list \<Rightarrow> 'a list) \<Rightarrow> bool" where
  "permutes iter \<longleftrightarrow> (\<forall>m. mset (iter m) = mset m)"

lemma permutesD:
  assumes "permutes iter"
  shows "set (iter m) = set m" "length (iter m) = length m"
    "distinct (map f (iter m)) \<longleftrightarrow> distinct (map f m)"
proof -
  have m: "mset (iter m) = mset m" using assms by (simp add: permutes_def)
  then show "set (iter m) = set m" "length (iter m) = length m"
    by (metis set_mset_mset) (metis m size_mset)
  have "mset (map f (iter m)) = mset (map f m)" using m by simp
  then show "distinct (map f (iter m)) \<longleftrightarrow> distinct (map f m)" by (rule mset_eq_imp_distinct_iff)
qed

text \<open>The merged records, in the order of their keys: exactly the undefeated ones.\<close>

lemma MergeDictionaryTombstones_spec:
  assumes it: "permutes titer" and tf: "\<forall>t \<in> set local \<union> set remote. tab_free t"
  shows "set (MergeDictionaryTombstones titer local remote) = {t. undefeated (set local \<union> set remote) t}"
    and "sorted (map SyncKey (MergeDictionaryTombstones titer local remote))"
    and "distinct (map SyncKey (MergeDictionaryTombstones titer local remote))"
proof -
  define S where "S = set local \<union> set remote"
  define m where "m = foldl add_tombstone (foldl add_tombstone [] local) remote"
  have m: "tombs_ok S m"
    using foldl_add_tombstone [OF foldl_add_tombstone [OF tombs_ok_empty, of local], of remote]
    by (simp add: m_def S_def)
  have in_m: "map_of m k = Some t \<longleftrightarrow> (k, t) \<in> set m" for k t
    using tombs_okD(1) [OF m] by (auto intro: map_of_is_SomeI dest: map_of_SomeD)
  have keys: "map SyncKey (map snd m) = map fst m"
    using tombs_okD(2) [OF m] in_m by (auto simp: map_eq_conv)
  have "t \<in> snd ` set m \<longleftrightarrow> undefeated S t" for t
  proof
    assume "t \<in> snd ` set m"
    then show "undefeated S t" using tombs_okD(2) [OF m] in_m by fastforce
  next
    assume t: "undefeated S t"
    then have "map_of m (SyncKey t) \<noteq> None" using tombs_okD(3) [OF m] by (auto simp: undefeated_def)
    then obtain u where u: "map_of m (SyncKey t) = Some u" by auto
    with tombs_okD(2) [OF m u] undefeated_unique [OF t] tf have "u = t" by (auto simp: S_def dest: sym)
    with u in_m show "t \<in> snd ` set m" by force
  qed
  then show "set (MergeDictionaryTombstones titer local remote) = {t. undefeated (set local \<union> set remote) t}"
    using permutesD(1) [OF it, of m] by (auto simp: MergeDictionaryTombstones_def m_def [symmetric] S_def)
  show "sorted (map SyncKey (MergeDictionaryTombstones titer local remote))"
    by (simp add: MergeDictionaryTombstones_def)
  have "mset (map SyncKey (MergeDictionaryTombstones titer local remote)) = mset (map SyncKey (map snd (titer m)))"
    by (simp add: MergeDictionaryTombstones_def m_def del: map_map)
  also have "\<dots> = mset (map SyncKey (map snd m))" using it by (simp add: permutes_def)
  finally have "mset (map SyncKey (MergeDictionaryTombstones titer local remote)) = mset (map fst m)"
    unfolding keys .
  from mset_eq_imp_distinct_iff [OF this] tombs_okD(1) [OF m]
  show "distinct (map SyncKey (MergeDictionaryTombstones titer local remote))" by blast
qed

lemma sorted_by_key_unique:
  assumes "sorted (map f xs)" and "distinct (map f xs)" and "sorted (map f ys)" and "distinct (map f ys)"
    and "set xs = set ys"
  shows "xs = ys"
proof -
  have "map f xs = map f ys" using assms by (intro sorted_distinct_set_unique) auto
  moreover have "inj_on f (set xs \<union> set ys)" using assms(2,5) by (auto simp: distinct_map)
  ultimately show ?thesis by (rule map_inj_on)
qed

lemma undefeated_idem: "{t. undefeated {t. undefeated S t} t} = {t. undefeated S t}"
  by (auto simp: undefeated_def)

text \<open>Every record is beaten or equalled by an undefeated one of the same key.\<close>

lemma undefeated_best:
  assumes "finite S" and "u \<in> S"
  shows "\<exists>w. undefeated S w \<and> SyncKey w = SyncKey u \<and> (w = u \<or> TombstoneWinsOver w u)"
  using assms
proof (induction "card {v \<in> S. TombstoneWinsOver v u}" arbitrary: u rule: less_induct)
  case less
  show ?case
  proof (cases "undefeated S u")
    case False
    then obtain v where v: "v \<in> S" "SyncKey v = SyncKey u" "TombstoneWinsOver v u"
      using less.prems(2) by (auto simp: undefeated_def)
    have "{x \<in> S. TombstoneWinsOver x v} \<subset> {x \<in> S. TombstoneWinsOver x u}"
      using v Wins_trans Wins_irrefl by blast
    then have "card {x \<in> S. TombstoneWinsOver x v} < card {x \<in> S. TombstoneWinsOver x u}"
      by (intro psubset_card_mono) (simp add: less.prems(1))
    from less.hyps [OF this less.prems(1) v(1)] v show ?thesis using Wins_trans by metis
  qed (use less in blast)
qed

lemma undefeated_Un:
  assumes "finite S" "finite T"
  shows "{t. undefeated ({t. undefeated S t} \<union> T) t} = {t. undefeated (S \<union> T) t}"
proof -
  note best = undefeated_best [OF assms(1)]
  show ?thesis
  proof (intro set_eqI iffI; clarsimp)
    fix t
    assume t: "undefeated ({t. undefeated S t} \<union> T) t"
    have "\<not> TombstoneWinsOver u t" if "u \<in> S \<union> T" "SyncKey u = SyncKey t" for u
    proof (cases "u \<in> S")
      case True
      with best obtain w where "undefeated S w" "SyncKey w = SyncKey u" "w = u \<or> TombstoneWinsOver w u" by blast
      with t that(2) Wins_trans show ?thesis unfolding undefeated_def by auto
    qed (use t that in \<open>auto simp: undefeated_def\<close>)
    then show "undefeated (S \<union> T) t" using t by (auto simp: undefeated_def)
  next
    fix t
    assume "undefeated (S \<union> T) t"
    then show "undefeated ({t. undefeated S t} \<union> T) t" by (auto simp: undefeated_def)
  qed
qed

text \<open>C19: Merging deletion records is a semilattice: for any order in which the hash maps are iterated, the
  result has, in the order of their keys, exactly the records that no record of the same key with a
  later time (or the same time and a greater device name) beats; so it does not matter which side is
  which, how three sides are grouped, or whether a side is merged again.\<close>

theorem MergeDictionaryTombstones_semilattice:
  assumes "permutes titer" and "\<forall>t \<in> set a \<union> set b \<union> set c. tab_free t"
  shows "set (MergeDictionaryTombstones titer a b) = {t. undefeated (set a \<union> set b) t} \<and>
    MergeDictionaryTombstones titer a b = MergeDictionaryTombstones titer b a \<and>
    MergeDictionaryTombstones titer (MergeDictionaryTombstones titer a b) c =
      MergeDictionaryTombstones titer a (MergeDictionaryTombstones titer b c) \<and>
    MergeDictionaryTombstones titer (MergeDictionaryTombstones titer a b) b = MergeDictionaryTombstones titer a b"
proof -
  let ?m = "MergeDictionaryTombstones titer"
  have spec: "set (?m x y) = {t. undefeated (set x \<union> set y) t}" "sorted (map SyncKey (?m x y))"
    "distinct (map SyncKey (?m x y))" if "\<forall>t \<in> set x \<union> set y. tab_free t" for x y
    using MergeDictionaryTombstones_spec [OF assms(1) that] by blast+
  have eq: "?m x y = ?m x' y'" if "\<forall>t \<in> set x \<union> set y. tab_free t" "\<forall>t \<in> set x' \<union> set y'. tab_free t"
    "{t. undefeated (set x \<union> set y) t} = {t. undefeated (set x' \<union> set y') t}" for x y x' y'
    using sorted_by_key_unique [OF spec(2,3) [OF that(1)] spec(2,3) [OF that(2)]] spec(1) [OF that(1)]
      spec(1) [OF that(2)] that(3) by simp
  have tf: "\<forall>t \<in> set a \<union> set b. tab_free t" "\<forall>t \<in> set b \<union> set c. tab_free t" using assms(2) by auto
  have sub: "set (?m a b) \<subseteq> set a \<union> set b" "set (?m b c) \<subseteq> set b \<union> set c"
    using spec(1) [OF tf(1)] spec(1) [OF tf(2)] by (auto simp: undefeated_def)
  have "?m a b = ?m b a" using tf by (intro eq) (auto simp: Un_commute)
  moreover have "?m (?m a b) c = ?m a (?m b c)"
  proof (rule eq)
    show "{t. undefeated (set (?m a b) \<union> set c) t} = {t. undefeated (set a \<union> set (?m b c)) t}"
      using undefeated_Un [of "set a \<union> set b" "set c"] undefeated_Un [of "set b \<union> set c" "set a"]
      by (simp add: spec(1) [OF tf(1)] spec(1) [OF tf(2)] Un_commute Un_left_commute Un_assoc)
  qed (use assms(2) sub in auto)
  moreover have "?m (?m a b) b = ?m a b"
  proof (rule eq)
    show "{t. undefeated (set (?m a b) \<union> set b) t} = {t. undefeated (set a \<union> set b) t}"
      using undefeated_Un [of "set a \<union> set b" "set b"] by (simp add: spec(1) [OF tf(1)] Un_assoc)
  qed (use assms(2) sub in auto)
  ultimately show ?thesis using spec(1) [OF tf(1)] by blast
qed

definition word_tombstone :: "64 word \<Rightarrow> bytes \<Rightarrow> DictionaryTombstone" where
  "word_tombstone n dev =
     \<lparr>reading = ''b'', surface = ''2'', pos = ''noun'', locale_ts = [], deleted_at_unix = n, tombstone_device = dev\<rparr>"

lemma permutes_id: "permutes (\<lambda>m. m)"
  by (simp add: permutes_def)

lemma word_tombstone_simps [simp]:
  "tab_free (word_tombstone n dev)" "SyncKey (word_tombstone n dev) = ''b'' @ [tab] @ ''2'' @ [tab] @ ''noun'' @ [tab]"
  "deleted_at_unix (word_tombstone n dev) = n" "tombstone_device (word_tombstone n dev) = dev"
  by (simp_all add: word_tombstone_def tab_free_def SyncKey_def DictionaryEntrySyncKey_def)

theorem MergeDictionaryTombstones_semilattice_witness:
  "MergeDictionaryTombstones (\<lambda>m. m) [word_tombstone 10 ''a''] [word_tombstone 20 ''b''] =
     MergeDictionaryTombstones (\<lambda>m. m) [word_tombstone 20 ''b''] [word_tombstone 10 ''a''] \<and>
   word_tombstone 20 ''b'' \<in> set (MergeDictionaryTombstones (\<lambda>m. m) [word_tombstone 10 ''a''] [word_tombstone 20 ''b''])"
proof -
  have "undefeated (set [word_tombstone 10 ''a''] \<union> set [word_tombstone 20 ''b'']) (word_tombstone 20 ''b'')"
    by (simp add: undefeated_def TombstoneWinsOver_def)
  then show ?thesis using MergeDictionaryTombstones_semilattice
      [OF permutes_id, of "[word_tombstone 10 ''a'']" "[word_tombstone 20 ''b'']" "[]"]
    by auto
qed

section \<open>The merged dictionary\<close>

lemma map_of_iter:
  assumes "permutes iter" and "distinct (map fst m)"
  shows "map_of (iter m) = map_of m"
proof -
  have "set (iter m) = set m" "distinct (map fst (iter m))"
    using permutesD(1) [OF assms(1)] permutesD(3) [OF assms(1), of fst m] assms(2) by blast+
  with assms(2) show ?thesis by (metis map_of_inject_set)
qed

text \<open>The lines of the merged file: those whose key stayed, in the order of the keys.\<close>

lemma content_lines_write_lines:
  assumes iter: "permutes iter" and "set order \<supseteq> fst ` set entries"
    and clean: "\<forall>k l. map_of entries k = Some l \<longrightarrow> clean_line l"
  shows "content_lines (write_lines iter entries order) = List.map_filter (map_of entries) order"
proof -
  have "filter (\<lambda>(key, line). key \<notin> set order) (iter entries) = []"
    using assms(2) permutesD(1) [OF iter, of entries] by (auto simp: filter_empty_conv)
  moreover have "concat (map (\<lambda>key. case map_of entries key of None \<Rightarrow> [] | Some line \<Rightarrow> [line]) order) =
      List.map_filter (map_of entries) order"
    by (induction order) (simp_all add: map_filter_simps split: option.split)
  moreover have "list_all clean_line (List.map_filter (map_of entries) order)"
    using clean by (auto simp: list_all_iff map_filter_def)
  ultimately show ?thesis by (simp add: write_lines_def unlines_def content_lines_dictionary [unfolded unlines_def])
qed

lemma last_line_map_filter:
  assumes "distinct order" and "set order \<supseteq> dom m" and "\<And>k l. m k = Some l \<Longrightarrow> key_of l = k"
  shows "last_line key_of (List.map_filter m order) = m"
proof
  fix k
  have f: "filter (\<lambda>l. key_of l = k) (List.map_filter m order) = (if k \<in> set order then (case m k of None \<Rightarrow> [] | Some l \<Rightarrow> [l]) else [])"
    using assms(1)
  proof (induction order)
    case (Cons x order)
    then show ?case using assms(3) by (cases "m x") (auto simp: map_filter_simps split: option.split)
  qed (simp add: map_filter_simps)
  show "last_line key_of (List.map_filter m order) k = m k"
    unfolding last_line_def f using assms(2) by (cases "m k") auto
qed

text \<open>What a file of lines says of a key.\<close>

definition dict_lookup :: "bytes \<Rightarrow> bytes \<Rightarrow> bytes option" where
  "dict_lookup tsv = last_line DictionaryLineSyncKey (content_lines tsv)"

lemma CollectDictionarySyncKeys_lookup: "k \<in> CollectDictionarySyncKeysFromTsv tsv \<longleftrightarrow> dict_lookup tsv k \<noteq> None"
  by (auto simp: CollectDictionarySyncKeysFromTsv_def dict_lookup_def last_line_None)

lemma dict_lookup_SomeD: "dict_lookup tsv k = Some l \<Longrightarrow> clean_line l \<and> DictionaryLineSyncKey l = k"
  unfolding dict_lookup_def by (blast dest: last_line_SomeD content_lines_clean)

lemma tombs_ok_set:
  assumes "tombs_ok S m" and "\<forall>t \<in> S. tab_free t"
  shows "(k, t) \<in> set m \<longleftrightarrow> SyncKey t = k \<and> undefeated S t"
proof
  assume "(k, t) \<in> set m"
  with tombs_okD(1) [OF assms(1)] have "map_of m k = Some t" by (rule map_of_is_SomeI)
  then show "SyncKey t = k \<and> undefeated S t" by (rule tombs_okD(2) [OF assms(1)])
next
  assume t: "SyncKey t = k \<and> undefeated S t"
  then have "map_of m k \<noteq> None" using tombs_okD(3) [OF assms(1)] by (auto simp: undefeated_def)
  then obtain u where u: "map_of m k = Some u" by auto
  with tombs_okD(2) [OF assms(1) u] t undefeated_unique [of S u t] assms(2) have "u = t" by auto
  with u show "(k, t) \<in> set m" by (auto dest: map_of_SomeD)
qed

text \<open>The record that decides the fate of a key, and when it removes the key.\<close>

definition removed_key ::
  "bytes \<Rightarrow> bytes \<Rightarrow> DictionaryTombstone set \<Rightarrow> bytes \<Rightarrow> bytes \<Rightarrow> bool" where
  "removed_key local_tsv remote_tsv S dev k \<longleftrightarrow>
     (\<exists>t. undefeated S t \<and> SyncKey t = k \<and>
        (dict_lookup local_tsv k = None \<and> dict_lookup remote_tsv k \<noteq> None \<or>
         dict_lookup local_tsv k \<noteq> None \<and> dict_lookup remote_tsv k = None \<and> tombstone_device t \<noteq> dev))"

definition cutoff :: "int \<Rightarrow> 64 word" where
  "cutoff now = word_of_int (now - 3600 * 24 * 90)"

lemma MergeDictionary_lookup:
  assumes it: "permutes iter" "permutes titer" and tf: "\<forall>t \<in> set lt \<union> set rt. tab_free t"
    and run: "MergeDictionaryWithTombstones iter titer now R L rt lt dev = (tsv, kept, ds, ts)"
  shows "dict_lookup tsv k = (if removed_key L R (set lt \<union> set rt) dev k then None
      else case dict_lookup R k of Some l \<Rightarrow> Some l | None \<Rightarrow> dict_lookup L k)"
    and "set kept = {t. undefeated (set lt \<union> set rt) t \<and> dict_lookup tsv (SyncKey t) = None \<and>
      \<not> deleted_at_unix t < cutoff now}"
    and "sorted (map SyncKey kept)" and "distinct (map SyncKey kept)"
proof -
  define S where "S = set lt \<union> set rt"
  obtain e1 o1 where l: "ingest DictionaryLineSyncKey L ([], []) = (e1, o1)" by fastforce
  obtain re ro where r: "ingest DictionaryLineSyncKey R ([], []) = (re, ro)" by fastforce
  obtain e2 o2 where m: "merge_remote_lines re ro (e1, o1) = (e2, o2)" by fastforce
  define tombs where "tombs = MergeDictionaryTombstones titer lt rt"
  define by_key where "by_key = foldl add_tombstone [] tombs"
  obtain e3 n where a: "apply_tombstones (CollectDictionarySyncKeysFromTsv L) (CollectDictionarySyncKeysFromTsv R) dev
      (titer by_key) (e2, 0) = (e3, n)" by fastforce
  have tsv: "tsv = write_lines iter e3 o2" and
    kept: "kept = CompactDictionaryTombstones tombs (CollectDictionarySyncKeysFromTsv tsv) now kDictionaryTombstoneRetentionDays"
    using run unfolding MergeDictionaryWithTombstones_def l r tombs_def [symmetric]
    by (auto simp: m a [unfolded by_key_def] Let_def)
  note L = ingest_file [OF l] and R = ingest_file [OF r]
  have "set ro \<subseteq> fst ` set re" using R(1) by (simp add: table_ok_def)
  from merge_remote_lines_spec [OF L(1) this m] have t2: "table_ok (e2, o2)"
    and m2: "map_of e2 = (\<lambda>k. if k \<in> set ro then map_of re k else map_of e1 k)" by blast+
  have ro: "k \<in> set ro \<longleftrightarrow> dict_lookup R k \<noteq> None" for k
    using R(1) map_of_None_fst [of re k] by (simp add: table_ok_def dict_lookup_def R(2) [symmetric])
  have e2: "map_of e2 k = (case dict_lookup R k of Some l \<Rightarrow> Some l | None \<Rightarrow> dict_lookup L k)" for k
    using ro [of k] L(2) R(2) unfolding m2 by (auto simp: dict_lookup_def)
  have tombs: "set tombs = {t. undefeated S t}" "sorted (map SyncKey tombs)" "distinct (map SyncKey tombs)"
    using MergeDictionaryTombstones_spec [OF it(2) tf] by (simp_all add: tombs_def S_def)
  have "tombs_ok (set tombs) by_key"
    using foldl_add_tombstone [OF tombs_ok_empty, of tombs] by (simp add: by_key_def)
  then have "(k, t) \<in> set by_key \<longleftrightarrow> SyncKey t = k \<and> undefeated (set tombs) t" for k t
    by (rule tombs_ok_set) (use tombs(1) tf in \<open>auto simp: undefeated_def S_def\<close>)
  then have by_key: "(k, t) \<in> set (titer by_key) \<longleftrightarrow> SyncKey t = k \<and> undefeated S t" for k t
    using permutesD(1) [OF it(2)] tombs(1) undefeated_idem [of S] by auto
  have d2: "distinct (map fst e2)" using t2 by (simp add: table_ok_def)
  have e3: "distinct (map fst e3)" "map_of e3 k = (if removed_key L R S dev k then None else map_of e2 k)" for k
    using apply_tombstones_spec [OF d2 a]
    by (auto simp: by_key removed_key_def deletes_def CollectDictionarySyncKeys_lookup)
  have line: "clean_line l \<and> DictionaryLineSyncKey l = k" if "map_of e3 k = Some l" for k l
  proof -
    have "dict_lookup R k = Some l \<or> dict_lookup L k = Some l"
      using that e2 [of k] e3(2) [of k] by (cases "dict_lookup R k") (auto split: if_splits)
    then show ?thesis using dict_lookup_SomeD by blast
  qed
  have ord: "distinct o2" "fst ` set e3 \<subseteq> set o2"
  proof -
    show "distinct o2" using t2 by (simp add: table_ok_def)
    have "map_of e2 k \<noteq> None" if "k \<in> fst ` set e3" for k
      using that e3(2) [of k] by (metis map_of_None_fst)
    then show "fst ` set e3 \<subseteq> set o2" using t2 by (auto simp: table_ok_def map_of_None_fst)
  qed
  have "content_lines tsv = List.map_filter (map_of e3) o2"
    unfolding tsv by (rule content_lines_write_lines [OF it(1) ord(2)]) (use line in blast)
  moreover have "dom (map_of e3) \<subseteq> set o2" using ord(2) by (simp add: dom_map_of_conv_image_fst)
  ultimately have look: "dict_lookup tsv = map_of e3"
    unfolding dict_lookup_def using last_line_map_filter [OF ord(1), of "map_of e3"] line by simp
  show "dict_lookup tsv k = (if removed_key L R (set lt \<union> set rt) dev k then None
      else case dict_lookup R k of Some l \<Rightarrow> Some l | None \<Rightarrow> dict_lookup L k)"
    unfolding look e3(2) e2 S_def ..
  show "set kept = {t. undefeated (set lt \<union> set rt) t \<and> dict_lookup tsv (SyncKey t) = None \<and>
      \<not> deleted_at_unix t < cutoff now}"
    using tombs(1) CollectDictionarySyncKeys_lookup
    by (auto simp: kept CompactDictionaryTombstones_def kDictionaryTombstoneRetentionDays_def cutoff_def S_def)
  show "sorted (map SyncKey kept)" "distinct (map SyncKey kept)"
    using tombs(2,3) unfolding kept CompactDictionaryTombstones_def Let_def
    by (simp_all add: sorted_filter distinct_map_filter)
qed

text \<open>C20: The merged dictionary, key by key: a line of the remote side wins over the local one, everything
  else is kept, and a key is left out exactly when the record that decides it (the undefeated one of
  both sides) meets a key that only the remote side has, or that only the local side has and another
  device deleted; a key that both sides have is kept. The fields of the records are taken to be free of tabs. The records kept are the undefeated ones of keys that are gone and of the last 90
  days. Neither depends on the order in which hash maps are iterated.\<close>

theorem MergeDictionaryWithTombstones_lookup:
  assumes "permutes iter" and "permutes titer" and "\<forall>t \<in> set lt \<union> set rt. tab_free t"
    and "MergeDictionaryWithTombstones iter titer now R L rt lt dev = (tsv, kept, ds, ts)"
  shows "dict_lookup tsv k = (if removed_key L R (set lt \<union> set rt) dev k then None
      else case dict_lookup R k of Some l \<Rightarrow> Some l | None \<Rightarrow> dict_lookup L k) \<and>
    set kept = {t. undefeated (set lt \<union> set rt) t \<and> dict_lookup tsv (SyncKey t) = None \<and>
      \<not> deleted_at_unix t < cutoff now} \<and> distinct (map SyncKey kept)"
  using MergeDictionary_lookup [OF assms] by simp

theorem MergeDictionaryWithTombstones_lookup_witness:
  "let L = ''b'' @ [tab] @ ''2'' @ [tab] @ ''noun''
   in dict_lookup (fst (MergeDictionaryWithTombstones id id 0 [] L [] [] ''me'')) (SyncKey (word_tombstone 0 [])) = Some L"
proof -
  define L where "L = ''b'' @ [tab] @ ''2'' @ [tab] @ ''noun''"
  obtain tsv kept ds ts where m: "MergeDictionaryWithTombstones id id 0 [] L [] [] ''me'' = (tsv, kept, ds, ts)"
    by (cases "MergeDictionaryWithTombstones id id 0 [] L [] [] ''me''") auto
  have p: "permutes id" "permutes id" by (simp_all add: permutes_def)
  have "clean_line L" by (simp add: L_def clean_line_def ascii_isspace_def byte_def)
  moreover have "StrSplit newline L = [L]" by (rule StrSplit_no_sep) (simp add: L_def)
  ultimately have "content_lines L = [L]"
    by (simp add: content_lines_def Strip_clean) (simp add: L_def starts_with_def)
  moreover have "DictionaryLineSyncKey L = SyncKey (word_tombstone 0 [])"
    by (simp add: DictionaryLineSyncKey_def L_def DictionaryEntrySyncKey_def)
  moreover have "content_lines [] = []" by (simp add: content_lines_def StripAsciiWhitespace_def)
  ultimately have "dict_lookup tsv (SyncKey (word_tombstone 0 [])) = Some L"
    using MergeDictionaryWithTombstones_lookup [OF p _ m, of "SyncKey (word_tombstone 0 [])"]
    by (simp add: dict_lookup_def last_line_def removed_key_def undefeated_def)
  then show ?thesis unfolding L_def [symmetric] using m by (simp add: Let_def)
qed

section \<open>Files of tombstones\<close>

text \<open>What abseil documents of the numbers: a printed number is a non-empty text of digits and is read back.\<close>

definition uconv_ok :: "UConv \<Rightarrow> bool" where
  "uconv_ok uc \<longleftrightarrow>
     (\<forall>n. SimpleAtoi_u32 uc (StrCat_u32 uc n) = Some n \<and> StrCat_u32 uc n \<noteq> [] \<and>
          list_all (\<lambda>c. 0x30 \<le> byte c \<and> byte c \<le> 0x39) (StrCat_u32 uc n)) \<and>
     (\<forall>n. SimpleAtoi_u64 uc (StrCat_u64 uc n) = Some n \<and> StrCat_u64 uc n \<noteq> [] \<and>
          list_all (\<lambda>c. 0x30 \<le> byte c \<and> byte c \<le> 0x39) (StrCat_u64 uc n))"

lemma digits_plain:
  assumes "list_all (\<lambda>c. 0x30 \<le> byte c \<and> byte c \<le> 0x39) s"
  shows "tab \<notin> set s" "newline \<notin> set s" "s \<noteq> [] \<Longrightarrow> \<not> ascii_isspace (last s)"
proof -
  have d: "c \<in> set s \<Longrightarrow> 0x30 \<le> byte c" for c using assms by (auto simp: list_all_iff)
  show "tab \<notin> set s" "newline \<notin> set s" using d [of tab] d [of newline] by (auto simp: byte_def)
  show "\<not> ascii_isspace (last s)" if "s \<noteq> []"
    using d [of "last s"] that by (auto simp: ascii_isspace_def byte_def)
qed

lemma uconv_okD:
  assumes "uconv_ok uc"
  shows "SimpleAtoi_u32 uc (StrCat_u32 uc n) = Some n" "tab \<notin> set (StrCat_u32 uc n)" "newline \<notin> set (StrCat_u32 uc n)"
    "SimpleAtoi_u64 uc (StrCat_u64 uc m) = Some m" "tab \<notin> set (StrCat_u64 uc m)" "newline \<notin> set (StrCat_u64 uc m)"
    "StrCat_u64 uc m \<noteq> []" "\<not> ascii_isspace (last (StrCat_u64 uc m))"
proof -
  have a: "SimpleAtoi_u32 uc (StrCat_u32 uc n) = Some n" "SimpleAtoi_u64 uc (StrCat_u64 uc m) = Some m"
    "list_all (\<lambda>c. 0x30 \<le> byte c \<and> byte c \<le> 0x39) (StrCat_u32 uc n)" "StrCat_u64 uc m \<noteq> []"
    "list_all (\<lambda>c. 0x30 \<le> byte c \<and> byte c \<le> 0x39) (StrCat_u64 uc m)"
    using assms by (simp_all add: uconv_ok_def)
  then show "SimpleAtoi_u32 uc (StrCat_u32 uc n) = Some n" "SimpleAtoi_u64 uc (StrCat_u64 uc m) = Some m"
    "StrCat_u64 uc m \<noteq> []" by blast+
  show "tab \<notin> set (StrCat_u32 uc n)" "newline \<notin> set (StrCat_u32 uc n)" using digits_plain [OF a(3)] by blast+
  show "tab \<notin> set (StrCat_u64 uc m)" "newline \<notin> set (StrCat_u64 uc m)" "\<not> ascii_isspace (last (StrCat_u64 uc m))"
    using digits_plain [OF a(5)] a(4) by blast+
qed

text \<open>A record that survives being written: no tab or line end in a field, a reading that does not look
  like a comment, and a device name without white space at the end.\<close>

definition writable :: "DictionaryTombstone \<Rightarrow> bool" where
  "writable t \<longleftrightarrow> tab_free t \<and> newline \<notin> set (reading t) \<and> newline \<notin> set (surface t) \<and> newline \<notin> set (pos t) \<and>
     newline \<notin> set (locale_ts t) \<and> reading t \<noteq> [] \<and> \<not> ascii_isspace (hd (reading t)) \<and> hd (reading t) \<noteq> CHR ''#'' \<and>
     tombstone_device t \<noteq> [] \<and> tab \<notin> set (tombstone_device t) \<and> newline \<notin> set (tombstone_device t) \<and>
     \<not> ascii_isspace (last (tombstone_device t))"

lemma ToTsvLine_parse:
  assumes "uconv_ok uc" and "writable t"
  shows "parse_tombstone uc (ToTsvLine uc t) = Some t" and "clean_line (ToTsvLine uc t)"
proof -
  have "StrSplit tab (ToTsvLine uc t) =
      [reading t, surface t, pos t, locale_ts t, StrCat_u64 uc (deleted_at_unix t), tombstone_device t]"
    using assms(2) uconv_okD(5) [OF assms(1)]
    by (simp add: ToTsvLine_def writable_def tab_free_def StrSplit_append StrSplit_no_sep)
  then show "parse_tombstone uc (ToTsvLine uc t) = Some t"
    by (simp add: parse_tombstone_def uconv_okD(4) [OF assms(1)])
  show "clean_line (ToTsvLine uc t)"
    using assms(2) uconv_okD(6) [OF assms(1)] by (auto simp: clean_line_def ToTsvLine_def writable_def byte_def)
qed

lemma map_filter_all_Some: "(\<And>x. x \<in> set xs \<Longrightarrow> f (g x) = Some x) \<Longrightarrow> List.map_filter f (map g xs) = xs"
  by (induction xs) (simp_all add: map_filter_simps)

lemma tombstone_file:
  assumes "uconv_ok uc" and "list_all writable ts"
  shows "ParseDictionaryTombstonesTsv uc (SerializeDictionaryTombstonesTsv uc ts) = ts"
proof -
  have "list_all clean_line (map (ToTsvLine uc) ts)"
    using assms ToTsvLine_parse(2) by (auto simp: list_all_iff)
  then show ?thesis
    using assms ToTsvLine_parse(1)
    by (simp add: ParseDictionaryTombstonesTsv_def SerializeDictionaryTombstonesTsv_def content_lines_tombstones
        list_all_iff map_filter_all_Some)
qed

text \<open>A file of deletion records is read back as it was written, whatever characters the fields have
  apart from tabs and line ends, if the reading does not look like a comment.\<close>

lemma ParseDictionaryTombstones_Serialize:
  assumes "uconv_ok uc" and "list_all writable ts"
  shows "ParseDictionaryTombstonesTsv uc (SerializeDictionaryTombstonesTsv uc ts) = ts"
  using assms by (rule tombstone_file)

text \<open>Conversions that satisfy these laws.\<close>

definition read_decimal :: "bytes \<Rightarrow> nat" where
  "read_decimal s = foldl (\<lambda>v c. v * 10 + (byte c - 0x30)) 0 s"

lemma read_decimal: "read_decimal (decimal n) = n"
proof (induction n rule: decimal.induct)
  case (1 n)
  have "read_decimal (decimal n) = (if n < 10 then 0 else n div 10) * 10 + n mod 10"
    using 1 by (subst decimal.simps) (simp add: read_decimal_def)
  then show ?case by simp
qed

definition read_below :: "nat \<Rightarrow> bytes \<Rightarrow> nat option" where
  "read_below b s =
     (if s \<noteq> [] \<and> list_all (\<lambda>c. 0x30 \<le> byte c \<and> byte c \<le> 0x39) s \<and> read_decimal s < b
      then Some (read_decimal s) else None)"

definition decimal_uconv :: UConv where
  "decimal_uconv =
     \<lparr>StrCat_u32 = \<lambda>n. decimal (unat n), SimpleAtoi_u32 = \<lambda>s. map_option of_nat (read_below (2 ^ 32) s),
      StrCat_u64 = \<lambda>n. decimal (unat n), SimpleAtoi_u64 = \<lambda>s. map_option of_nat (read_below (2 ^ 64) s)\<rparr>"

lemma decimal_uconv_ok: "uconv_ok decimal_uconv"
proof -
  have "unat (n :: 32 word) < 2 ^ 32" "unat (m :: 64 word) < 2 ^ 64" for n m
    using unsigned_less [of n] unsigned_less [of m] by simp_all
  then show ?thesis using decimal_digits
    by (simp add: uconv_ok_def decimal_uconv_def read_below_def read_decimal)
qed

lemma word_tombstone_writable: "dev \<noteq> [] \<Longrightarrow> list_all ident_char dev \<Longrightarrow> writable (word_tombstone n dev)"
proof -
  assume d: "dev \<noteq> []" "list_all ident_char dev"
  then have i: "ident_char c" if "c \<in> set dev" for c using that by (auto simp: list_all_iff)
  have "\<not> ident_char tab" by (simp add: ident_char_def byte_def)
  then have "tab \<notin> set dev" "newline \<notin> set dev" using i not_ident_char(6) by metis+
  moreover have "\<not> ascii_isspace (last dev)"
    using i [of "last dev"] d(1) by (auto simp: ident_char_def ascii_isspace_def byte_def)
  ultimately show ?thesis using d(1) by (simp add: writable_def) (simp add: word_tombstone_def ascii_isspace_def byte_def)
qed

section \<open>Two devices\<close>

text \<open>
  The dictionary part of \<open>PerformSync\<close> (\<open>sync/sync_service.cc\<close>): the local records of keys that are not
  in the dictionary are exported, and both sides merged. A side without a bundle has the two headers.
\<close>

definition sync_dictionary_files ::
  "UConv \<Rightarrow> iter \<Rightarrow> tombstone_iter \<Rightarrow> int \<Rightarrow> bytes \<Rightarrow> bytes \<Rightarrow> DictionaryTombstone list \<Rightarrow> bytes \<times> bytes \<Rightarrow>
     bytes \<times> DictionaryTombstone list \<times> DictionaryMergeStats \<times> DictionaryTombstoneMergeStats" where
  "sync_dictionary_files uc iter titer now dev local_dict local_log remote =
     MergeDictionaryWithTombstones iter titer now (fst remote) local_dict
       (ParseDictionaryTombstonesTsv uc (snd remote))
       (ParseDictionaryTombstonesTsv uc (ExportDictionaryTombstonesTsv uc local_log local_dict)) dev"

definition sync_device ::
  "UConv \<Rightarrow> iter \<Rightarrow> tombstone_iter \<Rightarrow> int \<Rightarrow> bytes \<Rightarrow> bytes \<Rightarrow> DictionaryTombstone list \<Rightarrow> bytes \<times> bytes \<Rightarrow> bytes \<times> bytes" where
  "sync_device uc iter titer now dev local_dict local_log remote =
     (case sync_dictionary_files uc iter titer now dev local_dict local_log remote of
        (dict, kept, _) \<Rightarrow> (dict, SerializeDictionaryTombstonesTsv uc kept))"

lemma parsed_tab_free: "t \<in> set (ParseDictionaryTombstonesTsv uc tsv) \<Longrightarrow> tab_free t"
proof -
  assume "t \<in> set (ParseDictionaryTombstonesTsv uc tsv)"
  then obtain line where l: "parse_tombstone uc line = Some t"
    by (auto simp: ParseDictionaryTombstonesTsv_def map_filter_def)
  then have "length (StrSplit tab line) \<ge> 6" by (auto simp: parse_tombstone_def Let_def split: if_splits)
  then have "tab \<notin> set (StrSplit tab line ! i)" if "i < 6" for i
    using that StrSplit_fields [of "StrSplit tab line ! i" tab line] by simp
  then show "tab_free t" using l by (auto simp: parse_tombstone_def Let_def tab_free_def split: if_splits option.splits)
qed

lemma exported_log:
  assumes "uconv_ok uc" and "list_all writable log"
  shows "set (ParseDictionaryTombstonesTsv uc (ExportDictionaryTombstonesTsv uc log dict)) =
    {t \<in> set log. dict_lookup dict (SyncKey t) = None}"
proof -
  have "list_all writable (filter (\<lambda>t. SyncKey t \<notin> CollectDictionarySyncKeysFromTsv dict) log)"
    using assms(2) by (auto simp: list_all_iff)
  from tombstone_file [OF assms(1) this] show ?thesis
    by (auto simp: ExportDictionaryTombstonesTsv_def CollectDictionarySyncKeys_lookup)
qed

lemma undefeated_exists:
  assumes "finite S" and "t \<in> S"
  shows "\<exists>w. undefeated S w \<and> SyncKey w = SyncKey t \<and> deleted_at_unix t \<le> deleted_at_unix w"
proof -
  have "\<exists>w. undefeated S w \<and> SyncKey w = SyncKey u \<and> (w = u \<or> TombstoneWinsOver w u)" if "u \<in> S" for u
    using undefeated_best [OF assms(1) that] .
  with assms(2) obtain w where "undefeated S w" "SyncKey w = SyncKey t" "w = t \<or> TombstoneWinsOver w t" by blast
  then show ?thesis by (auto simp: TombstoneWinsOver_def split: if_splits)
qed

lemma kept_writable:
  assumes "permutes iter" and "permutes titer"
    and "MergeDictionaryWithTombstones iter titer now R L rt lt dev = (tsv, kept, ds, ts)"
    and "\<forall>t \<in> set lt \<union> set rt. writable t"
  shows "list_all writable kept"
proof -
  have "\<forall>t \<in> set lt \<union> set rt. tab_free t" using assms(4) by (auto simp: writable_def)
  from MergeDictionary_lookup(2) [OF assms(1,2) this assms(3)] assms(4) show ?thesis
    by (auto simp: list_all_iff undefeated_def)
qed

text \<open>What one device's synchronisation leaves in the bundle, record by record.\<close>

lemma sync_device_spec:
  assumes uc: "uconv_ok uc" and it: "permutes iter" "permutes titer"
    and log: "list_all writable log" "list_all writable (ParseDictionaryTombstonesTsv uc (snd R))"
    and run: "sync_device uc iter titer now dev L log R = B"
  defines "S \<equiv> {t \<in> set log. dict_lookup L (SyncKey t) = None} \<union> set (ParseDictionaryTombstonesTsv uc (snd R))"
  shows "dict_lookup (fst B) k = (if removed_key L (fst R) S dev k then None
      else case dict_lookup (fst R) k of Some l \<Rightarrow> Some l | None \<Rightarrow> dict_lookup L k)"
    and "set (ParseDictionaryTombstonesTsv uc (snd B)) =
      {t. undefeated S t \<and> dict_lookup (fst B) (SyncKey t) = None \<and> \<not> deleted_at_unix t < cutoff now}"
    and "list_all writable (ParseDictionaryTombstonesTsv uc (snd B))"
proof -
  define lt where "lt = ParseDictionaryTombstonesTsv uc (ExportDictionaryTombstonesTsv uc log L)"
  define rt where "rt = ParseDictionaryTombstonesTsv uc (snd R)"
  obtain tsv kept ds ts where m: "MergeDictionaryWithTombstones iter titer now (fst R) L rt lt dev = (tsv, kept, ds, ts)"
    by (cases "MergeDictionaryWithTombstones iter titer now (fst R) L rt lt dev") auto
  have B: "fst B = tsv" "snd B = SerializeDictionaryTombstonesTsv uc kept"
    using run m by (auto simp: sync_device_def sync_dictionary_files_def lt_def rt_def)
  have lt: "set lt = {t \<in> set log. dict_lookup L (SyncKey t) = None}"
    unfolding lt_def by (rule exported_log [OF uc log(1)])
  have S: "S = set lt \<union> set rt" by (simp add: S_def lt rt_def)
  have w: "\<forall>t \<in> set lt \<union> set rt. writable t" using log by (auto simp: lt rt_def list_all_iff)
  then have tf: "\<forall>t \<in> set lt \<union> set rt. tab_free t" by (auto simp: writable_def)
  have kw: "list_all writable kept" by (rule kept_writable [OF it m w])
  have p: "ParseDictionaryTombstonesTsv uc (snd B) = kept" unfolding B by (rule tombstone_file [OF uc kw])
  show "dict_lookup (fst B) k = (if removed_key L (fst R) S dev k then None
      else case dict_lookup (fst R) k of Some l \<Rightarrow> Some l | None \<Rightarrow> dict_lookup L k)"
    unfolding B(1) S by (rule MergeDictionary_lookup(1) [OF it tf m])
  show "set (ParseDictionaryTombstonesTsv uc (snd B)) =
      {t. undefeated S t \<and> dict_lookup (fst B) (SyncKey t) = None \<and> \<not> deleted_at_unix t < cutoff now}"
    unfolding p B(1) S by (rule MergeDictionary_lookup(2) [OF it tf m])
  show "list_all writable (ParseDictionaryTombstonesTsv uc (snd B))" using p kw by simp
qed

lemma removed_keyI:
  assumes "finite S" and "t \<in> S" and "SyncKey t = k" and "\<And>u. u \<in> S \<Longrightarrow> SyncKey u = k \<Longrightarrow> tombstone_device u \<noteq> dev"
    and "dict_lookup L k = None \<or> dict_lookup R k = None"
  shows "removed_key L R S dev k \<or> dict_lookup L k = None \<and> dict_lookup R k = None"
proof -
  obtain w where w: "undefeated S w" "SyncKey w = k" using undefeated_exists [OF assms(1,2)] assms(3) by blast
  then have "tombstone_device w \<noteq> dev" using assms(4) by (auto simp: undefeated_def)
  with w assms(5) show ?thesis by (auto simp: removed_key_def)
qed

lemma removed_keyI_local:
  assumes "finite S" and "t \<in> S" and "SyncKey t = k" and "dict_lookup L k = None"
  shows "removed_key L R S dev k \<or> dict_lookup R k = None"
proof -
  obtain w where "undefeated S w" "SyncKey w = k" using undefeated_exists [OF assms(1,2)] assms(3) by blast
  with assms(4) show ?thesis by (auto simp: removed_key_def)
qed

end
