(* ===== verification/Sync_History.thy ===== *)
theory Sync_History
  imports Sync_Merge Lru_Cache Utf8
begin

text \<open>
  The learning history in a synchronisation: the merge of \<open>sync/sync_merge.cc\<close>, its export from and
  import into the store of \<open>prediction/user_history_storage.cc\<close> (\<open>sync/sync_service.cc\<close>), and what
  repeated synchronisation does to it.
\<close>

section \<open>The merge as sums\<close>

definition hist_id :: "HistEntry \<Rightarrow> bytes" where
  "hist_id e = hist_key e @ [tab] @ hist_value e"

definition hist_events :: "UConv \<Rightarrow> bytes \<Rightarrow> HistEntry list" where
  "hist_events uc tsv = List.map_filter (parse_history_line uc) (content_lines tsv)"

text \<open>The entry that stands for a list of entries of one phrase.\<close>

fun hist_total :: "HistEntry list \<Rightarrow> HistEntry option" where
  "hist_total [] = None"
| "hist_total (e # es) =
     Some (e\<lparr>suggestion_freq := sum_list (map suggestion_freq (e # es)),
             shown_freq := sum_list (map shown_freq (e # es)),
             last_access_time := fold max (map last_access_time es) (last_access_time e)\<rparr>)"

definition hist_of :: "HistEntry list \<Rightarrow> bytes \<Rightarrow> HistEntry option" where
  "hist_of es k = hist_total (filter (\<lambda>e. hist_id e = k) es)"

definition hist_lookup :: "UConv \<Rightarrow> bytes \<Rightarrow> bytes \<Rightarrow> HistEntry option" where
  "hist_lookup uc tsv = hist_of (hist_events uc tsv)"

definition add_event :: "(bytes \<times> HistEntry) list \<Rightarrow> HistEntry \<Rightarrow> (bytes \<times> HistEntry) list" where
  "add_event m e =
     AList.update (hist_id e)
       (case map_of m (hist_id e) of
          None \<Rightarrow> e
        | Some old \<Rightarrow> old\<lparr>suggestion_freq := suggestion_freq old + suggestion_freq e,
                           shown_freq := shown_freq old + shown_freq e,
                           last_access_time := max (last_access_time old) (last_access_time e)\<rparr>) m"

lemma HistoryEntryKey_id: "parse_history_line uc line = Some e \<Longrightarrow> HistoryEntryKey line = hist_id e"
  by (auto simp: parse_history_line_def HistoryEntryKey_def hist_id_def Let_def split: if_splits)

lemma merge_history_line_event:
  "merge_history_line uc m line = (case parse_history_line uc line of None \<Rightarrow> m | Some e \<Rightarrow> add_event m e)"
  by (auto simp: merge_history_line_def add_event_def HistoryEntryKey_id Let_def split: option.splits)

lemma foldl_merge_history:
  "foldl (merge_history_line uc) m ls = foldl add_event m (List.map_filter (parse_history_line uc) ls)"
  by (induction ls arbitrary: m) (auto simp: map_filter_simps merge_history_line_event split: option.split)

lemma history_entries_events:
  "history_entries uc R L = foldl add_event [] (hist_events uc L @ hist_events uc R)"
  by (simp add: history_entries_def foldl_merge_history hist_events_def)

lemma hist_total_snoc:
  "hist_total (es @ [e]) =
     Some (case hist_total es of
        None \<Rightarrow> e
      | Some old \<Rightarrow> old\<lparr>suggestion_freq := suggestion_freq old + suggestion_freq e,
                         shown_freq := shown_freq old + shown_freq e,
                         last_access_time := max (last_access_time old) (last_access_time e)\<rparr>)"
  by (cases es) (simp_all add: max.commute)

lemma foldl_add_event:
  "distinct (map fst (foldl add_event [] es)) \<and> map_of (foldl add_event [] es) = hist_of es"
proof (induction es rule: rev_induct)
  case Nil
  then show ?case by (simp add: hist_of_def fun_eq_iff)
next
  case (snoc e es)
  then have "hist_of (es @ [e]) = (hist_of es)(hist_id e \<mapsto> the (hist_total (filter (\<lambda>x. hist_id x = hist_id e) es @ [e])))"
    by (auto simp: hist_of_def fun_eq_iff hist_total_snoc)
  then show ?case using snoc
    by (auto simp: add_event_def distinct_update update_conv' hist_total_snoc hist_of_def fun_eq_iff)
qed

section \<open>Reading back a written history\<close>

text \<open>An entry that survives being written.\<close>

definition hist_ok :: "HistEntry \<Rightarrow> bool" where
  "hist_ok e \<longleftrightarrow> tab \<notin> set (hist_key e) \<and> newline \<notin> set (hist_key e) \<and> tab \<notin> set (hist_value e) \<and>
     newline \<notin> set (hist_value e) \<and> hist_key e \<noteq> [] \<and> \<not> ascii_isspace (hd (hist_key e)) \<and> hd (hist_key e) \<noteq> CHR ''#''"

lemma history_line_parse:
  assumes "uconv_ok uc" and "hist_ok e"
  shows "parse_history_line uc (history_line uc e) = Some e" and "clean_line (history_line uc e)"
proof -
  note uc = uconv_okD [OF assms(1)]
  have "StrSplit tab (history_line uc e) =
      [hist_key e, hist_value e, StrCat_u32 uc (suggestion_freq e), StrCat_u32 uc (shown_freq e),
       StrCat_u64 uc (last_access_time e)]"
    using assms(2) uc(2,5) by (simp add: history_line_def hist_ok_def StrSplit_append StrSplit_no_sep)
  then show "parse_history_line uc (history_line uc e) = Some e"
    by (simp add: parse_history_line_def field_or_def uc(1,4))
  show "clean_line (history_line uc e)"
    using assms(2) uc(3,6,7,8) by (auto simp: clean_line_def history_line_def hist_ok_def byte_def)
qed

lemma hist_events_file:
  assumes "uconv_ok uc" and "list_all hist_ok es"
  shows "hist_events uc (history_header @ unlines (map (history_line uc) es)) = es"
proof -
  have "list_all clean_line (map (history_line uc) es)"
    using assms history_line_parse(2) by (auto simp: list_all_iff)
  then show ?thesis
    using assms history_line_parse(1)
    by (simp add: hist_events_def content_lines_history list_all_iff map_filter_all_Some)
qed

text \<open>Whatever a history file holds, the entries read from it can be written.\<close>

lemma StrSplit_hd: "hd (StrSplit c s) = takeWhile (\<lambda>x. x \<noteq> c) s"
  by (induction s) (auto split: list.splits)

lemma newline_free_fields:
  assumes "f \<in> set (StrSplit tab l)"
  shows "set f \<subseteq> set l"
  using assms
proof (induction l arbitrary: f)
  case (Cons x l)
  then show ?case by (cases "StrSplit tab l") (force split: if_splits)+
qed simp

lemma hist_events_ok: "e \<in> set (hist_events uc tsv) \<Longrightarrow> hist_ok e"
proof -
  assume "e \<in> set (hist_events uc tsv)"
  then obtain l where l: "l \<in> set (content_lines tsv)" "parse_history_line uc l = Some e"
    by (auto simp: hist_events_def map_filter_def)
  have c: "clean_line l" by (rule content_lines_clean [OF l(1)])
  have f: "length (StrSplit tab l) \<ge> 2" "hist_key e = StrSplit tab l ! 0" "hist_value e = StrSplit tab l ! 1"
    using l(2) by (auto simp: parse_history_line_def Let_def split: if_splits)
  then have m: "hist_key e \<in> set (StrSplit tab l)" "hist_value e \<in> set (StrSplit tab l)" by simp_all
  have "hd l \<noteq> tab" using c by (auto simp: clean_line_def ascii_isspace_def byte_def)
  moreover have "hist_key e = takeWhile (\<lambda>x. x \<noteq> tab) l"
    using f(1,2) StrSplit_hd [of tab l] by (simp add: hd_conv_nth)
  ultimately have "hist_key e \<noteq> [] \<and> hd (hist_key e) = hd l"
    using c by (cases l) (auto simp: clean_line_def)
  then show "hist_ok e"
    using m StrSplit_fields [OF m(1)] StrSplit_fields [OF m(2)] newline_free_fields c
    by (fastforce simp: hist_ok_def clean_line_def)
qed

lemma hist_total_ok: "hist_total es = Some e \<Longrightarrow> list_all hist_ok es \<Longrightarrow> hist_ok e"
  by (cases es) (auto simp: hist_ok_def)

lemma hist_of_ok: "hist_of es k = Some e \<Longrightarrow> list_all hist_ok es \<Longrightarrow> hist_ok e"
  using hist_total_ok [of "filter (\<lambda>e. hist_id e = k) es" e] by (auto simp: hist_of_def list_all_iff)

lemma hist_total_id: "hist_total es = Some e \<Longrightarrow> list_all (\<lambda>x. hist_id x = k) es \<Longrightarrow> hist_id e = k"
  by (cases es) (auto simp: hist_id_def)

lemma hist_of_id: "hist_of es k = Some e \<Longrightarrow> hist_id e = k"
  using hist_total_id [of "filter (\<lambda>e. hist_id e = k) es" e k] by (simp add: hist_of_def list_all_iff)

text \<open>The entries with distinct phrases are their own sums.\<close>

lemma hist_of_distinct:
  assumes "distinct (map hist_id es)"
  shows "hist_of es k = Some e \<longleftrightarrow> e \<in> set es \<and> hist_id e = k"
  using assms
proof (induction es)
  case (Cons x es)
  show ?case
  proof (cases "hist_id x = k")
    case True
    then have "\<forall>y \<in> set es. hist_id y \<noteq> k" using Cons.prems by (auto simp: image_iff)
    moreover from this have "filter (\<lambda>e. hist_id e = k) es = []" by (simp add: filter_empty_conv)
    ultimately show ?thesis using True by (auto simp: hist_of_def)
  next
    case False
    then have "hist_of (x # es) k = hist_of es k" by (simp add: hist_of_def)
    then show ?thesis using False Cons by auto
  qed
qed (simp add: hist_of_def)

section \<open>What the merge computes\<close>

lemma hist_id_inject:
  assumes "hist_ok d" and "hist_ok e" and "hist_id d = hist_id e"
  shows "hist_key d = hist_key e \<and> hist_value d = hist_value e"
proof -
  have "StrSplit tab (hist_id x) = [hist_key x, hist_value x]" if "hist_ok x" for x
    using that by (simp add: hist_id_def hist_ok_def StrSplit_append StrSplit_no_sep)
  from this [OF assms(1)] this [OF assms(2)] assms(3) show ?thesis by simp
qed

text \<open>Up to the spelling of the phrase, which the key determines, an entry is its three numbers.\<close>

definition hist_numbers :: "HistEntry list \<Rightarrow> 32 word \<times> 32 word \<times> 64 word" where
  "hist_numbers es = (sum_list (map suggestion_freq es), sum_list (map shown_freq es), fold max (map last_access_time es) 0)"

lemma fold_max_start: "fold max xs (a :: 64 word) = max a (fold max xs 0)"
proof (induction xs arbitrary: a)
  case (Cons x xs)
  show ?case using Cons [of "max x a"] Cons [of "max x 0"] by (simp add: max.assoc max.commute max.left_commute)
qed simp

lemma hist_total_numbers:
  assumes "es \<noteq> []" and "\<forall>e \<in> set es. hist_key e = a \<and> hist_value e = b"
  shows "hist_total es = Some (case hist_numbers es of (s, sh, l) \<Rightarrow>
    \<lparr>hist_key = a, hist_value = b, suggestion_freq = s, shown_freq = sh, last_access_time = l\<rparr>)"
proof (cases es)
  case (Cons e es')
  then have "hist_key e = a" "hist_value e = b" using assms(2) by auto
  then show ?thesis using fold_max_start [of "map last_access_time es'" "last_access_time e"] Cons
    by (cases e) (simp add: hist_numbers_def)
qed (use assms(1) in simp)

lemma hist_of_same_numbers:
  assumes "list_all hist_ok es" and "list_all hist_ok es'"
    and "filter (\<lambda>e. hist_id e = k) es = [] \<longleftrightarrow> filter (\<lambda>e. hist_id e = k) es' = []"
    and "hist_numbers (filter (\<lambda>e. hist_id e = k) es) = hist_numbers (filter (\<lambda>e. hist_id e = k) es')"
  shows "hist_of es k = hist_of es' k"
proof (cases "filter (\<lambda>e. hist_id e = k) es = []")
  case True
  then show ?thesis using assms(3) by (simp add: hist_of_def)
next
  case False
  then obtain d where d: "d \<in> set es" "hist_id d = k" by (auto simp: filter_empty_conv)
  have same: "hist_key e = hist_key d \<and> hist_value e = hist_value d" if "e \<in> set es \<union> set es'" "hist_id e = k" for e
    using that d assms(1,2) hist_id_inject [of e d] by (auto simp: list_all_iff)
  have "hist_total (filter (\<lambda>e. hist_id e = k) es) = hist_total (filter (\<lambda>e. hist_id e = k) es')"
    using hist_total_numbers [of "filter (\<lambda>e. hist_id e = k) es" "hist_key d" "hist_value d"]
      hist_total_numbers [of "filter (\<lambda>e. hist_id e = k) es'" "hist_key d" "hist_value d"] same False assms(3,4) by auto
  then show ?thesis by (simp add: hist_of_def)
qed

lemma hist_numbers_append:
  "hist_numbers (es @ es') = (case (hist_numbers es, hist_numbers es') of
     ((s, sh, l), (s', sh', l')) \<Rightarrow> (s + s', sh + sh', max l l'))"
  using fold_max_start [of "map last_access_time es'" "fold max (map last_access_time es) 0"]
  by (simp add: hist_numbers_def)

lemma hist_of_commute:
  assumes "list_all hist_ok es" and "list_all hist_ok es'"
  shows "hist_of (es @ es') k = hist_of (es' @ es) k"
  using assms
  by (intro hist_of_same_numbers) (auto simp: hist_numbers_append add.commute max.commute split: prod.splits)

lemma hist_events_list_ok: "list_all hist_ok (hist_events uc tsv)"
  using hist_events_ok by (auto simp: list_all_iff)

lemma MergeHistory_events:
  assumes uc: "uconv_ok uc" and it: "permutes hiter"
  shows "hist_events uc (fst (MergeHistoryTsv uc hiter R L)) = map snd (hiter (history_entries uc R L))"
    and "distinct (map hist_id (hist_events uc (fst (MergeHistoryTsv uc hiter R L))))"
    and "hist_lookup uc (fst (MergeHistoryTsv uc hiter R L)) = hist_of (hist_events uc L @ hist_events uc R)"
proof -
  define m where "m = history_entries uc R L"
  have m: "distinct (map fst m)" "map_of m = hist_of (hist_events uc L @ hist_events uc R)"
    unfolding m_def history_entries_events by (simp_all only: foldl_add_event)
  have ids: "hist_id e = k \<and> hist_ok e" if "(k, e) \<in> set m" for k e
  proof -
    have "hist_of (hist_events uc L @ hist_events uc R) k = Some e"
      using map_of_is_SomeI [OF m(1) that] m(2) by simp
    then show ?thesis using hist_of_id hist_of_ok hist_events_list_ok by fastforce
  qed
  have set: "set (hiter m) = set m" by (rule permutesD(1) [OF it])
  have fst: "map hist_id (map snd (hiter m)) = map fst (hiter m)" using ids set by auto
  show ev: "hist_events uc (fst (MergeHistoryTsv uc hiter R L)) = map snd (hiter (history_entries uc R L))"
  proof -
    have "list_all hist_ok (map snd (hiter m))" using ids set by (auto simp: list_all_iff)
    from hist_events_file [OF uc this] show ?thesis
      by (simp add: MergeHistoryTsv_def Let_def m_def comp_def case_prod_unfold)
  qed
  show d: "distinct (map hist_id (hist_events uc (fst (MergeHistoryTsv uc hiter R L))))"
    unfolding ev m_def [symmetric] fst using permutesD(3) [OF it, of fst m] m(1) by blast
  show "hist_lookup uc (fst (MergeHistoryTsv uc hiter R L)) = hist_of (hist_events uc L @ hist_events uc R)"
  proof
    fix k
    have "hist_of (map snd (hiter m)) k = Some e \<longleftrightarrow> map_of m k = Some e" for e
    proof -
      have "hist_of (map snd (hiter m)) k = Some e \<longleftrightarrow> e \<in> set (map snd (hiter m)) \<and> hist_id e = k"
        by (rule hist_of_distinct) (use d [unfolded ev] in \<open>simp add: m_def\<close>)
      also have "\<dots> \<longleftrightarrow> (k, e) \<in> set m" using ids set by force
      also have "\<dots> \<longleftrightarrow> map_of m k = Some e" using m(1) by (auto intro: map_of_is_SomeI dest: map_of_SomeD)
      finally show ?thesis .
    qed
    then have "hist_of (map snd (hiter m)) k = map_of m k" by (metis not_Some_eq)
    then show "hist_lookup uc (fst (MergeHistoryTsv uc hiter R L)) k = hist_of (hist_events uc L @ hist_events uc R) k"
      unfolding hist_lookup_def ev m(2) m_def [symmetric] .
  qed
qed

text \<open>C22: The merged history has one line per phrase of either side, with the sums of the two frequencies
  (in 32 bits) and the later time, and it can be read back; which side is remote and which local does
  not matter, nor does the order in which the hash map is iterated.\<close>

theorem MergeHistoryTsv_sums:
  assumes "uconv_ok uc" and "permutes hiter"
  shows "hist_lookup uc (fst (MergeHistoryTsv uc hiter R L)) k = hist_of (hist_events uc L @ hist_events uc R) k \<and>
    hist_lookup uc (fst (MergeHistoryTsv uc hiter R L)) k = hist_lookup uc (fst (MergeHistoryTsv uc hiter L R)) k \<and>
    distinct (map hist_id (hist_events uc (fst (MergeHistoryTsv uc hiter R L)))) \<and>
    snd (MergeHistoryTsv uc hiter R L) = length (hist_events uc (fst (MergeHistoryTsv uc hiter R L)))"
proof (intro conjI)
  note sums = MergeHistory_events(3) [OF assms, THEN fun_cong]
  show "hist_lookup uc (fst (MergeHistoryTsv uc hiter R L)) k = hist_of (hist_events uc L @ hist_events uc R) k"
    by (rule sums)
  show "hist_lookup uc (fst (MergeHistoryTsv uc hiter R L)) k = hist_lookup uc (fst (MergeHistoryTsv uc hiter L R)) k"
    unfolding sums by (rule hist_of_commute [OF hist_events_list_ok hist_events_list_ok])
  show "distinct (map hist_id (hist_events uc (fst (MergeHistoryTsv uc hiter R L))))"
    by (rule MergeHistory_events(2) [OF assms])
  show "snd (MergeHistoryTsv uc hiter R L) = length (hist_events uc (fst (MergeHistoryTsv uc hiter R L)))"
    unfolding MergeHistory_events(1) [OF assms] by (simp add: MergeHistoryTsv_def Let_def permutesD(2) [OF assms(2)])
qed

theorem MergeHistoryTsv_sums_witness:
  "hist_lookup decimal_uconv (fst (MergeHistoryTsv decimal_uconv id ''a'' ''b'')) ''c'' =
     hist_of (hist_events decimal_uconv ''b'' @ hist_events decimal_uconv ''a'') ''c''"
  using MergeHistoryTsv_sums [OF decimal_uconv_ok permutes_id [folded id_def], of "''a''" "''b''" "''c''"] by blast

end
