(* ===== verification/Sync_Service.thy ===== *)
theory Sync_Service
  imports Sync_History User_Dict
begin

text \<open>
  One synchronisation (\<open>sync/sync_service.cc\<close>): the local dictionary and learning history are exported,
  merged with the encrypted bundle another device left, written back, and imported. The history store of
  \<open>prediction/user_history_storage.cc\<close> is modelled with its background load. Encryption, the zip
  container, fingerprints and abseil's conversions are parameters.
\<close>

section \<open>The history store\<close>

text \<open>An entry of the store: the fields the merge knows, and those it does not.\<close>

record UserHistoryEntry = HistEntry +
  description :: bytes
  conversion_freq_deprecated :: "32 word"
  next_entries_deprecated :: "32 word list"
  next_entry_fps :: "64 word list"
  removed :: bool
  inner_segment_boundary :: "32 word list"
  allow_partial_match :: bool
  attributes :: "32 word"

definition kLruCacheSize :: nat where "kLruCacheSize = 10000"

text \<open>\<open>Fingerprint\<close> and \<open>FingerprintDepereated\<close> are hashes of key, tab and value.\<close>

record HistEnv =
  CityFingerprint :: "bytes \<Rightarrow> 64 word"
  LegacyFingerprint32 :: "bytes \<Rightarrow> 32 word"

definition entry_id :: "'a HistEntry_scheme \<Rightarrow> bytes" where
  "entry_id e = hist_key e @ [tab] @ hist_value e"

definition Fingerprint :: "HistEnv \<Rightarrow> 'a HistEntry_scheme \<Rightarrow> 64 word" where
  "Fingerprint he e = CityFingerprint he (entry_id e)"

type_synonym hist_dic = "(64 word \<times> UserHistoryEntry) list"

record HistoryStore =
  dic :: hist_dic
  needs_sync :: bool
  stored :: "UserHistoryEntry list option"

definition dic_Insert :: "HistEnv \<Rightarrow> UserHistoryEntry \<Rightarrow> hist_dic \<Rightarrow> hist_dic" where
  "dic_Insert he e d = lru_put (length d \<ge> kLruCacheSize) (Fingerprint he e) e d"

definition MigrateNextEntries :: "HistEnv \<Rightarrow> UserHistoryEntry list \<Rightarrow> UserHistoryEntry list" where
  "MigrateNextEntries he es =
     (if list_all (\<lambda>e. next_entries_deprecated e = []) es then es
      else let old2new_fp = map_of (rev (map (\<lambda>e. (LegacyFingerprint32 he (entry_id e), Fingerprint he e)) es))
        in map (\<lambda>e. e\<lparr>next_entry_fps := next_entry_fps e @ List.map_filter old2new_fp (next_entries_deprecated e),
                     next_entries_deprecated := []\<rparr>) es)"

definition load_entry :: "HistEnv \<Rightarrow> hist_dic \<Rightarrow> UserHistoryEntry \<Rightarrow> hist_dic" where
  "load_entry he d e =
     (if hist_value e = [] \<or> hist_key e = [] then d
      else if \<not> IsValidUtf8 (hist_value e) then d
      else dic_Insert he (e\<lparr>suggestion_freq := max (suggestion_freq e) (conversion_freq_deprecated e),
                            conversion_freq_deprecated := 0\<rparr>) d)"

text \<open>\<open>stored\<close> is \<open>None\<close> when the file is missing or cannot be read.\<close>

definition HistoryStore_Load :: "HistEnv \<Rightarrow> HistoryStore \<Rightarrow> bool \<times> HistoryStore" where
  "HistoryStore_Load he s =
     (case stored s of
        None \<Rightarrow> (False, s)
      | Some es \<Rightarrow> (True, s\<lparr>dic := foldl (load_entry he) [] (MigrateNextEntries he es), needs_sync := False\<rparr>))"

definition HistoryStore_Insert :: "HistEnv \<Rightarrow> UserHistoryEntry \<Rightarrow> HistoryStore \<Rightarrow> HistoryStore" where
  "HistoryStore_Insert he e s = s\<lparr>needs_sync := True, dic := dic_Insert he e (dic s)\<rparr>"

definition HistoryStore_Save :: "bool \<Rightarrow> HistoryStore \<Rightarrow> bool \<times> HistoryStore" where
  "HistoryStore_Save write_ok s =
     (if \<not> needs_sync s then (True, s)
      else let es = rev (take kLruCacheSize (map snd (dic s)))
        in if es = [] then (True, s\<lparr>stored := None\<rparr>)
           else if \<not> write_ok then (False, s)
           else (True, s\<lparr>stored := Some es, needs_sync := False\<rparr>))"

definition HistoryStore_Erase :: "64 word list \<Rightarrow> HistoryStore \<Rightarrow> HistoryStore" where
  "HistoryStore_Erase fps s =
     (if fps = [] then s else s\<lparr>needs_sync := True, dic := filter (\<lambda>(k, _). k \<notin> set fps) (dic s)\<rparr>)"

definition HistoryStore_Clear :: "bool \<Rightarrow> HistoryStore \<Rightarrow> HistoryStore" where
  "HistoryStore_Clear write_ok s = snd (HistoryStore_Save write_ok (s\<lparr>dic := [], needs_sync := True\<rparr>))"

definition new_HistoryStore :: "UserHistoryEntry list option \<Rightarrow> HistoryStore" where
  "new_HistoryStore file = \<lparr>dic = [], needs_sync = False, stored = file\<rparr>"

section \<open>Exporting and importing the history\<close>

definition ExportHistoryTsv :: "UConv \<Rightarrow> HistEnv \<Rightarrow> UserHistoryEntry list option \<Rightarrow> bytes" where
  "ExportHistoryTsv uc he file =
     (case HistoryStore_Load he (new_HistoryStore file) of
        (False, _) \<Rightarrow> history_header
      | (True, s) \<Rightarrow> history_header @ unlines (map (\<lambda>(_, e). history_line uc (HistEntry.truncate e)) (dic s)))"

definition imported_entry :: "HistEntry \<Rightarrow> UserHistoryEntry" where
  "imported_entry e = HistEntry.extend e (UserHistoryEntry.fields [] 0 [] [] False [] False 0)"

text \<open>
  The constructor of the store starts a background load, which \<open>ImportHistoryTsv\<close> does not wait for:
  \<open>background\<close> says behind how many insertions its critical section comes, \<open>None\<close> that it is over
  before the load in the foreground. The destructor saves once more.
\<close>

definition ImportHistoryTsv ::
  "UConv \<Rightarrow> HistEnv \<Rightarrow> nat option \<Rightarrow> bool \<Rightarrow> bool \<Rightarrow> bytes \<Rightarrow> UserHistoryEntry list option \<Rightarrow>
     status \<times> UserHistoryEntry list option" where
  "ImportHistoryTsv uc he background write_ok write_ok' tsv file =
     (let s = snd (HistoryStore_Load he (new_HistoryStore file));
          es = map imported_entry (List.map_filter (parse_history_line uc) (content_lines tsv));
          s = (case background of
                 None \<Rightarrow> fold (HistoryStore_Insert he) es s
               | Some n \<Rightarrow>
                   fold (HistoryStore_Insert he) (drop n es)
                     (snd (HistoryStore_Load he (fold (HistoryStore_Insert he) (take n es) s))));
          (saved, s) = HistoryStore_Save write_ok s
      in (if saved then OkStatus else InternalError, stored (snd (HistoryStore_Save write_ok' s))))"

section \<open>Exporting and importing the dictionary\<close>

definition export_dictionary_line :: "DictEnv \<Rightarrow> UdEntry \<Rightarrow> bytes" where
  "export_dictionary_line de e =
     export_entry de e @ (if ud_locale e \<noteq> [] then [tab] @ ud_locale e else [])"

definition new_UdStorage :: "DbFile \<Rightarrow> UdStorage" where
  "new_UdStorage db = \<lparr>dictionaries = [], locked = False, db_file = db\<rparr>"

definition ExportDictionaryTsv :: "DictEnv \<Rightarrow> 64 word list \<Rightarrow> DbFile \<Rightarrow> bytes option" where
  "ExportDictionaryTsv de gen db =
     map_option (\<lambda>(st, s).
       if st \<noteq> OkStatus then dictionary_header
       else dictionary_header @
         unlines (map (export_dictionary_line de) (concat (map entries (dictionaries s)))))
       (UdStorage_Load gen (new_UdStorage db))"

definition UdEntry_SyncKey :: "DictEnv \<Rightarrow> UdEntry \<Rightarrow> bytes" where
  "UdEntry_SyncKey de e =
     DictionaryEntrySyncKey (ud_key e) (ud_value e) (GetStringPosType de (get_pos e)) (ud_locale e)"

definition DictionaryEntryHash :: "DictEnv \<Rightarrow> UdEntry \<Rightarrow> nat" where
  "DictionaryEntryHash de e = hash4 de (ud_key e, ud_value e, get_pos e, ud_locale e)"

text \<open>The loop that adds the entries of the merged file to the target dictionary.\<close>

fun add_new_entries :: "DictEnv \<Rightarrow> nat set \<Rightarrow> RawEntry list \<Rightarrow> UdEntry list" where
  "add_new_entries de existing [] = []"
| "add_new_entries de existing (raw # raws) =
     (case ConvertEntry de raw of
        None \<Rightarrow> add_new_entries de existing raws
      | Some entry \<Rightarrow>
          let h = DictionaryEntryHash de entry
          in if h \<in> existing then add_new_entries de existing raws
             else entry # add_new_entries de (insert h existing) raws)"

definition keep_desired :: "DictEnv \<Rightarrow> bytes set \<Rightarrow> UserDictionary \<Rightarrow> UserDictionary" where
  "keep_desired de desired_keys d = d\<lparr>entries := filter (\<lambda>e. UdEntry_SyncKey de e \<in> desired_keys) (entries d)\<rparr>"

definition user_dictionary_name :: bytes where "user_dictionary_name = ''User dictionary''"

definition status_of_save :: "save_status \<Rightarrow> status" where
  "status_of_save s =
     (case s of Save_Ok \<Rightarrow> OkStatus | Save_PermissionDenied \<Rightarrow> PermissionDeniedError | _ \<Rightarrow> UnknownError)"

text \<open>\<open>locks\<close>: the process mutex is free. The status of a failed creation is an extended code, which is
  an unknown error. The result is \<open>None\<close> only if the random numbers run out.\<close>

definition ImportDictionaryTsv ::
  "DictEnv \<Rightarrow> 64 word list \<Rightarrow> bool \<Rightarrow> SaveOutcome \<Rightarrow> bytes \<Rightarrow> DbFile \<Rightarrow> (status \<times> DbFile) option" where
  "ImportDictionaryTsv de gen locks fs tsv db =
     (if \<not> locks then Some (InternalError, db)
      else Option.bind (UdStorage_Load gen ((new_UdStorage db)\<lparr>locked := True\<rparr>)) (\<lambda>(st, s).
        let s = (if st \<noteq> OkStatus then s\<lparr>dictionaries := []\<rparr> else s);
            s = s\<lparr>dictionaries := map (keep_desired de (CollectDictionarySyncKeysFromTsv tsv)) (dictionaries s)\<rparr>
        in Option.bind
             (if dictionaries s \<noteq> [] then Some (Inr 0, s)
              else map_option (\<lambda>(r, s). (case r of Inl c \<Rightarrow> Inl c | Inr i \<Rightarrow> Inr (GetUserDictionaryIndex s i), s))
                     (CreateDictionary gen user_dictionary_name s)) (\<lambda>(r, s).
           case r of
             Inl _ \<Rightarrow> Some (UnknownError, db)
           | Inr i \<Rightarrow>
               if i < 0 then Some (InternalError, db)
               else let existing = DictionaryEntryHash de ` set (concat (map entries (dictionaries s)));
                        new = add_new_entries de existing (raw_entries (TextInputIterator_type de MOZC tsv) tsv);
                        target = dictionaries s ! nat i;
                        s = s\<lparr>dictionaries := (dictionaries s)[nat i := target\<lparr>entries := entries target @ new\<rparr>]\<rparr>;
                        (st, s) = UdStorage_Save fs s
                    in Some (status_of_save st, db_file s))))"

end
