(* ===== verification/Sync_Idle.thy ===== *)
theory Sync_Idle
  imports Sync_Service
begin

text \<open>
  What synchronising does to the learning history of a device: the store survives saving and loading,
  a synchronisation without any use in between doubles every frequency, forgets what the merge does not
  carry, and may lose the import to the background load.
\<close>

section \<open>The store and its file\<close>

text \<open>A store whose entries survive a load: they sit under their fingerprints and are not filtered out.\<close>

definition entry_ok :: "UserHistoryEntry \<Rightarrow> bool" where
  "entry_ok e \<longleftrightarrow> hist_key e \<noteq> [] \<and> hist_value e \<noteq> [] \<and> IsValidUtf8 (hist_value e) \<and>
     conversion_freq_deprecated e = 0 \<and> next_entries_deprecated e = []"

definition dic_ok :: "HistEnv \<Rightarrow> hist_dic \<Rightarrow> bool" where
  "dic_ok he d \<longleftrightarrow> distinct (map fst d) \<and> list_all (\<lambda>(fp, e). fp = Fingerprint he e \<and> entry_ok e) d \<and>
     length d \<le> kLruCacheSize"

lemma dic_ok_Cons: "dic_ok he ((fp, e) # d) \<longleftrightarrow> fp \<notin> fst ` set d \<and> fp = Fingerprint he e \<and> entry_ok e \<and>
    dic_ok he d \<and> length d < kLruCacheSize"
  by (auto simp: dic_ok_def)

lemma load_entry_ok: "entry_ok e \<Longrightarrow> load_entry he d e = dic_Insert he e d"
proof -
  assume e: "entry_ok e"
  then have "load_entry he d e = dic_Insert he (e\<lparr>conversion_freq_deprecated := 0\<rparr>) d"
    by (simp add: load_entry_def entry_ok_def)
  moreover from e have "e\<lparr>conversion_freq_deprecated := 0\<rparr> = e" by (cases e) (simp add: entry_ok_def)
  ultimately show ?thesis by simp
qed

lemma dic_Insert_new: "Fingerprint he e \<notin> fst ` set d \<Longrightarrow> length d < kLruCacheSize \<Longrightarrow>
    dic_Insert he e d = (Fingerprint he e, e) # d"
  by (simp add: dic_Insert_def lru_put_def)

lemma Load_saved:
  assumes "dic_ok he d"
  shows "foldl (load_entry he) [] (MigrateNextEntries he (rev (map snd d))) = d"
proof -
  have m: "MigrateNextEntries he (rev (map snd d)) = rev (map snd d)"
    using assms by (auto simp: MigrateNextEntries_def dic_ok_def entry_ok_def list_all_iff)
  have "foldl (load_entry he) [] (rev (map snd d)) = d"
    using assms
  proof (induction d)
    case (Cons p d)
    obtain fp e where p: "p = (fp, e)" by fastforce
    from Cons show ?case by (auto simp: p dic_ok_Cons load_entry_ok dic_Insert_new)
  qed simp
  then show ?thesis by (simp add: m)
qed

definition stored_dic :: "hist_dic \<Rightarrow> UserHistoryEntry list option" where
  "stored_dic d = (if d = [] then None else Some (rev (map snd d)))"

lemma Load_stored_dic:
  assumes "dic_ok he d" and "d \<noteq> []"
  shows "HistoryStore_Load he (new_HistoryStore (stored_dic d)) =
    (True, \<lparr>dic = d, needs_sync = False, stored = stored_dic d\<rparr>)"
  using assms by (simp add: HistoryStore_Load_def new_HistoryStore_def stored_dic_def Load_saved)

lemma Load_stored_dic':
  assumes "dic_ok he d"
  shows "dic (snd (HistoryStore_Load he (new_HistoryStore (stored_dic d)))) = d"
    and "ExportHistoryTsv uc he (stored_dic d) =
      history_header @ unlines (map (\<lambda>(_, e). history_line uc (HistEntry.truncate e)) d)"
proof -
  show "dic (snd (HistoryStore_Load he (new_HistoryStore (stored_dic d)))) = d"
    using Load_stored_dic [OF assms] by (cases "d = []")
      (simp_all add: stored_dic_def HistoryStore_Load_def new_HistoryStore_def)
  show "ExportHistoryTsv uc he (stored_dic d) =
      history_header @ unlines (map (\<lambda>(_, e). history_line uc (HistEntry.truncate e)) d)"
    using Load_stored_dic [OF assms] by (cases "d = []")
      (simp_all add: ExportHistoryTsv_def stored_dic_def HistoryStore_Load_def new_HistoryStore_def unlines_def)
qed

section \<open>Inserting the merged entries\<close>

lemma dic_Insert_known:
  assumes "dic_ok he d" and "Fingerprint he e \<in> fst ` set d" and "entry_ok e"
  shows "dic_ok he (dic_Insert he e d)" "fst ` set (dic_Insert he e d) = fst ` set d"
    "map_of (dic_Insert he e d) = (map_of d)(Fingerprint he e \<mapsto> e)"
proof -
  let ?k = "Fingerprint he e"
  have i: "dic_Insert he e d = (?k, e) # drop_key ?k d"
    using assms(2) by (simp add: dic_Insert_def lru_put_def)
  obtain p where p: "p \<in> set d" "fst p = ?k" using assms(2) by auto
  have "length (drop_key ?k d) < length d"
    unfolding drop_key_def by (rule length_filter_less [OF p(1)]) (simp add: p(2))
  then show "dic_ok he (dic_Insert he e d)"
    using assms(1,3) unfolding i dic_ok_Cons
    by (auto simp: dic_ok_def drop_key_def distinct_map_filter list_all_iff)
  show "fst ` set (dic_Insert he e d) = fst ` set d" using p unfolding i by (force simp: drop_key_def)
  show "map_of (dic_Insert he e d) = (map_of d)(?k \<mapsto> e)" unfolding i by (auto simp: map_of_drop_key)
qed

lemma fold_Insert_known:
  assumes "dic_ok he (dic s)" and "list_all (\<lambda>e. Fingerprint he e \<in> fst ` set (dic s) \<and> entry_ok e) es"
  shows "dic_ok he (dic (fold (HistoryStore_Insert he) es s)) \<and>
    fst ` set (dic (fold (HistoryStore_Insert he) es s)) = fst ` set (dic s) \<and>
    map_of (dic (fold (HistoryStore_Insert he) es s)) =
      map_of (dic s) ++ map_of (rev (map (\<lambda>e. (Fingerprint he e, e)) es)) \<and>
    stored (fold (HistoryStore_Insert he) es s) = stored s \<and>
    (es \<noteq> [] \<longrightarrow> needs_sync (fold (HistoryStore_Insert he) es s))"
  using assms
proof (induction es arbitrary: s)
  case (Cons e es)
  let ?s = "HistoryStore_Insert he e s"
  have d: "dic ?s = dic_Insert he e (dic s)" "stored ?s = stored s" "needs_sync ?s"
    by (simp_all add: HistoryStore_Insert_def)
  note k = dic_Insert_known [of he "dic s" e]
  have prem: "dic_ok he (dic ?s)" "list_all (\<lambda>e. Fingerprint he e \<in> fst ` set (dic ?s) \<and> entry_ok e) es"
    using Cons.prems k by (simp_all add: d)
  from Cons.IH [OF prem] have ih: "map_of (dic (fold (HistoryStore_Insert he) es ?s)) =
      map_of (dic ?s) ++ map_of (rev (map (\<lambda>e. (Fingerprint he e, e)) es))" by blast
  have "needs_sync (fold (HistoryStore_Insert he) es t)" if "needs_sync t" for t
    using that by (induction es arbitrary: t) (simp_all add: HistoryStore_Insert_def)
  then show ?case using Cons.IH [OF prem] Cons.prems k ih d
    by (simp add: map_add_assoc [symmetric])
qed simp

section \<open>One synchronisation of the history\<close>

text \<open>The history part of a synchronisation: the file of the store and the history in the bundle.\<close>

definition sync_history_once ::
  "UConv \<Rightarrow> HistEnv \<Rightarrow> history_iter \<Rightarrow> UserHistoryEntry list option \<times> bytes \<Rightarrow> UserHistoryEntry list option \<times> bytes" where
  "sync_history_once uc he hiter fr =
     (let merged = fst (MergeHistoryTsv uc hiter (snd fr) (ExportHistoryTsv uc he (fst fr)))
      in (snd (ImportHistoryTsv uc he None True True merged (fst fr)), merged))"

definition combine :: "HistEntry option \<Rightarrow> HistEntry option \<Rightarrow> HistEntry option" where
  "combine x y =
     (case (x, y) of
        (None, y) \<Rightarrow> y
      | (x, None) \<Rightarrow> x
      | (Some a, Some b) \<Rightarrow>
          Some (a\<lparr>suggestion_freq := suggestion_freq a + suggestion_freq b,
                  shown_freq := shown_freq a + shown_freq b,
                  last_access_time := max (last_access_time a) (last_access_time b)\<rparr>))"

definition double :: "HistEntry \<Rightarrow> HistEntry" where
  "double e = e\<lparr>suggestion_freq := 2 * suggestion_freq e, shown_freq := 2 * shown_freq e\<rparr>"

lemma hist_total_append: "hist_total (es @ es') = combine (hist_total es) (hist_total es')"
proof (cases es)
  case (Cons e xs)
  then show ?thesis
  proof (cases es')
    case (Cons e' xs')
    have "fold max (map last_access_time xs @ last_access_time e' # map last_access_time xs') (last_access_time e) =
        max (fold max (map last_access_time xs) (last_access_time e)) (fold max (map last_access_time xs') (last_access_time e'))"
      using fold_max_start [of "map last_access_time xs'" "last_access_time e'"]
        fold_max_start [of "map last_access_time xs'" "max (last_access_time e') (fold max (map last_access_time xs) (last_access_time e))"]
      by (simp add: max.assoc max.commute max.left_commute)
    with Cons \<open>es = e # xs\<close> show ?thesis by (simp add: combine_def)
  qed (simp add: combine_def)
qed (simp add: combine_def)

lemma hist_of_append: "hist_of (es @ es') k = combine (hist_of es k) (hist_of es' k)"
  by (simp add: hist_of_def hist_total_append)

lemma combine_same: "combine x x = map_option double x"
  by (cases x) (simp_all add: combine_def double_def)

lemma truncate_imported [simp]: "HistEntry.truncate (imported_entry h) = h"
  by (cases h) (simp add: imported_entry_def HistEntry.defs UserHistoryEntry.defs)

lemma imported_fields [simp]:
  "hist_key (imported_entry h) = hist_key h" "hist_value (imported_entry h) = hist_value h"
  "suggestion_freq (imported_entry h) = suggestion_freq h" "removed (imported_entry h) = False"
  "next_entry_fps (imported_entry h) = []" "conversion_freq_deprecated (imported_entry h) = 0"
  "next_entries_deprecated (imported_entry h) = []" "entry_id (imported_entry h) = hist_id h"
  by (simp_all add: imported_entry_def HistEntry.defs UserHistoryEntry.defs entry_id_def hist_id_def)

lemma truncate_fields [simp]:
  "hist_id (HistEntry.truncate e) = entry_id e" "hist_key (HistEntry.truncate e) = hist_key e"
  "hist_value (HistEntry.truncate e) = hist_value e"
  by (simp_all add: hist_id_def entry_id_def HistEntry.defs)

abbreviation shown :: "hist_dic \<Rightarrow> HistEntry list" where
  "shown d \<equiv> map (\<lambda>p. HistEntry.truncate (snd p)) d"

text \<open>The store and the bundle agree on every phrase, as they do after a synchronisation.\<close>

definition in_sync :: "UConv \<Rightarrow> HistEnv \<Rightarrow> hist_dic \<Rightarrow> bytes \<Rightarrow> bool" where
  "in_sync uc he d tsv \<longleftrightarrow> dic_ok he d \<and> list_all hist_ok (shown d) \<and> hist_of (shown d) = hist_lookup uc tsv"

lemma dic_ok_ids: "dic_ok he d \<Longrightarrow> distinct (map hist_id (shown d))"
proof -
  assume d: "dic_ok he d"
  then have "map fst d = map (CityFingerprint he) (map hist_id (shown d))"
    by (auto simp: dic_ok_def Fingerprint_def list_all_iff)
  moreover from d have "distinct (map fst d)" by (simp add: dic_ok_def)
  ultimately have "distinct (map (CityFingerprint he) (map hist_id (shown d)))" by metis
  then show ?thesis unfolding distinct_map by blast
qed

lemma export_events:
  assumes "uconv_ok uc" and "in_sync uc he d tsv"
  shows "hist_events uc (ExportHistoryTsv uc he (stored_dic d)) = shown d"
proof -
  have e: "ExportHistoryTsv uc he (stored_dic d) = history_header @ unlines (map (history_line uc) (shown d))"
    using Load_stored_dic'(2) assms(2) by (simp add: in_sync_def comp_def case_prod_unfold)
  show ?thesis unfolding e by (rule hist_events_file [OF assms(1)]) (use assms(2) in \<open>simp add: in_sync_def\<close>)
qed

lemma stored_after_Save:
  assumes "dic_ok he (dic s)" and "needs_sync s \<or> dic s = d0 \<and> stored s = stored_dic d0"
  shows "stored (snd (HistoryStore_Save True (snd (HistoryStore_Save True s)))) = stored_dic (dic s)"
proof -
  have "take kLruCacheSize (map snd (dic s)) = map snd (dic s)" using assms(1) by (simp add: dic_ok_def)
  then show ?thesis using assms(2) by (auto simp: HistoryStore_Save_def Let_def stored_dic_def)
qed

lemma Import_known:
  assumes d: "dic_ok he d" and es: "list_all (\<lambda>e. Fingerprint he e \<in> fst ` set d \<and> entry_ok e)
      (map imported_entry (hist_events uc tsv))"
  obtains d' where "snd (ImportHistoryTsv uc he None True True tsv (stored_dic d)) = stored_dic d'" "dic_ok he d'"
    "fst ` set d' = fst ` set d"
    "map_of d' = map_of d ++ map_of (rev (map (\<lambda>e. (Fingerprint he e, e)) (map imported_entry (hist_events uc tsv))))"
proof -
  let ?es = "map imported_entry (hist_events uc tsv)"
  define s where "s = snd (HistoryStore_Load he (new_HistoryStore (stored_dic d)))"
  have s: "dic s = d" "stored s = stored_dic d"
    using Load_stored_dic'(1) [OF d] Load_stored_dic [OF d]
    by (cases "d = []"; simp add: s_def HistoryStore_Load_def new_HistoryStore_def stored_dic_def)+
  define t where "t = fold (HistoryStore_Insert he) ?es s"
  note f = fold_Insert_known [of he s, OF _ es [folded s(1)], unfolded s(1), folded t_def, OF d]
  have "needs_sync t \<or> dic t = d \<and> stored t = stored_dic d"
  proof (cases "?es = []")
    case True
    then show ?thesis using s by (simp add: t_def)
  qed (use f in blast)
  from stored_after_Save [OF conjunct1 [OF f] this]
  have "snd (ImportHistoryTsv uc he None True True tsv (stored_dic d)) = stored_dic (dic t)"
    by (simp add: ImportHistoryTsv_def Let_def hist_events_def [symmetric] s_def [symmetric] t_def [symmetric] case_prod_unfold)
  then show ?thesis using that f by blast
qed

text \<open>The phrases of the merge are those of the store, with doubled numbers.\<close>

lemma merged_phrases:
  assumes uc: "uconv_ok uc" and it: "permutes hiter" and sync: "in_sync uc he d tsv"
    and tsv': "tsv' = fst (MergeHistoryTsv uc hiter tsv (ExportHistoryTsv uc he (stored_dic d)))"
  shows "hist_lookup uc tsv' k = map_option double (hist_lookup uc tsv k)"
    and "h \<in> set (hist_events uc tsv') \<Longrightarrow>
      \<exists>p \<in> set d. entry_id (snd p) = hist_id h \<and> h = double (HistEntry.truncate (snd p))"
    and "p \<in> set d \<Longrightarrow> \<exists>h \<in> set (hist_events uc tsv'). hist_id h = entry_id (snd p)"
    and "distinct (map hist_id (hist_events uc tsv'))"
proof -
  have d: "dic_ok he d" and lookup: "hist_of (shown d) = hist_lookup uc tsv" using sync by (simp_all add: in_sync_def)
  have L: "hist_events uc (ExportHistoryTsv uc he (stored_dic d)) = shown d" by (rule export_events [OF uc sync])
  note merged = MergeHistory_events [OF uc it, of tsv "ExportHistoryTsv uc he (stored_dic d)", folded tsv']
  show dbl: "hist_lookup uc tsv' k = map_option double (hist_lookup uc tsv k)" for k
    unfolding merged(3) L hist_of_append by (simp add: lookup hist_lookup_def combine_same)
  show "distinct (map hist_id (hist_events uc tsv'))" by (rule merged(2))
  have of_E: "hist_lookup uc tsv' k = Some h \<longleftrightarrow> h \<in> set (hist_events uc tsv') \<and> hist_id h = k" for k h
    unfolding hist_lookup_def by (rule hist_of_distinct [OF merged(2)])
  have of_d: "hist_lookup uc tsv k = Some h \<longleftrightarrow> h \<in> set (shown d) \<and> hist_id h = k" for k h
    unfolding lookup [symmetric] by (rule hist_of_distinct [OF dic_ok_ids [OF d]])
  show "\<exists>p \<in> set d. entry_id (snd p) = hist_id h \<and> h = double (HistEntry.truncate (snd p))"
    if "h \<in> set (hist_events uc tsv')"
  proof -
    have "map_option double (hist_lookup uc tsv (hist_id h)) = Some h" using that of_E unfolding dbl by blast
    then obtain h0 where h0: "hist_lookup uc tsv (hist_id h) = Some h0" "h = double h0" by auto
    then have "h0 \<in> set (shown d)" "hist_id h0 = hist_id h" using of_d by blast+
    then obtain p where "p \<in> set d" "h0 = HistEntry.truncate (snd p)" by auto
    then show ?thesis using h0(2) \<open>hist_id h0 = hist_id h\<close> by (metis truncate_fields(1))
  qed
  show "\<exists>h \<in> set (hist_events uc tsv'). hist_id h = entry_id (snd p)" if "p \<in> set d"
  proof -
    have "hist_lookup uc tsv (entry_id (snd p)) = Some (HistEntry.truncate (snd p))"
      using that of_d by auto
    then have "hist_lookup uc tsv' (entry_id (snd p)) = Some (double (HistEntry.truncate (snd p)))" by (simp add: dbl)
    then show ?thesis using of_E by blast
  qed
qed

lemma dic_fp: "dic_ok he d \<Longrightarrow> p \<in> set d \<Longrightarrow> fst p = CityFingerprint he (entry_id (snd p)) \<and> entry_ok (snd p)"
  by (auto simp: dic_ok_def list_all_iff Fingerprint_def)

lemma dic_same_fp:
  assumes "dic_ok he d" and "p \<in> set d" and "p' \<in> set d" and "fst p = fst p'"
  shows "p = p'"
  using assms unfolding dic_ok_def distinct_map inj_on_def by blast

abbreviation new_pairs :: "HistEnv \<Rightarrow> HistEntry list \<Rightarrow> hist_dic" where
  "new_pairs he es \<equiv> map (\<lambda>h. (Fingerprint he (imported_entry h), imported_entry h)) es"

lemma Fingerprint_imported: "Fingerprint he (imported_entry h) = CityFingerprint he (hist_id h)"
  by (simp add: Fingerprint_def)

text \<open>Inserting entries for exactly the phrases of the store replaces its contents.\<close>

lemma new_pairs_replace:
  assumes d: "dic_ok he d" and ids: "distinct (map hist_id es)"
    and from_d: "\<And>h. h \<in> set es \<Longrightarrow> \<exists>p \<in> set d. entry_id (snd p) = hist_id h"
    and to_es: "\<And>p. p \<in> set d \<Longrightarrow> \<exists>h \<in> set es. hist_id h = entry_id (snd p)"
  shows "fst ` set (new_pairs he es) = fst ` set d" and "distinct (map fst (new_pairs he es))"
proof -
  have inj: "h = h'" if h: "h \<in> set es" "h' \<in> set es" "CityFingerprint he (hist_id h) = CityFingerprint he (hist_id h')" for h h'
  proof -
    obtain p p' where p: "p \<in> set d" "entry_id (snd p) = hist_id h" "p' \<in> set d" "entry_id (snd p') = hist_id h'"
      using from_d [OF h(1)] from_d [OF h(2)] by blast
    have "fst p = fst p'" using dic_fp [OF d p(1)] dic_fp [OF d p(3)] p(2,4) h(3) by simp
    from dic_same_fp [OF d p(1,3) this] have "hist_id h = hist_id h'" using p by simp
    with ids h(1,2) show ?thesis unfolding distinct_map inj_on_def by blast
  qed
  then have "inj_on (\<lambda>h. CityFingerprint he (hist_id h)) (set es)" by (rule inj_onI)
  moreover have "distinct es" using ids by (simp add: distinct_map)
  ultimately have "distinct (map (\<lambda>h. CityFingerprint he (hist_id h)) es)" by (simp add: distinct_map)
  moreover have "map fst (new_pairs he es) = map (\<lambda>h. CityFingerprint he (hist_id h)) es"
    by (simp add: Fingerprint_imported)
  ultimately show "distinct (map fst (new_pairs he es))" by metis
  show "fst ` set (new_pairs he es) = fst ` set d"
  proof
    show "fst ` set (new_pairs he es) \<subseteq> fst ` set d"
    proof
      fix x assume "x \<in> fst ` set (new_pairs he es)"
      then obtain h where h: "h \<in> set es" "x = CityFingerprint he (hist_id h)" by (auto simp: Fingerprint_imported)
      obtain p where p: "p \<in> set d" "entry_id (snd p) = hist_id h" using from_d [OF h(1)] by blast
      then show "x \<in> fst ` set d" using dic_fp [OF d p(1)] h(2) by (metis imageI)
    qed
    show "fst ` set d \<subseteq> fst ` set (new_pairs he es)"
    proof
      fix x assume "x \<in> fst ` set d"
      then obtain p where p: "p \<in> set d" "x = fst p" by blast
      obtain h where h: "h \<in> set es" "hist_id h = entry_id (snd p)" using to_es [OF p(1)] by blast
      have "x = fst (Fingerprint he (imported_entry h), imported_entry h)"
        using dic_fp [OF d p(1)] p(2) h(2) by (simp add: Fingerprint_imported)
      then show "x \<in> fst ` set (new_pairs he es)" using h(1) by (metis (no_types, lifting) image_eqI image_set)
    qed
  qed
qed

lemma map_add_replace:
  assumes "fst ` set new = fst ` set d" and "distinct (map fst new)"
  shows "map_of d ++ map_of (rev new) = map_of new"
proof
  fix x
  have r: "map_of (rev new) = map_of new"
    using assms(2) by (subst map_of_inject_set) (simp_all add: rev_map [symmetric])
  show "(map_of d ++ map_of (rev new)) x = map_of new x"
  proof (cases "map_of new x")
    case None
    then have "map_of d x = None" using assms(1) by (simp add: map_of_eq_None_iff)
    then show ?thesis by (simp add: r None map_add_def)
  qed (simp add: r map_add_def)
qed

lemma known_entries:
  assumes d: "dic_ok he d" and keys: "fst ` set (new_pairs he es) = fst ` set d"
    and from_d: "\<And>h. h \<in> set es \<Longrightarrow> \<exists>p \<in> set d. entry_id (snd p) = hist_id h \<and> h = double (HistEntry.truncate (snd p))"
  shows "list_all (\<lambda>e. Fingerprint he e \<in> fst ` set d \<and> entry_ok e) (map imported_entry es)"
proof -
  have "Fingerprint he (imported_entry h) \<in> fst ` set d \<and> entry_ok (imported_entry h)" if h: "h \<in> set es" for h
  proof
    obtain p where p: "p \<in> set d" "h = double (HistEntry.truncate (snd p))" using from_d [OF h] by blast
    have "(Fingerprint he (imported_entry h), imported_entry h) \<in> set (new_pairs he es)" using h by simp
    from imageI [OF this, of fst] show "Fingerprint he (imported_entry h) \<in> fst ` set d" by (simp only: fst_conv keys)
    show "entry_ok (imported_entry h)" using dic_fp [OF d p(1)] p(2) by (simp add: entry_ok_def double_def)
  qed
  then show ?thesis by (simp add: list_all_iff)
qed

lemma same_lookup:
  assumes "distinct (map hist_id es)" and "distinct (map hist_id es')" and "set es = set es'"
  shows "hist_of es = hist_of es'"
proof
  fix k
  have "hist_of es k = Some h \<longleftrightarrow> hist_of es' k = Some h" for h
    unfolding hist_of_distinct [OF assms(1)] hist_of_distinct [OF assms(2)] assms(3) ..
  then show "hist_of es k = hist_of es' k" by (metis not_Some_eq)
qed

text \<open>One round: the store and the bundle still agree, on the doubled numbers, and every entry is a new one.\<close>

lemma sync_round:
  assumes uc: "uconv_ok uc" and it: "permutes hiter" and sync: "in_sync uc he d tsv"
  shows "\<exists>d' tsv'. sync_history_once uc he hiter (stored_dic d, tsv) = (stored_dic d', tsv') \<and>
    in_sync uc he d' tsv' \<and> (\<forall>k. hist_lookup uc tsv' k = map_option double (hist_lookup uc tsv k)) \<and>
    set d' = set (new_pairs he (hist_events uc tsv'))"
proof -
  define tsv' where "tsv' = fst (MergeHistoryTsv uc hiter tsv (ExportHistoryTsv uc he (stored_dic d)))"
  let ?E = "hist_events uc tsv'"
  have d: "dic_ok he d" using sync by (simp add: in_sync_def)
  note m = merged_phrases [OF uc it sync tsv'_def]
  have from_d: "\<exists>p \<in> set d. entry_id (snd p) = hist_id h" if "h \<in> set ?E" for h using m(2) [OF that] by blast
  have new: "fst ` set (new_pairs he ?E) = fst ` set d" "distinct (map fst (new_pairs he ?E))"
    by (rule new_pairs_replace [OF d m(4)]; fact from_d m(3))+
  have known: "list_all (\<lambda>e. Fingerprint he e \<in> fst ` set d \<and> entry_ok e) (map imported_entry ?E)"
    by (rule known_entries [OF d new(1) m(2)])
  from Import_known [OF d known] obtain d' where d': "snd (ImportHistoryTsv uc he None True True tsv' (stored_dic d)) = stored_dic d'"
    "dic_ok he d'" "map_of d' = map_of d ++ map_of (rev (map (\<lambda>e. (Fingerprint he e, e)) (map imported_entry ?E)))" .
  have "map (\<lambda>e. (Fingerprint he e, e)) (map imported_entry ?E) = new_pairs he ?E" by (simp only: map_map comp_def)
  then have map': "map_of d' = map_of (new_pairs he ?E)" using d'(3) map_add_replace [OF new] by (simp only:)
  have dist': "distinct (map fst d')" using d'(2) by (simp add: dic_ok_def)
  have set': "set d' = set (new_pairs he ?E)" by (rule map_of_inject_set [OF dist' new(2), THEN iffD1, OF map'])
  have "set (shown d') = (\<lambda>p. HistEntry.truncate (snd p)) ` set d'" by simp
  also have "\<dots> = set ?E" unfolding set' by (simp add: image_image)
  finally have shown': "set (shown d') = set ?E" .
  have "hist_of (shown d') = hist_lookup uc tsv'"
    unfolding hist_lookup_def by (rule same_lookup [OF dic_ok_ids [OF d'(2)] m(4) shown'])
  moreover have "list_all hist_ok (shown d')"
    using hist_events_list_ok [of uc tsv'] unfolding list_all_iff shown' .
  ultimately have "in_sync uc he d' tsv'" using d'(2) by (simp add: in_sync_def)
  moreover have "sync_history_once uc he hiter (stored_dic d, tsv) = (stored_dic d', tsv')"
    using d'(1) by (simp add: sync_history_once_def Let_def tsv'_def)
  ultimately show ?thesis using m(1) set' by (intro exI [of _ d'] exI [of _ tsv'] conjI allI)
qed

end
