(* ===== verification/Sync_Repeat.thy ===== *)
theory Sync_Repeat
  imports Sync_Idle
begin

text \<open>
  The learning history over several synchronisations: what rounds without any use in between do to the
  numbers, and how the load in the background of \<open>UserHistoryStorage\<close> can undo an import.
\<close>

section \<open>Rounds without use\<close>

definition only_merged_fields :: "UserHistoryEntry list option \<Rightarrow> bool" where
  "only_merged_fields file \<longleftrightarrow>
     (\<forall>es. file = Some es \<longrightarrow> list_all (\<lambda>e. \<not> removed e \<and> next_entry_fps e = []) es)"

lemma double_power [simp]:
  "suggestion_freq ((double ^^ n) h) = 2 ^ n * suggestion_freq h" "shown_freq ((double ^^ n) h) = 2 ^ n * shown_freq h"
  "last_access_time ((double ^^ n) h) = last_access_time h" "hist_key ((double ^^ n) h) = hist_key h"
  "hist_value ((double ^^ n) h) = hist_value h"
  by (induction n) (simp_all add: double_def)

lemma map_option_double: "map_option double (map_option (double ^^ n) x) = map_option (double ^^ Suc n) x"
  by (cases x) simp_all

lemma rounds:
  assumes "uconv_ok uc" and "permutes hiter" and "in_sync uc he d tsv"
  shows "\<exists>d' tsv'. (sync_history_once uc he hiter ^^ n) (stored_dic d, tsv) = (stored_dic d', tsv') \<and>
    in_sync uc he d' tsv' \<and> (\<forall>k. hist_lookup uc tsv' k = map_option (double ^^ n) (hist_lookup uc tsv k)) \<and>
    (n > 0 \<longrightarrow> only_merged_fields (stored_dic d'))"
proof (induction n)
  case 0
  show ?case by (rule exI [of _ d], rule exI [of _ tsv]) (use assms(3) in \<open>simp add: option.map_ident\<close>)
next
  case (Suc n)
  then obtain d1 tsv1 where 1: "(sync_history_once uc he hiter ^^ n) (stored_dic d, tsv) = (stored_dic d1, tsv1)"
    "in_sync uc he d1 tsv1" "\<And>k. hist_lookup uc tsv1 k = map_option (double ^^ n) (hist_lookup uc tsv k)" by blast
  obtain d2 tsv2 where 2: "sync_history_once uc he hiter (stored_dic d1, tsv1) = (stored_dic d2, tsv2)"
    "in_sync uc he d2 tsv2" "\<And>k. hist_lookup uc tsv2 k = map_option double (hist_lookup uc tsv1 k)"
    "set d2 = set (new_pairs he (hist_events uc tsv2))"
    using sync_round [OF assms(1,2) 1(2)] by blast
  have "only_merged_fields (stored_dic d2)"
    using 2(4) by (auto simp: only_merged_fields_def stored_dic_def list_all_iff dest: equalityD1 [THEN subsetD])
  moreover have "hist_lookup uc tsv2 k = map_option (double ^^ Suc n) (hist_lookup uc tsv k)" for k
    unfolding 2(3) 1(3) by (rule map_option_double)
  moreover have "(sync_history_once uc he hiter ^^ Suc n) (stored_dic d, tsv) = (stored_dic d2, tsv2)"
    by (simp add: 1(1) 2(1))
  ultimately show ?case using 2(2) by blast
qed

lemma export_in_sync:
  assumes "uconv_ok uc" and "dic_ok he d" and "list_all hist_ok (shown d)"
  shows "in_sync uc he d (ExportHistoryTsv uc he (stored_dic d))"
proof -
  have e: "ExportHistoryTsv uc he (stored_dic d) = history_header @ unlines (map (history_line uc) (shown d))"
    using Load_stored_dic'(2) [OF assms(2)] by (simp add: comp_def case_prod_unfold)
  show ?thesis
    using assms(2,3) unfolding in_sync_def hist_lookup_def e hist_events_file [OF assms(1,3)] by simp
qed

lemma shown_lookup:
  assumes "in_sync uc he d tsv"
  shows "hist_lookup uc tsv k = Some h \<longleftrightarrow> (\<exists>p \<in> set d. HistEntry.truncate (snd p) = h \<and> entry_id (snd p) = k)"
proof -
  have "hist_of (shown d) k = Some h \<longleftrightarrow> h \<in> set (shown d) \<and> hist_id h = k"
    by (rule hist_of_distinct [OF dic_ok_ids [of he]]) (use assms in \<open>simp add: in_sync_def\<close>)
  moreover have "hist_of (shown d) k = hist_lookup uc tsv k" using assms by (simp add: in_sync_def)
  ultimately show ?thesis by (simp add: image_iff) (metis truncate_fields(1))
qed

lemma truncate_freqs [simp]:
  "suggestion_freq (HistEntry.truncate e) = suggestion_freq e" "shown_freq (HistEntry.truncate e) = shown_freq e"
  "last_access_time (HistEntry.truncate e) = last_access_time e"
  by (simp_all add: HistEntry.defs)

text \<open>C31: Synchronising is not idempotent: with nothing typed in between, and nobody else writing to the
  bundle, every round doubles the frequencies of every phrase, in the store and in the bundle, so that
  thirty-two rounds leave zero everywhere; and each entry comes back without the mark that it was removed
  and without its links to the following words, which the exchanged file does not carry.\<close>

theorem idle_sync_doubles:
  assumes "uconv_ok uc" and "permutes hiter" and "in_sync uc he d tsv"
  shows "\<exists>d' tsv'. (sync_history_once uc he hiter ^^ n) (stored_dic d, tsv) = (stored_dic d', tsv') \<and>
    (\<forall>p \<in> set d. \<exists>p' \<in> set d'. entry_id (snd p') = entry_id (snd p) \<and>
      suggestion_freq (snd p') = 2 ^ n * suggestion_freq (snd p) \<and> shown_freq (snd p') = 2 ^ n * shown_freq (snd p) \<and>
      last_access_time (snd p') = last_access_time (snd p)) \<and>
    (\<forall>k. hist_lookup uc tsv' k = map_option (double ^^ n) (hist_lookup uc tsv k)) \<and>
    (32 \<le> n \<longrightarrow> (\<forall>p' \<in> set d'. suggestion_freq (snd p') = 0 \<and> shown_freq (snd p') = 0)) \<and>
    (0 < n \<longrightarrow> only_merged_fields (stored_dic d'))"
proof -
  obtain d' tsv' where run: "(sync_history_once uc he hiter ^^ n) (stored_dic d, tsv) = (stored_dic d', tsv')"
    and sync: "in_sync uc he d' tsv'" and dbl: "\<And>k. hist_lookup uc tsv' k = map_option (double ^^ n) (hist_lookup uc tsv k)"
    and fields: "0 < n \<longrightarrow> only_merged_fields (stored_dic d')"
    using rounds [OF assms, of n] by blast
  have "\<exists>p' \<in> set d'. entry_id (snd p') = entry_id (snd p) \<and>
      suggestion_freq (snd p') = 2 ^ n * suggestion_freq (snd p) \<and> shown_freq (snd p') = 2 ^ n * shown_freq (snd p) \<and>
      last_access_time (snd p') = last_access_time (snd p)" if p: "p \<in> set d" for p
  proof -
    have "hist_lookup uc tsv' (entry_id (snd p)) = Some ((double ^^ n) (HistEntry.truncate (snd p)))"
      unfolding dbl using shown_lookup [OF assms(3)] p by auto
    then obtain p' where p': "p' \<in> set d'" "HistEntry.truncate (snd p') = (double ^^ n) (HistEntry.truncate (snd p))"
      "entry_id (snd p') = entry_id (snd p)" unfolding shown_lookup [OF sync] by blast
    from arg_cong [OF p'(2), of suggestion_freq] arg_cong [OF p'(2), of shown_freq] arg_cong [OF p'(2), of last_access_time]
    show ?thesis using p'(1,3) by (intro bexI [of _ p']) simp_all
  qed
  moreover have "suggestion_freq (snd p') = 0 \<and> shown_freq (snd p') = 0" if n: "32 \<le> n" and p': "p' \<in> set d'" for p'
  proof -
    have "hist_lookup uc tsv' (entry_id (snd p')) = Some (HistEntry.truncate (snd p'))"
      unfolding shown_lookup [OF sync] using p' by blast
    then obtain h where h: "HistEntry.truncate (snd p') = (double ^^ n) h" unfolding dbl by (metis map_option_eq_Some)
    have "(2 :: 32 word) ^ n = 0" using n by (simp add: exp_eq_zero_iff)
    then show ?thesis using arg_cong [OF h, of suggestion_freq] arg_cong [OF h, of shown_freq]
      by (simp only: double_power truncate_freqs) simp
  qed
  ultimately show ?thesis using run dbl fields by blast
qed

text \<open>A store of one phrase that was marked as removed, and a bundle made from it.\<close>

definition one_env :: HistEnv where
  "one_env = \<lparr>CityFingerprint = (\<lambda>s. of_nat (length s)), LegacyFingerprint32 = (\<lambda>s. of_nat (length s))\<rparr>"

definition removed_entry :: UserHistoryEntry where
  "removed_entry = (imported_entry \<lparr>hist_key = ''a'', hist_value = ''b'', suggestion_freq = 3, shown_freq = 1, last_access_time = 7\<rparr>)
     \<lparr>removed := True\<rparr>"

definition one_dic :: hist_dic where
  "one_dic = [(Fingerprint one_env removed_entry, removed_entry)]"

lemma one_dic_ok: "dic_ok one_env one_dic" "list_all hist_ok (shown one_dic)"
proof -
  have "IsValidUtf8 ''b''" by (simp add: IsValidUtf8.simps SplitFirstChar32_def byte_def)
  then show "dic_ok one_env one_dic"
    by (simp add: dic_ok_def one_dic_def entry_ok_def removed_entry_def kLruCacheSize_def imported_entry_def
        HistEntry.defs UserHistoryEntry.defs)
  show "list_all hist_ok (shown one_dic)"
    by (simp add: one_dic_def hist_ok_def removed_entry_def ascii_isspace_def byte_def imported_entry_def HistEntry.defs UserHistoryEntry.defs)
qed

theorem idle_sync_doubles_witness:
  "\<exists>d' tsv' p. (sync_history_once decimal_uconv one_env (\<lambda>m. m) ^^ 5)
       (stored_dic one_dic, ExportHistoryTsv decimal_uconv one_env (stored_dic one_dic)) = (stored_dic d', tsv') \<and>
     p \<in> set d' \<and> suggestion_freq (snd p) = 96 \<and> removed removed_entry \<and> only_merged_fields (stored_dic d')"
proof -
  have "\<exists>p \<in> set one_dic. suggestion_freq (snd p) = 3" by (simp add: one_dic_def removed_entry_def)
  moreover have "removed removed_entry" by (simp add: removed_entry_def)
  ultimately show ?thesis
    using idle_sync_doubles [OF decimal_uconv_ok permutes_id export_in_sync [OF decimal_uconv_ok one_dic_ok], of 5]
    by fastforce
qed

section \<open>The load in the background\<close>

lemma inserts_keep_file: "stored (fold (HistoryStore_Insert he) es s) = stored s"
  by (induction es arbitrary: s) (simp_all add: HistoryStore_Insert_def)

lemma stored_Load [simp]: "stored (snd (HistoryStore_Load he s)) = stored s"
  by (simp add: HistoryStore_Load_def split: option.split)

text \<open>C32: An import can be lost and reported as done. If the load that the constructor of the store starts
  in the background gets its turn behind the insertions, it throws away what was imported and
  marks the store as saved: \<open>ImportHistoryTsv\<close> returns success and the file is what it was, whatever the
  imported text holds.\<close>

theorem ImportHistoryTsv_race:
  assumes "length (List.map_filter (parse_history_line uc) (content_lines tsv)) \<le> n"
  shows "ImportHistoryTsv uc he (Some n) write_ok write_ok' tsv (Some es) = (OkStatus, Some es)"
proof -
  define t where "t = fold (HistoryStore_Insert he)
    (map imported_entry (List.map_filter (parse_history_line uc) (content_lines tsv)))
    (snd (HistoryStore_Load he (new_HistoryStore (Some es))))"
  have "stored t = Some es" by (simp add: t_def inserts_keep_file new_HistoryStore_def)
  then have l: "needs_sync (snd (HistoryStore_Load he t)) = False" "stored (snd (HistoryStore_Load he t)) = Some es"
    by (simp_all add: HistoryStore_Load_def)
  have "ImportHistoryTsv uc he (Some n) write_ok write_ok' tsv (Some es) =
    (let (saved, s) = HistoryStore_Save write_ok (snd (HistoryStore_Load he t))
     in (if saved then OkStatus else InternalError, stored (snd (HistoryStore_Save write_ok' s))))"
    using assms by (simp add: ImportHistoryTsv_def Let_def t_def)
  then show ?thesis using l by (simp add: HistoryStore_Save_def Let_def)
qed

theorem ImportHistoryTsv_race_witness:
  "\<exists>tsv. hist_events decimal_uconv tsv = [HistEntry.truncate removed_entry] \<and>
     ImportHistoryTsv decimal_uconv one_env (Some 1) True True tsv (Some []) = (OkStatus, Some [])"
proof -
  let ?tsv = "history_header @ unlines (map (history_line decimal_uconv) (shown one_dic))"
  have "hist_events decimal_uconv ?tsv = [HistEntry.truncate removed_entry]"
    unfolding hist_events_file [OF decimal_uconv_ok one_dic_ok(2)] by (simp add: one_dic_def)
  moreover from this have "length (List.map_filter (parse_history_line decimal_uconv) (content_lines ?tsv)) \<le> 1"
    unfolding hist_events_def [symmetric] by simp
  from ImportHistoryTsv_race [OF this] have
    "ImportHistoryTsv decimal_uconv one_env (Some 1) True True ?tsv (Some []) = (OkStatus, Some [])" .
  ultimately show ?thesis by blast
qed

section \<open>Words that look like comments\<close>

text \<open>The keys an import keeps never start with a number sign, because such lines are skipped as comments: the
  words whose reading does are deleted from every dictionary, although they were in the exported file.\<close>

lemma DictionaryLineSyncKey_number_sign:
  assumes "\<not> starts_with line ''#''" and "line \<noteq> []"
  shows "\<not> starts_with (DictionaryLineSyncKey line) ''#''"
proof (cases "length (StrSplit tab line) < 3")
  case False
  have f: "StrSplit tab line ! 0 = takeWhile (\<lambda>x. x \<noteq> tab) line"
    using StrSplit_hd [of tab line] by (simp add: hd_conv_nth)
  obtain c cs where line: "line = c # cs" using assms(2) by (cases line) auto
  have "c \<noteq> CHR ''#''" using assms(1) by (auto simp: line)
  moreover have "\<exists>rest. DictionaryLineSyncKey line = takeWhile (\<lambda>x. x \<noteq> tab) line @ tab # rest"
    using False by (simp add: DictionaryLineSyncKey_def Let_def DictionaryEntrySyncKey_def f)
  ultimately show ?thesis by (cases "c = tab") (auto simp: line)
qed (use assms in \<open>simp add: DictionaryLineSyncKey_def\<close>)

lemma keep_desired_drops_number_sign:
  assumes "starts_with (ud_key e) ''#''"
  shows "e \<notin> set (entries (keep_desired de (CollectDictionarySyncKeysFromTsv tsv) d))"
proof -
  have "starts_with (UdEntry_SyncKey de e) ''#''"
    using assms by (cases "ud_key e") (auto simp: UdEntry_SyncKey_def DictionaryEntrySyncKey_def)
  moreover have "\<not> starts_with k ''#''" if "k \<in> CollectDictionarySyncKeysFromTsv tsv" for k
    using that DictionaryLineSyncKey_number_sign by (auto simp: CollectDictionarySyncKeysFromTsv_def content_lines_def)
  ultimately show ?thesis by (auto simp: keep_desired_def)
qed

end
