(* ===== verification/Sync_Bundle.thy ===== *)
theory Sync_Bundle
  imports Sync_Merge
begin

text \<open>
  The file the devices exchange: a zip archive of the exported files (\<open>sync/sync_bundle.cc\<close>), encrypted
  with the sync key (\<open>sync/sync_crypto.cc\<close>). The functions of libsodium, and of the copy of the C library miniz
  that comes with the repository, are parameters; nothing is assumed of miniz.
\<close>

section \<open>The archive\<close>

text \<open>A \<open>flat_hash_map\<close> of files is an association list; \<open>bundle_iter\<close> is the order it is iterated in.\<close>

type_synonym bundle_files = "(bytes \<times> bytes) list"

abbreviation kManifestFile :: bytes where "kManifestFile \<equiv> ''manifest.txt''"
abbreviation kDictionaryFile :: bytes where "kDictionaryFile \<equiv> ''dictionary.tsv''"
abbreviation kDictionaryTombstonesFile :: bytes where "kDictionaryTombstonesFile \<equiv> ''dictionary_tombstones.tsv''"
abbreviation kHistoryFile :: bytes where "kHistoryFile \<equiv> ''history.tsv''"

text \<open>What reading an item of an archive yields, and miniz: whether a writer can be made and a file added,
  the bytes of an archive, and the items of a text that is one.\<close>

datatype zip_item = Zip_StatFails | Zip_Directory | Zip_ExtractFails bytes | Zip_File bytes bytes

record Miniz =
  mz_zip_writer_init_heap :: bool
  mz_zip_writer_add_mem :: "bytes \<Rightarrow> bytes \<Rightarrow> bool"
  mz_zip_writer_finalize_heap_archive :: "bundle_files \<Rightarrow> bytes option"
  mz_zip_reader :: "bytes \<Rightarrow> zip_item list option"

text \<open>miniz is handed the name as a C string, so it sees the part before the first NUL.\<close>

definition c_str :: "bytes \<Rightarrow> bytes" where
  "c_str s = takeWhile (\<lambda>c. c \<noteq> CHR 0x00) s"

definition PackBundle :: "Miniz \<Rightarrow> (bundle_files \<Rightarrow> bundle_files) \<Rightarrow> bundle_files \<Rightarrow> status + bytes" where
  "PackBundle mz bundle_iter files =
     (if \<not> mz_zip_writer_init_heap mz then Inl InternalError
      else let items = map (\<lambda>(name, content). (c_str name, content)) (bundle_iter files)
        in if \<not> list_all (\<lambda>(name, content). mz_zip_writer_add_mem mz name content) items then Inl InternalError
           else (case mz_zip_writer_finalize_heap_archive mz items of
                   None \<Rightarrow> Inl InternalError | Some z \<Rightarrow> Inr z))"

fun unpack_items :: "zip_item list \<Rightarrow> bundle_files \<Rightarrow> status + bundle_files" where
  "unpack_items [] files = Inr files"
| "unpack_items (Zip_StatFails # items) files = Inl DataLossError"
| "unpack_items (Zip_Directory # items) files = unpack_items items files"
| "unpack_items (Zip_ExtractFails _ # items) files = Inl DataLossError"
| "unpack_items (Zip_File name content # items) files = unpack_items items (AList.update name content files)"

definition UnpackBundle :: "Miniz \<Rightarrow> bytes \<Rightarrow> status + bundle_files" where
  "UnpackBundle mz zip_data =
     (case mz_zip_reader mz zip_data of
        None \<Rightarrow> Inl InvalidArgumentError | Some items \<Rightarrow> unpack_items items [])"

section \<open>Encryption\<close>

text \<open>
  libsodium: whether it starts, the key derived from a passphrase and a salt, whether a stream can be
  opened with a header, the encryption of one final message, and its decryption with the tag found.
\<close>

record Sodium =
  sodium_init :: bool
  crypto_pwhash :: "bytes \<Rightarrow> bytes \<Rightarrow> bytes option"
  stream_push :: "bytes \<Rightarrow> bytes \<Rightarrow> bytes \<Rightarrow> bytes"
  stream_init_pull :: "bytes \<Rightarrow> bytes \<Rightarrow> bool"
  stream_pull :: "bytes \<Rightarrow> bytes \<Rightarrow> bytes \<Rightarrow> (bytes \<times> bool) option"

definition kMagic :: bytes where "kMagic = ''MMZENC1''"
definition kMagicSize :: nat where "kMagicSize = 7"
definition crypto_pwhash_SALTBYTES :: nat where "crypto_pwhash_SALTBYTES = 16"
definition HEADERBYTES :: nat where "HEADERBYTES = 24"

text \<open>\<open>salt\<close> and \<open>header\<close> are the random bytes drawn by \<open>randombytes_buf\<close> and \<open>init_push\<close>.\<close>

definition EncryptWithPassphrase :: "Sodium \<Rightarrow> bytes \<Rightarrow> bytes \<Rightarrow> bytes \<Rightarrow> bytes \<Rightarrow> status + bytes" where
  "EncryptWithPassphrase so salt header plaintext passphrase =
     (if \<not> sodium_init so then Inl InternalError
      else if passphrase = [] then Inl InvalidArgumentError
      else (case crypto_pwhash so passphrase salt of
              None \<Rightarrow> Inl InternalError
            | Some key \<Rightarrow> Inr (kMagic @ salt @ header @ stream_push so key header plaintext)))"

definition DecryptWithPassphrase :: "Sodium \<Rightarrow> bytes \<Rightarrow> bytes \<Rightarrow> status + bytes" where
  "DecryptWithPassphrase so ciphertext passphrase =
     (if \<not> sodium_init so then Inl InternalError
      else if passphrase = [] then Inl InvalidArgumentError
      else let header_offset = kMagicSize + crypto_pwhash_SALTBYTES + HEADERBYTES
        in if length ciphertext < header_offset then Inl InvalidArgumentError
           else if take kMagicSize ciphertext \<noteq> kMagic then Inl InvalidArgumentError
           else let salt = take crypto_pwhash_SALTBYTES (drop kMagicSize ciphertext);
                    header = take HEADERBYTES (drop (kMagicSize + crypto_pwhash_SALTBYTES) ciphertext);
                    data = drop header_offset ciphertext
             in (case crypto_pwhash so passphrase salt of
                   None \<Rightarrow> Inl InternalError
                 | Some key \<Rightarrow>
                     if \<not> stream_init_pull so key header then Inl InvalidArgumentError
                     else (case stream_pull so key header data of
                             None \<Rightarrow> Inl InvalidArgumentError
                           | Some (plaintext, final) \<Rightarrow> if final then Inr plaintext else Inl DataLossError)))"

text \<open>What libsodium promises: a pushed message is pulled under the key and header it was pushed under, and
  only then.\<close>

definition sodium_decrypts :: "Sodium \<Rightarrow> bool" where
  "sodium_decrypts so \<longleftrightarrow>
     (\<forall>key header m. stream_init_pull so key header \<and> stream_pull so key header (stream_push so key header m) = Some (m, True))"

definition sodium_authenticates :: "Sodium \<Rightarrow> bool" where
  "sodium_authenticates so \<longleftrightarrow>
     (\<forall>key key' header m. key \<noteq> key' \<longrightarrow> stream_pull so key' header (stream_push so key header m) = None)"

lemmas crypto_sizes = kMagic_def kMagicSize_def crypto_pwhash_SALTBYTES_def HEADERBYTES_def

lemma Decrypt_Encrypt:
  assumes "length salt = crypto_pwhash_SALTBYTES" and "length header = HEADERBYTES"
    and "EncryptWithPassphrase so salt header m p = Inr c"
  shows "DecryptWithPassphrase so c p' =
    (if p' = [] then Inl InvalidArgumentError
     else case (crypto_pwhash so p salt, crypto_pwhash so p' salt) of
       (Some key, Some key') \<Rightarrow>
         if \<not> stream_init_pull so key' header then Inl InvalidArgumentError
         else (case stream_pull so key' header (stream_push so key header m) of
            None \<Rightarrow> Inl InvalidArgumentError
          | Some (plaintext, final) \<Rightarrow> if final then Inr plaintext else Inl DataLossError)
     | _ \<Rightarrow> Inl InternalError)"
proof -
  from assms(3) obtain key where key: "sodium_init so" "crypto_pwhash so p salt = Some key"
    and c: "c = kMagic @ salt @ header @ stream_push so key header m"
    by (auto simp: EncryptWithPassphrase_def split: if_splits option.splits)
  have "take kMagicSize c = kMagic" "take crypto_pwhash_SALTBYTES (drop kMagicSize c) = salt"
    "take HEADERBYTES (drop (kMagicSize + crypto_pwhash_SALTBYTES) c) = header"
    "drop (kMagicSize + crypto_pwhash_SALTBYTES + HEADERBYTES) c = stream_push so key header m"
    "\<not> length c < kMagicSize + crypto_pwhash_SALTBYTES + HEADERBYTES"
    using assms(1,2) by (simp_all add: c crypto_sizes)
  then show ?thesis by (simp add: DecryptWithPassphrase_def Let_def key split: option.split)
qed

text \<open>C23: The encryption of the bundle is reversible under its key only: what was encrypted with a key is a
  file of the magic bytes, the salt, the header and the stream, which decrypts to the same text under that
  key, to an error under a passphrase that gives another key, and a file that is too short or does not start
  with the magic bytes is never decrypted at all. (libsodium is assumed to open a stream under the key and
  header it was made with, and under no other key.)\<close>

theorem encryption_roundtrip:
  assumes "sodium_decrypts so" and "sodium_authenticates so" and "length salt = crypto_pwhash_SALTBYTES"
    and "length header = HEADERBYTES" and "EncryptWithPassphrase so salt header m p = Inr c"
  shows "DecryptWithPassphrase so c p = Inr m \<and>
    (\<exists>stream. c = kMagic @ salt @ header @ stream) \<and>
    (crypto_pwhash so p' salt = crypto_pwhash so p salt \<or>
       DecryptWithPassphrase so c p' = Inl (if p' \<noteq> [] \<and> crypto_pwhash so p' salt = None
         then InternalError else InvalidArgumentError)) \<and>
    (take kMagicSize bad = kMagic \<and> length bad \<ge> kMagicSize + crypto_pwhash_SALTBYTES + HEADERBYTES \<or>
       DecryptWithPassphrase so bad p = Inl InvalidArgumentError)"
proof (intro conjI)
  from assms(5) obtain key where key: "sodium_init so" "p \<noteq> []" "crypto_pwhash so p salt = Some key"
    and c: "c = kMagic @ salt @ header @ stream_push so key header m"
    by (auto simp: EncryptWithPassphrase_def split: if_splits option.splits)
  note dec = Decrypt_Encrypt [OF assms(3,4,5)]
  show "DecryptWithPassphrase so c p = Inr m" using dec [of p] key assms(1) by (simp add: sodium_decrypts_def)
  show "\<exists>stream. c = kMagic @ salt @ header @ stream" using c by blast
  show "crypto_pwhash so p' salt = crypto_pwhash so p salt \<or>
      DecryptWithPassphrase so c p' = Inl (if p' \<noteq> [] \<and> crypto_pwhash so p' salt = None
        then InternalError else InvalidArgumentError)"
  proof (cases "crypto_pwhash so p' salt")
    case (Some key')
    have "key' \<noteq> key \<Longrightarrow> stream_pull so key' header (stream_push so key header m) = None"
      using assms(2) by (auto simp: sodium_authenticates_def)
    then show ?thesis using dec [of p'] key Some by (cases "key' = key") auto
  qed (use dec [of p'] key in auto)
  show "take kMagicSize bad = kMagic \<and> length bad \<ge> kMagicSize + crypto_pwhash_SALTBYTES + HEADERBYTES \<or>
      DecryptWithPassphrase so bad p = Inl InvalidArgumentError"
    using key by (auto simp: DecryptWithPassphrase_def Let_def)
qed

text \<open>A cipher that keeps these promises, and an archive format for examples.\<close>

definition toy_miniz :: Miniz where
  "toy_miniz =
     \<lparr>mz_zip_writer_init_heap = True, mz_zip_writer_add_mem = (\<lambda>_ _. True),
      mz_zip_writer_finalize_heap_archive = (\<lambda>files. Some (concat (map snd files))), mz_zip_reader = (\<lambda>_. None)\<rparr>"

definition toy_push :: "bytes \<Rightarrow> bytes" where
  "toy_push key = replicate (length key) (CHR ''1'') @ CHR ''0'' # key"

definition toy_sodium :: Sodium where
  "toy_sodium =
     \<lparr>sodium_init = True, crypto_pwhash = (\<lambda>p salt. Some (p @ salt)), stream_push = (\<lambda>key header m. toy_push key @ m),
      stream_init_pull = (\<lambda>_ _. True),
      stream_pull = (\<lambda>key header c. if starts_with c (toy_push key) then Some (drop (length (toy_push key)) c, True) else None)\<rparr>"

lemma toy_push_inject: "starts_with (toy_push key @ m) (toy_push key') \<Longrightarrow> key = key'"
proof -
  assume "starts_with (toy_push key @ m) (toy_push key')"
  then obtain t where t: "toy_push key @ m = toy_push key' @ t" by (auto simp: starts_with_iff)
  from arg_cong [OF t, of "takeWhile (\<lambda>c. c = CHR ''1'')"] have "length key = length key'"
    by (simp add: toy_push_def takeWhile_append replicate_eq_replicate)
  with t show ?thesis by (simp add: toy_push_def)
qed

lemma toy_ok: "sodium_decrypts toy_sodium" "sodium_authenticates toy_sodium"
  by (auto simp: sodium_decrypts_def sodium_authenticates_def toy_sodium_def dest: toy_push_inject)

theorem encryption_roundtrip_witness:
  "\<exists>c. EncryptWithPassphrase toy_sodium (replicate 16 (CHR ''s'')) (replicate 24 (CHR ''h'')) ''zip'' ''key'' = Inr c \<and>
     DecryptWithPassphrase toy_sodium c ''key'' = Inr ''zip'' \<and>
     DecryptWithPassphrase toy_sodium c ''other'' = Inl InvalidArgumentError"
proof -
  let ?salt = "replicate 16 (CHR ''s'')" and ?header = "replicate 24 (CHR ''h'')"
  have len: "length ?salt = crypto_pwhash_SALTBYTES" "length ?header = HEADERBYTES" by (simp_all add: crypto_sizes)
  obtain c where c: "EncryptWithPassphrase toy_sodium ?salt ?header ''zip'' ''key'' = Inr c"
    by (simp add: EncryptWithPassphrase_def toy_sodium_def)
  have "crypto_pwhash toy_sodium ''other'' ?salt \<noteq> crypto_pwhash toy_sodium ''key'' ?salt"
    "crypto_pwhash toy_sodium ''other'' ?salt \<noteq> None" by (simp_all add: toy_sodium_def)
  with encryption_roundtrip [OF toy_ok len c, of "''other''"] c show ?thesis by auto
qed

end
