(* ===== verification/Sync_Perform.thy ===== *)
theory Sync_Perform
  imports Sync_Idle Sync_Bundle
begin

text \<open>
  \<open>PerformSync\<close> (\<open>sync/sync_service.cc\<close>) as a whole: export, merge with the bundle, upload, import, with
  every early return. What the machine contributes --- random bytes, the clock, and how each file
  operation ends --- is the record \<open>Inputs\<close>.
\<close>

section \<open>State and inputs\<close>

text \<open>The device: its profile directory with the bundle, the user dictionary and the history file.\<close>

record Device =
  profile :: Profile
  dict_db :: DbFile
  hist_db :: "UserHistoryEntry list option"

record SyncEnv =
  e_uc :: UConv
  e_iter :: iter
  e_titer :: tombstone_iter
  e_hiter :: history_iter
  e_biter :: "bundle_files \<Rightarrow> bundle_files"
  e_mz :: Miniz
  e_so :: Sodium
  e_de :: DictEnv
  e_he :: HistEnv
  ToString :: "status \<Rightarrow> bytes"

record Inputs =
  in_now :: int
  in_gen :: "64 word list"
  in_time1 :: bytes
  in_time2 :: bytes
  in_rnd :: bytes
  in_incognito :: bool
  in_salt :: bytes
  in_header :: bytes
  in_dict_locks :: bool
  in_dict_save :: SaveOutcome
  in_background :: "nat option"
  in_hist_write :: bool
  in_hist_write' :: bool
  in_bundle_opens :: bool
  in_bundle_write :: FsOutcome
  in_tombs_opens :: bool
  in_tombs_write :: bool

record PerformSyncOptions =
  opt_config :: UserSyncConfig
  opt_passphrase :: bytes
  opt_direction :: int
  opt_force :: bool

record UserSyncReport =
  success :: bool
  report_status :: bytes
  dictionary_added :: nat
  dictionary_skipped :: nat
  history_merged :: nat
  error_message :: bytes

definition empty_report :: UserSyncReport where
  "empty_report = \<lparr>success = False, report_status = [], dictionary_added = 0, dictionary_skipped = 0,
     history_merged = 0, error_message = []\<rparr>"

definition failed :: "UserSyncReport \<Rightarrow> bytes \<Rightarrow> UserSyncReport" where
  "failed r msg = r\<lparr>success := False, error_message := msg\<rparr>"

text \<open>The progress callback writes the status file.\<close>

type_synonym notify = "bytes \<Rightarrow> bytes \<Rightarrow> bytes \<Rightarrow> Device \<Rightarrow> Device"

definition ellipsis :: bytes where "ellipsis = map char_of [0xE2, 0x80, 0xA6 :: nat]"

definition notify_export :: "notify \<Rightarrow> Device \<Rightarrow> Device" where
  "notify_export notify = notify ''export'' ''0.4'' (''Exporting local data'' @ ellipsis)"

definition notify_download :: "notify \<Rightarrow> Device \<Rightarrow> Device" where
  "notify_download notify = notify ''download'' ''0.5'' (''Reading remote bundle'' @ ellipsis)"

definition notify_upload :: "notify \<Rightarrow> Device \<Rightarrow> Device" where
  "notify_upload notify = notify ''upload'' ''0.7'' (''Writing sync bundle'' @ ellipsis)"

definition notify_import :: "notify \<Rightarrow> Device \<Rightarrow> Device" where
  "notify_import notify = notify ''import'' ''0.8'' (''Importing merged data'' @ ellipsis)"

section \<open>Export\<close>

definition BuildManifest :: "UserSyncConfig \<Rightarrow> bytes \<Rightarrow> bytes" where
  "BuildManifest config time =
     ''version=1'' @ [newline] @ ''device_id='' @ device_id config @ [newline] @ ''updated_at='' @ time @ [newline]"

definition LoadLocalDictionaryTombstones :: "UConv \<Rightarrow> bool \<Rightarrow> Profile \<Rightarrow> status + DictionaryTombstone list" where
  "LoadLocalDictionaryTombstones uc opens p =
     (case tombstones_file p of
        None \<Rightarrow> Inr []
      | Some data \<Rightarrow> if opens then Inr (ParseDictionaryTombstonesTsv uc data) else Inl InternalError)"

definition SaveLocalDictionaryTombstones :: "UConv \<Rightarrow> bool \<Rightarrow> DictionaryTombstone list \<Rightarrow> Profile \<Rightarrow> Profile" where
  "SaveLocalDictionaryTombstones uc write ts p =
     (if write then p\<lparr>tombstones_file := Some (SerializeDictionaryTombstonesTsv uc ts)\<rparr> else p)"

text \<open>The dictionary tool records the words it removes.\<close>

definition AppendLocalDictionaryTombstones ::
  "UConv \<Rightarrow> tombstone_iter \<Rightarrow> bool \<Rightarrow> bool \<Rightarrow> DictionaryTombstone list \<Rightarrow> Profile \<Rightarrow> status \<times> Profile" where
  "AppendLocalDictionaryTombstones uc titer opens write additions p =
     (case LoadLocalDictionaryTombstones uc opens p of
        Inl st \<Rightarrow> (st, p)
      | Inr existing \<Rightarrow>
          (if write then OkStatus else UnknownError,
           SaveLocalDictionaryTombstones uc write (MergeDictionaryTombstones titer existing additions) p))"

definition removal_of :: "DictEnv \<Rightarrow> bytes \<Rightarrow> 64 word \<Rightarrow> UdEntry \<Rightarrow> DictionaryTombstone" where
  "removal_of de dev deleted_at e =
     \<lparr>reading = ud_key e, surface = ud_value e, pos = GetStringPosType de (get_pos e), locale_ts = ud_locale e,
      deleted_at_unix = deleted_at, tombstone_device = dev\<rparr>"

definition RecordDictionaryEntryRemovals ::
  "UConv \<Rightarrow> tombstone_iter \<Rightarrow> DictEnv \<Rightarrow> bool \<Rightarrow> bool \<Rightarrow> UserDictionary \<Rightarrow> UserDictionary \<Rightarrow> bytes \<Rightarrow> 64 word \<Rightarrow>
     Profile \<Rightarrow> status \<times> Profile" where
  "RecordDictionaryEntryRemovals uc titer de opens write previous current_dict dev deleted_at p =
     (let current_keys = UdEntry_SyncKey de ` set (entries current_dict);
          removals = map (removal_of de dev deleted_at)
            (filter (\<lambda>e. UdEntry_SyncKey de e \<notin> current_keys) (entries previous))
      in if removals = [] then (OkStatus, p)
         else AppendLocalDictionaryTombstones uc titer opens write removals p)"

definition export_local ::
  "SyncEnv \<Rightarrow> Inputs \<Rightarrow> UserSyncConfig \<Rightarrow> Device \<Rightarrow> (UserSyncReport + bundle_files) option" where
  "export_local env inp config d =
     (let manifest = [(kManifestFile, BuildManifest config (in_time1 inp))];
          with_history = (\<lambda>files.
            if sync_history config \<and> \<not> in_incognito inp
            then AList.update kHistoryFile (ExportHistoryTsv (e_uc env) (e_he env) (hist_db d)) files else files)
      in if \<not> sync_dictionary config then Some (Inr (with_history manifest))
         else Option.bind (ExportDictionaryTsv (e_de env) (in_gen inp) (dict_db d)) (\<lambda>dict.
           Some (case LoadLocalDictionaryTombstones (e_uc env) (in_tombs_opens inp) (profile d) of
                   Inl st \<Rightarrow> Inl (failed empty_report (ToString env st))
                 | Inr tombs \<Rightarrow>
                     Inr (with_history
                       (AList.update kDictionaryTombstonesFile (ExportDictionaryTombstonesTsv (e_uc env) tombs dict)
                         (AList.update kDictionaryFile dict manifest))))))"

section \<open>Merge\<close>

definition file_or :: "bundle_files \<Rightarrow> bytes \<Rightarrow> bytes \<Rightarrow> bytes" where
  "file_or files name otherwise = (case map_of files name of None \<Rightarrow> otherwise | Some c \<Rightarrow> c)"

definition merge_dictionary_files ::
  "SyncEnv \<Rightarrow> Inputs \<Rightarrow> UserSyncConfig \<Rightarrow> bundle_files \<Rightarrow> bundle_files \<Rightarrow> bundle_files \<times> UserSyncReport \<times> Device \<Rightarrow>
     bundle_files \<times> UserSyncReport \<times> Device" where
  "merge_dictionary_files env inp config local_files remote_files = (\<lambda>(merged, report, d).
     (case MergeDictionaryWithTombstones (e_iter env) (e_titer env) (in_now inp)
             (file_or remote_files kDictionaryFile dictionary_header)
             (file_or local_files kDictionaryFile dictionary_header)
             (ParseDictionaryTombstonesTsv (e_uc env)
               (file_or remote_files kDictionaryTombstonesFile kDictionaryTombstonesHeader))
             (ParseDictionaryTombstonesTsv (e_uc env)
               (file_or local_files kDictionaryTombstonesFile kDictionaryTombstonesHeader))
             (device_id config) of
        (merged_dict, merged_tombstones, dict_stats, tomb_stats) \<Rightarrow>
          (AList.update kDictionaryTombstonesFile (SerializeDictionaryTombstonesTsv (e_uc env) merged_tombstones)
             (AList.update kDictionaryFile merged_dict merged),
           report\<lparr>dictionary_added := added dict_stats, dictionary_skipped := skipped dict_stats\<rparr>,
           d\<lparr>profile := SaveLocalDictionaryTombstones (e_uc env) (in_tombs_write inp) merged_tombstones (profile d)\<rparr>)))"

definition merge_history_files ::
  "SyncEnv \<Rightarrow> bundle_files \<Rightarrow> bundle_files \<Rightarrow> bundle_files \<times> UserSyncReport \<times> Device \<Rightarrow>
     bundle_files \<times> UserSyncReport \<times> Device" where
  "merge_history_files env local_files remote_files = (\<lambda>(merged, report, d).
     (case MergeHistoryTsv (e_uc env) (e_hiter env)
             (file_or remote_files kHistoryFile history_header) (file_or local_files kHistoryFile history_header) of
        (merged_hist, n) \<Rightarrow> (AList.update kHistoryFile merged_hist merged, report\<lparr>history_merged := n\<rparr>, d)))"

definition read_remote :: "SyncEnv \<Rightarrow> Inputs \<Rightarrow> PerformSyncOptions \<Rightarrow> Device \<Rightarrow> (status + bundle_files) option" where
  "read_remote env inp opt d =
     (case (if in_bundle_opens inp then sync_bundle (profile d) else None) of
        None \<Rightarrow> None
      | Some remote_encrypted \<Rightarrow>
          Some (case DecryptWithPassphrase (e_so env) remote_encrypted (opt_passphrase opt) of
                  Inl st \<Rightarrow> Inl st
                | Inr remote_zip \<Rightarrow> UnpackBundle (e_mz env) remote_zip))"

definition merge_remote ::
  "SyncEnv \<Rightarrow> Inputs \<Rightarrow> notify \<Rightarrow> PerformSyncOptions \<Rightarrow> UserSyncConfig \<Rightarrow> bundle_files \<Rightarrow> Device \<Rightarrow>
     (UserSyncReport + bundle_files \<times> UserSyncReport) \<times> Device" where
  "merge_remote env inp notify opt config local_files d =
     (if opt_direction opt = UPLOAD then (Inr (local_files, empty_report), d)
      else let d = notify_download notify d
        in (case read_remote env inp opt d of
              None \<Rightarrow>
                if \<not> opt_force opt \<and> opt_direction opt = DOWNLOAD
                then (Inl (failed empty_report ''Remote sync file not found''), d)
                else (Inr (local_files, empty_report), d)
            | Some (Inl st) \<Rightarrow> (Inl (failed empty_report (ToString env st)), d)
            | Some (Inr remote_files) \<Rightarrow>
                let mrd = (local_files, empty_report, d);
                    mrd = (if sync_dictionary config
                           then merge_dictionary_files env inp config local_files remote_files mrd else mrd);
                    mrd = (if sync_history config then merge_history_files env local_files remote_files mrd else mrd)
                in (case mrd of (merged, report, d) \<Rightarrow>
                      (Inr (AList.update kManifestFile (BuildManifest config (in_time2 inp)) merged, report), d))))"

section \<open>Upload and import\<close>

definition upload ::
  "SyncEnv \<Rightarrow> Inputs \<Rightarrow> notify \<Rightarrow> PerformSyncOptions \<Rightarrow> bundle_files \<Rightarrow> Device \<Rightarrow> status \<times> Device" where
  "upload env inp notify opt merged d =
     (if opt_direction opt = DOWNLOAD then (OkStatus, d)
      else let d = notify_upload notify d
        in (case PackBundle (e_mz env) (e_biter env) merged of
              Inl st \<Rightarrow> (st, d)
            | Inr archive \<Rightarrow>
                (case EncryptWithPassphrase (e_so env) (in_salt inp) (in_header inp) archive (opt_passphrase opt) of
                   Inl st \<Rightarrow> (st, d)
                 | Inr encrypted \<Rightarrow>
                     (case write_file (in_bundle_write inp) (\<lambda>s p. p\<lparr>sync_bundle := Some s\<rparr>) encrypted (profile d) of
                        (st, p) \<Rightarrow> (st, d\<lparr>profile := p\<rparr>)))))"

definition import_history ::
  "SyncEnv \<Rightarrow> Inputs \<Rightarrow> UserSyncConfig \<Rightarrow> bundle_files \<Rightarrow> Device \<Rightarrow> status \<times> Device" where
  "import_history env inp config merged d =
     (case (sync_history config, map_of merged kHistoryFile) of
        (True, Some tsv) \<Rightarrow>
          (case ImportHistoryTsv (e_uc env) (e_he env) (in_background inp) (in_hist_write inp) (in_hist_write' inp)
                  tsv (hist_db d) of
             (st, h) \<Rightarrow> (st, d\<lparr>hist_db := h\<rparr>))
      | _ \<Rightarrow> (OkStatus, d))"

definition import_merged ::
  "SyncEnv \<Rightarrow> Inputs \<Rightarrow> notify \<Rightarrow> PerformSyncOptions \<Rightarrow> UserSyncConfig \<Rightarrow> bundle_files \<Rightarrow> Device \<Rightarrow> (status \<times> Device) option" where
  "import_merged env inp notify opt config merged d =
     (if opt_direction opt = UPLOAD then Some (OkStatus, d)
      else let d = notify_import notify d
        in (case (sync_dictionary config, map_of merged kDictionaryFile) of
              (True, Some tsv) \<Rightarrow>
                map_option (\<lambda>(st, db).
                  if st \<noteq> OkStatus then (st, d\<lparr>dict_db := db\<rparr>)
                  else import_history env inp config merged (d\<lparr>dict_db := db\<rparr>))
                (ImportDictionaryTsv (e_de env) (in_gen inp) (in_dict_locks inp) (in_dict_save inp) tsv (dict_db d))
            | _ \<Rightarrow> Some (import_history env inp config merged d)))"

text \<open>Behind the checks; \<open>None\<close> only if the random numbers for the dictionaries run out.\<close>

definition sync_data ::
  "SyncEnv \<Rightarrow> Inputs \<Rightarrow> notify \<Rightarrow> PerformSyncOptions \<Rightarrow> UserSyncConfig \<Rightarrow> Device \<Rightarrow> (UserSyncReport \<times> Device) option" where
  "sync_data env inp notify opt config d =
     Option.bind (export_local env inp config d) (\<lambda>r.
       case r of
         Inl report \<Rightarrow> Some (report, d)
       | Inr local_files \<Rightarrow>
           (case merge_remote env inp notify opt config local_files d of
              (Inl report, d) \<Rightarrow> Some (report, d)
            | (Inr (merged, report), d) \<Rightarrow>
                (case upload env inp notify opt merged d of (st, d) \<Rightarrow>
                   if st \<noteq> OkStatus then Some (failed report (ToString env st), d)
                   else map_option (\<lambda>(st, d).
                          if st \<noteq> OkStatus then (failed report (ToString env st), d)
                          else (report\<lparr>success := True, report_status := ''OK''\<rparr>, d))
                        (import_merged env inp notify opt config merged d))))"

definition PerformSync ::
  "SyncEnv \<Rightarrow> Inputs \<Rightarrow> notify \<Rightarrow> PerformSyncOptions \<Rightarrow> Device \<Rightarrow> (UserSyncReport \<times> Device) option" where
  "PerformSync env inp notify opt d =
     (if \<not> enabled (opt_config opt) then Some (failed empty_report ''Sync is disabled'', d)
      else if sync_file_path (opt_config opt) = [] then Some (failed empty_report ''Sync file path is not set'', d)
      else if opt_passphrase opt = [] then Some (failed empty_report ''Sync key is not set'', d)
      else sync_data env inp notify opt (EnsureDeviceId (in_rnd inp) (opt_config opt))
             (notify_export notify d))"

end
