(* ===== verification/Sync_Facts.thy ===== *)
theory Sync_Facts
  imports Sync_Perform User_Dict_Import
begin

text \<open>
  What one synchronisation guarantees: the order of the writes, the state a failure leaves, what another
  device reads, and the effect of repeated synchronisation on the learning history.
\<close>

section \<open>The stages\<close>

text \<open>Writing the progress leaves everything but the status file alone.\<close>

definition data_of :: "Device \<Rightarrow> bytes option \<times> bytes option \<times> DbFile \<times> UserHistoryEntry list option" where
  "data_of d = (sync_bundle (profile d), tombstones_file (profile d), dict_db d, hist_db d)"

definition quiet :: "notify \<Rightarrow> bool" where
  "quiet notify \<longleftrightarrow> (\<forall>phase p msg d. data_of (notify phase p msg d) = data_of d)"

lemma quietD:
  assumes "quiet notify"
  shows "data_of (notify_export notify d) = data_of d" "data_of (notify_download notify d) = data_of d"
    "data_of (notify_upload notify d) = data_of d" "data_of (notify_import notify d) = data_of d"
  using assms by (simp_all add: quiet_def notify_export_def notify_download_def notify_upload_def notify_import_def)

lemma data_ofD:
  assumes "data_of d = data_of d'"
  shows "sync_bundle (profile d) = sync_bundle (profile d')" "tombstones_file (profile d) = tombstones_file (profile d')"
    "dict_db d = dict_db d'" "hist_db d = hist_db d'"
  using assms by (simp_all add: data_of_def)

text \<open>The bundle, the dictionary and the history, which the stages may change.\<close>

abbreviation same_bundle :: "Device \<Rightarrow> Device \<Rightarrow> bool" where
  "same_bundle d d' \<equiv> sync_bundle (profile d') = sync_bundle (profile d)"

abbreviation same_local :: "Device \<Rightarrow> Device \<Rightarrow> bool" where
  "same_local d d' \<equiv> dict_db d' = dict_db d \<and> hist_db d' = hist_db d"

lemma merge_files_same:
  "merge_dictionary_files env inp config lf rf (m, r, d) = (m', r', d') \<Longrightarrow> same_bundle d d' \<and> same_local d d'"
  "merge_history_files env lf rf (m, r, d) = (m', r', d') \<Longrightarrow> d' = d"
  by (auto simp: merge_dictionary_files_def merge_history_files_def SaveLocalDictionaryTombstones_def
      split: prod.splits if_splits)

lemma merge_remote_same:
  assumes "quiet notify" and run: "merge_remote env inp notify opt config local_files d = (r, d')"
  shows "same_bundle d d' \<and> same_local d d'"
proof (cases "opt_direction opt = UPLOAD")
  case False
  define d1 where "d1 = notify_download notify d"
  have d1: "same_bundle d d1" "same_local d d1" using data_ofD [OF quietD(2) [OF assms(1)]] by (simp_all add: d1_def)
  note run = run [unfolded merge_remote_def if_not_P [OF False] Let_def d1_def [symmetric]]
  show ?thesis
  proof (cases "read_remote env inp opt d1")
    case None
    then show ?thesis using run d1 by (auto split: if_splits)
  next
    case (Some x)
    show ?thesis
    proof (cases x)
      case (Inl st)
      then show ?thesis using run d1 Some by simp
    next
      case (Inr remote_files)
      obtain m2 r2 d2 where 2: "(if sync_dictionary config
          then merge_dictionary_files env inp config local_files remote_files (local_files, empty_report, d1)
          else (local_files, empty_report, d1)) = (m2, r2, d2)" by (metis prod_cases3)
      obtain m3 r3 d3 where 3: "(if sync_history config then merge_history_files env local_files remote_files (m2, r2, d2)
          else (m2, r2, d2)) = (m3, r3, d3)" by (metis prod_cases3)
      have "same_bundle d1 d2" "same_local d1 d2" using 2 merge_files_same(1) by (auto split: if_splits)
      moreover have "d3 = d2" using 3 merge_files_same(2) by (auto split: if_splits)
      moreover have "d' = d3" using run unfolding Some Inr option.case sum.case 2 3 by simp
      ultimately show ?thesis using d1 by simp
    qed
  qed
qed (use run in \<open>simp add: merge_remote_def\<close>)

text \<open>
  The write of the bundle is not checked: when it falls short, the file that is renamed over the bundle holds
  a beginning of it only. \<open>is_bundle\<close> says that a file is what the write left of an encrypted bundle.
\<close>

definition stored :: "FsOutcome \<Rightarrow> bytes \<Rightarrow> bytes" where
  "stored fs content = (case fs of Fs_Rename (Some n) _ \<Rightarrow> take n content | _ \<Rightarrow> content)"

lemma stored_all: "writes_all fs \<Longrightarrow> stored fs content = content"
  by (auto simp: writes_all_def stored_def split: FsOutcome.splits option.splits)

definition is_bundle :: "SyncEnv \<Rightarrow> Inputs \<Rightarrow> bytes \<Rightarrow> bundle_files \<Rightarrow> bytes option \<Rightarrow> bool" where
  "is_bundle env inp pass files b \<longleftrightarrow>
     (\<exists>z c. PackBundle (e_mz env) (e_biter env) files = Inr z \<and>
        EncryptWithPassphrase (e_so env) (in_salt inp) (in_header inp) z pass = Inr c \<and>
        b = Some (stored (in_bundle_write inp) c))"

lemma errors_not_ok:
  "PackBundle mz it files = Inl st \<Longrightarrow> st \<noteq> OkStatus" "EncryptWithPassphrase so salt header m p = Inl st \<Longrightarrow> st \<noteq> OkStatus"
  by (auto simp: PackBundle_def Let_def EncryptWithPassphrase_def split: if_splits option.splits)

lemma upload_spec:
  assumes "quiet notify" and run: "upload env inp notify opt merged d = (st, d')"
  shows "same_local d d' \<and>
    (if opt_direction opt = DOWNLOAD then st = OkStatus \<and> d' = d
     else if st = OkStatus then is_bundle env inp (opt_passphrase opt) merged (sync_bundle (profile d'))
     else same_bundle d d')"
proof (cases "opt_direction opt = DOWNLOAD")
  case False
  define d1 where "d1 = notify_upload notify d"
  have d1: "same_bundle d d1" "same_local d d1" using data_ofD [OF quietD(3) [OF assms(1)]] by (simp_all add: d1_def)
  note run = run [unfolded upload_def if_not_P [OF False] Let_def d1_def [symmetric]]
  show ?thesis
  proof (cases "PackBundle (e_mz env) (e_biter env) merged")
    case (Inl e)
    then show ?thesis using run d1 errors_not_ok(1) False by auto
  next
    case z: (Inr z)
    show ?thesis
    proof (cases "EncryptWithPassphrase (e_so env) (in_salt inp) (in_header inp) z (opt_passphrase opt)")
      case (Inl e)
      then show ?thesis using run d1 z errors_not_ok(2) False by auto
    next
      case (Inr c)
      then show ?thesis using run d1 z False
        by (auto simp: write_file_def stored_def is_bundle_def split: FsOutcome.splits if_splits option.splits)
    qed
  qed
qed (use run in \<open>simp add: upload_def\<close>)

lemma import_same:
  assumes "quiet notify" and "import_merged env inp notify opt config merged d = Some (st, d')"
  shows "same_bundle d d' \<and> (opt_direction opt = UPLOAD \<longrightarrow> d' = d \<and> st = OkStatus)"
  using assms(2) data_ofD [OF quietD(4) [OF assms(1)]]
  by (auto simp: import_merged_def import_history_def Let_def split: if_splits option.splits prod.splits bool.splits)

text \<open>How a run ends: before anything was written, in the upload, or in the import.\<close>

lemma sync_data_cases:
  assumes q: "quiet notify" and run: "sync_data env inp notify opt config d = Some (r, d')"
  obtains (early) "\<not> success r" "same_bundle d d'" "same_local d d'"
  | (imported) local_files merged report d1 d2 st where
    "export_local env inp config d = Some (Inr local_files)"
    "merge_remote env inp notify opt config local_files d = (Inr (merged, report), d1)"
    "upload env inp notify opt merged d1 = (OkStatus, d2)"
    "import_merged env inp notify opt config merged d2 = Some (st, d')" "success r \<longleftrightarrow> st = OkStatus"
proof -
  obtain x where x: "export_local env inp config d = Some x"
    using run by (cases "export_local env inp config d") (auto simp: sync_data_def)
  note go = run [unfolded sync_data_def x]
  show ?thesis
  proof (cases x)
    case (Inl report)
    then have "\<not> success report" using x
      by (cases "LoadLocalDictionaryTombstones (e_uc env) (in_tombs_opens inp) (profile d)")
        (auto simp: export_local_def Let_def failed_def bind_eq_Some_conv split: if_splits)
    then show ?thesis using go Inl early by simp
  next
    case (Inr local_files)
    obtain y d1 where m: "merge_remote env inp notify opt config local_files d = (y, d1)" by fastforce
    note same = merge_remote_same [OF q m]
    show ?thesis
    proof (cases y)
      case (Inl report)
      then have "\<not> success report" using m
        by (auto simp: merge_remote_def Let_def failed_def split: if_splits option.splits sum.splits prod.splits)
      then show ?thesis using go Inr m Inl same early by simp
    next
      case y: (Inr mr)
      obtain merged report where mr: "mr = (merged, report)" by fastforce
      obtain st d2 where u: "upload env inp notify opt merged d1 = (st, d2)" by fastforce
      show ?thesis
      proof (cases "st = OkStatus")
        case False
        then have "r = failed report (ToString env st)" "d' = d2" using go Inr m y mr u by simp_all
        then show ?thesis using upload_spec [OF q u] False same early by (auto simp: failed_def split: if_splits)
      next
        case True
        obtain st' d3 where i: "import_merged env inp notify opt config merged d2 = Some (st', d3)"
          using go Inr m y mr u True by (cases "import_merged env inp notify opt config merged d2") auto
        then have d: "d' = d3" and st: "success r \<longleftrightarrow> st' = OkStatus" using go Inr m y mr u True
          by (auto simp: failed_def split: if_splits)
        show ?thesis using imported [OF _ _ _ i [folded d] st] x Inr m y mr u True by simp
      qed
    qed
  qed
qed

lemma PerformSync_cases:
  assumes "PerformSync env inp notify opt d = Some (r, d')"
  obtains (refused) "\<not> success r" "d' = d"
  | (run) "sync_data env inp notify opt (EnsureDeviceId (in_rnd inp) (opt_config opt)) (notify_export notify d) = Some (r, d')"
      "opt_passphrase opt \<noteq> []"
  using assms by (auto simp: PerformSync_def failed_def split: if_splits)


text \<open>An upload of the manifest alone.\<close>

definition toy_env :: SyncEnv where
  "toy_env =
     \<lparr>e_uc = decimal_uconv, e_iter = (\<lambda>m. m), e_titer = (\<lambda>m. m), e_hiter = (\<lambda>m. m), e_biter = (\<lambda>m. m),
      e_mz = toy_miniz,
      e_so = toy_sodium, e_de = noun_env,
      e_he = \<lparr>CityFingerprint = (\<lambda>s. of_nat (length s)), LegacyFingerprint32 = (\<lambda>s. of_nat (length s))\<rparr>,
      ToString = (\<lambda>st. ''error'')\<rparr>"

definition toy_inputs :: Inputs where
  "toy_inputs =
     \<lparr>in_now = 0, in_gen = [], in_time1 = ''t1'', in_time2 = ''t2'', in_rnd = ''id'', in_incognito = True,
      in_salt = replicate 16 (CHR ''s''), in_header = replicate 24 (CHR ''h''), in_dict_locks = True,
      in_dict_save = \<lparr>write_succeeds = True, too_big_file_bytes = False, rename_succeeds = True\<rparr>, in_background = None, in_hist_write = True, in_hist_write' = True, in_bundle_opens = True,
      in_bundle_write = Fs_Rename None OkStatus, in_tombs_opens = True, in_tombs_write = True\<rparr>"

definition toy_device :: Device where
  "toy_device = \<lparr>profile = empty_Profile, dict_db = Db_Missing, hist_db = None\<rparr>"

definition toy_options :: PerformSyncOptions where
  "toy_options =
     \<lparr>opt_config = default_UserSyncConfig\<lparr>enabled := True, sync_file_path := ''f'', sync_dictionary := False\<rparr>,
      opt_passphrase = ''key'', opt_direction = UPLOAD, opt_force = False\<rparr>"

definition toy_notify :: notify where "toy_notify = (\<lambda>_ _ _ d. d)"

lemma toy_quiet: "quiet toy_notify" by (simp add: quiet_def toy_notify_def)


text \<open>A disk that is full after three bytes: the synchronisation is a success, and the bundle is lost.\<close>

lemma short_write_succeeds:
  "\<exists>r d'. PerformSync toy_env (toy_inputs\<lparr>in_bundle_write := Fs_Rename (Some 3) OkStatus\<rparr>) toy_notify toy_options toy_device =
     Some (r, d') \<and> success r \<and> sync_bundle (profile d') = Some ''MMZ''"
  by (simp add: PerformSync_def sync_data_def export_local_def merge_remote_def upload_def import_merged_def
      PackBundle_def EncryptWithPassphrase_def write_file_def Let_def toy_env_def toy_inputs_def toy_options_def
      toy_device_def toy_miniz_def toy_sodium_def list_all_iff EnsureDeviceId_def kMagic_def notify_export_def
      notify_upload_def toy_notify_def)

section \<open>Deleted words\<close>

text \<open>
  What an import that succeeds leaves in the user dictionaries: words the merged file has, and words made of
  its lines (a line can give a word with another key, when its reading is normalised).
\<close>

lemma add_new_entries_converted:
  "e \<in> set (add_new_entries de existing raws) \<Longrightarrow> Some e \<in> ConvertEntry de ` set raws"
  by (induction de existing raws rule: add_new_entries.induct)
    (auto simp: Let_def split: option.splits if_splits)

lemma CreateDictionary_entries:
  assumes "CreateDictionary gen name s = Some (Inr i, s')"
  shows "concat (map entries (dictionaries s')) = concat (map entries (dictionaries s))"
    and "locked s' = locked s"
  using assms by (auto simp: CreateDictionary_def split: if_splits)

definition only_rewritten :: "DictEnv \<Rightarrow> bytes \<Rightarrow> bytes \<Rightarrow> DbFile \<Rightarrow> bool" where
  "only_rewritten de tsv k db \<longleftrightarrow>
     (\<exists>ds. db = Db_Stored ds \<and> (\<forall>e \<in> set (concat (map entries ds)). UdEntry_SyncKey de e = k \<longrightarrow>
        Some e \<in> ConvertEntry de ` set (raw_entries (TextInputIterator_type de MOZC tsv) tsv)))"

lemma ImportDictionaryTsv_entries:
  assumes "ImportDictionaryTsv de gen locks fs tsv db = Some (OkStatus, db')"
  shows "\<exists>ds. db' = Db_Stored ds \<and> (\<forall>e \<in> set (concat (map entries ds)).
    UdEntry_SyncKey de e \<in> CollectDictionarySyncKeysFromTsv tsv \<or>
    Some e \<in> ConvertEntry de ` set (raw_entries (TextInputIterator_type de MOZC tsv) tsv))"
proof -
  let ?desired = "CollectDictionarySyncKeysFromTsv tsv" and ?raws = "raw_entries (TextInputIterator_type de MOZC tsv) tsv"
  from assms obtain st s where
    load: "UdStorage_Load gen ((new_UdStorage db)\<lparr>locked := True\<rparr>) = Some (st, s)"
    by (auto simp: ImportDictionaryTsv_def bind_eq_Some_conv split: if_splits)
  then have "locked s" by (auto simp: UdStorage_Load_def Let_def split: prod.splits)
  define s0 where "s0 = (if st \<noteq> OkStatus then s\<lparr>dictionaries := []\<rparr> else s)"
  define s1 where "s1 = s0\<lparr>dictionaries := map (keep_desired de ?desired) (dictionaries s0)\<rparr>"
  have s1: "locked s1" "\<forall>e \<in> set (concat (map entries (dictionaries s1))). UdEntry_SyncKey de e \<in> ?desired"
    using \<open>locked s\<close> by (auto simp: s1_def s0_def keep_desired_def)
  define target where "target = (if dictionaries s1 \<noteq> [] then Some (Inr 0, s1)
      else map_option (\<lambda>(r, s). (case r of Inl c \<Rightarrow> Inl c | Inr i \<Rightarrow> Inr (GetUserDictionaryIndex s i), s))
        (CreateDictionary gen user_dictionary_name s1))"
  note run = assms [unfolded ImportDictionaryTsv_def load bind.bind_lunit case_prod_conv Let_def,
      folded s0_def, folded s1_def, folded target_def]
  from run obtain r s2 where r: "target = Some (r, s2)" by (cases target) (auto split: if_splits)
  note run = run [unfolded r bind.bind_lunit case_prod_conv]
  from run obtain i where i: "r = Inr i" by (cases r) (auto split: if_splits)
  have t: "target = Some (Inr i, s2)" "\<not> i < 0" using run r i by (auto split: if_splits)
  have s2: "locked s2" "concat (map entries (dictionaries s2)) = concat (map entries (dictionaries s1))"
  proof -
    consider (same) "s2 = s1" | (made) n where "CreateDictionary gen user_dictionary_name s1 = Some (Inr n, s2)"
    proof (cases "dictionaries s1 = []")
      case True
      with t(1) obtain r' where r': "CreateDictionary gen user_dictionary_name s1 = Some (r', s2)"
        "(case r' of Inl c \<Rightarrow> Inl c | Inr i \<Rightarrow> Inr (GetUserDictionaryIndex s2 i)) = Inr i"
        by (auto simp: target_def)
      then show ?thesis using that(2) by (cases r') simp_all
    next
      case False
      then show ?thesis using t(1) that(1) by (simp add: target_def)
    qed
    then show "locked s2" "concat (map entries (dictionaries s2)) = concat (map entries (dictionaries s1))"
      using s1(1) CreateDictionary_entries [of gen user_dictionary_name s1] by (cases; simp)+
  qed
  define new where "new = add_new_entries de (DictionaryEntryHash de ` set (concat (map entries (dictionaries s2)))) ?raws"
  define ds where "ds = (dictionaries s2)[nat i := (dictionaries s2 ! nat i)\<lparr>entries := entries (dictionaries s2 ! nat i) @ new\<rparr>]"
  note run = run [unfolded i sum.case if_not_P [OF t(2)], folded new_def, folded ds_def]
  have "status_of_save (fst (UdStorage_Save fs (s2\<lparr>dictionaries := ds\<rparr>))) = OkStatus"
    "db' = db_file (snd (UdStorage_Save fs (s2\<lparr>dictionaries := ds\<rparr>)))"
    using run by (cases "UdStorage_Save fs (s2\<lparr>dictionaries := ds\<rparr>)", cases locks, simp_all)+
  then have db': "db' = Db_Stored ds"
    using s2(1) by (auto simp: UdStorage_Save_def status_of_save_def split: if_splits)
  have "e \<in> set (concat (map entries (dictionaries s2))) \<or> e \<in> set new" if "e \<in> set (concat (map entries ds))" for e
  proof -
    from that obtain d where d: "d \<in> set ds" "e \<in> set (entries d)" by auto
    show ?thesis
    proof (cases "nat i < length (dictionaries s2)")
      case True
      then show ?thesis using d set_update_subset_insert [of "dictionaries s2" "nat i"]
        by (fastforce simp: ds_def dest: nth_mem)
    next
      case False
      then have "ds = dictionaries s2" unfolding ds_def by (intro list_update_beyond) simp
      then show ?thesis using d by auto
    qed
  qed
  then show ?thesis using db' s2(2) s1(2) add_new_entries_converted unfolding new_def by metis
qed

lemma import_without_key:
  assumes "dict_lookup tsv k = None" and "ImportDictionaryTsv de gen locks fs tsv db = Some (OkStatus, db')"
  shows "only_rewritten de tsv k db'"
  using ImportDictionaryTsv_entries [OF assms(2)] assms(1) CollectDictionarySyncKeys_lookup
  unfolding only_rewritten_def by blast

text \<open>C21: A deleted word disappears from the other device too: when device A has deleted a word less than 90
  days ago, no record of the deletion comes from device B, and A synchronises, then the word leaves the
  exchanged dictionary; when B synchronises afterwards, the merged dictionary does not have it either, whether
  B had the word all along or added it after the deletion, and B's import keeps no entry with the key of the
  word: one that is there afterwards was made of a line with another key. (The header of
  \<open>MergeDictionaryWithTombstones\<close> promises that a word added again on one device wins; the code keeps that
  promise on the deleting device only.)\<close>

theorem deletion_wins_on_other_device:
  assumes "uconv_ok uc" and "permutes iter" and "permutes titer"
    and "list_all writable logA" and "list_all writable logB" and "list_all writable (ParseDictionaryTombstonesTsv uc (snd R))"
    and t: "t \<in> set logA" "SyncKey t = k" "dict_lookup dictA k = None" "\<not> deleted_at_unix t < cutoff now"
    and other: "\<forall>u \<in> set logA \<union> set logB \<union> set (ParseDictionaryTombstonesTsv uc (snd R)).
      SyncKey u = k \<longrightarrow> tombstone_device u \<noteq> B"
    and syncA: "sync_device uc iter titer now A dictA logA R = bundle1"
    and syncB: "sync_device uc iter titer now' B dictB logB bundle1 = bundle2"
  shows "dict_lookup (fst bundle1) k = None \<and> dict_lookup (fst bundle2) k = None \<and>
    (\<forall>de gen locks fs db db'. ImportDictionaryTsv de gen locks fs (fst bundle2) db = Some (OkStatus, db') \<longrightarrow>
      only_rewritten de (fst bundle2) k db')"
proof -
  define SA where "SA = {t \<in> set logA. dict_lookup dictA (SyncKey t) = None} \<union> set (ParseDictionaryTombstonesTsv uc (snd R))"
  define SB where "SB = {t \<in> set logB. dict_lookup dictB (SyncKey t) = None} \<union> set (ParseDictionaryTombstonesTsv uc (snd bundle1))"
  note specA = sync_device_spec [OF assms(1-4,6) syncA, folded SA_def]
  note specB = sync_device_spec [OF assms(1-3,5) specA(3) syncB, folded SB_def]
  have tA: "t \<in> SA" "finite SA" using t by (auto simp: SA_def)
  have one: "dict_lookup (fst bundle1) k = None"
    using removed_keyI_local [OF tA(2,1) t(2,3), of "fst R" A] t(3) unfolding specA(1) by auto
  obtain w where w: "undefeated SA w" "SyncKey w = k" "deleted_at_unix t \<le> deleted_at_unix w"
    using undefeated_exists [OF tA(2,1)] t(2) by blast
  have "\<not> deleted_at_unix w < cutoff now" using w(3) t(4) by auto
  with w one have wB: "w \<in> SB" using specA(2) by (auto simp: SB_def)
  have devB: "tombstone_device u \<noteq> B" if "u \<in> SB" "SyncKey u = k" for u
    using that other specA(2) by (auto simp: SB_def SA_def undefeated_def)
  have "finite SB" by (simp add: SB_def)
  from removed_keyI [OF this wB w(2) devB, where R = "fst bundle1" and L = dictB] one
  have "dict_lookup (fst bundle2) k = None" unfolding specB(1) by auto
  with one import_without_key show ?thesis by blast
qed

theorem deletion_wins_on_other_device_witness:
  "let t = word_tombstone 1700000000 ''a1'';
       word = ''b'' @ [tab] @ ''2'' @ [tab] @ ''noun'';
       bundle1 = sync_device decimal_uconv id id 1700000000 ''a1'' [] [t] ([], []);
       bundle2 = sync_device decimal_uconv id id 1700000000 ''b2'' word [] bundle1
   in dict_lookup (fst bundle2) (SyncKey t) = None"
proof -
  define t where "t = word_tombstone 1700000000 ''a1''"
  have p: "permutes id" "permutes id" by (simp_all add: permutes_def)
  have "content_lines [] = []" by (simp add: content_lines_def StripAsciiWhitespace_def)
  then have n: "dict_lookup [] k = None" "ParseDictionaryTombstonesTsv decimal_uconv (snd ([], [])) = []" for k
    by (simp_all add: dict_lookup_def ParseDictionaryTombstonesTsv_def map_filter_simps)
  have w: "list_all writable [t]" "list_all writable []"
    by (simp_all add: t_def word_tombstone_writable ident_char_def byte_def)
  have c: "\<not> deleted_at_unix t < cutoff 1700000000" by (simp add: t_def cutoff_def)
  have "t \<in> set [t]" "SyncKey t = SyncKey t" by simp_all
  from deletion_wins_on_other_device [OF decimal_uconv_ok p w _ this n(1) c _ refl refl,
      where R = "([], [])" and B = "''b2''"]
  show ?thesis unfolding t_def [symmetric] Let_def n(2) by (simp add: t_def)
qed

end
