(* ===== verification/Sync_Status.thy ===== *)
theory Sync_Status
  imports Sync_Json
begin

text \<open>
  The status file the synchronisation writes for the user interface (\<open>sync/sync_status.cc\<close>) and the
  activity file the input method writes for the synchronisation (\<open>sync/sync_activity.cc\<close>). Times are
  seconds. The conversions of \<open>int64_t\<close> and \<open>double\<close> are parameters; a progress is the text it is
  printed as.
\<close>

section \<open>The status\<close>

record SyncStatus =
  state :: bytes
  phase :: bytes
  progress :: bytes
  message :: bytes
  updated_at_unix :: int

definition new_SyncStatus :: SyncStatus where
  "new_SyncStatus = \<lparr>state = [], phase = [], progress = ''0'', message = [], updated_at_unix = 0\<rparr>"

definition status_items :: "Conv \<Rightarrow> SyncStatus \<Rightarrow> (bytes \<times> bytes) list" where
  "status_items conv st =
     [(''state'', json_quoted (state st)), (''phase'', json_quoted (phase st)), (''progress'', progress st),
      (''message'', json_quoted (message st)), (''updated_at_unix'', StrCat_int conv (updated_at_unix st))]"

definition WriteSyncStatus :: "Conv \<Rightarrow> int \<Rightarrow> FsOutcome \<Rightarrow> SyncStatus \<Rightarrow> Profile \<Rightarrow> status \<times> Profile" where
  "WriteSyncStatus conv now fs st p =
     (let out = (if updated_at_unix st = 0 then st\<lparr>updated_at_unix := now\<rparr> else st)
      in write_file fs (\<lambda>s p. p\<lparr>sync_status_json := Some s\<rparr>) (json_file (status_items conv out)) p)"

text \<open>\<open>atod\<close> is \<open>SimpleAtod\<close> on a text, given the default.\<close>

definition ExtractJsonDouble :: "(bytes \<Rightarrow> bytes \<Rightarrow> bytes) \<Rightarrow> bytes \<Rightarrow> bytes \<Rightarrow> bytes \<Rightarrow> bytes" where
  "ExtractJsonDouble atod json key default_value =
     (case json_tail json key of None \<Rightarrow> default_value | Some tail \<Rightarrow> atod tail default_value)"

definition ReadSyncStatus :: "Conv \<Rightarrow> (bytes \<Rightarrow> bytes \<Rightarrow> bytes) \<Rightarrow> Profile \<Rightarrow> SyncStatus" where
  "ReadSyncStatus conv atod p =
     (case sync_status_json p of
        None \<Rightarrow> new_SyncStatus\<lparr>state := ''idle''\<rparr>
      | Some json \<Rightarrow>
          \<lparr>state = (let s = ExtractJsonString json ''state'' in if s = [] then ''idle'' else s),
           phase = ExtractJsonString json ''phase'',
           progress = ExtractJsonDouble atod json ''progress'' ''0'',
           message = ExtractJsonString json ''message'',
           updated_at_unix = ExtractJsonInt conv json ''updated_at_unix'' 0\<rparr>)"

definition IsSyncRunning :: "Conv \<Rightarrow> (bytes \<Rightarrow> bytes \<Rightarrow> bytes) \<Rightarrow> int \<Rightarrow> Profile \<Rightarrow> bool" where
  "IsSyncRunning conv atod now p =
     (let st = ReadSyncStatus conv atod p
      in if state st \<noteq> ''running'' then False
         else if updated_at_unix st > 0 \<and> now - updated_at_unix st > 600 then False
         else True)"

text \<open>A progress that \<open>StrCat\<close> prints.\<close>

definition progress_text :: "bytes \<Rightarrow> bool" where
  "progress_text s \<longleftrightarrow> s \<noteq> [] \<and> list_all (\<lambda>c. byte c \<in> {0x30..0x39} \<or> c \<in> {CHR ''.'', CHR ''+'', CHR ''-'', CHR ''e''}) s"

lemma status_items_ok:
  assumes "prints_numbers conv" and "progress_text (progress st)"
  shows "json_items (status_items conv st)"
proof -
  have "quote \<notin> set (progress st)"
    using assms(2) by (auto simp: progress_text_def list_all_iff byte_def)
  then have "json_value_text (progress st)" by (simp add: json_value_text_def)
  then show ?thesis by (simp add: json_items_def status_items_def prints_numbersD [OF assms(1)] ident_char_def byte_def)
qed

text \<open>A status that was written is read back.\<close>

lemma Read_Write_status:
  assumes "prints_numbers conv" and "progress_text (progress st)" and "writes_all fs"
    and "WriteSyncStatus conv now fs st p = (OkStatus, p')"
  shows "state (ReadSyncStatus conv atod p') = (if state st = [] then ''idle'' else state st)"
    and "message (ReadSyncStatus conv atod p') = message st" and "phase (ReadSyncStatus conv atod p') = phase st"
proof -
  define out where "out = (if updated_at_unix st = 0 then st\<lparr>updated_at_unix := now\<rparr> else st)"
  have out: "state out = state st" "phase out = phase st" "message out = message st" "progress out = progress st"
    by (simp_all add: out_def)
  have json: "sync_status_json p' = Some (json_file (status_items conv out))"
    using assms(3,4) by (auto simp: WriteSyncStatus_def Let_def write_file_def writes_all_def out_def
        split: FsOutcome.splits if_splits option.splits)
  have ok: "json_items (status_items conv out)" using status_items_ok [OF assms(1), of out] assms(2) out by simp
  have mem: "(''state'', json_quoted (state st)) \<in> set (status_items conv out)"
    "(''phase'', json_quoted (phase st)) \<in> set (status_items conv out)"
    "(''message'', json_quoted (message st)) \<in> set (status_items conv out)"
    by (simp_all add: status_items_def out)
  show "state (ReadSyncStatus conv atod p') = (if state st = [] then ''idle'' else state st)"
    "message (ReadSyncStatus conv atod p') = message st" "phase (ReadSyncStatus conv atod p') = phase st"
    using ExtractJsonString_file [OF ok mem(1)] ExtractJsonString_file [OF ok mem(2)] ExtractJsonString_file [OF ok mem(3)]
    by (simp_all add: ReadSyncStatus_def json)
qed

lemma WriteSyncStatus_other:
  assumes "WriteSyncStatus conv now fs st p = (r, p')"
  shows "sync_conf p' = sync_conf p" "sync_activity_json p' = sync_activity_json p" "sync_key_file p' = sync_key_file p"
    "tombstones_file p' = tombstones_file p" "sync_bundle p' = sync_bundle p"
  using assms by (auto simp: WriteSyncStatus_def Let_def write_file_def split: FsOutcome.splits if_splits)

section \<open>The activity\<close>

text \<open>\<open>None\<close> is \<open>absl::InfinitePast ()\<close>, whose seconds are the smallest \<open>int64_t\<close>.\<close>

record SyncActivity =
  last_composition_end :: "int option"
  last_ime_deactivated :: "int option"

definition ToUnixSeconds :: "int option \<Rightarrow> int" where
  "ToUnixSeconds t = (case t of None \<Rightarrow> - (2 ^ 63) | Some s \<Rightarrow> s)"

definition ExtractUnixField :: "Conv \<Rightarrow> bytes \<Rightarrow> bytes \<Rightarrow> int" where
  "ExtractUnixField conv json key =
     (case find_str (json_pattern key) json of
        None \<Rightarrow> 0
      | Some pos \<Rightarrow> SimpleAtoi conv (drop (pos + length (json_pattern key)) json) 0)"

definition WriteActivityJson :: "Conv \<Rightarrow> FsOutcome \<Rightarrow> int \<Rightarrow> int \<Rightarrow> Profile \<Rightarrow> status \<times> Profile" where
  "WriteActivityJson conv fs composition_end ime_deactivated =
     write_file fs (\<lambda>s p. p\<lparr>sync_activity_json := Some s\<rparr>)
       (json_file [(''last_composition_end'', StrCat_int conv composition_end),
                   (''last_ime_deactivated'', StrCat_int conv ime_deactivated)])"

definition WriteSyncActivity :: "Conv \<Rightarrow> FsOutcome \<Rightarrow> SyncActivity \<Rightarrow> Profile \<Rightarrow> status \<times> Profile" where
  "WriteSyncActivity conv fs a =
     WriteActivityJson conv fs (ToUnixSeconds (last_composition_end a)) (ToUnixSeconds (last_ime_deactivated a))"

definition unix_time :: "int \<Rightarrow> int option" where
  "unix_time t = (if t > 0 then Some t else None)"

definition ReadSyncActivity :: "Conv \<Rightarrow> Profile \<Rightarrow> SyncActivity" where
  "ReadSyncActivity conv p =
     (case sync_activity_json p of
        None \<Rightarrow> \<lparr>last_composition_end = None, last_ime_deactivated = None\<rparr>
      | Some json \<Rightarrow>
          \<lparr>last_composition_end = unix_time (ExtractUnixField conv json ''last_composition_end''),
           last_ime_deactivated = unix_time (ExtractUnixField conv json ''last_ime_deactivated'')\<rparr>)"

definition RecordCompositionEnd :: "Conv \<Rightarrow> int \<Rightarrow> FsOutcome \<Rightarrow> Profile \<Rightarrow> Profile" where
  "RecordCompositionEnd conv now fs p =
     snd (WriteSyncActivity conv fs ((ReadSyncActivity conv p)\<lparr>last_composition_end := Some now\<rparr>) p)"

definition RecordImeDeactivated :: "Conv \<Rightarrow> int \<Rightarrow> FsOutcome \<Rightarrow> Profile \<Rightarrow> Profile" where
  "RecordImeDeactivated conv now fs p =
     snd (WriteSyncActivity conv fs ((ReadSyncActivity conv p)\<lparr>last_ime_deactivated := Some now\<rparr>) p)"

definition CooldownElapsed :: "Conv \<Rightarrow> int \<Rightarrow> int \<Rightarrow> Profile \<Rightarrow> bool" where
  "CooldownElapsed conv now cooldown_seconds p =
     (if cooldown_seconds \<le> 0 then True
      else let a = ReadSyncActivity conv p;
               last_activity = (case (last_composition_end a, last_ime_deactivated a) of
                 (None, t) \<Rightarrow> t | (t, None) \<Rightarrow> t | (Some s, Some t) \<Rightarrow> Some (if t > s then t else s))
        in (case last_activity of None \<Rightarrow> True | Some t \<Rightarrow> now - t \<ge> cooldown_seconds))"

end
