(* ===== verification/Sync_Run.thy ===== *)
theory Sync_Run
  imports Sync_Perform Sync_Status
begin

text \<open>
  A run of the synchronisation (\<open>sync/sync_runner.cc\<close>) against the converter: the lock the server keeps
  (\<open>session/session_handler.cc\<close>), how a call of the client ends (\<open>client/client.cc\<close>), the fingerprints that
  tell whether anything changed (\<open>sync/sync_poll.cc\<close>), and the loops that poll them
  (\<open>sync/sync_main.cc\<close>, \<open>sync/sync_scheduler.cc\<close>).
\<close>

section \<open>The server\<close>

text \<open>For each element of the session map: \<open>None\<close> for an empty one, else whether its composer is empty.\<close>

record Server =
  sync_locked :: bool
  composers :: "bool option list"

record World =
  server :: Server
  device :: Device

record SyncState =
  st_sync_locked :: bool
  st_any_composing :: bool
  st_active_session_count :: nat

text \<open>\<open>None\<close> is a command that failed: its error code is set, but the answer is sent all the same.
  For commands without a state in their answer the one given here stands for success.
  \<open>engine_sync\<close> is what \<open>engine_->Sync ()\<close> writes to the disk.\<close>

type_synonym answer = "SyncState option"

definition Server_GetSyncState :: "Server \<Rightarrow> answer" where
  "Server_GetSyncState s =
     Some \<lparr>st_sync_locked = sync_locked s, st_any_composing = (\<exists>c \<in> set (composers s). c = Some False),
           st_active_session_count = length (filter (\<lambda>c. c \<noteq> None) (composers s))\<rparr>"

definition Server_BeginSyncLock :: "(Device \<Rightarrow> Device) \<Rightarrow> World \<Rightarrow> answer \<times> World" where
  "Server_BeginSyncLock engine_sync w =
     (if sync_locked (server w) then (None, w)
      else let w = w\<lparr>server := (server w)\<lparr>sync_locked := True\<rparr>, device := engine_sync (device w)\<rparr>
        in (Server_GetSyncState (server w), w))"

definition Server_EndSyncLock :: "World \<Rightarrow> answer \<times> World" where
  "Server_EndSyncLock w =
     (let w = w\<lparr>server := (server w)\<lparr>sync_locked := False\<rparr>\<rparr> in (Server_GetSyncState (server w), w))"

text \<open>The error the server gives to a key, a test key or a command of a session.\<close>

datatype KeyAnswer = SYNC_LOCKED | SESSION_FAILURE | Handled

definition Server_SendKey :: "Server \<Rightarrow> nat \<Rightarrow> KeyAnswer" where
  "Server_SendKey s session =
     (if sync_locked s then SYNC_LOCKED
      else if session \<ge> length (composers s) \<or> composers s ! session = None then SESSION_FAILURE
      else Handled)"

section \<open>The client\<close>

datatype ServerStatus =
    SERVER_UNKNOWN | SERVER_SHUTDOWN | SERVER_INVALID_SESSION | SERVER_OK | SERVER_TIMEOUT
  | SERVER_VERSION_MISMATCH | SERVER_BROKEN_MESSAGE | SERVER_FATAL

text \<open>How a call ends; a call without an answer may or may not have been carried out.\<close>

datatype IpcOutcome = Ipc_NotConnected | Ipc_VersionMismatch | Ipc_Timeout bool | Ipc_Crash bool | Ipc_Broken | Ipc_Answered

definition gave_up :: "ServerStatus \<Rightarrow> bool" where
  "gave_up st \<longleftrightarrow> st \<in> {SERVER_TIMEOUT, SERVER_VERSION_MISMATCH, SERVER_BROKEN_MESSAGE, SERVER_FATAL}"

definition Client_Call ::
  "IpcOutcome \<Rightarrow> (World \<Rightarrow> answer \<times> World) \<Rightarrow> ServerStatus \<times> World \<Rightarrow> answer option \<times> ServerStatus \<times> World" where
  "Client_Call out eval = (\<lambda>(st, w).
     if gave_up st then (None, st, w)
     else (case out of
             Ipc_NotConnected \<Rightarrow> (None, if st \<noteq> SERVER_UNKNOWN then SERVER_SHUTDOWN else st, w)
           | Ipc_VersionMismatch \<Rightarrow> (None, st, w)
           | Ipc_Timeout done \<Rightarrow> (None, SERVER_TIMEOUT, if done then snd (eval w) else w)
           | Ipc_Crash done \<Rightarrow> (None, SERVER_SHUTDOWN, if done then snd (eval w) else w)
           | Ipc_Broken \<Rightarrow> (None, SERVER_BROKEN_MESSAGE, snd (eval w))
           | Ipc_Answered \<Rightarrow> (Some (fst (eval w)), st, snd (eval w))))"

text \<open>\<open>CallCommand\<close> returns whether there was an answer, whatever the answer says.\<close>

definition CallCommand ::
  "IpcOutcome \<Rightarrow> (World \<Rightarrow> answer \<times> World) \<Rightarrow> ServerStatus \<times> World \<Rightarrow> bool \<times> ServerStatus \<times> World" where
  "CallCommand out eval cw = (case Client_Call out eval cw of (a, cw) \<Rightarrow> (a \<noteq> None, cw))"

definition Client_GetSyncState :: "IpcOutcome \<Rightarrow> ServerStatus \<times> World \<Rightarrow> SyncState option \<times> ServerStatus \<times> World" where
  "Client_GetSyncState out cw =
     (case Client_Call out (\<lambda>w. (Server_GetSyncState (server w), w)) cw of
        (Some (Some st), cw) \<Rightarrow> (Some st, cw) | (_, cw) \<Rightarrow> (None, cw))"

definition Client_BeginSyncLock :: "(Device \<Rightarrow> Device) \<Rightarrow> IpcOutcome \<Rightarrow> ServerStatus \<times> World \<Rightarrow> bool \<times> ServerStatus \<times> World" where
  "Client_BeginSyncLock engine_sync out = CallCommand out (Server_BeginSyncLock engine_sync)"

definition Client_EndSyncLock :: "IpcOutcome \<Rightarrow> ServerStatus \<times> World \<Rightarrow> bool \<times> ServerStatus \<times> World" where
  "Client_EndSyncLock out = CallCommand out Server_EndSyncLock"

definition Client_SyncData :: "(Device \<Rightarrow> Device) \<Rightarrow> IpcOutcome \<Rightarrow> ServerStatus \<times> World \<Rightarrow> bool \<times> ServerStatus \<times> World" where
  "Client_SyncData engine_sync out =
     CallCommand out (\<lambda>w. (Server_GetSyncState (server w), w\<lparr>device := engine_sync (device w)\<rparr>))"

text \<open>Reloading reads the files into the engine and leaves them as they are.\<close>

definition Client_ReloadAndWait :: "IpcOutcome \<Rightarrow> ServerStatus \<times> World \<Rightarrow> bool \<times> ServerStatus \<times> World" where
  "Client_ReloadAndWait out = CallCommand out (\<lambda>w. (Server_GetSyncState (server w), w))"

text \<open>\<open>starts\<close>: the launcher can start the server.\<close>

definition EnsureConnection :: "bool \<Rightarrow> ServerStatus \<Rightarrow> bool \<times> ServerStatus" where
  "EnsureConnection starts st =
     (if st = SERVER_OK \<or> st = SERVER_INVALID_SESSION then (True, st)
      else if st = SERVER_SHUTDOWN \<or> st = SERVER_UNKNOWN
      then (if starts then (True, SERVER_INVALID_SESSION) else (False, SERVER_FATAL))
      else (False, SERVER_FATAL))"

section \<open>Fingerprints\<close>

definition kHex :: bytes where "kHex = ''0123456789abcdef''"

definition BytesToHex :: "bytes \<Rightarrow> bytes" where
  "BytesToHex data = concat (map (\<lambda>c. [kHex ! (byte c div 16), kHex ! (byte c mod 16)]) data)"

text \<open>What a run uses: SHA-256, the bytes of the two data files, what \<open>Sync ()\<close> of the engine writes, and the
  conversions.\<close>

record RunEnv =
  r_env :: SyncEnv
  r_conv :: Conv
  r_conv64 :: Conv
  r_atod :: "bytes \<Rightarrow> bytes \<Rightarrow> bytes"
  crypto_hash_sha256 :: "bytes \<Rightarrow> bytes"
  dict_bytes :: "DbFile \<Rightarrow> bytes option"
  hist_bytes :: "UserHistoryEntry list option \<Rightarrow> bytes option"
  engine_Sync :: "Device \<Rightarrow> Device"

definition Sha256Hex :: "RunEnv \<Rightarrow> bytes \<Rightarrow> bytes" where
  "Sha256Hex env data = BytesToHex (crypto_hash_sha256 env data)"

definition hashed_file :: "bytes \<Rightarrow> bytes option \<Rightarrow> bytes" where
  "hashed_file label file = (case file of None \<Rightarrow> [] | Some b \<Rightarrow> label @ b)"

definition LocalSyncDataSha256 :: "RunEnv \<Rightarrow> UserSyncConfig \<Rightarrow> Device \<Rightarrow> bytes" where
  "LocalSyncDataSha256 env config d =
     Sha256Hex env
       ((if sync_dictionary config then hashed_file ''dictionary:'' (dict_bytes env (dict_db d)) else []) @
        (if sync_history config then hashed_file ''history:'' (hist_bytes env (hist_db d)) else []))"

definition CaptureSyncFingerprints :: "RunEnv \<Rightarrow> UserSyncConfig \<Rightarrow> Device \<Rightarrow> SyncFingerprintSnapshot" where
  "CaptureSyncFingerprints env config d =
     \<lparr>remote_bundle_sha256 =
        (if sync_file_path config = [] then []
         else case sync_bundle (profile d) of None \<Rightarrow> [] | Some b \<Rightarrow> Sha256Hex env b),
      local_data_sha256 = LocalSyncDataSha256 env config d\<rparr>"

datatype IntervalSyncDecision = kSkip | kSync | kBaselineOnly

definition EvaluateIntervalSync :: "SyncFingerprintSnapshot \<Rightarrow> SyncFingerprintSnapshot \<Rightarrow> IntervalSyncDecision" where
  "EvaluateIntervalSync baseline current =
     (let baseline_missing = remote_bundle_sha256 baseline = [] \<and> local_data_sha256 baseline = []
      in if baseline_missing then kBaselineOnly
         else let remote_changed = remote_bundle_sha256 current \<noteq> [] \<and>
                    remote_bundle_sha256 current \<noteq> remote_bundle_sha256 baseline;
                  remote_removed = remote_bundle_sha256 current = [] \<and> remote_bundle_sha256 baseline \<noteq> [];
                  remote_added = remote_bundle_sha256 current \<noteq> [] \<and> remote_bundle_sha256 baseline = [];
                  local_changed = local_data_sha256 current \<noteq> local_data_sha256 baseline
           in if remote_changed \<or> remote_removed \<or> remote_added \<or> local_changed then kSync else kSkip)"

lemma EvaluateIntervalSync_kSkip:
  "EvaluateIntervalSync baseline current = kSkip \<longleftrightarrow>
     current = baseline \<and> \<not> (remote_bundle_sha256 baseline = [] \<and> local_data_sha256 baseline = [])"
  by (cases baseline; cases current) (auto simp: EvaluateIntervalSync_def Let_def)

section \<open>A run\<close>

record RunInputs =
  sync_inputs :: Inputs
  clock :: "bytes \<Rightarrow> int"
  status_write :: "bytes \<Rightarrow> FsOutcome"
  start_ok :: bool
  ipc_auto :: IpcOutcome
  ipc_state :: IpcOutcome
  ipc_begin :: IpcOutcome
  ipc_flush :: IpcOutcome
  ipc_reload :: IpcOutcome
  ipc_end :: IpcOutcome
  sync_time :: bytes
  baselines_write :: FsOutcome
  config_write :: FsOutcome

record RunSyncOptions =
  run_force :: bool
  skip_cooldown :: bool
  run_direction :: int

abbreviation update_profile :: "(Profile \<Rightarrow> Profile) \<Rightarrow> Device \<Rightarrow> Device" where
  "update_profile f d \<equiv> d\<lparr>profile := f (profile d)\<rparr>"

abbreviation update_device :: "(Device \<Rightarrow> Device) \<Rightarrow> World \<Rightarrow> World" where
  "update_device f w \<equiv> w\<lparr>device := f (device w)\<rparr>"

text \<open>Writing a status; the clock and the end of the write depend on the phase, or on the state of the last one.\<close>

definition put_status :: "RunEnv \<Rightarrow> RunInputs \<Rightarrow> bytes \<Rightarrow> SyncStatus \<Rightarrow> Device \<Rightarrow> Device" where
  "put_status env inp tag st =
     update_profile (\<lambda>p. snd (WriteSyncStatus (r_conv64 env) (clock inp tag) (status_write inp tag) st p))"

definition SetProgress :: "RunEnv \<Rightarrow> RunInputs \<Rightarrow> notify" where
  "SetProgress env inp ph pr msg =
     put_status env inp ph (new_SyncStatus\<lparr>state := ''running'', phase := ph, progress := pr, message := msg\<rparr>)"

definition error_status :: "RunEnv \<Rightarrow> RunInputs \<Rightarrow> bytes \<Rightarrow> Device \<Rightarrow> Device" where
  "error_status env inp msg = put_status env inp ''error'' (new_SyncStatus\<lparr>state := ''error'', message := msg\<rparr>)"

definition done_status :: "RunEnv \<Rightarrow> RunInputs \<Rightarrow> Device \<Rightarrow> Device" where
  "done_status env inp =
     put_status env inp ''complete''
       (new_SyncStatus\<lparr>state := ''done'', phase := ''complete'', progress := ''1'', message := ''Sync completed''\<rparr>)"

definition progress_prepare :: "RunEnv \<Rightarrow> RunInputs \<Rightarrow> Device \<Rightarrow> Device" where
  "progress_prepare env inp = SetProgress env inp ''prepare'' ''0.05'' (''Preparing sync'' @ ellipsis)"

definition progress_flush :: "RunEnv \<Rightarrow> RunInputs \<Rightarrow> Device \<Rightarrow> Device" where
  "progress_flush env inp = SetProgress env inp ''flush'' ''0.15'' (''Saving local data'' @ ellipsis)"

definition progress_merge :: "RunEnv \<Rightarrow> RunInputs \<Rightarrow> Device \<Rightarrow> Device" where
  "progress_merge env inp = SetProgress env inp ''merge'' ''0.35'' (''Merging data'' @ ellipsis)"

definition progress_reload :: "RunEnv \<Rightarrow> RunInputs \<Rightarrow> Device \<Rightarrow> Device" where
  "progress_reload env inp = SetProgress env inp ''reload'' ''0.9'' (''Reloading converter'' @ ellipsis)"

text \<open>\<open>FailureReport\<close>, with the messages of the runner.\<close>

datatype run_failure =
    Already_running | Sync_disabled | No_path | No_state | Composing | Cooling_down | No_key | No_connection
  | No_lock | No_flush | No_reload

definition failure_message :: "run_failure \<Rightarrow> bytes" where
  "failure_message f =
     (case f of
        Already_running \<Rightarrow> ''Sync already in progress''
      | Sync_disabled \<Rightarrow> ''Sync is disabled. Enable sync in the Config dialog and save, then try again.''
      | No_path \<Rightarrow> ''Sync file path is not set''
      | No_state \<Rightarrow> ''Cannot query converter state''
      | Composing \<Rightarrow> ''Composition in progress''
      | Cooling_down \<Rightarrow> ''Cooldown period has not elapsed''
      | No_key \<Rightarrow> ''Sync key is not set''
      | No_connection \<Rightarrow> ''Cannot connect to converter''
      | No_lock \<Rightarrow> ''Cannot lock converter for sync''
      | No_flush \<Rightarrow> ''Failed to flush converter data''
      | No_reload \<Rightarrow> ''Failed to reload converter'')"

definition FailureReport ::
  "RunEnv \<Rightarrow> RunInputs \<Rightarrow> run_failure \<Rightarrow> ServerStatus \<times> World \<Rightarrow> UserSyncReport \<times> ServerStatus \<times> World" where
  "FailureReport env inp f = (\<lambda>(st, w).
     (failed empty_report (failure_message f), st, update_device (error_status env inp (failure_message f)) w))"

text \<open>The checks before anything is locked.\<close>

definition busy_check ::
  "RunEnv \<Rightarrow> RunInputs \<Rightarrow> RunSyncOptions \<Rightarrow> UserSyncConfig \<Rightarrow> ServerStatus \<times> World \<Rightarrow>
     run_failure option \<times> ServerStatus \<times> World" where
  "busy_check env inp opt config cw =
     (if run_force opt then (None, cw)
      else (case Client_GetSyncState (ipc_state inp) cw of
              (None, cw) \<Rightarrow> (Some No_state, cw)
            | (Some st, cw) \<Rightarrow>
                (if st_any_composing st then Some Composing
                 else if \<not> skip_cooldown opt \<and>
                   \<not> CooldownElapsed (r_conv64 env) (clock inp ''cooldown'') (sync_cooldown_seconds config)
                       (profile (device (snd cw)))
                 then Some Cooling_down else None, cw)))"

definition start_check ::
  "RunEnv \<Rightarrow> RunInputs \<Rightarrow> RunSyncOptions \<Rightarrow> ServerStatus \<times> World \<Rightarrow>
     (run_failure + UserSyncConfig \<times> bytes) \<times> ServerStatus \<times> World" where
  "start_check env inp opt cw =
     (let p = profile (device (snd cw));
          config = LoadSyncConfig (r_conv env) (in_rnd (sync_inputs inp)) p
      in if IsSyncRunning (r_conv64 env) (r_atod env) (clock inp ''start'') p then (Inl Already_running, cw)
         else if \<not> enabled config then (Inl Sync_disabled, cw)
         else if sync_file_path config = [] then (Inl No_path, cw)
         else (case busy_check env inp opt config cw of
                 (Some f, cw) \<Rightarrow> (Inl f, cw)
               | (None, cw) \<Rightarrow>
                   (case LoadSyncKey (profile (device (snd cw))) of
                      Inl _ \<Rightarrow> (Inl No_key, cw)
                    | Inr key \<Rightarrow>
                        (case EnsureConnection (start_ok inp) (fst cw) of
                           (connected, st) \<Rightarrow> (if connected then Inr (config, key) else Inl No_connection, st, snd cw)))))"

text \<open>What happens under the lock, behind the flush: the synchronisation, the reload and the bookkeeping.\<close>

definition last_message :: "RunEnv \<Rightarrow> UserSyncReport \<Rightarrow> bytes" where
  "last_message env r =
     ''Dictionary +'' @ StrCat_int (r_conv env) (int (dictionary_added r)) @
     '', history merged '' @ StrCat_int (r_conv env) (int (history_merged r))"

definition save_results :: "RunEnv \<Rightarrow> RunInputs \<Rightarrow> UserSyncConfig \<Rightarrow> UserSyncReport \<Rightarrow> Device \<Rightarrow> Device" where
  "save_results env inp config r d =
     (let config = config\<lparr>last_sync_time := sync_time inp, last_sync_status := ''OK'', last_sync_message := last_message env r\<rparr>;
          rnd = in_rnd (sync_inputs inp);
          snapshot = CaptureSyncFingerprints env config d;
          d = update_profile (\<lambda>p. snd (SaveSyncBaselines (r_conv env) rnd (baselines_write inp) snapshot p)) d
      in done_status env inp (update_profile (\<lambda>p. snd (SaveSyncConfig (r_conv env) rnd (config_write inp) config p)) d))"

definition finish_run ::
  "RunEnv \<Rightarrow> RunInputs \<Rightarrow> UserSyncConfig \<Rightarrow> UserSyncReport \<Rightarrow> ServerStatus \<times> World \<Rightarrow>
     UserSyncReport \<times> ServerStatus \<times> World" where
  "finish_run env inp config r = (\<lambda>(st, w).
     if \<not> success r then (r, st, update_device (error_status env inp (error_message r)) w)
     else (case Client_ReloadAndWait (ipc_reload inp)
                  (st, update_device (progress_reload env inp) w) of
             (reloaded, st, w) \<Rightarrow>
               if \<not> reloaded then FailureReport env inp No_reload (st, w)
               else (r, st, update_device (save_results env inp config r) w)))"

definition run_options :: "RunSyncOptions \<Rightarrow> UserSyncConfig \<Rightarrow> bytes \<Rightarrow> PerformSyncOptions" where
  "run_options opt config key =
     \<lparr>opt_config = config, opt_passphrase = key, opt_direction = run_direction opt, opt_force = run_force opt\<rparr>"

definition run_locked ::
  "RunEnv \<Rightarrow> RunInputs \<Rightarrow> RunSyncOptions \<Rightarrow> UserSyncConfig \<Rightarrow> bytes \<Rightarrow> ServerStatus \<times> World \<Rightarrow>
     (UserSyncReport \<times> ServerStatus \<times> World) option" where
  "run_locked env inp opt config key = (\<lambda>(st, w).
     (case Client_SyncData (engine_Sync env) (ipc_flush inp)
             (st, update_device (progress_flush env inp) w) of
        (flushed, st, w) \<Rightarrow>
          if \<not> flushed then Some (FailureReport env inp No_flush (st, w))
          else map_option (\<lambda>(r, d). finish_run env inp config r (st, w\<lparr>device := d\<rparr>))
                 (PerformSync (r_env env) (sync_inputs inp) (SetProgress env inp) (run_options opt config key)
                    (progress_merge env inp (device w)))))"

text \<open>The destructor of \<open>SyncLockGuard\<close> runs on every path behind the lock.\<close>

definition release_lock ::
  "RunInputs \<Rightarrow> UserSyncReport \<times> ServerStatus \<times> World \<Rightarrow> UserSyncReport \<times> ServerStatus \<times> World" where
  "release_lock inp = (\<lambda>(r, cw). (r, snd (Client_EndSyncLock (ipc_end inp) cw)))"

definition RunSync ::
  "RunEnv \<Rightarrow> RunInputs \<Rightarrow> RunSyncOptions \<Rightarrow> ServerStatus \<times> World \<Rightarrow>
     (UserSyncReport \<times> ServerStatus \<times> World) option" where
  "RunSync env inp opt cw =
     (case start_check env inp opt cw of
        (Inl f, cw) \<Rightarrow> Some (FailureReport env inp f cw)
      | (Inr (config, key), st, w) \<Rightarrow>
          (case Client_BeginSyncLock (engine_Sync env) (ipc_begin inp)
                  (st, update_device (progress_prepare env inp) w) of
             (got_lock, cw) \<Rightarrow>
               if \<not> got_lock then Some (FailureReport env inp No_lock cw)
               else map_option (release_lock inp) (run_locked env inp opt config key cw)))"

definition CanAutoSync :: "RunEnv \<Rightarrow> RunInputs \<Rightarrow> int \<Rightarrow> ServerStatus \<times> World \<Rightarrow> bool \<times> ServerStatus \<times> World" where
  "CanAutoSync env inp cooldown_seconds = (\<lambda>(st, w).
     let p = profile (device w)
     in if IsSyncRunning (r_conv64 env) (r_atod env) (clock inp ''auto'') p then (False, st, w)
        else (case EnsureConnection (start_ok inp) st of
                (connected, st) \<Rightarrow>
                  if \<not> connected then (False, st, w)
                  else (case Client_GetSyncState (ipc_auto inp) (st, w) of
                          (None, cw) \<Rightarrow> (False, cw)
                        | (Some s, cw) \<Rightarrow>
                            (\<not> st_sync_locked s \<and> \<not> st_any_composing s \<and>
                             CooldownElapsed (r_conv64 env) (clock inp ''auto'') cooldown_seconds p, cw))))"

section \<open>Polling\<close>

definition HandleIntervalPoll :: "RunEnv \<Rightarrow> RunInputs \<Rightarrow> UserSyncConfig \<Rightarrow> Device \<Rightarrow> bool \<times> Device" where
  "HandleIntervalPoll env inp config d =
     (if auto_sync_mode config \<noteq> EVERY_N_MINUTES then (False, d)
      else let current = CaptureSyncFingerprints env config d
        in (case EvaluateIntervalSync (LoadSyncBaselines (profile d)) current of
              kBaselineOnly \<Rightarrow>
                (False, update_profile (\<lambda>p. snd (SaveSyncBaselines (r_conv env) (in_rnd (sync_inputs inp))
                   (baselines_write inp) current p)) d)
            | kSync \<Rightarrow> (True, d)
            | kSkip \<Rightarrow> (False, d)))"

definition auto_options :: RunSyncOptions where
  "auto_options = \<lparr>run_force = False, skip_cooldown = False, run_direction = BIDIRECTIONAL\<rparr>"

text \<open>One round of the loop of \<open>RunDaemon\<close>, with the report of the run if there was one. The client is new
  in every round.\<close>

definition daemon_round :: "RunEnv \<Rightarrow> RunInputs \<Rightarrow> World \<Rightarrow> (UserSyncReport option \<times> World) option" where
  "daemon_round env inp w =
     (let config = LoadSyncConfig (r_conv env) (in_rnd (sync_inputs inp)) (profile (device w))
      in if \<not> (enabled config \<and> has_sync_key config) then Some (None, w)
         else (case HandleIntervalPoll env inp config (device w) of
                 (changed, d) \<Rightarrow>
                   let w = w\<lparr>device := d\<rparr>
                   in if \<not> changed then Some (None, w)
                      else (case CanAutoSync env inp (sync_cooldown_seconds config) (SERVER_UNKNOWN, w) of
                              (can, cw) \<Rightarrow>
                                if \<not> can then Some (None, snd cw)
                                else map_option (\<lambda>(r, _, w). (Some r, w)) (RunSync env inp auto_options cw))))"

definition daemon_sleep :: "UserSyncConfig \<Rightarrow> int" where
  "daemon_sleep config = max 1 (auto_sync_interval_minutes config * 60)"

text \<open>The thread of \<open>SyncScheduler\<close> polls the same way and calls back.\<close>

definition scheduler_round :: "RunEnv \<Rightarrow> RunInputs \<Rightarrow> (Device \<Rightarrow> Device) \<Rightarrow> Device \<Rightarrow> int \<times> Device" where
  "scheduler_round env inp callback d =
     (let config = LoadSyncConfig (r_conv env) (in_rnd (sync_inputs inp)) (profile d);
          sleep_sec = max 60 (auto_sync_interval_minutes config * 60)
      in if enabled config \<and> has_sync_key config
         then (case HandleIntervalPoll env inp config d of
                 (changed, d) \<Rightarrow> (sleep_sec, if changed then callback d else d))
         else (sleep_sec, d))"

definition NotifyShutdown :: "RunEnv \<Rightarrow> bytes \<Rightarrow> (Device \<Rightarrow> Device) \<Rightarrow> Device \<Rightarrow> Device" where
  "NotifyShutdown env rnd callback d =
     (let config = LoadSyncConfig (r_conv env) rnd (profile d)
      in if enabled config \<and> auto_sync_mode config = ON_SHUTDOWN \<and> has_sync_key config then callback d else d)"

end
