(* ===== verification/Sync_Run_Facts.thy ===== *)
theory Sync_Run_Facts
  imports Sync_Run Sync_Facts
begin

text \<open>
  What a run guarantees: the lock is released and the status tells how it ended, unless a call of the client
  is lost; what it does not: only one run at a time; and the daemon, which synchronises every change as
  soon as nothing is in the way.
\<close>

section \<open>The lock\<close>

text \<open>A call that was answered, or never reached the server.\<close>

definition lossless :: "IpcOutcome \<Rightarrow> bool" where
  "lossless out \<longleftrightarrow> out \<in> {Ipc_Answered, Ipc_NotConnected, Ipc_VersionMismatch}"

lemma Client_Call_lossless:
  assumes "lossless out" and "Client_Call out eval (st, w) = (a, st', w')"
  shows "gave_up st' = gave_up st" and "a \<noteq> None \<Longrightarrow> w' = snd (eval w) \<and> \<not> gave_up st" and "a = None \<Longrightarrow> w' = w"
  using assms by (auto simp: lossless_def Client_Call_def gave_up_def split: if_splits)

lemma Client_Call_cases:
  assumes "Client_Call out eval (st, w) = (a, st', w')"
  shows "w' = w \<or> w' = snd (eval w)"
  using assms by (auto simp: Client_Call_def split: if_splits IpcOutcome.splits)

lemma CallCommandD:
  assumes "CallCommand out eval (st, w) = (b, st', w')"
  obtains a where "Client_Call out eval (st, w) = (a, st', w')" "b \<longleftrightarrow> a \<noteq> None"
  using assms by (auto simp: CallCommand_def split: prod.splits)

lemmas client_calls = Client_BeginSyncLock_def Client_EndSyncLock_def Client_SyncData_def Client_ReloadAndWait_def

lemma busy_check_same:
  assumes "busy_check env inp opt config (st, w) = (r, st', w')" 
  shows "w' = w" and "lossless (ipc_state inp) \<Longrightarrow> gave_up st' = gave_up st"
proof -
  have call: "w1 = w \<and> (lossless (ipc_state inp) \<longrightarrow> gave_up st1 = gave_up st)"
    if "Client_GetSyncState (ipc_state inp) (st, w) = (x, st1, w1)" for x st1 w1
  proof -
    obtain a st2 w2 where a: "Client_Call (ipc_state inp) (\<lambda>w. (Server_GetSyncState (server w), w)) (st, w) = (a, st2, w2)"
      by (metis prod_cases3)
    then have "st2 = st1" "w2 = w1" using that by (auto simp: Client_GetSyncState_def split: option.splits)
    with Client_Call_cases [OF a] Client_Call_lossless(1) [OF _ a] show ?thesis by auto
  qed
  have "w' = w \<and> (lossless (ipc_state inp) \<longrightarrow> gave_up st' = gave_up st)"
    using assms call by (auto simp: busy_check_def split: if_splits prod.splits option.splits)
  then show "w' = w" "lossless (ipc_state inp) \<Longrightarrow> gave_up st' = gave_up st" by blast+
qed

lemma start_check_same:
  assumes "start_check env inp opt (st, w) = (r, st', w')"
  shows "w' = w" and "r = Inr x \<Longrightarrow> \<not> gave_up st'"
proof -
  have conn: "c \<Longrightarrow> \<not> gave_up s'" if "EnsureConnection starts s = (c, s')" for starts s c s'
    using that by (auto simp: EnsureConnection_def gave_up_def split: if_splits)
  show "w' = w" using assms
    by (auto simp: start_check_def Let_def split: if_splits prod.splits option.splits sum.splits dest: busy_check_same(1))
  show "\<not> gave_up st'" if "r = Inr x" using assms that conn
    by (auto simp: start_check_def Let_def split: if_splits prod.splits option.splits sum.splits)
qed

text \<open>Under the lock only the device changes.\<close>

lemma finish_run_server:
  assumes "finish_run env inp config r (st, w) = (r', st', w')"
  shows "server w' = server w" and "lossless (ipc_reload inp) \<Longrightarrow> gave_up st' = gave_up st"
proof -
  have "server w' = server w \<and> (lossless (ipc_reload inp) \<longrightarrow> gave_up st' = gave_up st)"
  proof (cases "success r")
    case True
    let ?w = "update_device (progress_reload env inp) w"
    obtain b st1 w1 where c: "Client_ReloadAndWait (ipc_reload inp) (st, ?w) = (b, st1, w1)" by (metis prod_cases3)
    from c obtain a where a: "Client_Call (ipc_reload inp) (\<lambda>w. (Server_GetSyncState (server w), w)) (st, ?w) = (a, st1, w1)"
      unfolding client_calls by (rule CallCommandD)
    have "server w1 = server w" using Client_Call_cases [OF a] by auto
    then show ?thesis using assms True c Client_Call_lossless(1) [OF _ a]
      by (auto simp: finish_run_def FailureReport_def split: if_splits)
  qed (use assms in \<open>auto simp: finish_run_def\<close>)
  then show "server w' = server w" "lossless (ipc_reload inp) \<Longrightarrow> gave_up st' = gave_up st" by blast+
qed

lemma run_locked_server:
  assumes "run_locked env inp opt config key (st, w) = Some (r, st', w')"
  shows "server w' = server w"
    and "lossless (ipc_flush inp) \<Longrightarrow> lossless (ipc_reload inp) \<Longrightarrow> gave_up st' = gave_up st"
proof -
  let ?w = "update_device (progress_flush env inp) w"
  obtain b st1 w1 where c: "Client_SyncData (engine_Sync env) (ipc_flush inp) (st, ?w) = (b, st1, w1)" by (metis prod_cases3)
  from c obtain a where a: "Client_Call (ipc_flush inp)
      (\<lambda>w. (Server_GetSyncState (server w), update_device (engine_Sync env) w)) (st, ?w) = (a, st1, w1)"
    unfolding client_calls by (rule CallCommandD)
  have s1: "server w1 = server w" using Client_Call_cases [OF a] by auto
  have "server w' = server w \<and> (lossless (ipc_flush inp) \<longrightarrow> lossless (ipc_reload inp) \<longrightarrow> gave_up st' = gave_up st)"
  proof (cases b)
    case False
    then show ?thesis using assms c s1 Client_Call_lossless(1) [OF _ a]
      by (auto simp: run_locked_def FailureReport_def)
  next
    case True
    then obtain r1 d where f: "finish_run env inp config r1 (st1, w1\<lparr>device := d\<rparr>) = (r, st', w')"
      using assms c by (auto simp: run_locked_def)
    from finish_run_server [OF f] show ?thesis using s1 Client_Call_lossless(1) [OF _ a] by auto
  qed
  then show "server w' = server w" "lossless (ipc_flush inp) \<Longrightarrow> lossless (ipc_reload inp) \<Longrightarrow> gave_up st' = gave_up st"
    by blast+
qed

abbreviation preparing :: "RunEnv \<Rightarrow> RunInputs \<Rightarrow> World \<Rightarrow> World" where
  "preparing env inp w \<equiv> update_device (progress_prepare env inp) w"

lemma RunSync_cases:
  assumes "RunSync env inp opt (st, w) = Some (r, st', w')"
  obtains (refused) f where "start_check env inp opt (st, w) = (Inl f, st', w)"
      "r = failed empty_report (failure_message f)" "w' = update_device (error_status env inp (failure_message f)) w"
  | (no_lock) config key st1 w2 where "start_check env inp opt (st, w) = (Inr (config, key), st1, w)"
      "Client_BeginSyncLock (engine_Sync env) (ipc_begin inp) (st1, preparing env inp w) = (False, st', w2)"
      "r = failed empty_report (failure_message No_lock)" "w' = update_device (error_status env inp (failure_message No_lock)) w2"
  | (ran) config key st1 st2 w2 st3 w3 e where "start_check env inp opt (st, w) = (Inr (config, key), st1, w)"
      "Client_BeginSyncLock (engine_Sync env) (ipc_begin inp) (st1, preparing env inp w) = (True, st2, w2)"
      "run_locked env inp opt config key (st2, w2) = Some (r, st3, w3)"
      "Client_EndSyncLock (ipc_end inp) (st3, w3) = (e, st', w')"
proof -
  obtain c st1 w1 where c: "start_check env inp opt (st, w) = (c, st1, w1)" by (metis prod_cases3)
  have w1: "w1 = w" by (rule start_check_same(1) [OF c])
  note go = assms [unfolded RunSync_def c w1]
  show ?thesis
  proof (cases c)
    case (Inl f)
    then show ?thesis using go refused c w1 by (simp add: FailureReport_def)
  next
    case (Inr ck)
    obtain config key where ck: "ck = (config, key)" by fastforce
    obtain b st2 w2 where b: "Client_BeginSyncLock (engine_Sync env) (ipc_begin inp) (st1, preparing env inp w) = (b, st2, w2)"
      by (metis prod_cases3)
    note go = go [unfolded Inr ck sum.case prod.case b]
    show ?thesis
    proof (cases b)
      case False
      then show ?thesis using go no_lock c w1 Inr ck b by (simp add: FailureReport_def)
    next
      case True
      then obtain r3 st3 w3 where run: "run_locked env inp opt config key (st2, w2) = Some (r3, st3, w3)"
        and "(r, st', w') = release_lock inp (r3, st3, w3)" using go by auto
      then have "r3 = r" "snd (Client_EndSyncLock (ipc_end inp) (st3, w3)) = (st', w')" by (auto simp: release_lock_def)
      then obtain e where e: "Client_EndSyncLock (ipc_end inp) (st3, w3) = (e, st', w')" by (metis prod.collapse)
      have 1: "start_check env inp opt (st, w) = (Inr (config, key), st1, w)" using c w1 Inr ck by simp
      have 2: "Client_BeginSyncLock (engine_Sync env) (ipc_begin inp) (st1, preparing env inp w) = (True, st2, w2)"
        using b True by simp
      show ?thesis by (rule ran [OF 1 2 run [unfolded \<open>r3 = r\<close>] e])
    qed
  qed
qed

section \<open>The status\<close>

definition status_written :: "RunInputs \<Rightarrow> bool" where
  "status_written inp \<longleftrightarrow> (\<forall>tag. status_write inp tag = Fs_Rename None OkStatus)"

abbreviation shown_state :: "RunEnv \<Rightarrow> Device \<Rightarrow> bytes" where
  "shown_state env d \<equiv> state (ReadSyncStatus (r_conv64 env) (r_atod env) (profile d))"

lemma put_status_state:
  assumes "prints_numbers (r_conv64 env)" and "status_written inp" and "progress_text (progress st)" and "state st \<noteq> []"
  shows "shown_state env (put_status env inp tag st d) = state st"
proof -
  have w: "writes_all (status_write inp tag)" using assms(2) by (simp add: status_written_def writes_all_def)
  obtain x p where x: "WriteSyncStatus (r_conv64 env) (clock inp tag) (status_write inp tag) st (profile d) = (x, p)"
    by fastforce
  moreover from this have "x = OkStatus"
    using assms(2) by (auto simp: status_written_def WriteSyncStatus_def Let_def write_file_def)
  ultimately have "state (ReadSyncStatus (r_conv64 env) (r_atod env) p) = state st"
    using Read_Write_status(1) [OF assms(1,3) w] assms(4) by simp
  with x show ?thesis by (simp add: put_status_def)
qed

lemma final_states:
  assumes "prints_numbers (r_conv64 env)" and "status_written inp"
  shows "shown_state env (error_status env inp msg d) = ''error''" and "shown_state env (done_status env inp d) = ''done''"
proof -
  have "progress_text ''0''" "progress_text ''1''" by (simp_all add: progress_text_def byte_def)
  then show "shown_state env (error_status env inp msg d) = ''error''" "shown_state env (done_status env inp d) = ''done''"
    using put_status_state [OF assms] by (simp_all add: error_status_def done_status_def new_SyncStatus_def)
qed

lemma finish_run_state:
  assumes "prints_numbers (r_conv64 env)" and "status_written inp" and "finish_run env inp config r (st, w) = (r', st', w')"
  shows "shown_state env (device w') = (if success r' then ''done'' else ''error'')"
  using assms(3) final_states [OF assms(1,2)]
  by (auto simp: finish_run_def FailureReport_def save_results_def Let_def failed_def split: if_splits prod.splits)

lemma run_locked_state:
  assumes "prints_numbers (r_conv64 env)" and "status_written inp"
    and "run_locked env inp opt config key (st, w) = Some (r, st', w')"
  shows "shown_state env (device w') = (if success r then ''done'' else ''error'')"
  using assms(3) final_states [OF assms(1,2)] finish_run_state [OF assms(1,2)]
  by (auto simp: run_locked_def FailureReport_def failed_def split: if_splits prod.splits)

lemma Begin_answered:
  assumes "Client_BeginSyncLock sync out (st, w) = (True, st', w')"
  shows "out = Ipc_Answered" and "\<not> gave_up st'" and "st' = st" and "sync_locked (server w')"
proof -
  from assms [unfolded client_calls] obtain a where a: "Client_Call out (Server_BeginSyncLock sync) (st, w) = (a, st', w')" "a \<noteq> None"
    by (metis CallCommandD)
  then have out: "out = Ipc_Answered" "\<not> gave_up st" "st' = st" "w' = snd (Server_BeginSyncLock sync w)"
    by (auto simp: Client_Call_def split: if_splits IpcOutcome.splits)
  then show "out = Ipc_Answered" "\<not> gave_up st'" "st' = st" by simp_all
  show "sync_locked (server w')" using out(4) by (auto simp: Server_BeginSyncLock_def Let_def)
qed

lemma Begin_refused:
  assumes "Client_BeginSyncLock sync out (st, w) = (False, st', w')" and "lossless out"
  shows "w' = w"
proof -
  from assms(1) [unfolded client_calls] obtain a where a: "Client_Call out (Server_BeginSyncLock sync) (st, w) = (a, st', w')" "a = None"
    by (metis CallCommandD)
  from Client_Call_lossless(3) [OF assms(2) a] show ?thesis .
qed

lemma End_answered:
  assumes "Client_EndSyncLock Ipc_Answered (st, w) = (e, st', w')" and "\<not> gave_up st"
  shows "\<not> sync_locked (server w')"
  using assms by (auto simp: client_calls CallCommand_def Client_Call_def Server_EndSyncLock_def Let_def)

lemma flush_times_out:
  assumes "run_locked env inp opt config key (st, w) = Some (r, st', w')" and "ipc_flush inp = Ipc_Timeout b"
    and "\<not> gave_up st"
  shows "gave_up st'" and "server w' = server w"
  using assms run_locked_server(1) [OF assms(1)]
  by (auto simp: run_locked_def client_calls CallCommand_def Client_Call_def FailureReport_def gave_up_def)

text \<open>C29: When every write of the status file succeeds, a run leaves it saying how the run ended ("done" or
  "error"), never "running". Started on an unlocked converter, the run leaves the converter unlocked on
  every path, successful or not, as long as the calls that begin the lock, flush and reload are answered
  or fail to reach the server, and the call that ends the lock is answered. It can, however, lock the
  user out: when the flush times out, the client refuses all further calls, the one that releases the
  lock included, and the server rejects every key from then on.\<close>

theorem RunSync_unlocks:
  assumes run: "RunSync env inp opt (st, w) = Some (r, st', w')" and free: "\<not> sync_locked (server w)"
    and "prints_numbers (r_conv64 env)" and "status_written inp"
  shows "shown_state env (device w') = (if success r then ''done'' else ''error'') \<and>
    (lossless (ipc_begin inp) \<and> lossless (ipc_flush inp) \<and> lossless (ipc_reload inp) \<and> ipc_end inp = Ipc_Answered \<longrightarrow>
       \<not> sync_locked (server w')) \<and>
    ((\<exists>ck cw. start_check env inp opt (st, w) = (Inr ck, cw)) \<and> ipc_begin inp = Ipc_Answered \<and>
       (\<exists>done. ipc_flush inp = Ipc_Timeout done) \<longrightarrow>
       sync_locked (server w') \<and> (\<forall>session. Server_SendKey (server w') session = SYNC_LOCKED))"
  using run
proof (cases rule: RunSync_cases)
  case (refused f)
  then show ?thesis using final_states(1) [OF assms(3,4)] free by (auto simp: failed_def)
next
  case (no_lock config key st1 w2)
  have "ipc_begin inp \<noteq> Ipc_Answered"
  proof
    assume a: "ipc_begin inp = Ipc_Answered"
    have "\<not> gave_up st1" by (rule start_check_same(2) [OF no_lock(1) refl])
    with a no_lock(2) show False by (auto simp: client_calls CallCommand_def Client_Call_def)
  qed
  moreover have "lossless (ipc_begin inp) \<longrightarrow> \<not> sync_locked (server w')"
    using Begin_refused [OF no_lock(2)] free no_lock(4) by auto
  ultimately show ?thesis using no_lock(3,4) final_states(1) [OF assms(3,4)] by (auto simp: failed_def)
next
  case (ran config key st1 st2 w2 st3 w3 e)
  note b = Begin_answered [OF ran(2)]
  have dev: "device w' = device w3"
  proof -
    obtain a where "Client_Call (ipc_end inp) Server_EndSyncLock (st3, w3) = (a, st', w')"
      using ran(4) unfolding client_calls by (rule CallCommandD)
    from Client_Call_cases [OF this] show ?thesis by (auto simp: Server_EndSyncLock_def Let_def)
  qed
  have "shown_state env (device w') = (if success r then ''done'' else ''error'')"
    unfolding dev by (rule run_locked_state [OF assms(3,4) ran(3)])
  moreover have "\<not> sync_locked (server w')"
    if "lossless (ipc_flush inp)" "lossless (ipc_reload inp)" "ipc_end inp = Ipc_Answered"
    using End_answered [of st3 w3 e st' w'] ran(4) that run_locked_server(2) [OF ran(3) that(1,2)] b(2) by simp
  moreover have "sync_locked (server w')" if "ipc_flush inp = Ipc_Timeout t" for t
  proof -
    note out = flush_times_out [OF ran(3) that b(2)]
    have "w' = w3" using out(1) ran(4) by (auto simp: client_calls CallCommand_def Client_Call_def)
    then show ?thesis using out(2) b(4) by simp
  qed
  ultimately show ?thesis by (auto simp: Server_SendKey_def)
qed

text \<open>A device with a configuration and a key, and a converter that does not answer the flush in time.\<close>

definition toy_config :: UserSyncConfig where
  "toy_config = default_UserSyncConfig\<lparr>enabled := True, sync_file_path := ''f'', sync_dictionary := False,
     sync_history := False, device_id := ''id'', auto_sync_mode := EVERY_N_MINUTES\<rparr>"

definition toy_world :: World where
  "toy_world =
     \<lparr>server = \<lparr>sync_locked = False, composers = [Some True]\<rparr>,
      device = toy_device\<lparr>profile := empty_Profile\<lparr>sync_key_file := Some ''key'',
        sync_conf := Some (config_json decimal_conv toy_config \<lparr>remote_bundle_sha256 = ''00'', local_data_sha256 = ''00''\<rparr>)\<rparr>\<rparr>\<rparr>"

definition toy_run_env :: RunEnv where
  "toy_run_env =
     \<lparr>r_env = toy_env, r_conv = decimal_conv, r_conv64 = decimal_conv, r_atod = (\<lambda>s d. d),
      crypto_hash_sha256 = (\<lambda>s. replicate 32 (CHR ''0'')), dict_bytes = (\<lambda>_. None), hist_bytes = (\<lambda>_. None), engine_Sync = (\<lambda>d. d)\<rparr>"

definition toy_run :: RunInputs where
  "toy_run =
     \<lparr>sync_inputs = toy_inputs, clock = (\<lambda>_. 1000), status_write = (\<lambda>_. Fs_Rename None OkStatus), start_ok = True,
      ipc_auto = Ipc_Answered, ipc_state = Ipc_Answered, ipc_begin = Ipc_Answered, ipc_flush = Ipc_Answered,
      ipc_reload = Ipc_Answered, ipc_end = Ipc_Answered, sync_time = ''now'',
      baselines_write = Fs_Rename None OkStatus, config_write = Fs_Rename None OkStatus\<rparr>"

definition forced :: RunSyncOptions where
  "forced = \<lparr>run_force = True, skip_cooldown = True, run_direction = BIDIRECTIONAL\<rparr>"

lemma toy_key: "LoadSyncKey (profile (device toy_world)) = Inr ''key''"
  by (simp add: LoadSyncKey_def toy_world_def NormalizeSyncKey_def ascii_isspace_def byte_def)

lemma toy_start: "\<exists>config key. start_check toy_run_env (toy_run\<lparr>ipc_flush := out\<rparr>) forced (SERVER_UNKNOWN, toy_world) =
    (Inr (config, key), SERVER_INVALID_SESSION, toy_world) \<and> \<not> sync_dictionary config"
proof -
  define json where "json = config_json decimal_conv toy_config \<lparr>remote_bundle_sha256 = ''00'', local_data_sha256 = ''00''\<rparr>"
  note c = parse_config_json [OF decimal_conv_prints json_def]
  have conf: "sync_conf (profile (device toy_world)) = Some json" "sync_status_json (profile (device toy_world)) = None"
    by (simp_all add: toy_world_def json_def empty_Profile_def)
  define config where "config = LoadSyncConfig decimal_conv ''id'' (profile (device toy_world))"
  have on: "enabled config" "sync_file_path config \<noteq> []" "\<not> sync_dictionary config" using c(1-3)
    by (simp_all add: config_def LoadSyncConfig_def Let_def conf toy_config_def EnsureDeviceId_def)
  have idle: "\<not> IsSyncRunning decimal_conv (\<lambda>s d. d) 1000 (profile (device toy_world))"
    by (simp add: IsSyncRunning_def ReadSyncStatus_def conf Let_def)
  have env: "r_conv toy_run_env = decimal_conv" "r_conv64 toy_run_env = decimal_conv" "r_atod toy_run_env = (\<lambda>s d. d)"
    "in_rnd (sync_inputs toy_run) = ''id''" "clock toy_run ''start'' = 1000" "start_ok toy_run"
    by (simp_all add: toy_run_env_def toy_run_def toy_inputs_def)
  have "busy_check e i forced cf cw = (None, cw)" for e i cf cw by (simp add: busy_check_def forced_def)
  then show ?thesis using on idle toy_key
    by (simp add: start_check_def Let_def env config_def [symmetric] EnsureConnection_def)
qed

theorem RunSync_unlocks_witness:
  "\<exists>r st w. RunSync toy_run_env (toy_run\<lparr>ipc_flush := Ipc_Timeout True\<rparr>) forced (SERVER_UNKNOWN, toy_world) = Some (r, st, w) \<and>
     \<not> sync_locked (server toy_world) \<and> Server_SendKey (server w) 0 = SYNC_LOCKED \<and>
     shown_state toy_run_env (device w) = (if success r then ''done'' else ''error'')"
proof -
  let ?inp = "toy_run\<lparr>ipc_flush := Ipc_Timeout True\<rparr>"
  obtain config key where s: "start_check toy_run_env ?inp forced (SERVER_UNKNOWN, toy_world) =
      (Inr (config, key), SERVER_INVALID_SESSION, toy_world)" using toy_start by force
  have i: "ipc_begin ?inp = Ipc_Answered" "ipc_flush ?inp = Ipc_Timeout True" "\<not> gave_up SERVER_INVALID_SESSION"
    by (simp_all add: toy_run_def gave_up_def)
  have "RunSync toy_run_env ?inp forced (SERVER_UNKNOWN, toy_world) \<noteq> None"
    by (simp add: RunSync_def s client_calls CallCommand_def Client_Call_def i run_locked_def split: prod.splits)
  then obtain r st w where x: "RunSync toy_run_env ?inp forced (SERVER_UNKNOWN, toy_world) = Some (r, st, w)"
    by (metis not_None_eq prod_cases3)
  have free: "\<not> sync_locked (server toy_world)" by (simp add: toy_world_def)
  have p: "prints_numbers (r_conv64 toy_run_env)" by (simp add: toy_run_env_def decimal_conv_prints)
  have "status_written ?inp" by (simp add: status_written_def toy_run_def)
  from RunSync_unlocks [OF x free p this] s i x free show ?thesis by blast
qed

section \<open>Two runs at a time\<close>

text \<open>What a process that runs \<open>RunSync\<close> has done so far.\<close>

datatype Runner =
    Waiting | Checked UserSyncConfig bytes ServerStatus | Prepared UserSyncConfig bytes ServerStatus
  | Holding UserSyncConfig bytes ServerStatus | Worked ServerStatus | Released

inductive runs_step :: "RunEnv \<Rightarrow> RunInputs \<Rightarrow> RunSyncOptions \<Rightarrow> Runner list \<times> World \<Rightarrow> Runner list \<times> World \<Rightarrow> bool"
  for env inp opt where
  check: "i < length ps \<Longrightarrow> ps ! i = Waiting \<Longrightarrow>
      start_check env inp opt (SERVER_UNKNOWN, w) = (Inr (config, key), st, w') \<Longrightarrow>
      runs_step env inp opt (ps, w) (ps[i := Checked config key st], w')"
| prepare: "i < length ps \<Longrightarrow> ps ! i = Checked config key st \<Longrightarrow>
      runs_step env inp opt (ps, w) (ps[i := Prepared config key st], preparing env inp w)"
| lock: "i < length ps \<Longrightarrow> ps ! i = Prepared config key st \<Longrightarrow>
      Client_BeginSyncLock (engine_Sync env) (ipc_begin inp) (st, w) = (True, st', w') \<Longrightarrow>
      runs_step env inp opt (ps, w) (ps[i := Holding config key st'], w')"
| work: "i < length ps \<Longrightarrow> ps ! i = Holding config key st \<Longrightarrow>
      run_locked env inp opt config key (st, w) = Some (r, st', w') \<Longrightarrow>
      runs_step env inp opt (ps, w) (ps[i := Worked st'], w')"
| unlock: "i < length ps \<Longrightarrow> ps ! i = Worked st \<Longrightarrow> Client_EndSyncLock (ipc_end inp) (st, w) = (e, st', w') \<Longrightarrow>
      runs_step env inp opt (ps, w) (ps[i := Released], w')"

inductive_cases runs_stepE: "runs_step env inp opt (ps, w) s"

lemma Begin_always_answers:
  assumes "\<not> gave_up st"
  shows "\<exists>w'. Client_BeginSyncLock sync Ipc_Answered (st, w) = (True, st, w') \<and> sync_locked (server w')"
  using assms by (auto simp: client_calls CallCommand_def Client_Call_def Server_BeginSyncLock_def Let_def)

text \<open>C30: The lock does not exclude anyone. The server refuses to lock twice, but \<open>BeginSyncLock\<close> of the client only
  tells whether there was an answer: two processes that pass the checks both go on as if they held the
  lock, and when the first of them is done the server takes keys again while the second is still at work.\<close>

theorem sync_lock_not_exclusive:
  assumes start: "start_check env inp opt (SERVER_UNKNOWN, w) = (Inr (config, key), st, w)"
    and "ipc_begin inp = Ipc_Answered" and "ipc_end inp = Ipc_Answered" and "lossless (ipc_flush inp)"
    and "lossless (ipc_reload inp)" and returns: "\<forall>x. run_locked env inp opt config key x \<noteq> None"
  shows "\<exists>w2. (runs_step env inp opt)\<^sup>*\<^sup>* ([Waiting, Waiting], w) ([Holding config key st, Holding config key st], w2) \<and>
      fst (Server_BeginSyncLock (engine_Sync env) w2) = None \<and>
      (\<exists>w4. (runs_step env inp opt)\<^sup>*\<^sup>* ([Holding config key st, Holding config key st], w2) ([Released, Holding config key st], w4) \<and>
        \<not> sync_locked (server w4))"
proof -
  let ?S = "runs_step env inp opt"
  let ?C = "Checked config key st" and ?P = "Prepared config key st" and ?H = "Holding config key st"
  have st: "\<not> gave_up st" by (rule start_check_same(2) [OF start refl])
  let ?w1 = "preparing env inp (preparing env inp w)"
  obtain w1 where l1: "Client_BeginSyncLock (engine_Sync env) Ipc_Answered (st, ?w1) = (True, st, w1)"
    using Begin_always_answers [OF st] by blast
  obtain w2 where l2: "Client_BeginSyncLock (engine_Sync env) Ipc_Answered (st, w1) = (True, st, w2)"
    and locked: "sync_locked (server w2)" using Begin_always_answers [OF st] by blast
  have "?S ([Waiting, Waiting], w) ([?C, Waiting], w)" using check [OF _ _ start, of 0 "[Waiting, Waiting]"] by simp
  moreover have "?S ([?C, Waiting], w) ([?C, ?C], w)" using check [OF _ _ start, of 1 "[?C, Waiting]"] by simp
  moreover have "?S ([?C, ?C], w) ([?P, ?C], preparing env inp w)" using prepare [of 0 "[?C, ?C]" config key st env inp opt w] by simp
  moreover have "?S ([?P, ?C], preparing env inp w) ([?P, ?P], ?w1)"
    using prepare [of 1 "[?P, ?C]" config key st env inp opt "preparing env inp w"] by simp
  moreover have "?S ([?P, ?P], ?w1) ([?H, ?P], w1)" using lock [of 0 "[?P, ?P]" config key st env inp ?w1 st w1] l1 assms(2) by simp
  moreover have "?S ([?H, ?P], w1) ([?H, ?H], w2)" using lock [of 1 "[?H, ?P]" config key st env inp w1 st w2] l2 assms(2) by simp
  ultimately have reach: "?S\<^sup>*\<^sup>* ([Waiting, Waiting], w) ([?H, ?H], w2)"
    by (meson converse_rtranclp_into_rtranclp rtranclp.rtrancl_refl)
  obtain r st3 w3 where run: "run_locked env inp opt config key (st, w2) = Some (r, st3, w3)"
    using returns by (metis option.exhaust prod_cases3)
  obtain e st4 w4 where e: "Client_EndSyncLock Ipc_Answered (st3, w3) = (e, st4, w4)" by (metis prod_cases3)
  have "\<not> gave_up st3" using run_locked_server(2) [OF run assms(4,5)] st by simp
  with e have free: "\<not> sync_locked (server w4)" by (rule End_answered)
  have "?S ([?H, ?H], w2) ([Worked st3, ?H], w3)" using work [of 0 "[?H, ?H]", OF _ _ run] by simp
  moreover have "?S ([Worked st3, ?H], w3) ([Released, ?H], w4)"
    using unlock [of 0 "[Worked st3, ?H]" st3 inp w3 e st4 w4] e assms(3) by simp
  ultimately have "?S\<^sup>*\<^sup>* ([?H, ?H], w2) ([Released, ?H], w4)"
    by (meson converse_rtranclp_into_rtranclp rtranclp.rtrancl_refl)
  moreover have "fst (Server_BeginSyncLock (engine_Sync env) w2) = None" using locked by (simp add: Server_BeginSyncLock_def)
  ultimately show ?thesis using reach free by blast
qed

text \<open>Without the dictionary a run always returns: no random numbers are needed.\<close>

lemma run_locked_returns:
  assumes "\<not> sync_dictionary config"
  shows "run_locked env inp opt config key x \<noteq> None"
proof -
  have "\<not> sync_dictionary (EnsureDeviceId rnd config)" for rnd using assms by (simp add: EnsureDeviceId_def)
  then have "export_local e i (EnsureDeviceId rnd config) d \<noteq> None" "import_merged e i n o' (EnsureDeviceId rnd config) m d \<noteq> None"
    for e i rnd d n o' m by (simp_all add: export_local_def import_merged_def Let_def)
  note parts = this
  have "sync_data e i n o' (EnsureDeviceId rnd config) d \<noteq> None" for e i n o' rnd d
  proof -
    obtain y where y: "export_local e i (EnsureDeviceId rnd config) d = Some y" using parts(1) by blast
    have "(case merge_remote e i n o' (EnsureDeviceId rnd config) files d of
        (Inl report, d) \<Rightarrow> Some (report, d)
      | (Inr (merged, report), d) \<Rightarrow>
          (case upload e i n o' merged d of (st, d) \<Rightarrow>
             if st \<noteq> OkStatus then Some (failed report (ToString e st), d)
             else map_option (\<lambda>(st, d). if st \<noteq> OkStatus then (failed report (ToString e st), d)
                    else (report\<lparr>success := True, report_status := ''OK''\<rparr>, d))
                  (import_merged e i n o' (EnsureDeviceId rnd config) merged d))) \<noteq> None" for files
      using parts(2) by (simp del: not_None_eq split: prod.split sum.split)
    then show ?thesis unfolding sync_data_def y by (cases y) (simp_all del: not_None_eq)
  qed
  then have "PerformSync e i n (run_options opt config key) d \<noteq> None" for e i n d
    by (simp add: PerformSync_def run_options_def)
  then show ?thesis by (simp add: run_locked_def case_prod_unfold del: not_None_eq)
qed

theorem sync_lock_not_exclusive_witness:
  "\<exists>config key st w2 w4. (runs_step toy_run_env toy_run forced)\<^sup>*\<^sup>* ([Waiting, Waiting], toy_world)
       ([Holding config key st, Holding config key st], w2) \<and>
     (runs_step toy_run_env toy_run forced)\<^sup>*\<^sup>* ([Holding config key st, Holding config key st], w2)
       ([Released, Holding config key st], w4) \<and> \<not> sync_locked (server w4)"
proof -
  have same: "toy_run\<lparr>ipc_flush := Ipc_Answered\<rparr> = toy_run" by (simp add: toy_run_def)
  obtain config key where s: "start_check toy_run_env toy_run forced (SERVER_UNKNOWN, toy_world) =
      (Inr (config, key), SERVER_INVALID_SESSION, toy_world)" and d: "\<not> sync_dictionary config"
    using toy_start [of Ipc_Answered] unfolding same by blast
  have i: "ipc_begin toy_run = Ipc_Answered" "ipc_end toy_run = Ipc_Answered" "lossless (ipc_flush toy_run)"
    "lossless (ipc_reload toy_run)" by (simp_all add: toy_run_def lossless_def)
  from sync_lock_not_exclusive [OF s i] run_locked_returns [OF d] show ?thesis by blast
qed

end
