(* ===== verification/Sync_Daemon.thy ===== *)
theory Sync_Daemon
  imports Sync_Run_Facts
begin

text \<open>
  The daemon as a reactive program: rounds that may fail for any reason, with anything happening in
  between. No change of the data is forgotten, and the first round in which nothing is in the way
  synchronises it.
\<close>

section \<open>What a run leaves alone\<close>

abbreviation conf :: "Device \<Rightarrow> bytes option" where "conf d \<equiv> sync_conf (profile d)"

abbreviation baselines :: "World \<Rightarrow> SyncFingerprintSnapshot" where
  "baselines w \<equiv> LoadSyncBaselines (profile (device w))"

lemma baselines_conf: "conf (device w) = conf (device w') \<Longrightarrow> baselines w = baselines w'"
  by (simp add: LoadSyncBaselines_def)

lemma put_status_same:
  "conf (put_status env inp tag st d) = conf d" "data_of (put_status env inp tag st d) = data_of d"
  "sync_key_file (profile (put_status env inp tag st d)) = sync_key_file (profile d)"
proof -
  obtain x p where "WriteSyncStatus (r_conv64 env) (clock inp tag) (status_write inp tag) st (profile d) = (x, p)" by fastforce
  with WriteSyncStatus_other [OF this] show "conf (put_status env inp tag st d) = conf d"
    "data_of (put_status env inp tag st d) = data_of d"
    "sync_key_file (profile (put_status env inp tag st d)) = sync_key_file (profile d)"
    by (simp_all add: put_status_def data_of_def)
qed

lemmas status_writers = SetProgress_def error_status_def done_status_def progress_prepare_def progress_flush_def
  progress_merge_def progress_reload_def

lemma status_same [simp]:
  "conf (SetProgress env inp ph pr msg d) = conf d" "conf (error_status env inp msg d) = conf d" "conf (done_status env inp d) = conf d"
  "conf (progress_prepare env inp d) = conf d" "conf (progress_flush env inp d) = conf d"
  "conf (progress_merge env inp d) = conf d" "conf (progress_reload env inp d) = conf d"
  "data_of (done_status env inp d) = data_of d"
  by (simp_all only: status_writers put_status_same)

lemma merge_files_conf:
  "merge_dictionary_files env inp config lf rf (m, r, d) = (m', r', d') \<Longrightarrow> conf d' = conf d"
  by (auto simp: merge_dictionary_files_def SaveLocalDictionaryTombstones_def split: prod.splits if_splits)

definition keeps_conf :: "notify \<Rightarrow> bool" where
  "keeps_conf notify \<longleftrightarrow> (\<forall>ph pr msg d. conf (notify ph pr msg d) = conf d)"

lemma keeps_confD:
  assumes "keeps_conf notify"
  shows "conf (notify_export notify d) = conf d" "conf (notify_download notify d) = conf d"
    "conf (notify_upload notify d) = conf d" "conf (notify_import notify d) = conf d"
  using assms by (simp_all add: keeps_conf_def notify_export_def notify_download_def notify_upload_def notify_import_def)

lemma merge_remote_conf:
  assumes "keeps_conf notify" and run: "merge_remote env inp notify opt config local_files d = (r, d')"
  shows "conf d' = conf d"
proof (cases "opt_direction opt = UPLOAD")
  case False
  define d1 where "d1 = notify_download notify d"
  have d1: "conf d1 = conf d" using keeps_confD(2) [OF assms(1)] by (simp add: d1_def)
  note run = run [unfolded merge_remote_def if_not_P [OF False] Let_def d1_def [symmetric]]
  consider (none) "read_remote env inp opt d1 = None" | (bad) st where "read_remote env inp opt d1 = Some (Inl st)"
    | (files) rf where "read_remote env inp opt d1 = Some (Inr rf)" by (metis not_None_eq sum.exhaust)
  then show ?thesis
  proof cases
    case files
    obtain m2 r2 d2 where 2: "(if sync_dictionary config
        then merge_dictionary_files env inp config local_files rf (local_files, empty_report, d1)
        else (local_files, empty_report, d1)) = (m2, r2, d2)" by (metis prod_cases3)
    obtain m3 r3 d3 where 3: "(if sync_history config then merge_history_files env local_files rf (m2, r2, d2)
        else (m2, r2, d2)) = (m3, r3, d3)" by (metis prod_cases3)
    have "conf d2 = conf d1" using 2 merge_files_conf by (auto split: if_splits)
    moreover have "d3 = d2" using 3 merge_files_same(2) by (auto split: if_splits)
    moreover have "d' = d3" using run unfolding files option.case sum.case 2 3 by simp
    ultimately show ?thesis using d1 by simp
  qed (use run d1 in \<open>auto split: if_splits\<close>)
qed (use run in \<open>simp add: merge_remote_def\<close>)

lemma upload_conf:
  assumes "keeps_conf notify" and "upload env inp notify opt merged d = (st, d')"
  shows "conf d' = conf d"
  using assms(2) keeps_confD(3) [OF assms(1)]
  by (auto simp: upload_def Let_def write_file_def split: if_splits sum.splits FsOutcome.splits)

lemma import_conf:
  assumes "keeps_conf notify" and "import_merged env inp notify opt config merged d = Some (st, d')"
  shows "conf d' = conf d"
  using assms(2) keeps_confD(4) [OF assms(1)]
  by (auto simp: import_merged_def import_history_def Let_def split: if_splits option.splits prod.splits bool.splits)

lemma PerformSync_conf:
  assumes k: "keeps_conf notify" and run: "PerformSync env inp notify opt d = Some (r, d')"
  shows "conf d' = conf d"
  using run
proof (cases rule: PerformSync_cases)
  case run
  define config d0 where "config = EnsureDeviceId (in_rnd inp) (opt_config opt)" and "d0 = notify_export notify d"
  have d0: "conf d0 = conf d" using keeps_confD(1) [OF k] by (simp add: d0_def)
  note go = run(1) [folded config_def d0_def]
  obtain x where x: "export_local env inp config d0 = Some x"
    using go by (cases "export_local env inp config d0") (auto simp: sync_data_def)
  show ?thesis
  proof (cases x)
    case (Inl report)
    then show ?thesis using go x d0 by (simp add: sync_data_def)
  next
    case (Inr files)
    obtain y d1 where y: "merge_remote env inp notify opt config files d0 = (y, d1)" by fastforce
    note 1 = merge_remote_conf [OF k y]
    show ?thesis
    proof (cases y)
      case (Inl report)
      then show ?thesis using go x Inr y 1 d0 by (simp add: sync_data_def)
    next
      case my: (Inr mr)
      obtain merged report where mr: "mr = (merged, report)" by fastforce
      obtain st d2 where u: "upload env inp notify opt merged d1 = (st, d2)" by fastforce
      have 2: "conf d2 = conf d" using upload_conf [OF k u] 1 d0 by simp
      note go = go [unfolded sync_data_def x Inr]
      show ?thesis
      proof (cases "st = OkStatus")
        case True
        then obtain st' d3 where i: "import_merged env inp notify opt config merged d2 = Some (st', d3)" "d' = d3"
          using go y my mr u by (auto split: if_splits)
        show ?thesis using import_conf [OF k i(1)] i(2) 2 by simp
      qed (use go y my mr u 2 in simp)
    qed
  qed
qed simp

section \<open>Rounds that fail\<close>

definition engine_keeps_conf :: "RunEnv \<Rightarrow> bool" where
  "engine_keeps_conf env \<longleftrightarrow> (\<forall>d. conf (engine_Sync env d) = conf d)"

lemma Begin_conf:
  assumes "engine_keeps_conf env" and "Client_BeginSyncLock (engine_Sync env) out (st, w) = (b, st', w')"
  shows "conf (device w') = conf (device w)"
proof -
  obtain a where "Client_Call out (Server_BeginSyncLock (engine_Sync env)) (st, w) = (a, st', w')"
    using assms(2) unfolding client_calls by (rule CallCommandD)
  from Client_Call_cases [OF this] assms(1) show ?thesis
    by (auto simp: Server_BeginSyncLock_def Let_def engine_keeps_conf_def)
qed

lemma End_device:
  assumes "Client_EndSyncLock out (st, w) = (b, st', w')"
  shows "device w' = device w"
proof -
  obtain a where "Client_Call out Server_EndSyncLock (st, w) = (a, st', w')"
    using assms unfolding client_calls by (rule CallCommandD)
  from Client_Call_cases [OF this] show ?thesis by (auto simp: Server_EndSyncLock_def Let_def)
qed

lemma finish_failed_conf:
  assumes "finish_run env inp config r (st, w) = (r', st', w')" and "\<not> success r'"
  shows "conf (device w') = conf (device w)"
proof (cases "success r")
  case True
  obtain b st1 w1 where c: "Client_ReloadAndWait (ipc_reload inp) (st, update_device (progress_reload env inp) w) = (b, st1, w1)"
    by (metis prod_cases3)
  then obtain a where "Client_Call (ipc_reload inp) (\<lambda>w. (Server_GetSyncState (server w), w))
      (st, update_device (progress_reload env inp) w) = (a, st1, w1)"
    unfolding client_calls by (rule CallCommandD)
  from Client_Call_cases [OF this] have "conf (device w1) = conf (device w)" by auto
  then show ?thesis using assms c True by (auto simp: finish_run_def FailureReport_def split: if_splits)
qed (use assms in \<open>auto simp: finish_run_def\<close>)

lemma run_locked_failed_conf:
  assumes e: "engine_keeps_conf env" and run: "run_locked env inp opt config key (st, w) = Some (r, st', w')" and "\<not> success r"
  shows "conf (device w') = conf (device w)"
proof -
  obtain b st1 w1 where c: "Client_SyncData (engine_Sync env) (ipc_flush inp) (st, update_device (progress_flush env inp) w) = (b, st1, w1)"
    by (metis prod_cases3)
  then obtain a where "Client_Call (ipc_flush inp) (\<lambda>w. (Server_GetSyncState (server w), update_device (engine_Sync env) w))
      (st, update_device (progress_flush env inp) w) = (a, st1, w1)"
    unfolding client_calls by (rule CallCommandD)
  from Client_Call_cases [OF this] have 1: "conf (device w1) = conf (device w)"
    using e by (auto simp: engine_keeps_conf_def)
  show ?thesis
  proof (cases b)
    case False
    then show ?thesis using run c 1 by (auto simp: run_locked_def FailureReport_def)
  next
    case True
    then obtain r1 d where p: "PerformSync (r_env env) (sync_inputs inp) (SetProgress env inp) (run_options opt config key)
        (progress_merge env inp (device w1)) = Some (r1, d)"
      and f: "finish_run env inp config r1 (st1, w1\<lparr>device := d\<rparr>) = (r, st', w')"
      using run c by (auto simp: run_locked_def)
    have "keeps_conf (SetProgress env inp)" by (simp add: keeps_conf_def)
    from PerformSync_conf [OF this p] finish_failed_conf [OF f assms(3)] 1 show ?thesis by simp
  qed
qed

lemma failed_run_conf:
  assumes e: "engine_keeps_conf env" and run: "RunSync env inp opt (st, w) = Some (r, st', w')" and "\<not> success r"
  shows "conf (device w') = conf (device w)"
  using run
proof (cases rule: RunSync_cases)
  case no_lock
  then show ?thesis using Begin_conf [OF e no_lock(2)] by simp
next
  case ran
  then show ?thesis using Begin_conf [OF e ran(2)] run_locked_failed_conf [OF e ran(3) assms(3)] End_device [OF ran(4)] by simp
qed simp

definition poll_config :: "RunEnv \<Rightarrow> RunInputs \<Rightarrow> World \<Rightarrow> UserSyncConfig" where
  "poll_config env inp w = LoadSyncConfig (r_conv env) (in_rnd (sync_inputs inp)) (profile (device w))"

definition current :: "RunEnv \<Rightarrow> RunInputs \<Rightarrow> World \<Rightarrow> SyncFingerprintSnapshot" where
  "current env inp w = CaptureSyncFingerprints env (poll_config env inp w) (device w)"

definition synced :: "UserSyncReport option \<Rightarrow> bool" where
  "synced rpt \<longleftrightarrow> (\<exists>r. rpt = Some r \<and> success r)"

lemma poll_changed:
  assumes "EvaluateIntervalSync (baselines w) (current env inp w) = kSync"
  shows "HandleIntervalPoll env inp (poll_config env inp w) (device w) =
    (auto_sync_mode (poll_config env inp w) = EVERY_N_MINUTES, device w)"
  using assms by (simp add: HandleIntervalPoll_def Let_def current_def)

lemma CanAutoSync_device:
  assumes "CanAutoSync env inp cooldown (st, w) = (b, st', w')"
  shows "w' = w"
proof -
  obtain c st1 where c: "EnsureConnection (start_ok inp) st = (c, st1)" by fastforce
  obtain x st2 w2 where x: "Client_GetSyncState (ipc_auto inp) (st1, w) = (x, st2, w2)" by (metis prod_cases3)
  obtain a st3 w3 where a: "Client_Call (ipc_auto inp) (\<lambda>w. (Server_GetSyncState (server w), w)) (st1, w) = (a, st3, w3)"
    by (metis prod_cases3)
  have "w3 = w" using Client_Call_cases [OF a] by auto
  then have "w2 = w" using x a by (auto simp: Client_GetSyncState_def split: option.splits)
  then show ?thesis using assms c x by (auto simp: CanAutoSync_def Let_def split: if_splits option.splits)
qed

lemma failed_round_keeps:
  assumes e: "engine_keeps_conf env" and round: "daemon_round env inp w = Some (rpt, w')" and "\<not> synced rpt"
    and ch: "EvaluateIntervalSync (baselines w) (current env inp w) = kSync"
  shows "baselines w' = baselines w"
proof -
  obtain can st1 w1 where c: "CanAutoSync env inp (sync_cooldown_seconds (poll_config env inp w)) (SERVER_UNKNOWN, w) = (can, st1, w1)"
    by (metis prod_cases3)
  have w1: "w1 = w" by (rule CanAutoSync_device [OF c])
  note go = round [unfolded daemon_round_def Let_def poll_config_def [symmetric] poll_changed [OF ch]]
  have "conf (device w') = conf (device w)"
  proof (cases "enabled (poll_config env inp w) \<and> has_sync_key (poll_config env inp w) \<and>
      auto_sync_mode (poll_config env inp w) = EVERY_N_MINUTES \<and> can")
    case True
    then have "map_option (\<lambda>(r, _, w). (Some r, w)) (RunSync env inp auto_options (st1, w)) = Some (rpt, w')"
      using go c w1 by simp
    then obtain r st' where r: "RunSync env inp auto_options (st1, w) = Some (r, st', w')" "rpt = Some r" by auto
    show ?thesis using failed_run_conf [OF e r(1)] r(2) assms(3) by (simp add: synced_def)
  qed (use go c w1 in \<open>auto split: if_splits\<close>)
  then show ?thesis by (rule baselines_conf)
qed

section \<open>Rounds with nothing in the way\<close>

text \<open>The device as \<open>PerformSync\<close> gets it, when every call is answered.\<close>

definition merge_device :: "RunEnv \<Rightarrow> RunInputs \<Rightarrow> Device \<Rightarrow> Device" where
  "merge_device env inp d =
     progress_merge env inp (engine_Sync env (progress_flush env inp (engine_Sync env (progress_prepare env inp d))))"

definition performs :: "RunEnv \<Rightarrow> RunInputs \<Rightarrow> World \<Rightarrow> bool" where
  "performs env inp w \<longleftrightarrow>
     (\<exists>key r d. LoadSyncKey (profile (device w)) = Inr key \<and>
        PerformSync (r_env env) (sync_inputs inp) (SetProgress env inp) (run_options auto_options (poll_config env inp w) key)
          (merge_device env inp (device w)) = Some (r, d) \<and> success r)"

text \<open>Automatic synchronisation is on, the user is not typing and has not been for long enough, the converter
  answers, the files can be written, and the bundle can be read and written.\<close>

definition ready :: "RunEnv \<Rightarrow> RunInputs \<Rightarrow> World \<Rightarrow> bool" where
  "ready env inp w \<longleftrightarrow>
     enabled (poll_config env inp w) \<and> auto_sync_mode (poll_config env inp w) = EVERY_N_MINUTES \<and>
     sync_file_path (poll_config env inp w) \<noteq> [] \<and>
     \<not> sync_locked (server w) \<and> Some False \<notin> set (composers (server w)) \<and>
     (\<forall>t. \<not> IsSyncRunning (r_conv64 env) (r_atod env) (clock inp t) (profile (device w))) \<and>
     (\<forall>t. CooldownElapsed (r_conv64 env) (clock inp t) (sync_cooldown_seconds (poll_config env inp w)) (profile (device w))) \<and>
     start_ok inp \<and> ipc_auto inp = Ipc_Answered \<and> ipc_state inp = Ipc_Answered \<and> ipc_begin inp = Ipc_Answered \<and>
     ipc_flush inp = Ipc_Answered \<and> ipc_reload inp = Ipc_Answered \<and>
     baselines_write inp = Fs_Rename None OkStatus \<and> config_write inp = Fs_Rename None OkStatus \<and> performs env inp w"

definition caught_up :: "RunEnv \<Rightarrow> UserSyncConfig \<Rightarrow> World \<Rightarrow> bool" where
  "caught_up env config w \<longleftrightarrow>
     EvaluateIntervalSync (baselines w) (CaptureSyncFingerprints env config (device w)) = kSkip"

lemma GetSyncState_answered:
  "\<not> gave_up st \<Longrightarrow> Client_GetSyncState Ipc_Answered (st, w) =
    (Some \<lparr>st_sync_locked = sync_locked (server w), st_any_composing = (\<exists>c \<in> set (composers (server w)). c = Some False),
       st_active_session_count = length (filter (\<lambda>c. c \<noteq> None) (composers (server w)))\<rparr>, st, w)"
  by (simp add: Client_GetSyncState_def Client_Call_def Server_GetSyncState_def)

lemma capture_same:
  "data_of d = data_of d' \<Longrightarrow> CaptureSyncFingerprints env config d = CaptureSyncFingerprints env config d'"
  by (simp add: CaptureSyncFingerprints_def LocalSyncDataSha256_def data_of_def)

lemma saved_baselines:
  assumes "prints_numbers conv" and "sync_conf p = Some (config_json conv c b)"
  shows "LoadSyncBaselines p = b"
  using parse_config_json(9,10) [OF assms(1) refl] by (simp add: LoadSyncBaselines_def assms(2))

lemma save_results_caught_up:
  assumes conv: "prints_numbers (r_conv env)" and sha: "\<forall>s. length (crypto_hash_sha256 env s) = 32"
    and w: "baselines_write inp = Fs_Rename None OkStatus" "config_write inp = Fs_Rename None OkStatus"
    and w': "device w' = save_results env inp config r d"
  shows "caught_up env config w'"
proof -
  define S where "S = CaptureSyncFingerprints env config d"
  define c2 where "c2 = config\<lparr>last_sync_time := sync_time inp, last_sync_status := ''OK'', last_sync_message := last_message env r\<rparr>"
  define rnd where "rnd = in_rnd (sync_inputs inp)"
  define j1 where "j1 = config_json (r_conv env) (EnsureDeviceId rnd (LoadSyncConfig (r_conv env) rnd (profile d))) S"
  define p1 where "p1 = (profile d)\<lparr>sync_conf := Some j1\<rparr>"
  have 1: "snd (SaveSyncBaselines (r_conv env) rnd (baselines_write inp) S (profile d)) = p1"
    by (simp add: SaveSyncBaselines_def write_config_def write_file_def w p1_def j1_def)
  have b1: "LoadSyncBaselines p1 = S" by (rule saved_baselines [OF conv]) (simp add: p1_def j1_def)
  define p2 where "p2 = p1\<lparr>sync_conf := Some (config_json (r_conv env) (EnsureDeviceId rnd c2) S)\<rparr>"
  have 2: "snd (SaveSyncConfig (r_conv env) rnd (config_write inp) c2 p1) = p2"
    by (simp add: SaveSyncConfig_def write_config_def write_file_def w b1 p2_def)
  have snap: "CaptureSyncFingerprints env c2 d = S"
    by (simp add: S_def c2_def CaptureSyncFingerprints_def LocalSyncDataSha256_def)
  have dev: "device w' = done_status env inp (d\<lparr>profile := p2\<rparr>)"
    unfolding w' save_results_def Let_def c2_def [symmetric] rnd_def [symmetric] snap by (simp add: 1 2)
  have "LoadSyncBaselines p2 = S" by (rule saved_baselines [OF conv]) (simp add: p2_def)
  then have "baselines w' = S" by (simp add: dev LoadSyncBaselines_def)
  moreover have "data_of (d\<lparr>profile := p2\<rparr>) = data_of d" by (simp add: data_of_def p2_def p1_def)
  then have "data_of (device w') = data_of d" by (simp add: dev)
  then have "CaptureSyncFingerprints env config (device w') = S" unfolding S_def by (rule capture_same)
  moreover have "local_data_sha256 S \<noteq> []"
  proof -
    have "crypto_hash_sha256 env s \<noteq> []" for s using sha [rule_format, of s] by auto
    then show ?thesis by (simp add: S_def CaptureSyncFingerprints_def LocalSyncDataSha256_def Sha256Hex_def BytesToHex_def)
  qed
  ultimately show ?thesis by (simp add: caught_up_def EvaluateIntervalSync_kSkip)
qed

lemma ready_round:
  assumes conv: "prints_numbers (r_conv env)" and sha: "\<forall>s. length (crypto_hash_sha256 env s) = 32"
    and rd: "ready env inp w" and ch: "EvaluateIntervalSync (baselines w) (current env inp w) = kSync"
  shows "\<exists>r w'. daemon_round env inp w = Some (Some r, w') \<and> success r \<and> caught_up env (poll_config env inp w) w'"
proof -
  let ?config = "poll_config env inp w"
  obtain key r d where key: "LoadSyncKey (profile (device w)) = Inr key"
    and p: "PerformSync (r_env env) (sync_inputs inp) (SetProgress env inp) (run_options auto_options ?config key)
      (merge_device env inp (device w)) = Some (r, d)" and r: "success r"
    using rd unfolding ready_def performs_def by blast
  note R = rd [unfolded ready_def]
  have has_key: "has_sync_key ?config" by (simp add: poll_config_def LoadSyncConfig_def Let_def HasStoredSyncKey_def key)
  have calm: "\<not> (\<exists>c \<in> set (composers (server w)). c = Some False)" using R by blast
  let ?st = SERVER_INVALID_SESSION
  have st: "\<not> gave_up ?st" by (simp add: gave_up_def)
  have can: "CanAutoSync env inp (sync_cooldown_seconds ?config) (SERVER_UNKNOWN, w) = (True, ?st, w)"
    using R calm by (simp add: CanAutoSync_def Let_def EnsureConnection_def GetSyncState_answered [OF st])
  have start: "start_check env inp auto_options (?st, w) = (Inr (?config, key), ?st, w)"
    using R calm key by (simp add: start_check_def Let_def poll_config_def [symmetric] busy_check_def auto_options_def
        GetSyncState_answered [OF st] EnsureConnection_def)
  define w2 where "w2 = \<lparr>server = (server w)\<lparr>sync_locked := True\<rparr>, device = engine_Sync env (progress_prepare env inp (device w))\<rparr>"
  have bgn: "Client_BeginSyncLock (engine_Sync env) (ipc_begin inp) (?st, preparing env inp w) = (True, ?st, w2)"
    using R st by (simp add: client_calls CallCommand_def Client_Call_def Server_BeginSyncLock_def Let_def w2_def)
  have flush: "Client_SyncData (engine_Sync env) (ipc_flush inp) (?st, update_device (progress_flush env inp) w2) =
      (True, ?st, update_device (\<lambda>d. engine_Sync env (progress_flush env inp d)) w2)"
    using R st by (simp add: client_calls CallCommand_def Client_Call_def)
  have dev: "progress_merge env inp (engine_Sync env (progress_flush env inp (device w2))) = merge_device env inp (device w)"
    by (simp add: w2_def merge_device_def)
  define w3 where "w3 = w2\<lparr>device := d\<rparr>"
  have run: "run_locked env inp auto_options ?config key (?st, w2) = Some (finish_run env inp ?config r (?st, w3))"
    by (simp add: run_locked_def flush dev p w3_def)
  have fin: "finish_run env inp ?config r (?st, w3) =
      (r, ?st, update_device (\<lambda>d. save_results env inp ?config r (progress_reload env inp d)) w3)"
    using R st r by (simp add: finish_run_def client_calls CallCommand_def Client_Call_def)
  define w4 where "w4 = update_device (\<lambda>d. save_results env inp ?config r (progress_reload env inp d)) w3"
  obtain e st5 w5 where e: "Client_EndSyncLock (ipc_end inp) (?st, w4) = (e, st5, w5)" by (metis prod_cases3)
  have "RunSync env inp auto_options (?st, w) = Some (r, st5, w5)"
    using e by (simp add: RunSync_def start bgn run fin w4_def release_lock_def)
  then have "daemon_round env inp w = Some (Some r, w5)"
    using R has_key by (simp add: daemon_round_def Let_def poll_config_def [symmetric] poll_changed [OF ch] can)
  moreover have "caught_up env ?config w5"
    by (rule save_results_caught_up [OF conv sha]) (use R End_device [OF e] in \<open>simp_all add: w4_def\<close>)
  ultimately show ?thesis using r by blast
qed

section \<open>Every change is synchronised\<close>

text \<open>C28: The daemon synchronises every change. However its rounds fail, and whatever happens to the data between
  them: from a round on in which the data differs from the fingerprints of the last synchronisation, and as
  long as it does, the fingerprints are kept until a round synchronises; and that happens at the latest in the
  first round in which nothing is in the way, after which the daemon is caught up. (The configuration is assumed
  not to be edited meanwhile, and the engine not to write it.)\<close>

theorem daemon_syncs_every_change:
  assumes "engine_keeps_conf env" and "prints_numbers (r_conv env)" and "\<forall>s. length (crypto_hash_sha256 env s) = 32"
    and rounds: "\<forall>i\<in>{n..N}. daemon_round env (inp i) (v i) = Some (rpt i, w i)"
    and asleep: "\<forall>i\<in>{n..<N}. conf (device (v (Suc i))) = conf (device (w i))"
    and fair: "n \<le> N" "ready env (inp N) (v N)"
    and changed: "\<forall>m\<in>{n..N}. (\<forall>k\<in>{n..<m}. \<not> synced (rpt k)) \<longrightarrow>
      EvaluateIntervalSync (baselines (v n)) (current env (inp m) (v m)) = kSync"
  shows "\<exists>m\<in>{n..N}. synced (rpt m) \<and> (\<forall>k\<in>{n..<m}. \<not> synced (rpt k)) \<and>
    (\<forall>k\<in>{n..m}. baselines (v k) = baselines (v n)) \<and>
    (ready env (inp m) (v m) \<longrightarrow> caught_up env (poll_config env (inp m) (v m)) (w m))"
proof -
  have keep: "baselines (v m) = baselines (v n)" if "n \<le> m" "m \<le> N" "\<forall>k\<in>{n..<m}. \<not> synced (rpt k)" for m
    using that
  proof (induction m rule: dec_induct)
    case (step m)
    then have IH: "baselines (v m) = baselines (v n)" and m: "m \<in> {n..N}" by simp_all
    have "EvaluateIntervalSync (baselines (v m)) (current env (inp m) (v m)) = kSync"
      using changed [rule_format, OF m] step IH by simp
    moreover have "\<not> synced (rpt m)" using step by simp
    ultimately have "baselines (w m) = baselines (v m)"
      using failed_round_keeps [OF assms(1) rounds [rule_format, OF m]] by blast
    then show ?case using IH baselines_conf [OF asleep [rule_format, of m]] step by simp
  qed simp
  have ok: "synced (rpt m) \<and> caught_up env (poll_config env (inp m) (v m)) (w m)"
    if m: "m \<in> {n..N}" "\<forall>k\<in>{n..<m}. \<not> synced (rpt k)" "ready env (inp m) (v m)" for m
  proof -
    have "EvaluateIntervalSync (baselines (v m)) (current env (inp m) (v m)) = kSync"
      using changed [rule_format, OF m(1)] m(1,2) keep [of m] by simp
    from ready_round [OF assms(2,3) m(3) this] obtain r w' where
      "daemon_round env (inp m) (v m) = Some (Some r, w')" "success r" "caught_up env (poll_config env (inp m) (v m)) w'"
      by blast
    moreover from this(1) have "rpt m = Some r" "w m = w'" using rounds [rule_format, OF m(1)] by simp_all
    ultimately show ?thesis by (simp add: synced_def)
  qed
  have "\<exists>m. m \<in> {n..N} \<and> synced (rpt m)"
  proof (rule ccontr)
    assume none: "\<not> ?thesis"
    then have "\<forall>k\<in>{n..<N}. \<not> synced (rpt k)" by auto
    from ok [OF _ this fair(2)] fair(1) none show False by auto
  qed
  then obtain m where m: "m \<in> {n..N}" "synced (rpt m)" "\<forall>k<m. \<not> (k \<in> {n..N} \<and> synced (rpt k))"
    using exists_least_iff [of "\<lambda>m. m \<in> {n..N} \<and> synced (rpt m)"] by blast
  have first: "\<forall>k\<in>{n..<m}. \<not> synced (rpt k)" using m(1,3) by auto
  have "baselines (v k) = baselines (v n)" if "k \<in> {n..m}" for k using keep [of k] first m(1) that by auto
  then show ?thesis using m(1,2) ok [OF m(1) first] first by blast
qed

section \<open>An example\<close>

lemma quiet_SetProgress: "quiet (SetProgress env inp)"
  by (simp add: quiet_def SetProgress_def put_status_same)

lemma toy_performs:
  assumes "quiet notify" and "enabled config" and "sync_file_path config \<noteq> []" and "\<not> sync_dictionary config"
    and "\<not> sync_history config" and "key \<noteq> []" and "sync_bundle (profile d) = None"
  shows "\<exists>r d'. PerformSync toy_env toy_inputs notify (run_options auto_options config key) d = Some (r, d') \<and> success r"
proof -
  let ?c = "EnsureDeviceId ''id'' config"
  have c: "\<not> sync_dictionary ?c" "\<not> sync_history ?c" using assms(4,5) by (simp_all add: EnsureDeviceId_def)
  have b: "sync_bundle (profile (notify_download notify (notify_export notify d))) = None"
    using data_ofD(1) [OF quietD(1) [OF assms(1)]] data_ofD(1) [OF quietD(2) [OF assms(1)]] assms(7) by simp
  have i: "in_rnd toy_inputs = ''id''" "in_bundle_write toy_inputs = Fs_Rename None OkStatus" by (simp_all add: toy_inputs_def)
  have pack: "\<exists>z. PackBundle (e_mz toy_env) (e_biter toy_env) files = Inr z" for files
    by (simp add: PackBundle_def toy_env_def toy_miniz_def list_all_iff)
  have enc: "\<exists>x. EncryptWithPassphrase (e_so toy_env) s h z key = Inr x" for s h z
    using assms(6) by (simp add: EncryptWithPassphrase_def toy_env_def toy_sodium_def)
  define files where "files = [(kManifestFile, BuildManifest ?c (in_time1 toy_inputs))]"
  have ex: "export_local toy_env toy_inputs ?c (notify_export notify d) = Some (Inr files)"
    using c by (simp add: export_local_def files_def)
  define d1 where "d1 = notify_download notify (notify_export notify d)"
  define o' where "o' = run_options auto_options config key"
  have o': "opt_direction o' = BIDIRECTIONAL" "\<not> opt_force o'" "opt_passphrase o' = key" "opt_config o' = config"
    by (simp_all add: o'_def run_options_def auto_options_def)
  have "read_remote toy_env toy_inputs o' d1 = None" using b by (simp add: read_remote_def d1_def)
  then have m: "merge_remote toy_env toy_inputs notify o' ?c files (notify_export notify d) = (Inr (files, empty_report), d1)"
    using o' by (simp add: merge_remote_def Let_def d1_def [symmetric])
  obtain z where z: "PackBundle (e_mz toy_env) (e_biter toy_env) files = Inr z" using pack by blast
  obtain x where x: "EncryptWithPassphrase (e_so toy_env) (in_salt toy_inputs) (in_header toy_inputs) z key = Inr x" using enc by blast
  obtain d2 where u: "upload toy_env toy_inputs notify o' files d1 = (OkStatus, d2)"
    using o' z x i by (simp add: upload_def Let_def write_file_def)
  have im: "import_merged toy_env toy_inputs notify o' ?c files d2 = Some (OkStatus, notify_import notify d2)"
    using o' c by (simp add: import_merged_def Let_def import_history_def)
  show ?thesis using assms(2,3,6) o' by (simp add: PerformSync_def i sync_data_def ex m u im o'_def [symmetric])
qed

definition typing_world :: World where
  "typing_world = toy_world\<lparr>server := \<lparr>sync_locked = False, composers = [Some False]\<rparr>\<rparr>"

lemma toy_poll:
  assumes "device w = device toy_world"
  shows "enabled (poll_config toy_run_env toy_run w)" "sync_file_path (poll_config toy_run_env toy_run w) = ''f''"
    "\<not> sync_dictionary (poll_config toy_run_env toy_run w)" "\<not> sync_history (poll_config toy_run_env toy_run w)"
    "auto_sync_mode (poll_config toy_run_env toy_run w) = EVERY_N_MINUTES"
    "baselines w = \<lparr>remote_bundle_sha256 = ''00'', local_data_sha256 = ''00''\<rparr>"
proof -
  define b where "b = \<lparr>remote_bundle_sha256 = ''00'', local_data_sha256 = ''00''\<rparr>"
  define json where "json = config_json decimal_conv toy_config b"
  have conf: "conf (device w) = Some json" by (simp add: assms toy_world_def json_def b_def)
  have env: "r_conv toy_run_env = decimal_conv" by (simp add: toy_run_env_def)
  note c = parse_config_json [OF decimal_conv_prints json_def]
  define config where "config = poll_config toy_run_env toy_run w"
  have p: "enabled config = enabled (parse_config decimal_conv json)" "sync_file_path config = sync_file_path (parse_config decimal_conv json)"
    "sync_dictionary config = sync_dictionary (parse_config decimal_conv json)" "sync_history config = sync_history (parse_config decimal_conv json)"
    "auto_sync_mode config = auto_sync_mode (parse_config decimal_conv json)"
    by (simp_all add: config_def poll_config_def env LoadSyncConfig_def conf Let_def EnsureDeviceId_def)
  obtain rest where m: "ExtractJsonInt decimal_conv json ''auto_sync_mode'' 0 = SimpleAtoi decimal_conv (StrCat_int decimal_conv 2 @ rest) 0"
    "rest \<noteq> []" "hd rest \<in> {CHR '','', newline}"
    using ExtractJsonInt_file [OF config_items_ok [OF decimal_conv_prints], of "''auto_sync_mode''" "StrCat_int decimal_conv 2" toy_config b decimal_conv 0]
      prints_numbersD(2,3) [OF decimal_conv_prints]
    by (auto simp: json_def config_json_items config_items_def toy_config_def)
  have two: "StrCat_int decimal_conv 2 = ''2''" by (simp add: decimal_conv_def decimal.simps char_of_eq_iff byte_def)
  have "SimpleAtoi decimal_conv (''2'' @ rest) 0 = 2" using m(2,3)
    by (cases rest) (auto simp: decimal_conv_def byte_def)
  then have "auto_sync_mode (parse_config decimal_conv json) = 2" using m(1) two by (simp add: parse_config_def)
  with p c(1-4) show "enabled (poll_config toy_run_env toy_run w)" "sync_file_path (poll_config toy_run_env toy_run w) = ''f''"
    "\<not> sync_dictionary (poll_config toy_run_env toy_run w)" "\<not> sync_history (poll_config toy_run_env toy_run w)"
    "auto_sync_mode (poll_config toy_run_env toy_run w) = EVERY_N_MINUTES"
    by (simp_all add: config_def [symmetric] toy_config_def)
  show "baselines w = \<lparr>remote_bundle_sha256 = ''00'', local_data_sha256 = ''00''\<rparr>"
    unfolding b_def [symmetric] by (rule saved_baselines [OF decimal_conv_prints]) (simp add: conf json_def)
qed

lemma toy_changed:
  assumes "device w = device toy_world"
  shows "EvaluateIntervalSync \<lparr>remote_bundle_sha256 = ''00'', local_data_sha256 = ''00''\<rparr> (current toy_run_env toy_run w) = kSync"
proof -
  have "remote_bundle_sha256 (current toy_run_env toy_run w) = []"
    by (simp add: current_def CaptureSyncFingerprints_def assms toy_world_def empty_Profile_def)
  then show ?thesis by (simp add: EvaluateIntervalSync_def Let_def)
qed

lemma toy_calm:
  "\<not> IsSyncRunning (r_conv64 toy_run_env) (r_atod toy_run_env) t (profile (device toy_world))"
  "CooldownElapsed (r_conv64 toy_run_env) t n (profile (device toy_world))"
proof -
  have "sync_status_json (profile (device toy_world)) = None" "sync_activity_json (profile (device toy_world)) = None"
    by (simp_all add: toy_world_def empty_Profile_def)
  then show "\<not> IsSyncRunning (r_conv64 toy_run_env) (r_atod toy_run_env) t (profile (device toy_world))"
    "CooldownElapsed (r_conv64 toy_run_env) t n (profile (device toy_world))"
    by (simp_all add: IsSyncRunning_def ReadSyncStatus_def CooldownElapsed_def ReadSyncActivity_def Let_def)
qed

lemma toy_ready: "ready toy_run_env toy_run toy_world"
proof -
  have same: "sync_bundle (profile (merge_device toy_run_env toy_run (device toy_world))) = None"
  proof -
    have "data_of (merge_device toy_run_env toy_run (device toy_world)) = data_of (device toy_world)"
      by (simp add: merge_device_def toy_run_env_def status_writers put_status_same)
    from data_ofD(1) [OF this] show ?thesis by (simp add: toy_world_def empty_Profile_def)
  qed
  note t = toy_poll [of toy_world, OF refl]
  have "performs toy_run_env toy_run toy_world"
    using toy_performs [OF quiet_SetProgress t(1) _ t(3,4) _ same, of "''key''" toy_run_env toy_run] t(2) toy_key
    by (simp add: performs_def) (simp add: toy_run_env_def toy_run_def)
  then show ?thesis using t(1,2,5) toy_calm by (simp add: ready_def) (simp add: toy_run_def toy_world_def)
qed

text \<open>The user is typing in the first round, and done in the second.\<close>

lemma typing_round: "daemon_round toy_run_env toy_run typing_world = Some (None, typing_world)"
proof -
  have dev: "device typing_world = device toy_world" by (simp add: typing_world_def)
  note ch = poll_changed [of typing_world toy_run_env toy_run, unfolded toy_poll(6) [OF dev], OF toy_changed [OF dev]]
  have i: "ipc_auto toy_run = Ipc_Answered" "start_ok toy_run" by (simp_all add: toy_run_def)
  have "CanAutoSync toy_run_env toy_run c (SERVER_UNKNOWN, typing_world) = (False, SERVER_INVALID_SESSION, typing_world)" for c
    using toy_calm by (simp add: CanAutoSync_def Let_def EnsureConnection_def i GetSyncState_answered gave_up_def dev)
      (simp add: typing_world_def)
  then show ?thesis using toy_poll(5) [OF dev]
    by (simp add: daemon_round_def Let_def poll_config_def [symmetric] ch)
qed

theorem daemon_syncs_every_change_witness:
  "\<exists>r w. daemon_round toy_run_env toy_run typing_world = Some (None, typing_world) \<and>
     daemon_round toy_run_env toy_run toy_world = Some (r, w) \<and> synced r \<and>
     caught_up toy_run_env (poll_config toy_run_env toy_run toy_world) w"
proof -
  have env: "engine_keeps_conf toy_run_env" "prints_numbers (r_conv toy_run_env)"
    "\<forall>s. length (crypto_hash_sha256 toy_run_env s) = 32"
    by (simp_all add: engine_keeps_conf_def toy_run_env_def decimal_conv_prints)
  have dev: "device typing_world = device toy_world" by (simp add: typing_world_def)
  have "EvaluateIntervalSync (baselines toy_world) (current toy_run_env toy_run toy_world) = kSync"
    unfolding toy_poll(6) [OF refl] by (rule toy_changed [OF refl])
  then obtain r w where r: "daemon_round toy_run_env toy_run toy_world = Some (Some r, w)"
    using ready_round [OF env(2,3) toy_ready] by blast
  define v where "v = (\<lambda>i. if i = (0 :: nat) then typing_world else toy_world)"
  define ws where "ws = (\<lambda>i. if i = (0 :: nat) then typing_world else w)"
  define rpt where "rpt = (\<lambda>i. if i = (0 :: nat) then None else Some r)"
  have le: "i = 0 \<or> i = 1" if "i \<in> {0..1 :: nat}" for i using that by auto
  have h1: "\<forall>i\<in>{0..1}. daemon_round toy_run_env ((\<lambda>_. toy_run) i) (v i) = Some (rpt i, ws i)"
    using le typing_round r by (metis (mono_tags) v_def ws_def rpt_def zero_neq_one)
  have h2: "\<forall>i\<in>{0..<1}. conf (device (v (Suc i))) = conf (device (ws i))" by (simp add: v_def ws_def dev)
  have h3: "ready toy_run_env toy_run (v 1)" by (simp add: v_def toy_ready)
  have h4: "\<forall>m\<in>{0..1}. (\<forall>k\<in>{0..<m}. \<not> synced (rpt k)) \<longrightarrow>
      EvaluateIntervalSync (baselines (v 0)) (current toy_run_env toy_run (v m)) = kSync"
    using toy_changed [OF dev] toy_changed [OF refl] toy_poll(6) [OF dev] by (simp add: v_def)
  obtain m where m: "m \<in> {0..1}" "synced (rpt m)"
    "ready toy_run_env toy_run (v m) \<longrightarrow> caught_up toy_run_env (poll_config toy_run_env toy_run (v m)) (ws m)"
    using daemon_syncs_every_change [OF env h1 h2 zero_le_one h3 h4] by blast
  have "m = 1" using m(1,2) by (cases "m = 0") (auto simp: rpt_def synced_def)
  then have "synced (Some r)" "caught_up toy_run_env (poll_config toy_run_env toy_run toy_world) w"
    using m(2,3) toy_ready by (simp_all add: rpt_def v_def ws_def)
  then show ?thesis using typing_round r by blast
qed

end
