(* ===== verification/Spec2Isabelle.thy ===== *)
theory Spec2Isabelle
  imports
    Utf8 Utf8_Text Util_Text
    Stores Char_Trie Special_Key Romaji_Table Table_Rules Kaeriten
    Transliterators Char_Chunk Chunk_Input Composition Composition_Text Composition_Edit
    Composer_Text Composer Composer_Invariant Composer_Edit
    Key_Event Number_Row Key_Commands Key_Names Key_Map Key_Map_Facts Odoriji
    Lru_Cache Candidate_List
    User_Dict User_Dict_Import User_Dict_Type
    Sync_Json Sync_Merge Sync_History Sync_Service Sync_Idle Sync_Repeat Sync_Bundle Sync_Perform Sync_Facts
    Sync_Status Sync_Run Sync_Run_Facts Sync_Daemon
begin

text \<open>
  A verification development for marinaMoji, a fork of the Mozc Japanese input method (C++ under
  \<open>src/src/\<close>). It covers the way of a key into the text being composed, the lists and caches around it, the
  words and the learning history of the user, and the synchronisation of these between devices.

  \<^bold>\<open>The program.\<close> A platform front end sends key events to a session. The session asks its key map which
  command a key stands for in its state (\<open>session/keymap.cc\<close>, fed by \<open>composer/key_parser.cc\<close> and
  \<open>composer/key_event_util.cc\<close>), and the command changes the composer (\<open>composer/composer.cc\<close>). The composer
  holds the composition (\<open>composition.cc\<close>), a list of chunks (\<open>char_chunk.cc\<close>); a chunk looks the typed keys
  up in a romaji table (\<open>table.cc\<close>), whose rules lie in a trie (\<open>base/container/trie.h\<close>), and can show its
  text in several transliterations (\<open>transliterators.cc\<close>). The converter turns the composed text into
  candidates, which a candidate list shows (\<open>engine/candidate_list.cc\<close>). Words of the user are kept in the
  user dictionary (\<open>dictionary/user_dictionary_*.cc\<close>) and what was chosen in the learning history
  (\<open>prediction/user_history_storage.cc\<close>, an LRU cache). A separate process exchanges both with other devices
  (\<open>sync/\<close>): it locks the converter, exports, merges with an encrypted bundle in a shared folder, uploads
  and imports.

  \<^bold>\<open>Theories and sources.\<close>
  \<^item> \<open>Prelude\<close>: hard failures of C++ as values (\<open>res\<close>), byte strings, splitting, masks and shifts.
  \<^item> \<open>Utf8\<close>, \<open>Utf8_Text\<close>, \<open>Util_Text\<close>: \<open>base/util.cc\<close>, \<open>base/strings/unicode.h\<close> and
    \<open>internal/utf8_internal.*\<close>: decoders, encoders, substrings, case, classes of characters. The lemmas show
    that the byte-level walks are the list functions on code points.
  \<^item> \<open>Stores\<close>: the interfaces of keyed containers as locales; \<open>Char_Trie\<close>: \<open>Trie\<close>, an interpretation of
    them; \<open>Special_Key\<close>, \<open>Romaji_Table\<close>, \<open>Table_Rules\<close>: \<open>special_key.cc\<close> and \<open>table.cc\<close>, adding and
    finding rules, the loop check, loading, the table cache; \<open>Kaeriten\<close>: \<open>kaeriten_table_util.cc\<close>.
  \<^item> \<open>Transliterators\<close>, \<open>Char_Chunk\<close>, \<open>Chunk_Input\<close>: a chunk and its typing loop; \<open>Composition\<close>,
    \<open>Composition_Text\<close>, \<open>Composition_Edit\<close>: the list of chunks as an editor of code points (locale
    \<open>splittable\<close> is the contract of \<open>SplitChunk\<close>).
  \<^item> \<open>Composer\<close>, \<open>Composer_Text\<close>: state, operations and queries of \<open>composer.cc\<close> and
    \<open>mode_switching_handler.cc\<close>; \<open>Composer_Invariant\<close>: the invariant of the reachable states;
    \<open>Composer_Edit\<close>: the composer refines a line editor (locale \<open>simulation\<close>).
  \<^item> \<open>Key_Event\<close>: \<open>KeyEvent\<close>, \<open>KeyEventUtil\<close>, \<open>KeyParser\<close>; \<open>Key_Commands\<close>, \<open>Key_Names\<close>: the commands and
    their names (locale \<open>command_table\<close>, interpreted for the four states); \<open>Key_Map\<close>, \<open>Key_Map_Facts\<close>:
    \<open>keymap.cc\<close>, \<open>keymap.h\<close>, \<open>key_info_util.cc\<close> and how \<open>session_handler.cc\<close> hands its key map to the
    sessions; \<open>Number_Row\<close>: \<open>marina_number_row_bindings_util.cc\<close>;
    \<open>Odoriji\<close>: \<open>odoriji_palette.cc\<close> with the members of \<open>Session\<close> it changes.
  \<^item> \<open>Lru_Cache\<close>: \<open>storage/lru_cache.h\<close> at pointer level (locale \<open>forgetful_map\<close>); \<open>Candidate_List\<close>:
    \<open>candidate_list.cc\<close>.
  \<^item> \<open>User_Dict\<close>, \<open>User_Dict_Import\<close>, \<open>User_Dict_Type\<close>: \<open>user_dictionary_importer.cc\<close>,
    \<open>user_dictionary_util.cc\<close>, \<open>user_dictionary_storage.cc\<close>.
  \<^item> \<open>Sync_Json\<close>, \<open>Sync_Status\<close>: the files of the synchronisation; \<open>Sync_Merge\<close>, \<open>Sync_History\<close>: the merges
    and the records of deletions; \<open>Sync_Service\<close>, \<open>Sync_Idle\<close>, \<open>Sync_Repeat\<close>: export and import of the
    words and of the history, with \<open>user_history_storage.cc\<close> and its load in the background; \<open>Sync_Bundle\<close>:
    \<open>sync_bundle.cc\<close> and \<open>sync_crypto.cc\<close> (of the bundle's contents only what is passed to miniz and
    back, the round trip is that of the encryption); \<open>Sync_Perform\<close>, \<open>Sync_Facts\<close>: \<open>PerformSync\<close> as a whole;
    \<open>Sync_Run\<close>, \<open>Sync_Run_Facts\<close>, \<open>Sync_Daemon\<close>: \<open>sync_runner.cc\<close>, \<open>sync_poll.cc\<close>, \<open>sync_main.cc\<close>,
    \<open>sync_scheduler.cc\<close> against \<open>client.cc\<close> and the lock of \<open>session_handler.cc\<close>, runs of several processes
    as a step relation.

  \<^bold>\<open>How the code is modelled.\<close> A class is a record with the names of its members, an enumeration a datatype
  (or its number, where the code computes with it), an unsigned integer a word of its width, \<open>std::string\<close> a
  list of bytes, a hash map a partial function. An operation returns the changed state; a failed \<open>CHECK\<close>, a
  thrown exception or a read past the end is the left side of \<open>res\<close>. Loops are structural recursion, or
  recursion with a measure, or \<open>partial_function (option)\<close> where they may run for ever; then termination, or
  that the loop hangs, is a theorem. The pointer-level cache frees its blocks with fuel equal to the number
  of elements of a block, which the walk over a block needs; the recursion limit of the romaji table is the
  one of the code. Random numbers are drawn from a list the operation is given.

  \<^bold>\<open>Parameters.\<close> Code that is not in the repository or that the build generates is an argument: the
  conversions of \<open>base/strings/japanese.cc\<close> over generated tables (\<open>TextConv\<close>, \<open>UConv\<close>), the tables of parts of
  speech (\<open>DictEnv\<close>), the fingerprint of a text, the embedded key maps and romaji tables (\<open>Files\<close>), miniz and
  libsodium (\<open>Miniz\<close>, \<open>Sodium\<close>), the clock, and how each file operation or remote call ends (\<open>SyncEnv\<close>,
  \<open>RunEnv\<close>, \<open>Inputs\<close>, \<open>RunInputs\<close>). Theorems that need something of them state it as a hypothesis, and a
  witness shows a concrete argument for which the hypothesis holds.

  \<^bold>\<open>What the theorems show.\<close> Refinements: the composer is a line editor, the pointer-level cache a bounded
  recency list, the trie a finite map. Invariants: the composer's cursor and modes, the cached lengths, the
  candidate list, the dictionaries of the storage. Termination of typing and of loading a table under a
  condition on the rules, and a table on which the loading hangs. Key maps: no table takes away typing, the
  sessions always have the key map of the configuration seen last, rows for the right Shift key are dead.
  Synchronisation: what a failure at any step leaves, that deletions win on the other device, the arithmetic
  of the history, and that the daemon forgets no change; but also that the lock is not exclusive, that a
  timeout leaves it held, and that synchronising without typing doubles the frequencies.

  \<^bold>\<open>Not modelled.\<close> The state machine of \<open>session/session.cc\<close> and \<open>engine/engine_converter.cc\<close> drive the
  converter, the predictors and the rewriters, which search a dictionary and a connection matrix the build
  generates; a model of the dispatcher without them would have parameters for most of what it does. The
  renderer, the graphical tools, the front ends for Windows, macOS, IBus and Android, sockets and processes
  are input and output. Of \<open>base/util.cc\<close> the splitting into graphemes and the random text are left out, of
  \<open>table.cc\<close> the choice of the resource file's contents, of \<open>sync/\<close> the key generation and the spawning of
  processes. The other storages (\<open>lru_storage.cc\<close>, \<open>existence_filter.cc\<close>), \<open>storage/louds\<close> and the
  utilities of \<open>base/\<close> besides text are not reached by the modelled components.
\<close>

end
